(* ===== verification/Prelude.thy ===== *)
theory Prelude
  imports Main "HOL-Library.Word" "HOL-Library.AList" "HOL-Library.Sublist"
begin

text \<open>
  Shared ground of the development: the machine integers of the Go code, decimal
  rendering of counters (the \<open>fmt.Sprintf("%d")\<close> of request and reference
  identifiers), association lists for the Go maps that the code iterates over, and
  the theorem collections the component theories extend.

  A Go map that is only read and written by key is a HOL map. A Go map that the code
  ranges over is an association list with distinct keys; the order of the list is
  part of the state, so a theorem about an arbitrary state covers every iteration
  order Go may choose.
\<close>

named_theorems rt_defs \<open>definitions of the state updates that component proofs unfold\<close>
named_theorems rt_frame \<open>which part of the state an operation leaves alone\<close>

type_synonym u64 = "64 word"
type_synonym u32 = "32 word"
type_synonym ('k, 'v) gomap = "('k \<times> 'v) list"

section \<open>Decimal rendering of natural numbers\<close>

definition digit_char :: "nat \<Rightarrow> char" where
  "digit_char d = char_of (48 + d)"

fun string_of_nat :: "nat \<Rightarrow> string" where
  "string_of_nat n =
     (if n < 10 then [digit_char n] else string_of_nat (n div 10) @ [digit_char (n mod 10)])"

declare string_of_nat.simps [simp del]

definition string_of_u64 :: "u64 \<Rightarrow> string" where
  "string_of_u64 w = string_of_nat (unat w)"

definition nat_of_string :: "string \<Rightarrow> nat" where
  "nat_of_string s = foldl (\<lambda>acc c. 10 * acc + (of_char c - 48)) 0 s"

lemma of_char_digit_char: "d < 10 \<Longrightarrow> of_char (digit_char d) = 48 + d"
  by (simp add: digit_char_def of_char_of)

lemma nat_of_string_of_nat [simp]: "nat_of_string (string_of_nat n) = n"
proof (induction n rule: string_of_nat.induct)
  case (1 n)
  show ?case
  proof (cases "n < 10")
    case True
    then show ?thesis
      by (simp add: string_of_nat.simps [of n] nat_of_string_def of_char_digit_char)
  next
    case False
    with "1.IH" have "nat_of_string (string_of_nat (n div 10)) = n div 10" by simp
    with False show ?thesis
      by (simp add: string_of_nat.simps [of n] nat_of_string_def of_char_digit_char)
  qed
qed

lemma string_of_nat_inj [simp]: "string_of_nat m = string_of_nat n \<longleftrightarrow> m = n"
  using nat_of_string_of_nat [of m] nat_of_string_of_nat [of n] by metis

lemma string_of_u64_inj [simp]: "string_of_u64 v = string_of_u64 w \<longleftrightarrow> v = w"
  by (simp add: string_of_u64_def word_unat_eq_iff)

lemma string_of_nat_digits: "\<forall>c \<in> set (string_of_nat n). \<exists>d < 10. c = digit_char d"
proof (induction n rule: string_of_nat.induct)
  case (1 n)
  have "\<exists>d < 10. digit_char (n mod 10) = digit_char d"
    by (rule exI [of _ "n mod 10"]) simp
  with 1 show ?case
    by (cases "n < 10") (auto simp: string_of_nat.simps [of n])
qed

section \<open>Keyed updates on association lists\<close>

abbreviation gomap_put :: "'k \<Rightarrow> 'v \<Rightarrow> ('k, 'v) gomap \<Rightarrow> ('k, 'v) gomap" where
  "gomap_put \<equiv> AList.update"

abbreviation gomap_del :: "'k \<Rightarrow> ('k, 'v) gomap \<Rightarrow> ('k, 'v) gomap" where
  "gomap_del \<equiv> AList.delete"

definition gomap_ok :: "('k, 'v) gomap \<Rightarrow> bool" where
  "gomap_ok m \<longleftrightarrow> distinct (map fst m)"

lemma gomap_ok_Nil [simp]: "gomap_ok []"
  by (simp add: gomap_ok_def)

lemma gomap_ok_put [simp]: "gomap_ok m \<Longrightarrow> gomap_ok (gomap_put k v m)"
  by (simp add: gomap_ok_def distinct_update)

lemma gomap_ok_del [simp]: "gomap_ok m \<Longrightarrow> gomap_ok (gomap_del k m)"
  by (simp add: gomap_ok_def distinct_delete)

lemma gomap_get_put [simp]: "map_of (gomap_put k v m) = (map_of m)(k \<mapsto> v)"
  by (rule update_conv')

lemma gomap_get_del [simp]: "map_of (gomap_del k m) = (map_of m)(k := None)"
  by (rule delete_conv')

lemma gomap_mem_iff: "gomap_ok m \<Longrightarrow> (k, v) \<in> set m \<longleftrightarrow> map_of m k = Some v"
  by (simp add: gomap_ok_def)

lemma gomap_put_same_empty [simp]: "gomap_put k v m \<noteq> []"
  by (cases m) auto

lemma gomap_del_empty_iff:
  "gomap_del k m = [] \<longleftrightarrow> (\<forall>k'. k' \<noteq> k \<longrightarrow> map_of m k' = None)"
proof
  assume "gomap_del k m = []"
  then have "map_of (gomap_del k m) = Map.empty" by simp
  then show "\<forall>k'. k' \<noteq> k \<longrightarrow> map_of m k' = None"
    by (metis fun_upd_apply gomap_get_del)
next
  assume "\<forall>k'. k' \<noteq> k \<longrightarrow> map_of m k' = None"
  then have "map_of (gomap_del k m) = Map.empty" by (auto simp: fun_eq_iff)
  then show "gomap_del k m = []" by (metis empty_eq_map_of_iff)
qed

lemma gomap_length_put:
  "length (gomap_put k v m) = (if map_of m k = None then Suc (length m) else length m)"
  by (induction m) auto

lemma gomap_length_del_le: "length (gomap_del k m) \<le> length m"
  by (rule length_delete_le)

lemma gomap_length_del:
  "gomap_ok m \<Longrightarrow> map_of m k \<noteq> None \<Longrightarrow> Suc (length (gomap_del k m)) = length m"
proof (induction m)
  case Nil
  then show ?case by simp
next
  case (Cons p m)
  obtain a b where p: "p = (a, b)" by (cases p)
  show ?case
  proof (cases "a = k")
    case True
    with Cons.prems p have "k \<notin> fst ` set m" by (simp add: gomap_ok_def)
    then have "gomap_del k m = m" by (simp add: delete_idem)
    with True p show ?thesis by simp
  next
    case False
    with Cons p show ?thesis by (simp add: gomap_ok_def)
  qed
qed

section \<open>Lists\<close>

lemma take_Suc_of_drop:
  "n < length xs \<Longrightarrow> take (Suc 0) (drop n xs) = [xs ! n]"
  by (simp add: take_Suc_conv_app_nth)

lemma drop_list_update_zero:
  "i < n \<Longrightarrow> drop n (xs[i := x]) = drop n xs"
  by simp

lemma take_min_length: "take (min n (length xs)) xs = take n xs"
  by (simp add: min_def)

lemma drop_min_length: "drop (min n (length xs)) xs = drop n xs"
  by (simp add: min_def)

lemma foldl_append_acc:
  "foldl (\<lambda>acc x. acc @ f x) ys xs = ys @ concat (map f xs)"
  by (induction xs arbitrary: ys) auto

text \<open>A loop whose body may fail.\<close>

fun foldOpt :: "('a \<Rightarrow> 's \<Rightarrow> 's option) \<Rightarrow> 'a list \<Rightarrow> 's \<Rightarrow> 's option" where
  "foldOpt f [] s = Some s"
| "foldOpt f (x # xs) s = (case f x s of None \<Rightarrow> None | Some s \<Rightarrow> foldOpt f xs s)"

lemma foldOpt_append: "foldOpt f (xs @ ys) s = (case foldOpt f xs s of None \<Rightarrow> None | Some s \<Rightarrow> foldOpt f ys s)"
  by (induction xs arbitrary: s) (simp_all split: option.split)

lemma foldOpt_inv:
  assumes "foldOpt f xs s = Some s'" and "P s" and "\<And>x s s'. x \<in> set xs \<Longrightarrow> P s \<Longrightarrow> f x s = Some s' \<Longrightarrow> P s'"
  shows "P s'"
  using assms
proof (induction xs arbitrary: s)
  case (Cons x xs)
  from Cons.prems(1) obtain s1 where s1: "f x s = Some s1" "foldOpt f xs s1 = Some s'" by (auto split: option.splits)
  have "P s1" by (rule Cons.prems(3) [OF _ Cons.prems(2) s1(1)]) simp
  show ?case
  proof (rule Cons.IH [OF s1(2) \<open>P s1\<close>])
    fix y t t' assume "y \<in> set xs" "P t" "f y t = Some t'"
    then show "P t'" by (intro Cons.prems(3) [of y t t']) simp_all
  qed
qed simp

end
