(* ===== verification/Types.thy ===== *)
theory Types
  imports Prelude
begin

text \<open>
  The data types of package \<open>actor\<close> (files \<open>types.go\<close>, \<open>pid.go\<close>, \<open>events.go\<close>,
  \<open>state.go\<close>, \<open>cron_commands.go\<close>): process identifiers, the enumerations that the runtime
  reports, message envelopes, and the closed universe \<open>any\<close> of payload values. Go's
  \<open>type X string\<close> enumerations are datatypes; where the code can meet a value outside its
  constants (a supervision decision of a user policy, a router strategy or gateway mode set
  by the caller) the datatype has a constructor for the other strings. Time stamps are not
  modelled: the code writes them and never reads them.
\<close>

section \<open>Process identifiers (pid.go)\<close>

record PID =
  pidNamespace :: string
  pidActorID :: string
  pidGeneration :: u64

definition zeroPID :: PID where
  "zeroPID = \<lparr>pidNamespace = '''', pidActorID = '''', pidGeneration = 0\<rparr>"

datatype PIDDeliveryOutcome =
  PIDDelivered | PIDUnresolved | PIDRejectedStopped | PIDRejectedStaleGeneration
| PIDRejectedNotFound

datatype PIDRouteState =
  PIDRouteReachable | PIDRouteUnresolved | PIDRouteStopped | PIDRouteRestarting

record PIDSendAck =
  psaOutcome :: PIDDeliveryOutcome
  psaMessageID :: u64

section \<open>Enumerations (types.go)\<close>

datatype ActorStatus =
  ActorStarting | ActorRunning | ActorRestarting | ActorStopping | ActorStopped

datatype LifecycleHookPhase = LifecyclePhaseStart | LifecyclePhaseStop

datatype LifecycleHookResult =
  LifecycleStartSuccess | LifecycleStartFailed | LifecycleStopSuccess | LifecycleStopFailed

datatype PIDInteractionPolicyMode =
  PIDInteractionPolicyDisabled | PIDInteractionPolicyPIDOnly
| PIDInteractionPolicyOther string

datatype GatewayRouteMode =
  GatewayRouteLocalDirect | GatewayRouteGatewayMediated | GatewayRouteOther string

datatype GuardrailOutcomeType =
  GuardrailPolicyAccept | GuardrailPolicyRejectNonPID | GuardrailGatewayRouteSuccess
| GuardrailGatewayRouteFailure

datatype ReadinessScope =
  ReadinessScopePIDPolicy | ReadinessScopeGatewayBoundary | ReadinessScopeLocationTransparency

datatype ReadinessResult = ReadinessPass | ReadinessFail

datatype SubmitResult =
  SubmitAccepted | SubmitRejectedFull | SubmitRejectedStop | SubmitRejectedFound
| SubmitRejectedUnsupportedType | SubmitRejectedNilPayload | SubmitRejectedVersionMismatch

datatype StopResult = StopStopped | StopAlready | StopNotFound

datatype ProcessingResult =
  ResultSuccess | ResultDelivered | ResultFailed | ResultRejectedFull | ResultRejectedStop
| ResultRejectedFound | ResultRejectedUnsupportedType | ResultRejectedNilPayload
| ResultRejectedVersionMismatch

datatype AskOutcomeType =
  AskOutcomeSuccess | AskOutcomeTimeout | AskOutcomeCanceled | AskOutcomeReplyTargetInvalid
| AskOutcomeLateReplyDropped

datatype RouterStrategy =
  RouterStrategyRoundRobin | RouterStrategyRandom | RouterStrategyConsistentKey
| RouterStrategyOther string

datatype RoutingOutcomeType =
  RouteSuccess | RouteFailedNoWorkers | RouteFailedInvalidKey | RouteFailedWorkerUnavailable

datatype BatchResult =
  BatchResultSuccess | BatchResultFailedHandler | BatchResultFailedSupervision

text \<open>The empty string, Go's zero value of the type, is \<open>DecisionOther ''''\<close>.\<close>

datatype SupervisionDecision =
  DecisionRestart | DecisionStop | DecisionEscalate | DecisionOther string

datatype RegistryOperationResult =
  RegistryRegisterSuccess | RegistryRegisterRejectedDup | RegistryLookupHit
| RegistryLookupNotFound | RegistryUnregisterSuccess | RegistryUnregisterLifecycleTerm

datatype BrokerOperation =
  BrokerOperationSubscribe | BrokerOperationUnsubscribe | BrokerOperationPublish

datatype BrokerOutcomeType =
  BrokerOutcomeSubscribeSuccess | BrokerOutcomeUnsubscribeSuccess | BrokerOutcomePublishSuccess
| BrokerOutcomePublishPartialDelivery | BrokerOutcomeInvalidCommand
| BrokerOutcomeInvalidPattern | BrokerOutcomeInvalidTopic | BrokerOutcomeTargetUnreachable
| BrokerOutcomeNotFoundNoop

datatype CronOperation =
  CronOperationSubscribe | CronOperationUnsubscribe | CronOperationUnsubscribeAll
| CronOperationList

datatype CronOutcomeType =
  CronOutcomeSubscribeSuccess | CronOutcomeUnsubscribeSuccess | CronOutcomeListSuccess
| CronOutcomeInvalidSchedule | CronOutcomeInvalidCommand | CronOutcomeNotFound

section \<open>Sentinel errors (types.go, cron_commands.go)\<close>

datatype error =
  ErrDuplicateActorID | ErrActorNotFound | ErrActorStopped | ErrActorStillRunning
| ErrStateMutationForbidden | ErrRegistryNameInvalid | ErrRegistryDuplicateName
| ErrRegistryNameNotFound | ErrLifecycleStartFailed | ErrLifecycleStopFailed
| ErrNonPIDCrossActor | ErrGatewayRouteFailed | ErrAskTimeout | ErrAskCanceled
| ErrAskInvalidTimeout | ErrAskReplyTargetInvalid | ErrBatchConfigInvalid
| ErrPubSubInvalidCommand | ErrPubSubInvalidPattern | ErrPubSubInvalidTopic
| ErrCronInvalidSchedule | ErrCronInvalidCommand | ErrCronRefNotFound
| ErrOther string

text \<open>The texts given to \<open>errors.New\<close>; they appear as reason codes in events and outcomes.\<close>

fun errorText :: "error \<Rightarrow> string" where
  "errorText ErrDuplicateActorID = ''duplicate_actor_id''"
| "errorText ErrActorNotFound = ''actor_not_found''"
| "errorText ErrActorStopped = ''actor_stopped''"
| "errorText ErrActorStillRunning = ''actor_still_running''"
| "errorText ErrStateMutationForbidden = ''state_mutation_forbidden''"
| "errorText ErrRegistryNameInvalid = ''registry_name_invalid''"
| "errorText ErrRegistryDuplicateName = ''registry_duplicate_name''"
| "errorText ErrRegistryNameNotFound = ''registry_name_not_found''"
| "errorText ErrLifecycleStartFailed = ''lifecycle_start_failed''"
| "errorText ErrLifecycleStopFailed = ''lifecycle_stop_failed''"
| "errorText ErrNonPIDCrossActor = ''non_pid_cross_actor_rejected''"
| "errorText ErrGatewayRouteFailed = ''gateway_route_failed''"
| "errorText ErrAskTimeout = ''ask_timeout''"
| "errorText ErrAskCanceled = ''ask_canceled''"
| "errorText ErrAskInvalidTimeout = ''ask_invalid_timeout''"
| "errorText ErrAskReplyTargetInvalid = ''ask_reply_target_invalid''"
| "errorText ErrBatchConfigInvalid = ''batch_config_invalid''"
| "errorText ErrPubSubInvalidCommand = ''pubsub_invalid_command''"
| "errorText ErrPubSubInvalidPattern = ''pubsub_invalid_pattern''"
| "errorText ErrPubSubInvalidTopic = ''pubsub_invalid_topic''"
| "errorText ErrCronInvalidSchedule = ''cron_invalid_schedule''"
| "errorText ErrCronInvalidCommand = ''cron_invalid_command''"
| "errorText ErrCronRefNotFound = ''cron_ref_not_found''"
| "errorText (ErrOther s) = s"

section \<open>The string values of the enumerations\<close>

fun strPIDDeliveryOutcome :: "PIDDeliveryOutcome \<Rightarrow> string" where
  "strPIDDeliveryOutcome PIDDelivered = ''delivered''"
| "strPIDDeliveryOutcome PIDUnresolved = ''unresolved''"
| "strPIDDeliveryOutcome PIDRejectedStopped = ''rejected_stopped''"
| "strPIDDeliveryOutcome PIDRejectedStaleGeneration = ''rejected_stale_generation''"
| "strPIDDeliveryOutcome PIDRejectedNotFound = ''rejected_not_found''"

fun strActorStatus :: "ActorStatus \<Rightarrow> string" where
  "strActorStatus ActorStarting = ''starting''"
| "strActorStatus ActorRunning = ''running''"
| "strActorStatus ActorRestarting = ''restarting''"
| "strActorStatus ActorStopping = ''stopping''"
| "strActorStatus ActorStopped = ''stopped''"

fun strLifecycleHookPhase :: "LifecycleHookPhase \<Rightarrow> string" where
  "strLifecycleHookPhase LifecyclePhaseStart = ''start''"
| "strLifecycleHookPhase LifecyclePhaseStop = ''stop''"

fun strLifecycleHookResult :: "LifecycleHookResult \<Rightarrow> string" where
  "strLifecycleHookResult LifecycleStartSuccess = ''start_success''"
| "strLifecycleHookResult LifecycleStartFailed = ''start_failed''"
| "strLifecycleHookResult LifecycleStopSuccess = ''stop_success''"
| "strLifecycleHookResult LifecycleStopFailed = ''stop_failed''"

fun strGatewayRouteMode :: "GatewayRouteMode \<Rightarrow> string" where
  "strGatewayRouteMode GatewayRouteLocalDirect = ''local_direct''"
| "strGatewayRouteMode GatewayRouteGatewayMediated = ''gateway_mediated''"
| "strGatewayRouteMode (GatewayRouteOther s) = s"

fun strGuardrailOutcomeType :: "GuardrailOutcomeType \<Rightarrow> string" where
  "strGuardrailOutcomeType GuardrailPolicyAccept = ''policy_accept''"
| "strGuardrailOutcomeType GuardrailPolicyRejectNonPID = ''policy_reject_non_pid''"
| "strGuardrailOutcomeType GuardrailGatewayRouteSuccess = ''gateway_route_success''"
| "strGuardrailOutcomeType GuardrailGatewayRouteFailure = ''gateway_route_failure''"

fun strReadinessScope :: "ReadinessScope \<Rightarrow> string" where
  "strReadinessScope ReadinessScopePIDPolicy = ''pid_policy''"
| "strReadinessScope ReadinessScopeGatewayBoundary = ''gateway_boundary''"
| "strReadinessScope ReadinessScopeLocationTransparency = ''location_transparency''"

fun strReadinessResult :: "ReadinessResult \<Rightarrow> string" where
  "strReadinessResult ReadinessPass = ''pass''"
| "strReadinessResult ReadinessFail = ''fail''"

fun strSubmitResult :: "SubmitResult \<Rightarrow> string" where
  "strSubmitResult SubmitAccepted = ''accepted''"
| "strSubmitResult SubmitRejectedFull = ''rejected_full''"
| "strSubmitResult SubmitRejectedStop = ''rejected_stopped''"
| "strSubmitResult SubmitRejectedFound = ''rejected_not_found''"
| "strSubmitResult SubmitRejectedUnsupportedType = ''rejected_unsupported_type''"
| "strSubmitResult SubmitRejectedNilPayload = ''rejected_nil_payload''"
| "strSubmitResult SubmitRejectedVersionMismatch = ''rejected_version_mismatch''"

fun strProcessingResult :: "ProcessingResult \<Rightarrow> string" where
  "strProcessingResult ResultSuccess = ''success''"
| "strProcessingResult ResultDelivered = ''delivered''"
| "strProcessingResult ResultFailed = ''failed''"
| "strProcessingResult ResultRejectedFull = ''rejected_full''"
| "strProcessingResult ResultRejectedStop = ''rejected_stopped''"
| "strProcessingResult ResultRejectedFound = ''rejected_not_found''"
| "strProcessingResult ResultRejectedUnsupportedType = ''rejected_unsupported_type''"
| "strProcessingResult ResultRejectedNilPayload = ''rejected_nil_payload''"
| "strProcessingResult ResultRejectedVersionMismatch = ''rejected_version_mismatch''"

fun strAskOutcomeType :: "AskOutcomeType \<Rightarrow> string" where
  "strAskOutcomeType AskOutcomeSuccess = ''ask_success''"
| "strAskOutcomeType AskOutcomeTimeout = ''ask_timeout''"
| "strAskOutcomeType AskOutcomeCanceled = ''ask_canceled''"
| "strAskOutcomeType AskOutcomeReplyTargetInvalid = ''ask_reply_target_invalid''"
| "strAskOutcomeType AskOutcomeLateReplyDropped = ''ask_late_reply_dropped''"

fun strRouterStrategy :: "RouterStrategy \<Rightarrow> string" where
  "strRouterStrategy RouterStrategyRoundRobin = ''round_robin''"
| "strRouterStrategy RouterStrategyRandom = ''random''"
| "strRouterStrategy RouterStrategyConsistentKey = ''consistent_hash''"
| "strRouterStrategy (RouterStrategyOther s) = s"

fun strRoutingOutcomeType :: "RoutingOutcomeType \<Rightarrow> string" where
  "strRoutingOutcomeType RouteSuccess = ''route_success''"
| "strRoutingOutcomeType RouteFailedNoWorkers = ''route_failed_no_workers''"
| "strRoutingOutcomeType RouteFailedInvalidKey = ''route_failed_invalid_key''"
| "strRoutingOutcomeType RouteFailedWorkerUnavailable = ''route_failed_worker_unavailable''"

fun strBatchResult :: "BatchResult \<Rightarrow> string" where
  "strBatchResult BatchResultSuccess = ''batch_success''"
| "strBatchResult BatchResultFailedHandler = ''batch_failed_handler''"
| "strBatchResult BatchResultFailedSupervision = ''batch_failed_supervision''"

fun strSupervisionDecision :: "SupervisionDecision \<Rightarrow> string" where
  "strSupervisionDecision DecisionRestart = ''restart''"
| "strSupervisionDecision DecisionStop = ''stop''"
| "strSupervisionDecision DecisionEscalate = ''escalate''"
| "strSupervisionDecision (DecisionOther s) = s"

fun strRegistryOperationResult :: "RegistryOperationResult \<Rightarrow> string" where
  "strRegistryOperationResult RegistryRegisterSuccess = ''register_success''"
| "strRegistryOperationResult RegistryRegisterRejectedDup = ''register_rejected_duplicate''"
| "strRegistryOperationResult RegistryLookupHit = ''lookup_hit''"
| "strRegistryOperationResult RegistryLookupNotFound = ''lookup_not_found''"
| "strRegistryOperationResult RegistryUnregisterSuccess = ''unregister_success''"
| "strRegistryOperationResult RegistryUnregisterLifecycleTerm = ''unregister_lifecycle_terminal''"

fun strBrokerOutcomeType :: "BrokerOutcomeType \<Rightarrow> string" where
  "strBrokerOutcomeType BrokerOutcomeSubscribeSuccess = ''subscribe_success''"
| "strBrokerOutcomeType BrokerOutcomeUnsubscribeSuccess = ''unsubscribe_success''"
| "strBrokerOutcomeType BrokerOutcomePublishSuccess = ''publish_success''"
| "strBrokerOutcomeType BrokerOutcomePublishPartialDelivery = ''publish_partial_delivery''"
| "strBrokerOutcomeType BrokerOutcomeInvalidCommand = ''invalid_command''"
| "strBrokerOutcomeType BrokerOutcomeInvalidPattern = ''invalid_pattern''"
| "strBrokerOutcomeType BrokerOutcomeInvalidTopic = ''invalid_topic''"
| "strBrokerOutcomeType BrokerOutcomeTargetUnreachable = ''target_unreachable''"
| "strBrokerOutcomeType BrokerOutcomeNotFoundNoop = ''not_found_noop''"

section \<open>Payload values\<close>

text \<open>
  A user payload is a value of a user type: its type name (what \<open>reflect.TypeOf\<close> prints),
  the result of its \<open>SchemaVersion()\<close> method and of its \<open>HashKey()\<close> method where the
  type has them, and its content.
\<close>

record userValue =
  uvType :: string
  uvSchema :: "string option"
  uvHashKey :: "string option"
  uvData :: int

record CronRef =
  crID :: string
  crSchedule :: string
  crActorID :: string

record BrokerCommandAck =
  bcaOperation :: BrokerOperation
  bcaResult :: BrokerOutcomeType
  bcaTopicPattern :: string
  bcaMatchedCount :: int
  bcaReasonCode :: string

record CronCommandAck =
  ccaOperation :: CronOperation
  ccaResult :: CronOutcomeType
  ccaRef :: CronRef
  ccaRefs :: "CronRef list"
  ccaReasonCode :: string

record ClusterMemberInfo =
  cmiID :: string
  cmiAddr :: string
  cmiTags :: "(string \<times> string) list"

datatype any =
  NilAny
| UserVal userValue
| AskReplyEnvelope string any \<comment> \<open>RequestID, Payload\<close>
| BrokerSubscribeCommand PID string \<comment> \<open>Subscriber, Pattern\<close>
| BrokerUnsubscribeCommand PID string \<comment> \<open>Subscriber, Pattern\<close>
| BrokerPublishCommand string any string \<comment> \<open>Topic, Payload, PublisherActorID\<close>
| BrokerRemotePublishCommand string any string
| BrokerPublishedMessage string any string
| BrokerCommandAckVal BrokerCommandAck
| DownMessage u64 PID string \<comment> \<open>Ref, Target, Reason\<close>
| ClusterMembershipEvent string ClusterMemberInfo
| CronSubscribeCommand PID string any string \<comment> \<open>Subscriber, Schedule, Payload, Tag\<close>
| CronUnsubscribeCommand PID string
| CronUnsubscribeAllCommand PID
| CronListCommand PID
| CronTickMessage CronRef any string \<comment> \<open>Ref, Payload, Tag\<close>
| CronCommandAckVal CronCommandAck
| CronHandoffState "(string \<times> string \<times> string \<times> string \<times> any) list"
    \<comment> \<open>RefID, ActorID, Schedule, Tag, Payload of each entry\<close>

section \<open>Messages and outcomes\<close>

record AskRequestContext =
  arcRequestID :: string
  arcReplyTo :: PID

record Message =
  msgID :: u64
  msgActorID :: string
  msgSenderActorID :: string
  msgPayload :: any
  msgAsk :: "AskRequestContext option"
  msgTypeName :: string
  msgSchemaVersion :: string
  msgAttempt :: int

definition zeroMessage :: Message where
  "zeroMessage = \<lparr>msgID = 0, msgActorID = '''', msgSenderActorID = '''', msgPayload = NilAny,
     msgAsk = None, msgTypeName = '''', msgSchemaVersion = '''', msgAttempt = 0\<rparr>"

definition IsAsk :: "Message \<Rightarrow> bool" where
  "IsAsk m \<longleftrightarrow> msgAsk m \<noteq> None"

definition AskRequestID :: "Message \<Rightarrow> string" where
  "AskRequestID m = (case msgAsk m of None \<Rightarrow> '''' | Some a \<Rightarrow> arcRequestID a)"

definition AskReplyTo :: "Message \<Rightarrow> PID option" where
  "AskReplyTo m = (case msgAsk m of None \<Rightarrow> None | Some a \<Rightarrow> Some (arcReplyTo a))"

record SubmitAck =
  saResult :: SubmitResult
  saMessageID :: u64

record AskResult =
  arRequestID :: string
  arPayload :: any

record ProcessingOutcome =
  poMessageID :: u64
  poActorID :: string
  poResult :: ProcessingResult
  poSupervisionDecision :: SupervisionDecision
  poSupervisionIteration :: int
  poErrorCode :: string

record LifecycleHookOutcome =
  lhoActorID :: string
  lhoPhase :: LifecycleHookPhase
  lhoResult :: LifecycleHookResult
  lhoErrorCode :: string

record GuardrailOutcome =
  goActorID :: string
  goPolicyMode :: PIDInteractionPolicyMode
  goGatewayMode :: GatewayRouteMode
  goOutcome :: GuardrailOutcomeType
  goReasonCode :: string

record ReadinessValidationRecord =
  rvrScope :: ReadinessScope
  rvrResult :: ReadinessResult
  rvrEvidenceRef :: string

record AskOutcome =
  aoRequestID :: string
  aoActorID :: string
  aoReplyTo :: PID
  aoOutcome :: AskOutcomeType
  aoReasonCode :: string

record RoutingOutcome =
  roRouterID :: string
  roMessageID :: u64
  roStrategy :: RouterStrategy
  roSelectedWorker :: string
  roOutcome :: RoutingOutcomeType
  roReasonCode :: string

record BatchOutcome =
  boActorID :: string
  boBatchSize :: int
  boResult :: BatchResult
  boReasonCode :: string

record BrokerOutcome =
  brBrokerID :: string
  brOperation :: BrokerOperation
  brTopicPattern :: string
  brSubscriber :: PID
  brMatchedCount :: int
  brResult :: BrokerOutcomeType
  brReasonCode :: string

record RegistryAck =
  raResult :: RegistryOperationResult
  raName :: string
  raPID :: PID

section \<open>Events (events.go)\<close>

datatype EventType =
  EventActorStarted | EventActorStopped | EventActorFailed | EventActorRestarted
| EventActorEscalated | EventMessageRoutedExact | EventMessageRoutedFallback
| EventMessageProcessed | EventMessageRejected | EventPIDResolved | EventPIDUnresolved
| EventPIDRejected | EventPIDDelivered | EventRegistryRegister | EventRegistryLookup
| EventRegistryUnregister | EventLifecycleHook | EventGuardrailDecision
| EventReadinessValidation | EventAskLifecycle | EventRouterLifecycle | EventBatchLifecycle
| EventBrokerLifecycle

record Event =
  evEventID :: u64
  evType :: EventType
  evActorID :: string
  evMessageID :: u64
  evPID :: PID \<comment> \<open>PIDNamespace, PIDActorID, PIDGeneration\<close>
  evTypeName :: string
  evSchemaVersion :: string
  evSupervisionDecision :: string
  evRestartCount :: int
  evRegistryName :: string
  evLifecyclePhase :: string
  evGatewayMode :: string
  evReadinessScope :: string
  evRequestID :: string
  evReplyTo :: PID \<comment> \<open>ReplyToNamespace, ReplyToActorID, ReplyToGeneration\<close>
  evRouterStrategy :: string
  evSelectedWorker :: string
  evBatchSize :: int
  evResult :: string
  evErrorCode :: string

definition zeroEvent :: "EventType \<Rightarrow> Event" where
  "zeroEvent t = \<lparr>evEventID = 0, evType = t, evActorID = '''', evMessageID = 0, evPID = zeroPID,
     evTypeName = '''', evSchemaVersion = '''', evSupervisionDecision = '''', evRestartCount = 0,
     evRegistryName = '''', evLifecyclePhase = '''', evGatewayMode = '''', evReadinessScope = '''',
     evRequestID = '''', evReplyTo = zeroPID, evRouterStrategy = '''', evSelectedWorker = '''',
     evBatchSize = 0, evResult = '''', evErrorCode = ''''\<rparr>"

section \<open>Actor state (state.go)\<close>

record actorState =
  asRevision :: int
  asPayload :: any

definition newActorState :: "any \<Rightarrow> actorState" where
  "newActorState initial = \<lparr>asRevision = 0, asPayload = initial\<rparr>"

definition actorState_apply :: "actorState \<Rightarrow> any \<Rightarrow> actorState" where
  "actorState_apply s nxt = s\<lparr>asPayload := nxt, asRevision := asRevision s + 1\<rparr>"

definition actorState_value :: "actorState \<Rightarrow> any" where
  "actorState_value s = asPayload s"

end
