(* ===== verification/Mailbox.thy ===== *)
theory Mailbox
  imports Types
begin

text \<open>
  The actor mailbox (\<open>mailbox.go\<close>): a slice with a moving head index, compacted lazily, a
  capacity, a closed flag and a one-slot notification channel (\<open>mbNotify\<close> is the token in
  it). The contract \<open>bounded_fifo\<close> states what the actor loop relies on; the mailbox is an
  interpretation of it. The last section models the producer and consumer side of the
  notification channel as a step relation and shows that no wake-up is lost.
\<close>

section \<open>The interface\<close>

text \<open>Iterating a dequeue operation, as the actor loop and the batch path do.\<close>

primrec dequeueMany :: "('q \<Rightarrow> 'q \<times> 'm option) \<Rightarrow> nat \<Rightarrow> 'q \<Rightarrow> 'q \<times> 'm list" where
  "dequeueMany deq 0 q = (q, [])"
| "dequeueMany deq (Suc n) q =
     (case deq q of
        (q', None) \<Rightarrow> (q', [])
      | (q', Some m) \<Rightarrow> (let (q'', ms) = dequeueMany deq n q' in (q'', m # ms)))"

locale bounded_fifo =
  fixes enq :: "'q \<Rightarrow> 'm \<Rightarrow> 'q \<times> SubmitResult"
    and deq :: "'q \<Rightarrow> 'q \<times> 'm option"
    and contents :: "'q \<Rightarrow> 'm list"
    and room :: "'q \<Rightarrow> bool"
    and shut :: "'q \<Rightarrow> bool"
    and wf :: "'q \<Rightarrow> bool"
  assumes enq_wf: "wf q \<Longrightarrow> wf (fst (enq q m))"
    and deq_wf: "wf q \<Longrightarrow> wf (fst (deq q))"
    and enq_ok: "wf q \<Longrightarrow> \<not> shut q \<Longrightarrow> room q \<Longrightarrow>
      contents (fst (enq q m)) = contents q @ [m] \<and> snd (enq q m) = SubmitAccepted"
    and enq_full: "wf q \<Longrightarrow> \<not> shut q \<Longrightarrow> \<not> room q \<Longrightarrow> enq q m = (q, SubmitRejectedFull)"
    and enq_shut: "wf q \<Longrightarrow> shut q \<Longrightarrow> enq q m = (q, SubmitRejectedStop)"
    and deq_empty: "wf q \<Longrightarrow> contents q = [] \<Longrightarrow> deq q = (q, None)"
    and deq_cons: "wf q \<Longrightarrow> contents q = m # ms \<Longrightarrow>
      contents (fst (deq q)) = ms \<and> snd (deq q) = Some m"
begin

lemma enq_contents:
  assumes "wf q"
  shows "contents (fst (enq q m)) =
    contents q @ (if snd (enq q m) = SubmitAccepted then [m] else [])"
  using assms enq_ok [of q m] enq_full [of q m] enq_shut [of q m]
  by (cases "shut q"; cases "room q") auto

lemma dequeueMany_wf: "wf q \<Longrightarrow> wf (fst (dequeueMany deq n q))"
proof (induction n arbitrary: q)
  case 0
  then show ?case by simp
next
  case (Suc n)
  obtain q' r where d: "deq q = (q', r)" by (cases "deq q")
  with deq_wf [OF Suc.prems] have "wf q'" by simp
  with Suc.IH [of q'] d show ?case by (auto split: option.splits prod.splits)
qed

lemma dequeueMany_contents:
  "wf q \<Longrightarrow> snd (dequeueMany deq n q) = take n (contents q) \<and>
    contents (fst (dequeueMany deq n q)) = drop n (contents q)"
proof (induction n arbitrary: q)
  case 0
  then show ?case by simp
next
  case (Suc n)
  show ?case
  proof (cases "contents q")
    case Nil
    with deq_empty [OF Suc.prems] show ?thesis by simp
  next
    case (Cons m ms)
    obtain q' r where d: "deq q = (q', r)" by (cases "deq q")
    with deq_cons [OF Suc.prems Cons] deq_wf [OF Suc.prems]
    have "contents q' = ms" "r = Some m" "wf q'" by simp_all
    with Suc.IH [of q'] Cons d show ?thesis
      by (cases "dequeueMany deq n q'") simp
  qed
qed

end

section \<open>The mailbox\<close>

record mailbox =
  mbQueue :: "Message list"
  mbHead :: nat
  mbMax :: int
  mbNotify :: bool
  mbClosed :: bool

definition NewMailbox :: "int \<Rightarrow> mailbox" where
  "NewMailbox capacity =
     \<lparr>mbQueue = [], mbHead = 0, mbMax = (if capacity \<le> 0 then 16 else capacity),
      mbNotify = False, mbClosed = False\<rparr>"

definition Depth :: "mailbox \<Rightarrow> int" where
  "Depth m = int (length (mbQueue m)) - int (mbHead m)"

definition Enqueue :: "mailbox \<Rightarrow> Message \<Rightarrow> mailbox \<times> SubmitResult" where
  "Enqueue m msg =
     (if mbClosed m then (m, SubmitRejectedStop)
      else if Depth m \<ge> mbMax m then (m, SubmitRejectedFull)
      else let wasEmpty = (Depth m = 0);
               m1 = m\<lparr>mbQueue := mbQueue m @ [msg]\<rparr>
           in (if wasEmpty then m1\<lparr>mbNotify := True\<rparr> else m1, SubmitAccepted))"

text \<open>
  The common tail of \<open>Dequeue\<close> and \<open>DequeueBatch\<close>: reset or compact the slice, then put a
  token into the notification channel when messages remain.
\<close>

definition mbCompact :: "mailbox \<Rightarrow> mailbox" where
  "mbCompact m =
     (if mbHead m \<ge> length (mbQueue m) then m\<lparr>mbQueue := [], mbHead := 0\<rparr>
      else if mbHead m > 64 \<and> mbHead m * 2 \<ge> length (mbQueue m)
      then m\<lparr>mbQueue := drop (mbHead m) (mbQueue m), mbHead := 0\<rparr>
      else m)"

definition mbRenotify :: "mailbox \<Rightarrow> mailbox" where
  "mbRenotify m = (if Depth m > 0 then m\<lparr>mbNotify := True\<rparr> else m)"

definition Dequeue :: "mailbox \<Rightarrow> mailbox \<times> Message option" where
  "Dequeue m =
     (if Depth m = 0 then (m, None)
      else let msg = mbQueue m ! mbHead m;
               m1 = m\<lparr>mbQueue := (mbQueue m)[mbHead m := zeroMessage], mbHead := mbHead m + 1\<rparr>
           in (mbRenotify (mbCompact m1), Some msg))"

definition DequeueBatch :: "mailbox \<Rightarrow> int \<Rightarrow> mailbox \<times> Message list" where
  "DequeueBatch m limit =
     (let limit = (if limit \<le> 0 then 1 else limit); available = Depth m
      in if available \<le> 0 then (m, [])
         else let limit = nat (if limit > available then available else limit);
                  out = take limit (drop (mbHead m) (mbQueue m));
                  q = foldl (\<lambda>q i. q[mbHead m + i := zeroMessage]) (mbQueue m) [0..<limit];
                  m1 = m\<lparr>mbQueue := q, mbHead := mbHead m + limit\<rparr>
              in (mbRenotify (mbCompact m1), out))"

definition Close :: "mailbox \<Rightarrow> mailbox" where
  "Close m = m\<lparr>mbClosed := True\<rparr>"

text \<open>The queue a mailbox stands for, and the invariant of its representation.\<close>

definition mbContents :: "mailbox \<Rightarrow> Message list" where
  "mbContents m = drop (mbHead m) (mbQueue m)"

definition mbInv :: "mailbox \<Rightarrow> bool" where
  "mbInv m \<longleftrightarrow> mbHead m \<le> length (mbQueue m) \<and> 0 < mbMax m \<and> Depth m \<le> mbMax m \<and>
     (mbQueue m = [] \<longrightarrow> mbHead m = 0) \<and> (mbHead m = length (mbQueue m) \<longrightarrow> mbQueue m = [])"

lemma mbInv_New [simp]: "mbInv (NewMailbox c)"
  by (simp add: mbInv_def NewMailbox_def Depth_def)

lemma mbContents_New [simp]: "mbContents (NewMailbox c) = []"
  by (simp add: mbContents_def NewMailbox_def)

lemma Depth_contents: "mbInv m \<Longrightarrow> Depth m = int (length (mbContents m))"
  by (simp add: mbInv_def Depth_def mbContents_def)

lemma mbContents_compact [simp]: "mbContents (mbCompact m) = mbContents m"
  by (auto simp: mbContents_def mbCompact_def)

lemma mbContents_renotify [simp]: "mbContents (mbRenotify m) = mbContents m"
  by (simp add: mbContents_def mbRenotify_def)

lemma mbInv_renotify [simp]: "mbInv (mbRenotify m) = mbInv m"
  by (simp add: mbInv_def mbRenotify_def Depth_def)

lemma mbMax_tail [simp]: "mbMax (mbRenotify m) = mbMax m" "mbMax (mbCompact m) = mbMax m"
  by (simp_all add: mbRenotify_def mbCompact_def)

lemma mbClosed_tail [simp]: "mbClosed (mbRenotify m) = mbClosed m" "mbClosed (mbCompact m) = mbClosed m"
  by (simp_all add: mbRenotify_def mbCompact_def)

lemma mbInv_compact:
  "mbHead m \<le> length (mbQueue m) \<Longrightarrow> 0 < mbMax m \<Longrightarrow> Depth m \<le> mbMax m \<Longrightarrow> mbInv (mbCompact m)"
  by (auto simp: mbInv_def mbCompact_def Depth_def)

lemma mbNotify_renotify:
  "mbInv m \<Longrightarrow> mbContents m \<noteq> [] \<Longrightarrow> mbNotify (mbRenotify m)"
  by (simp add: mbRenotify_def Depth_contents)

text \<open>Zeroing the slots that were taken does not touch the rest of the slice.\<close>

lemma zero_slots_drop:
  "drop (h + n) (foldl (\<lambda>q i. q[h + i := z]) q [0..<n]) = drop (h + n) q"
proof -
  have "drop (h + n) (foldl (\<lambda>q i. q[h + i := z]) q [0..<k]) = drop (h + n) q" if "k \<le> n" for k
    using that by (induction k) auto
  then show ?thesis by simp
qed

lemma zero_slots_length: "length (foldl (\<lambda>q i. q[h + i := z]) q [0..<n]) = length q"
  by (induction n) auto

lemma mbInv_compact_head:
  assumes "mbInv m" and "length q = length (mbQueue m)" and "mbHead m \<le> h" "h \<le> length q"
  shows "mbInv (mbCompact (m\<lparr>mbQueue := q, mbHead := h\<rparr>))"
  by (rule mbInv_compact) (use assms in \<open>auto simp: mbInv_def Depth_def\<close>)

lemma Depth_pos_head: "mbInv m \<Longrightarrow> Depth m \<noteq> 0 \<Longrightarrow> mbHead m < length (mbQueue m)"
  by (auto simp: mbInv_def Depth_def)

lemma mbInv_push:
  assumes "mbInv m" and "Depth m < mbMax m"
  shows "mbInv (m\<lparr>mbQueue := mbQueue m @ [x], mbNotify := b\<rparr>)"
  using assms unfolding mbInv_def Depth_def by simp

lemma Enqueue_accepts:
  "\<not> mbClosed m \<Longrightarrow> Depth m < mbMax m \<Longrightarrow>
    Enqueue m x = (m\<lparr>mbQueue := mbQueue m @ [x], mbNotify := (Depth m = 0 \<or> mbNotify m)\<rparr>,
      SubmitAccepted)"
  by (simp add: Enqueue_def Let_def)

lemma Enqueue_rejects:
  "mbClosed m \<or> \<not> Depth m < mbMax m \<Longrightarrow>
    Enqueue m x = (m, if mbClosed m then SubmitRejectedStop else SubmitRejectedFull)"
  by (auto simp: Enqueue_def)

lemma Enqueue_inv: "mbInv m \<Longrightarrow> mbInv (fst (Enqueue m x))"
  by (cases "mbClosed m \<or> \<not> Depth m < mbMax m")
    (simp_all add: Enqueue_rejects Enqueue_accepts mbInv_push)

lemma Dequeue_inv:
  assumes "mbInv m"
  shows "mbInv (fst (Dequeue m))"
proof (cases "Depth m = 0")
  case True
  with assms show ?thesis by (simp add: Dequeue_def)
next
  case False
  have "mbInv (mbCompact (m\<lparr>mbQueue := (mbQueue m)[mbHead m := zeroMessage],
      mbHead := mbHead m + 1\<rparr>))"
    using Depth_pos_head [OF assms False] by (intro mbInv_compact_head) (simp_all add: assms)
  with False show ?thesis by (simp add: Dequeue_def Let_def)
qed

lemma Dequeue_contents_Cons:
  assumes "mbInv m" and "mbContents m = x # xs"
  shows "mbContents (fst (Dequeue m)) = xs \<and> snd (Dequeue m) = Some x"
proof -
  from assms have h: "mbHead m < length (mbQueue m)"
    by (metis mbContents_def drop_eq_Nil list.distinct(1) not_le)
  then have "x = mbQueue m ! mbHead m" "xs = drop (Suc (mbHead m)) (mbQueue m)"
    using assms(2) Cons_nth_drop_Suc [OF h] by (simp_all add: mbContents_def)
  moreover have "Depth m \<noteq> 0" using h by (simp add: Depth_def)
  ultimately show ?thesis by (simp add: Dequeue_def Let_def) (simp add: mbContents_def)
qed

lemma Close_inv [simp]: "mbInv (Close m) = mbInv m"
  by (simp add: mbInv_def Close_def Depth_def)

lemma mbContents_Close [simp]: "mbContents (Close m) = mbContents m"
  by (simp add: mbContents_def Close_def)

interpretation mb: bounded_fifo Enqueue Dequeue mbContents "\<lambda>m. Depth m < mbMax m" mbClosed mbInv
proof (unfold_locales, goal_cases)
  case (3 q m)
  then show ?case by (simp add: Enqueue_accepts mbContents_def mbInv_def)
next
  case (6 q)
  then show ?case by (simp add: Dequeue_def Depth_contents)
next
  case (7 q m ms)
  then show ?case by (rule Dequeue_contents_Cons)
next
  case (1 q m)
  then show ?case by (rule Enqueue_inv)
next
  case (2 q)
  then show ?case by (rule Dequeue_inv)
qed (simp_all add: Enqueue_def)

text \<open>The batch path is the effect of repeated single dequeues, without their slice traffic.\<close>

lemma DequeueBatch_nonempty:
  assumes "0 < Depth m" and "n = nat (min (max 1 limit) (Depth m))"
  shows "DequeueBatch m limit =
    (mbRenotify (mbCompact (m\<lparr>
        mbQueue := foldl (\<lambda>q i. q[mbHead m + i := zeroMessage]) (mbQueue m) [0..<n],
        mbHead := mbHead m + n\<rparr>)), take n (mbContents m))"
proof -
  have "n = nat (if (if limit \<le> 0 then 1 else limit) > Depth m then Depth m
                 else if limit \<le> 0 then 1 else limit)"
    using assms by simp
  with assms(1) show ?thesis
    by (simp only: DequeueBatch_def Let_def mbContents_def if_False not_le [symmetric])
qed

lemma DequeueBatch_empty: "Depth m \<le> 0 \<Longrightarrow> DequeueBatch m limit = (m, [])"
  by (simp add: DequeueBatch_def Let_def)

lemma batch_size:
  "mbInv m \<Longrightarrow> nat (min (max 1 limit) (Depth m)) = min (nat (max 1 limit)) (length (mbContents m))"
  by (cases "max 1 limit \<le> Depth m") (auto simp: Depth_contents min_def)

lemma DequeueBatch_inv:
  assumes "mbInv m"
  shows "mbInv (fst (DequeueBatch m limit))"
proof (cases "0 < Depth m")
  case True
  define n where "n = nat (min (max 1 limit) (Depth m))"
  from assms have "mbHead m + n \<le> length (mbQueue m)"
    unfolding n_def Depth_def mbInv_def by linarith
  with assms True show ?thesis
    by (simp add: DequeueBatch_nonempty [OF True n_def] mbInv_compact_head zero_slots_length)
next
  case False
  with assms show ?thesis by (simp add: DequeueBatch_empty)
qed

lemma DequeueBatch_contents:
  assumes "mbInv m"
  shows "snd (DequeueBatch m limit) = take (nat (max 1 limit)) (mbContents m) \<and>
    mbContents (fst (DequeueBatch m limit)) = drop (nat (max 1 limit)) (mbContents m)"
proof (cases "0 < Depth m")
  case True
  define n where "n = nat (min (max 1 limit) (Depth m))"
  have n: "n = min (nat (max 1 limit)) (length (mbContents m))"
    unfolding n_def by (rule batch_size [OF assms])
  have "mbContents (fst (DequeueBatch m limit)) = drop n (mbContents m)"
    by (simp add: DequeueBatch_nonempty [OF True n_def])
      (simp add: mbContents_def zero_slots_drop add.commute [of n])
  moreover have "snd (DequeueBatch m limit) = take n (mbContents m)"
    by (simp add: DequeueBatch_nonempty [OF True n_def])
  ultimately show ?thesis by (simp only: n take_min_length drop_min_length)
next
  case False
  then have "mbContents m = []" using Depth_contents [OF assms] by simp
  with False show ?thesis by (simp add: DequeueBatch_empty)
qed

section \<open>Sequences of operations\<close>

datatype mbOp = OpEnqueue Message | OpDequeue | OpDequeueBatch int | OpClose

text \<open>One operation: the new mailbox, the messages it accepted and the messages it delivered.\<close>

fun mbStep :: "mailbox \<Rightarrow> mbOp \<Rightarrow> mailbox \<times> Message list \<times> Message list" where
  "mbStep m (OpEnqueue x) =
     (let (m', res) = Enqueue m x in (m', if res = SubmitAccepted then [x] else [], []))"
| "mbStep m OpDequeue =
     (let (m', res) = Dequeue m in (m', [], case res of None \<Rightarrow> [] | Some x \<Rightarrow> [x]))"
| "mbStep m (OpDequeueBatch n) = (let (m', out) = DequeueBatch m n in (m', [], out))"
| "mbStep m OpClose = (Close m, [], [])"

fun mbRun :: "mailbox \<Rightarrow> mbOp list \<Rightarrow> mailbox \<times> Message list \<times> Message list" where
  "mbRun m [] = (m, [], [])"
| "mbRun m (x # xs) =
     (let (m', acc, del) = mbStep m x; (m'', acc', del') = mbRun m' xs
      in (m'', acc @ acc', del @ del'))"

lemma mbMax_ops [simp]:
  "mbMax (fst (Enqueue m x)) = mbMax m" "mbMax (fst (Dequeue m)) = mbMax m"
  "mbMax (fst (DequeueBatch m n)) = mbMax m" "mbMax (Close m) = mbMax m"
  by (simp_all add: Enqueue_def Dequeue_def DequeueBatch_def Close_def Let_def)

lemma mbStep_fifo:
  assumes "mbInv m" and "mbStep m x = (m', acc, del)"
  shows "del @ mbContents m' = mbContents m @ acc \<and> mbInv m' \<and> mbMax m' = mbMax m"
proof (cases x)
  case (OpEnqueue y)
  obtain r where e: "Enqueue m y = (m', r)" "acc = (if r = SubmitAccepted then [y] else [])" "del = []"
    using assms(2) OpEnqueue by (auto split: prod.splits)
  then have "mbMax m' = mbMax m" by (metis fst_conv mbMax_ops(1))
  with e assms(1) mb.enq_contents [of m y] Enqueue_inv [of m y] show ?thesis by auto
next
  case OpDequeue
  obtain r where e: "Dequeue m = (m', r)" "acc = []" "del = (case r of None \<Rightarrow> [] | Some x \<Rightarrow> [x])"
    using assms(2) OpDequeue by (auto split: prod.splits)
  then have "mbMax m' = mbMax m" by (metis fst_conv mbMax_ops(2))
  with e assms(1) mb.deq_empty [of m] mb.deq_cons [of m] Dequeue_inv [of m]
  show ?thesis by (cases "mbContents m") auto
next
  case (OpDequeueBatch n)
  have e: "DequeueBatch m n = (m', del)" "acc = []"
    using assms(2) OpDequeueBatch by (auto split: prod.splits)
  then have "mbMax m' = mbMax m" by (metis fst_conv mbMax_ops(3))
  with e assms(1) DequeueBatch_contents [of m n] DequeueBatch_inv [of m n] show ?thesis by simp
next
  case OpClose
  with assms show ?thesis by auto
qed

lemma mbRun_fifo:
  "mbInv m \<Longrightarrow> mbRun m ops = (m', acc, del) \<Longrightarrow>
    del @ mbContents m' = mbContents m @ acc \<and> mbInv m' \<and> mbMax m' = mbMax m"
proof (induction ops arbitrary: m acc del)
  case Nil
  then show ?case by simp
next
  case (Cons x xs)
  obtain m1 a1 d1 where s: "mbStep m x = (m1, a1, d1)" by (cases "mbStep m x") auto
  obtain a2 d2 where r: "mbRun m1 xs = (m', a2, d2)" "acc = a1 @ a2" "del = d1 @ d2"
    using Cons.prems(2) s by (auto split: prod.splits)
  from mbStep_fifo [OF Cons.prems(1) s] have "mbInv m1" "d1 @ mbContents m1 = mbContents m @ a1"
    "mbMax m1 = mbMax m" by simp_all
  with Cons.IH [OF _ r(1)] r(2,3) show ?case by simp
qed

text \<open>
  Claim C2. FIFO without loss or duplication, within capacity: whatever sequence of
  \<open>Enqueue\<close>, \<open>Dequeue\<close>, \<open>DequeueBatch\<close> and \<open>Close\<close> runs on a new mailbox, the messages
  delivered so far followed by those still queued are exactly the messages accepted, in the
  order of acceptance, and the queue never holds more than the capacity (16 when the
  configured capacity is not positive).
\<close>

theorem mailbox_fifo:
  "case mbRun (NewMailbox capacity) ops of (m, accepted, delivered) \<Rightarrow>
     delivered @ mbContents m = accepted \<and>
     int (length (mbContents m)) \<le> (if capacity \<le> 0 then 16 else capacity)"
proof -
  obtain m acc del where r: "mbRun (NewMailbox capacity) ops = (m, acc, del)"
    by (cases "mbRun (NewMailbox capacity) ops") auto
  from mbRun_fifo [OF mbInv_New r]
  have f: "del @ mbContents m = acc" "mbInv m" "mbMax m = mbMax (NewMailbox capacity)" by simp_all
  then have "int (length (mbContents m)) \<le> mbMax (NewMailbox capacity)"
    using Depth_contents [of m] by (simp add: mbInv_def)
  with f r show ?thesis by (simp add: NewMailbox_def)
qed

text \<open>
  The batch path is equivalent to repeated single dequeues: on a well-formed
  mailbox \<open>DequeueBatch\<close> with limit \<open>n\<close> returns the messages that \<open>max 1 n\<close> calls of
  \<open>Dequeue\<close> return, in the same order, and leaves the same queue.
\<close>

theorem batch_is_repeated_dequeue:
  assumes "mbInv m"
  shows "snd (DequeueBatch m n) = snd (dequeueMany Dequeue (nat (max 1 n)) m) \<and>
    mbContents (fst (DequeueBatch m n)) = mbContents (fst (dequeueMany Dequeue (nat (max 1 n)) m))"
  using DequeueBatch_contents [OF assms, of n] mb.dequeueMany_contents [OF assms] by simp

theorem batch_is_repeated_dequeue_witness:
  "let m = fst (Enqueue (fst (Enqueue (NewMailbox 4) zeroMessage)) (zeroMessage\<lparr>msgID := 7\<rparr>))
   in mbInv m \<and> snd (DequeueBatch m 5) = snd (dequeueMany Dequeue 5 m)"
proof -
  have "mbInv (fst (Enqueue (fst (Enqueue (NewMailbox 4) zeroMessage)) (zeroMessage\<lparr>msgID := 7\<rparr>)))"
    by (intro Enqueue_inv) simp
  from this batch_is_repeated_dequeue [OF this, of 5] show ?thesis by (simp add: Let_def)
qed

section \<open>Producers, the actor loop and the notification channel\<close>

text \<open>
  The actor loop (\<open>runActor\<close> in runtime.go) blocks on \<open>Notify()\<close>; a token wakes it, it takes
  messages until the mailbox is empty and blocks again. Producers enqueue at any time.
\<close>

datatype consumer = Waiting | Draining

inductive mb_step :: "mailbox \<times> consumer \<Rightarrow> mailbox \<times> consumer \<Rightarrow> bool" where
  produce: "mb_step (m, c) (fst (Enqueue m x), c)"
| close: "mb_step (m, c) (Close m, c)"
| wake: "mbNotify m \<Longrightarrow> mb_step (m, Waiting) (m\<lparr>mbNotify := False\<rparr>, Draining)"
| take_one: "snd (Dequeue m) = Some x \<Longrightarrow> mb_step (m, Draining) (fst (Dequeue m), Draining)"
| take_batch: "snd (DequeueBatch m n) \<noteq> [] \<Longrightarrow>
    mb_step (m, Draining) (fst (DequeueBatch m n), Draining)"
| idle_one: "snd (Dequeue m) = None \<Longrightarrow> mb_step (m, Draining) (fst (Dequeue m), Waiting)"
| idle_batch: "snd (DequeueBatch m n) = [] \<Longrightarrow>
    mb_step (m, Draining) (fst (DequeueBatch m n), Waiting)"

inductive_cases mb_stepE: "mb_step s t"

definition wakeInv :: "mailbox \<times> consumer \<Rightarrow> bool" where
  "wakeInv s \<longleftrightarrow> mbInv (fst s) \<and>
     (snd s = Waiting \<longrightarrow> mbContents (fst s) \<noteq> [] \<longrightarrow> mbNotify (fst s))"

lemma Enqueue_notify:
  "mbInv m \<Longrightarrow> mbContents m \<noteq> [] \<longrightarrow> mbNotify m \<Longrightarrow>
    mbContents (fst (Enqueue m x)) \<noteq> [] \<longrightarrow> mbNotify (fst (Enqueue m x))"
  by (cases "mbClosed m \<or> \<not> Depth m < mbMax m")
    (auto simp: Enqueue_rejects Enqueue_accepts Depth_contents mbContents_def)

lemma Dequeue_None_empty: "mbInv m \<Longrightarrow> snd (Dequeue m) = None \<Longrightarrow> mbContents (fst (Dequeue m)) = []"
  using mb.deq_empty [of m] mb.deq_cons [of m] by (cases "mbContents m") auto

lemma DequeueBatch_Nil_empty:
  assumes "mbInv m" and "snd (DequeueBatch m n) = []"
  shows "mbContents (fst (DequeueBatch m n)) = []"
proof -
  have "0 < nat (max 1 n)" by simp
  with DequeueBatch_contents [OF assms(1), of n] assms(2) have "mbContents m = []" by auto
  with DequeueBatch_contents [OF assms(1), of n] show ?thesis by simp
qed

lemma mb_step_wakeInv:
  assumes "mb_step s t" and "wakeInv s"
  shows "wakeInv t"
  using assms
proof (cases rule: mb_step.cases)
  case (produce m c x)
  with assms(2) Enqueue_inv [of m x] Enqueue_notify [of m x] show ?thesis
    by (auto simp: wakeInv_def)
next
  case (close m c)
  with assms(2) show ?thesis by (auto simp: wakeInv_def Close_def mbInv_def Depth_def mbContents_def)
next
  case (wake m)
  with assms(2) show ?thesis by (auto simp: wakeInv_def mbInv_def Depth_def)
next
  case (take_one m x)
  with assms(2) Dequeue_inv [of m] show ?thesis by (auto simp: wakeInv_def)
next
  case (take_batch m n)
  with assms(2) DequeueBatch_inv [of m n] show ?thesis by (auto simp: wakeInv_def)
next
  case (idle_one m)
  with assms(2) Dequeue_inv [of m] Dequeue_None_empty [of m] show ?thesis by (auto simp: wakeInv_def)
next
  case (idle_batch m n)
  with assms(2) DequeueBatch_inv [of m n] DequeueBatch_Nil_empty [of m n] show ?thesis
    by (auto simp: wakeInv_def)
qed

lemma mb_reach_wakeInv: "mb_step\<^sup>*\<^sup>* (NewMailbox c, Waiting) s \<Longrightarrow> wakeInv s"
proof (induction rule: rtranclp_induct)
  case base
  show ?case by (simp add: wakeInv_def)
next
  case (step s t)
  then show ?case by (blast intro: mb_step_wakeInv)
qed

text \<open>
  Claim C1. No lost wake-up: in every reachable interleaving of producers, \<open>Close\<close> and the
  actor loop, if the loop is blocked on the notification channel while messages are queued,
  a token is in the channel, so the loop can wake and still sees every queued message.
\<close>

theorem no_lost_wakeup:
  assumes "mb_step\<^sup>*\<^sup>* (NewMailbox c, Waiting) (m, Waiting)" and "mbContents m \<noteq> []"
  shows "\<exists>m'. mb_step (m, Waiting) (m', Draining) \<and> mbContents m' = mbContents m"
proof -
  from mb_reach_wakeInv [OF assms(1)] assms(2) have "mbNotify m" by (simp add: wakeInv_def)
  then have "mb_step (m, Waiting) (m\<lparr>mbNotify := False\<rparr>, Draining)" by (rule mb_step.wake)
  then show ?thesis by (auto simp: mbContents_def)
qed

theorem no_lost_wakeup_witness:
  "\<exists>m'. mb_step (fst (Enqueue (NewMailbox 1) zeroMessage), Waiting) (m', Draining)"
proof -
  let ?m = "fst (Enqueue (NewMailbox 1) zeroMessage)"
  have r: "mb_step\<^sup>*\<^sup>* (NewMailbox 1, Waiting) (?m, Waiting)"
    by (rule r_into_rtranclp) (rule mb_step.produce)
  have c: "mbContents ?m \<noteq> []"
    by (simp add: Enqueue_def NewMailbox_def Depth_def mbContents_def)
  from no_lost_wakeup [OF r c] show ?thesis by blast
qed

end
