(* ===== verification/Pid.thy ===== *)
theory Pid
  imports Types
begin

text \<open>
  Process identifiers and their resolution: \<open>pid.go\<close>, the \<open>PIDResolver\<close> interface with its
  in-memory implementation (\<open>pid_resolver.go\<close>), and the cluster resolver that wraps it
  (\<open>cluster/remote_resolver.go\<close>). The locale \<open>pid_resolver\<close> is the interface; both
  implementations interpret it.
\<close>

section \<open>PID (pid.go)\<close>

definition PID_Validate :: "PID \<Rightarrow> string option" where
  "PID_Validate p =
     (if pidNamespace p = '''' then Some ''namespace required''
      else if pidActorID p = '''' then Some ''actor_id required''
      else if pidGeneration p = 0 then Some ''generation must be >=1''
      else None)"

definition Key :: "PID \<Rightarrow> string" where
  "Key p = pidNamespace p @ '':'' @ pidActorID p"

definition askReplyNamespace :: string where
  "askReplyNamespace = ''__ask_reply''"

definition IsRemote :: "PID \<Rightarrow> string \<Rightarrow> bool" where
  "IsRemote p localNamespace =
     (if pidNamespace p = '''' \<or> pidNamespace p = localNamespace then False
      else if pidNamespace p = ''__ask_reply'' then False
      else if localNamespace \<noteq> '''' \<and> pidNamespace p = ''__ask_reply@'' @ localNamespace then False
      else True)"

definition isAskReplyNamespace :: "string \<Rightarrow> bool" where
  "isAskReplyNamespace ns \<longleftrightarrow> ns = ''__ask_reply'' \<or> prefix ''__ask_reply@'' ns"

lemma Key_cong: "pidNamespace p = pidNamespace q \<Longrightarrow> pidActorID p = pidActorID q \<Longrightarrow> Key p = Key q"
  by (simp add: Key_def)

lemma Key_generation [simp]: "Key (p\<lparr>pidGeneration := g\<rparr>) = Key p"
  by (simp add: Key_def)

lemma append_sep_inj:
  "x @ c # y = x' @ c # y' \<Longrightarrow> c \<notin> set x \<Longrightarrow> c \<notin> set x' \<Longrightarrow> x = x' \<and> y = y'"
proof (induction x arbitrary: x')
  case Nil
  then show ?case by (cases x') auto
next
  case (Cons a x)
  then show ?case by (cases x') auto
qed

text \<open>
  PID keys identify a namespace and an actor as long as the namespaces hold no
  colon: equal keys then mean equal namespaces and equal actor IDs.
\<close>

theorem Key_injective:
  assumes "Key p = Key q" and "CHR '':'' \<notin> set (pidNamespace p)" and "CHR '':'' \<notin> set (pidNamespace q)"
  shows "pidNamespace p = pidNamespace q \<and> pidActorID p = pidActorID q"
  using append_sep_inj [of "pidNamespace p" "CHR '':''" "pidActorID p" "pidNamespace q" "pidActorID q"] assms
  by (simp add: Key_def)

theorem Key_injective_witness:
  "let p = \<lparr>pidNamespace = ''n1'', pidActorID = ''a:b'', pidGeneration = 1\<rparr>;
       q = \<lparr>pidNamespace = ''n1'', pidActorID = ''a:b'', pidGeneration = 2\<rparr>
   in Key p = Key q \<and> pidActorID p = pidActorID q"
proof -
  let ?p = "\<lparr>pidNamespace = ''n1'', pidActorID = ''a:b'', pidGeneration = 1\<rparr>"
  let ?q = "\<lparr>pidNamespace = ''n1'', pidActorID = ''a:b'', pidGeneration = 2\<rparr>"
  have k: "Key ?p = Key ?q" by (simp add: Key_def)
  from Key_injective [of ?p ?q] k show ?thesis by (simp add: Let_def)
qed

section \<open>Resolver entries and the resolver interface (pid_resolver.go)\<close>

record PIDResolverEntry =
  rePID :: PID
  reRouteState :: PIDRouteState
  reCurrentGeneration :: u64

text \<open>
  What a sender checks before it delivers by PID (\<open>sendPIDWithSender\<close>): the entry exists, is
  not stopped, and the generation of the PID is the current one.
\<close>

definition pidCurrent :: "PIDResolverEntry option \<Rightarrow> PID \<Rightarrow> bool" where
  "pidCurrent e p = (case e of None \<Rightarrow> False
     | Some e \<Rightarrow> reRouteState e \<noteq> PIDRouteStopped \<and> pidGeneration p = reCurrentGeneration e)"

text \<open>\<open>n\<close> generation bumps in a row, as \<open>n\<close> restarts of the actor do.\<close>

primrec bumps :: "('r \<Rightarrow> PID \<Rightarrow> 'r \<times> PID option) \<Rightarrow> nat \<Rightarrow> 'r \<Rightarrow> PID \<Rightarrow> 'r" where
  "bumps bump 0 r p = r"
| "bumps bump (Suc n) r p = bumps bump n (fst (bump r p)) p"

locale pid_resolver =
  fixes reg :: "'r \<Rightarrow> PID \<Rightarrow> 'r"
    and res :: "'r \<Rightarrow> PID \<Rightarrow> PIDResolverEntry option"
    and rem :: "'r \<Rightarrow> PID \<Rightarrow> 'r"
    and setst :: "'r \<Rightarrow> PID \<Rightarrow> PIDRouteState \<Rightarrow> 'r"
    and bump :: "'r \<Rightarrow> PID \<Rightarrow> 'r \<times> PID option"
    and loc :: "'r \<Rightarrow> PID \<Rightarrow> bool"
  assumes loc_ops: "loc (reg r p) q = loc r q" "loc (rem r p) q = loc r q"
      "loc (setst r p s) q = loc r q" "loc (fst (bump r p)) q = loc r q"
    and loc_key: "loc r p \<Longrightarrow> Key p = Key q \<Longrightarrow> pidNamespace p = pidNamespace q \<Longrightarrow> loc r q"
    and res_key: "loc r p \<Longrightarrow> loc r q \<Longrightarrow> Key p = Key q \<Longrightarrow> res r p = res r q"
    and res_reg: "loc r q \<Longrightarrow> res (reg r p) q = (if Key q = Key p
        then Some \<lparr>rePID = p, reRouteState = PIDRouteReachable, reCurrentGeneration = pidGeneration p\<rparr>
        else res r q)"
    and res_rem: "loc r q \<Longrightarrow> res (rem r p) q = (if Key q = Key p then None else res r q)"
    and res_set: "loc r q \<Longrightarrow> loc r p \<Longrightarrow> res (setst r p s) q = (if Key q = Key p
        then Some (case res r p of
            None \<Rightarrow> \<lparr>rePID = p, reRouteState = s, reCurrentGeneration = pidGeneration p\<rparr>
          | Some e \<Rightarrow> e\<lparr>reRouteState := s\<rparr>)
        else res r q)"
    and bump_None: "loc r p \<Longrightarrow> res r p = None \<Longrightarrow> bump r p = (r, None)"
    and bump_Some: "loc r p \<Longrightarrow> res r p = Some e \<Longrightarrow>
        snd (bump r p) = Some ((rePID e)\<lparr>pidGeneration := reCurrentGeneration e + 1\<rparr>)"
    and res_bump: "loc r p \<Longrightarrow> loc r q \<Longrightarrow> res r p = Some e \<Longrightarrow> res (fst (bump r p)) q =
        (if Key q = Key p
         then Some \<lparr>rePID = (rePID e)\<lparr>pidGeneration := reCurrentGeneration e + 1\<rparr>,
                    reRouteState = PIDRouteReachable, reCurrentGeneration = reCurrentGeneration e + 1\<rparr>
         else res r q)"
begin

lemma loc_bumps: "loc (bumps bump n r p) q = loc r q"
  by (induction n arbitrary: r) (simp_all add: loc_ops)

lemma bumps_resolve:
  "loc r p \<Longrightarrow> res r p = Some e \<Longrightarrow>
    \<exists>e'. res (bumps bump n r p) p = Some e' \<and> reCurrentGeneration e' = reCurrentGeneration e + of_nat n"
proof (induction n arbitrary: r e)
  case 0
  then show ?case by simp
next
  case (Suc n)
  let ?e = "\<lparr>rePID = (rePID e)\<lparr>pidGeneration := reCurrentGeneration e + 1\<rparr>,
              reRouteState = PIDRouteReachable, reCurrentGeneration = reCurrentGeneration e + 1\<rparr>"
  from Suc.prems have "res (fst (bump r p)) p = Some ?e" by (simp add: res_bump)
  from Suc.IH [OF _ this] Suc.prems(1) show ?case by (simp add: loc_ops algebra_simps)
qed

lemma stale_after_bumps:
  assumes "loc r p" and "pidCurrent (res r p) p" and "0 < n" and "n < 2 ^ 64"
  shows "\<not> pidCurrent (res (bumps bump n r p) p) p"
proof -
  from assms(2) obtain e where e: "res r p = Some e" "pidGeneration p = reCurrentGeneration e"
    by (auto simp: pidCurrent_def split: option.splits)
  from bumps_resolve [OF assms(1) e(1)] obtain e' where
    "res (bumps bump n r p) p = Some e'" "reCurrentGeneration e' = pidGeneration p + of_nat n"
    using e(2) by auto
  moreover have "(of_nat n :: u64) \<noteq> 0"
  proof
    assume "(of_nat n :: u64) = 0"
    then have "unat (of_nat n :: u64) = 0" by simp
    with assms(3,4) show False by (simp add: unat_of_nat)
  qed
  ultimately show ?thesis by (simp add: pidCurrent_def)
qed

lemma current_after_bump:
  assumes "loc r p" and "res r p = Some e" and "Key (rePID e) = Key p"
    and "pidNamespace (rePID e) = pidNamespace p" and "snd (bump r p) = Some p'"
  shows "pidCurrent (res (fst (bump r p)) p') p'"
proof -
  from assms have p': "p' = (rePID e)\<lparr>pidGeneration := reCurrentGeneration e + 1\<rparr>"
    by (simp add: bump_Some)
  then have k: "Key p' = Key p" and ns: "pidNamespace p' = pidNamespace p" using assms(3,4) by simp_all
  then have "loc r p'" using loc_key [OF assms(1), of p'] by simp
  with assms(1,2) k p' show ?thesis by (simp add: res_bump pidCurrent_def)
qed

end

section \<open>The in-memory resolver\<close>

record InMemoryPIDResolver =
  rsByKey :: "string \<rightharpoonup> PIDResolverEntry"
  rsMode :: GatewayRouteMode
  rsGwUp :: bool

definition NewInMemoryPIDResolver :: InMemoryPIDResolver where
  "NewInMemoryPIDResolver = \<lparr>rsByKey = Map.empty, rsMode = GatewayRouteLocalDirect, rsGwUp = True\<rparr>"

definition resolver_Register :: "InMemoryPIDResolver \<Rightarrow> PID \<Rightarrow> InMemoryPIDResolver" where
  "resolver_Register r p = r\<lparr>rsByKey := (rsByKey r)(Key p \<mapsto>
     \<lparr>rePID = p, reRouteState = PIDRouteReachable, reCurrentGeneration = pidGeneration p\<rparr>)\<rparr>"

definition resolver_Resolve :: "InMemoryPIDResolver \<Rightarrow> PID \<Rightarrow> PIDResolverEntry option" where
  "resolver_Resolve r p = rsByKey r (Key p)"

definition resolver_Remove :: "InMemoryPIDResolver \<Rightarrow> PID \<Rightarrow> InMemoryPIDResolver" where
  "resolver_Remove r p = r\<lparr>rsByKey := (rsByKey r)(Key p := None)\<rparr>"

definition resolver_SetState :: "InMemoryPIDResolver \<Rightarrow> PID \<Rightarrow> PIDRouteState \<Rightarrow> InMemoryPIDResolver" where
  "resolver_SetState r p state =
     (let entry = (case rsByKey r (Key p) of
            Some e \<Rightarrow> e
          | None \<Rightarrow> \<lparr>rePID = p, reRouteState = state, reCurrentGeneration = pidGeneration p\<rparr>)
      in r\<lparr>rsByKey := (rsByKey r)(Key p \<mapsto> entry\<lparr>reRouteState := state\<rparr>)\<rparr>)"

definition resolver_BumpGeneration :: "InMemoryPIDResolver \<Rightarrow> PID \<Rightarrow> InMemoryPIDResolver \<times> PID option" where
  "resolver_BumpGeneration r p =
     (case rsByKey r (Key p) of
        None \<Rightarrow> (r, None)
      | Some entry \<Rightarrow>
          let gen = reCurrentGeneration entry + 1;
              pid = (rePID entry)\<lparr>pidGeneration := gen\<rparr>;
              entry = entry\<lparr>reCurrentGeneration := gen, rePID := pid, reRouteState := PIDRouteReachable\<rparr>
          in (r\<lparr>rsByKey := (rsByKey r)(Key p \<mapsto> entry)\<rparr>, Some pid))"

definition resolver_SetGatewayMode :: "InMemoryPIDResolver \<Rightarrow> GatewayRouteMode \<Rightarrow> InMemoryPIDResolver" where
  "resolver_SetGatewayMode r mode = r\<lparr>rsMode := mode\<rparr>"

definition resolver_GatewayMode :: "InMemoryPIDResolver \<Rightarrow> GatewayRouteMode" where
  "resolver_GatewayMode r = rsMode r"

definition resolver_SetGatewayAvailability :: "InMemoryPIDResolver \<Rightarrow> bool \<Rightarrow> InMemoryPIDResolver" where
  "resolver_SetGatewayAvailability r up = r\<lparr>rsGwUp := up\<rparr>"

definition resolver_GatewayAvailable :: "InMemoryPIDResolver \<Rightarrow> bool" where
  "resolver_GatewayAvailable r = rsGwUp r"

lemmas resolver_defs = resolver_Register_def resolver_Resolve_def resolver_Remove_def
  resolver_SetState_def resolver_BumpGeneration_def resolver_SetGatewayMode_def
  resolver_GatewayMode_def resolver_SetGatewayAvailability_def resolver_GatewayAvailable_def

interpretation mem: pid_resolver resolver_Register resolver_Resolve resolver_Remove
  resolver_SetState resolver_BumpGeneration "\<lambda>_ _. True"
  by unfold_locales (auto simp: resolver_defs Let_def split: option.splits)

section \<open>The cluster resolver (cluster/remote_resolver.go)\<close>

definition isAskReplyLocal :: "string \<Rightarrow> string \<Rightarrow> bool" where
  "isAskReplyLocal ns localNodeID =
     (if ns = ''__ask_reply'' then True
      else if localNodeID \<noteq> '''' \<and> ns = ''__ask_reply@'' @ localNodeID then True
      else False)"

record RemotePIDResolver =
  rprLocal :: InMemoryPIDResolver
  rprLocalNodeID :: string
  rprRemoteNodes :: "string set"

definition NewRemotePIDResolver :: "InMemoryPIDResolver \<Rightarrow> string \<Rightarrow> RemotePIDResolver" where
  "NewRemotePIDResolver local localNodeID =
     \<lparr>rprLocal = local, rprLocalNodeID = localNodeID, rprRemoteNodes = {}\<rparr>"

definition AddRemoteNode :: "RemotePIDResolver \<Rightarrow> string \<Rightarrow> RemotePIDResolver" where
  "AddRemoteNode r n = r\<lparr>rprRemoteNodes := insert n (rprRemoteNodes r)\<rparr>"

definition RemoveRemoteNode :: "RemotePIDResolver \<Rightarrow> string \<Rightarrow> RemotePIDResolver" where
  "RemoveRemoteNode r n = r\<lparr>rprRemoteNodes := rprRemoteNodes r - {n}\<rparr>"

definition IsRemoteNode :: "RemotePIDResolver \<Rightarrow> string \<Rightarrow> bool" where
  "IsRemoteNode r n \<longleftrightarrow> n \<in> rprRemoteNodes r"

definition remote_Register :: "RemotePIDResolver \<Rightarrow> PID \<Rightarrow> RemotePIDResolver" where
  "remote_Register r p = r\<lparr>rprLocal := resolver_Register (rprLocal r) p\<rparr>"

definition remote_Resolve :: "RemotePIDResolver \<Rightarrow> PID \<Rightarrow> PIDResolverEntry option" where
  "remote_Resolve r p =
     (if pidNamespace p = rprLocalNodeID r \<or> pidNamespace p = '''' then resolver_Resolve (rprLocal r) p
      else if isAskReplyLocal (pidNamespace p) (rprLocalNodeID r) then resolver_Resolve (rprLocal r) p
      else if \<not> IsRemoteNode r (pidNamespace p) then None
      else Some \<lparr>rePID = p, reRouteState = PIDRouteReachable, reCurrentGeneration = pidGeneration p\<rparr>)"

definition remote_Remove :: "RemotePIDResolver \<Rightarrow> PID \<Rightarrow> RemotePIDResolver" where
  "remote_Remove r p = r\<lparr>rprLocal := resolver_Remove (rprLocal r) p\<rparr>"

definition remote_SetState :: "RemotePIDResolver \<Rightarrow> PID \<Rightarrow> PIDRouteState \<Rightarrow> RemotePIDResolver" where
  "remote_SetState r p s = r\<lparr>rprLocal := resolver_SetState (rprLocal r) p s\<rparr>"

definition remote_BumpGeneration :: "RemotePIDResolver \<Rightarrow> PID \<Rightarrow> RemotePIDResolver \<times> PID option" where
  "remote_BumpGeneration r p =
     (let (l, res) = resolver_BumpGeneration (rprLocal r) p in (r\<lparr>rprLocal := l\<rparr>, res))"

definition remote_SetGatewayMode :: "RemotePIDResolver \<Rightarrow> GatewayRouteMode \<Rightarrow> RemotePIDResolver" where
  "remote_SetGatewayMode r mode = r\<lparr>rprLocal := resolver_SetGatewayMode (rprLocal r) mode\<rparr>"

definition remote_GatewayMode :: "RemotePIDResolver \<Rightarrow> GatewayRouteMode" where
  "remote_GatewayMode r = resolver_GatewayMode (rprLocal r)"

definition remote_SetGatewayAvailability :: "RemotePIDResolver \<Rightarrow> bool \<Rightarrow> RemotePIDResolver" where
  "remote_SetGatewayAvailability r up = r\<lparr>rprLocal := resolver_SetGatewayAvailability (rprLocal r) up\<rparr>"

definition remote_GatewayAvailable :: "RemotePIDResolver \<Rightarrow> bool" where
  "remote_GatewayAvailable r = resolver_GatewayAvailable (rprLocal r)"

text \<open>The PIDs the cluster resolver hands to its local resolver.\<close>

definition remoteIsLocal :: "RemotePIDResolver \<Rightarrow> PID \<Rightarrow> bool" where
  "remoteIsLocal r p \<longleftrightarrow> pidNamespace p = rprLocalNodeID r \<or> pidNamespace p = '''' \<or>
     isAskReplyLocal (pidNamespace p) (rprLocalNodeID r)"

lemma remote_Resolve_local: "remoteIsLocal r p \<Longrightarrow> remote_Resolve r p = resolver_Resolve (rprLocal r) p"
  by (auto simp: remote_Resolve_def remoteIsLocal_def)

lemmas remote_defs = remote_Register_def remote_Remove_def remote_SetState_def
  remote_BumpGeneration_def remoteIsLocal_def

lemma remoteIsLocal_frame [simp]: "remoteIsLocal (r\<lparr>rprLocal := l\<rparr>) q = remoteIsLocal r q"
  by (simp add: remoteIsLocal_def)

interpretation remote: pid_resolver remote_Register remote_Resolve remote_Remove
  remote_SetState remote_BumpGeneration remoteIsLocal
proof (unfold_locales, goal_cases)
  case 5
  then show ?case by (simp add: remoteIsLocal_def)
next
  case (6 r p q)
  then show ?case
    using mem.res_key [of p q "rprLocal r"] by (simp add: remote_Resolve_local)
next
  case (10 r p)
  then show ?case
    by (simp add: remote_Resolve_local remote_BumpGeneration_def mem.bump_None)
next
  case (11 r p e)
  then show ?case
    using mem.bump_Some [where r = "rprLocal r" and p = p and e = e]
    by (cases "resolver_BumpGeneration (rprLocal r) p") (simp add: remote_BumpGeneration_def remote_Resolve_local)
next
  case (12 r p q e)
  then show ?case
    using mem.res_bump [where r = "rprLocal r" and p = p and q = q and e = e]
    by (cases "resolver_BumpGeneration (rprLocal r) p") (simp add: remote_BumpGeneration_def remote_Resolve_local)
qed (auto simp: remote_Register_def remote_Remove_def remote_SetState_def remote_BumpGeneration_def
  remote_Resolve_local mem.res_reg mem.res_rem mem.res_set
  split: prod.splits)

text \<open>
  A restart makes every earlier PID stale, for the in-memory resolver and for the
  cluster resolver alike: if a PID is current, then after any number \<open>n\<close> of generation bumps
  below \<open>2 ^ 64\<close> (the width of the generation counter) it is not current any more.
\<close>

theorem stale_after_restarts:
  assumes "0 < n" and "n < 2 ^ 64"
  shows "(pidCurrent (resolver_Resolve r p) p \<longrightarrow>
            \<not> pidCurrent (resolver_Resolve (bumps resolver_BumpGeneration n r p) p) p) \<and>
         (remoteIsLocal r' p \<and> pidCurrent (remote_Resolve r' p) p \<longrightarrow>
            \<not> pidCurrent (remote_Resolve (bumps remote_BumpGeneration n r' p) p) p)"
  using mem.stale_after_bumps [of r p n] remote.stale_after_bumps [of r' p n] assms by blast

theorem stale_after_restarts_witness:
  "let p = \<lparr>pidNamespace = ''n'', pidActorID = ''a'', pidGeneration = 1\<rparr>;
       r = resolver_Register NewInMemoryPIDResolver p;
       r' = remote_Register (NewRemotePIDResolver NewInMemoryPIDResolver ''n'') p
   in pidCurrent (resolver_Resolve r p) p \<and> \<not> pidCurrent (resolver_Resolve (bumps resolver_BumpGeneration 3 r p) p) p \<and>
      \<not> pidCurrent (remote_Resolve (bumps remote_BumpGeneration 3 r' p) p) p"
proof -
  let ?p = "\<lparr>pidNamespace = ''n'', pidActorID = ''a'', pidGeneration = 1\<rparr>"
  let ?r = "resolver_Register NewInMemoryPIDResolver ?p"
  let ?r' = "remote_Register (NewRemotePIDResolver NewInMemoryPIDResolver ''n'') ?p"
  have c: "pidCurrent (resolver_Resolve ?r ?p) ?p" by (simp add: pidCurrent_def resolver_defs)
  have l: "remoteIsLocal ?r' ?p" by (simp add: remoteIsLocal_def remote_Register_def NewRemotePIDResolver_def)
  have c': "pidCurrent (remote_Resolve ?r' ?p) ?p"
    by (simp add: pidCurrent_def remote_Resolve_def remote_Register_def NewRemotePIDResolver_def resolver_defs)
  have n: "0 < (3::nat)" "(3::nat) < 2 ^ 64" by simp_all
  from stale_after_restarts [OF n, of ?r ?p ?r'] c l c'
  show ?thesis unfolding Let_def by blast
qed

text \<open>
  The resolver confuses distinct actors when a namespace contains a colon:
  registering actor \<open>c\<close> of namespace \<open>a:b\<close> makes the PID of actor \<open>b:c\<close> of namespace
  \<open>a\<close>, which was never registered, resolve as current.
\<close>

theorem Key_collision:
  "let p = \<lparr>pidNamespace = ''a:b'', pidActorID = ''c'', pidGeneration = 1\<rparr>;
       q = \<lparr>pidNamespace = ''a'', pidActorID = ''b:c'', pidGeneration = 1\<rparr>
   in resolver_Resolve NewInMemoryPIDResolver q = None \<and>
      pidCurrent (resolver_Resolve (resolver_Register NewInMemoryPIDResolver p) q) q"
  by (simp add: Let_def resolver_defs pidCurrent_def Key_def NewInMemoryPIDResolver_def)

end
