(* ===== verification/NameRegistry.thy ===== *)
theory NameRegistry
  imports Types
begin

text \<open>
  The name registry of \<open>registry.go\<close> (\<open>namedRegistry\<close>) and the name check of
  \<open>types.go\<close>. The registry keeps two maps: names to entries, and actors to the set of their
  names, which \<open>unregisterByActor\<close> walks. The locale \<open>name_registry\<close> is the contract the
  runtime relies on; its reference semantics is one map from names to entries. The inner
  Go set is a list without duplicates, walked in list order.
  The error for an invalid name wraps its sentinel with the quoted name; the model keeps the sentinel.
\<close>

section \<open>Names (validateRegistryName)\<close>

definition nameStart :: "char \<Rightarrow> bool" where
  "nameStart c \<longleftrightarrow> (c \<in> set ''ABCDEFGHIJKLMNOPQRSTUVWXYZabcdefghijklmnopqrstuvwxyz0123456789'')"

definition nameChar :: "char \<Rightarrow> bool" where
  "nameChar c \<longleftrightarrow> nameStart c \<or> c \<in> set ''._-''"

text \<open>The pattern \<open>^[A-Za-z0-9][A-Za-z0-9._-]{0,127}$\<close>, matched against the whole string.\<close>

fun validateRegistryName :: "string \<Rightarrow> error option" where
  "validateRegistryName [] = Some ErrRegistryNameInvalid"
| "validateRegistryName (c # cs) =
     (if nameStart c \<and> list_all nameChar cs \<and> length cs \<le> 127 then None
      else Some ErrRegistryNameInvalid)"

section \<open>The registry\<close>

record registryEntry =
  reName :: string
  reActorID :: string
  rePid :: PID

record namedRegistry =
  nrByName :: "string \<rightharpoonup> registryEntry"
  nrByActor :: "string \<rightharpoonup> string list"

definition newNamedRegistry :: namedRegistry where
  "newNamedRegistry = \<lparr>nrByName = Map.empty, nrByActor = Map.empty\<rparr>"

definition nr_register ::
    "namedRegistry \<Rightarrow> string \<Rightarrow> string \<Rightarrow> PID \<Rightarrow> namedRegistry \<times> (error + registryEntry)" where
  "nr_register r name actorID pid =
     (case validateRegistryName name of
        Some err \<Rightarrow> (r, Inl err)
      | None \<Rightarrow>
         (case nrByName r name of
            Some _ \<Rightarrow> (r, Inl ErrRegistryDuplicateName)
          | None \<Rightarrow>
             let entry = \<lparr>reName = name, reActorID = actorID, rePid = pid\<rparr>;
                 names = (case nrByActor r actorID of None \<Rightarrow> [] | Some ns \<Rightarrow> ns)
             in (r\<lparr>nrByName := (nrByName r)(name \<mapsto> entry),
                   nrByActor := (nrByActor r)(actorID \<mapsto> List.insert name names)\<rparr>, Inr entry)))"

definition nr_lookup :: "namedRegistry \<Rightarrow> string \<Rightarrow> registryEntry option" where
  "nr_lookup r name = nrByName r name"

definition nr_unregister :: "namedRegistry \<Rightarrow> string \<Rightarrow> namedRegistry \<times> registryEntry option" where
  "nr_unregister r name =
     (case nrByName r name of
        None \<Rightarrow> (r, None)
      | Some entry \<Rightarrow>
         let r = r\<lparr>nrByName := (nrByName r)(name := None)\<rparr>
         in (case nrByActor r (reActorID entry) of
               None \<Rightarrow> (r, Some entry)
             | Some names \<Rightarrow>
                let names = removeAll name names
                in (r\<lparr>nrByActor := (nrByActor r)(reActorID entry := (if names = [] then None else Some names))\<rparr>,
                    Some entry)))"

text \<open>The loop over \<open>names\<close>: collect and delete the entries that exist.\<close>

fun nr_dropNames :: "(string \<rightharpoonup> registryEntry) \<Rightarrow> string list \<Rightarrow> (string \<rightharpoonup> registryEntry) \<times> registryEntry list" where
  "nr_dropNames m [] = (m, [])"
| "nr_dropNames m (name # names) =
     (case m name of
        None \<Rightarrow> nr_dropNames m names
      | Some entry \<Rightarrow> let (m', out) = nr_dropNames (m(name := None)) names in (m', entry # out))"

definition nr_unregisterByActor :: "namedRegistry \<Rightarrow> string \<Rightarrow> namedRegistry \<times> registryEntry list" where
  "nr_unregisterByActor r actorID =
     (case nrByActor r actorID of
        None \<Rightarrow> (r, [])
      | Some names \<Rightarrow>
         let (m, out) = nr_dropNames (nrByName r) names
         in (r\<lparr>nrByName := m, nrByActor := (nrByActor r)(actorID := None)\<rparr>, out))"

text \<open>
  The two maps agree: an actor's list holds, once each, exactly the names whose entry belongs
  to the actor, no list is empty, and an entry carries its own name.
\<close>

definition nrInv :: "namedRegistry \<Rightarrow> bool" where
  "nrInv r \<longleftrightarrow>
     (\<forall>a ns. nrByActor r a = Some ns \<longrightarrow> ns \<noteq> [] \<and> distinct ns) \<and>
     (\<forall>n e. nrByName r n = Some e \<longrightarrow> reName e = n \<and> validateRegistryName n = None) \<and>
     (\<forall>n a. (\<exists>e. nrByName r n = Some e \<and> reActorID e = a) \<longleftrightarrow>
            (\<exists>ns. nrByActor r a = Some ns \<and> n \<in> set ns))"

section \<open>The contract\<close>

datatype nrOp = NrRegister string string PID | NrUnregister string | NrUnregisterByActor string

text \<open>The reference: one map from names to entries.\<close>

fun nrSpec :: "(string \<rightharpoonup> registryEntry) \<Rightarrow> nrOp \<Rightarrow> (string \<rightharpoonup> registryEntry)" where
  "nrSpec m (NrRegister n a p) =
     (if validateRegistryName n = None \<and> m n = None
      then m(n \<mapsto> \<lparr>reName = n, reActorID = a, rePid = p\<rparr>) else m)"
| "nrSpec m (NrUnregister n) = m(n := None)"
| "nrSpec m (NrUnregisterByActor a) =
     (\<lambda>n. case m n of None \<Rightarrow> None | Some e \<Rightarrow> if reActorID e = a then None else Some e)"

text \<open>One operation on a registry with the given implementations.\<close>

fun nrStepOf ::
    "('r \<Rightarrow> string \<Rightarrow> string \<Rightarrow> PID \<Rightarrow> 'r \<times> (error + registryEntry)) \<Rightarrow> ('r \<Rightarrow> string \<Rightarrow> 'r \<times> registryEntry option) \<Rightarrow>
     ('r \<Rightarrow> string \<Rightarrow> 'r \<times> registryEntry list) \<Rightarrow> 'r \<Rightarrow> nrOp \<Rightarrow> 'r" where
  "nrStepOf reg unreg unregA r (NrRegister n a p) = fst (reg r n a p)"
| "nrStepOf reg unreg unregA r (NrUnregister n) = fst (unreg r n)"
| "nrStepOf reg unreg unregA r (NrUnregisterByActor a) = fst (unregA r a)"

locale name_registry =
  fixes reg :: "'r \<Rightarrow> string \<Rightarrow> string \<Rightarrow> PID \<Rightarrow> 'r \<times> (error + registryEntry)"
    and look :: "'r \<Rightarrow> string \<Rightarrow> registryEntry option"
    and unreg :: "'r \<Rightarrow> string \<Rightarrow> 'r \<times> registryEntry option"
    and unregA :: "'r \<Rightarrow> string \<Rightarrow> 'r \<times> registryEntry list"
    and inv :: "'r \<Rightarrow> bool"
  assumes inv_reg: "inv r \<Longrightarrow> inv (fst (reg r n a p))"
    and inv_unreg: "inv r \<Longrightarrow> inv (fst (unreg r n))"
    and inv_unregA: "inv r \<Longrightarrow> inv (fst (unregA r a))"
    and look_reg: "inv r \<Longrightarrow> look (fst (reg r n a p)) = nrSpec (look r) (NrRegister n a p)"
    and look_unreg: "inv r \<Longrightarrow> look (fst (unreg r n)) = nrSpec (look r) (NrUnregister n)"
    and look_unregA: "inv r \<Longrightarrow> look (fst (unregA r a)) = nrSpec (look r) (NrUnregisterByActor a)"
    and out_unregA: "inv r \<Longrightarrow>
          distinct (snd (unregA r a)) \<and>
          set (snd (unregA r a)) = {e. \<exists>n. look r n = Some e \<and> reActorID e = a}"
begin

lemma inv_step: "inv r \<Longrightarrow> inv (nrStepOf reg unreg unregA r op)"
  by (cases op) (simp_all add: inv_reg inv_unreg inv_unregA)

lemma look_step: "inv r \<Longrightarrow> look (nrStepOf reg unreg unregA r op) = nrSpec (look r) op"
  by (cases op) (simp_all add: look_reg look_unreg look_unregA del: nrSpec.simps)

lemma simulation:
  "inv r \<Longrightarrow> inv (foldl (nrStepOf reg unreg unregA) r ops) \<and>
     look (foldl (nrStepOf reg unreg unregA) r ops) = foldl nrSpec (look r) ops"
  by (induction ops arbitrary: r) (simp_all add: inv_step look_step)

end

section \<open>The registry meets the contract\<close>

lemma validateRegistryName_None:
  "validateRegistryName name = None \<longleftrightarrow>
     name \<noteq> [] \<and> length name \<le> 128 \<and> nameStart (hd name) \<and> list_all nameChar (tl name)"
  by (cases name) auto

lemma nr_lookup_eq: "nr_lookup r = nrByName r"
  by (rule ext) (simp add: nr_lookup_def)

lemma nrInv_new: "nrInv newNamedRegistry"
  by (simp add: nrInv_def newNamedRegistry_def)

lemma nr_dropNames_spec:
  "distinct ns \<Longrightarrow> (\<forall>n\<in>set ns. \<exists>e. m n = Some e) \<Longrightarrow>
     nr_dropNames m ns = ((\<lambda>n. if n \<in> set ns then None else m n), map (\<lambda>n. the (m n)) ns)"
proof (induction ns arbitrary: m)
  case Nil
  then show ?case by simp
next
  case (Cons n ns)
  then obtain e where e: "m n = Some e" by auto
  have "nr_dropNames (m(n := None)) ns =
      ((\<lambda>k. if k \<in> set ns then None else (m(n := None)) k), map (\<lambda>k. the ((m(n := None)) k)) ns)"
    using Cons.prems by (intro Cons.IH) auto
  moreover have "map (\<lambda>k. the ((m(n := None)) k)) ns = map (\<lambda>k. the (m k)) ns"
    using Cons.prems(1) by (intro map_cong) auto
  ultimately show ?case using e by (auto simp: fun_eq_iff)
qed

lemma nrInv_byActor:
  assumes "nrInv r" and "nrByActor r a = Some ns"
  shows "distinct ns" and "n \<in> set ns \<Longrightarrow> \<exists>e. nrByName r n = Some e \<and> reActorID e = a"
  using assms unfolding nrInv_def by blast+

lemma nr_unregisterByActor_spec:
  assumes "nrInv r"
  shows "nrByName (fst (nr_unregisterByActor r a)) = nrSpec (nrByName r) (NrUnregisterByActor a)"
    and "nrByActor (fst (nr_unregisterByActor r a)) = (nrByActor r)(a := None)"
    and "snd (nr_unregisterByActor r a) =
           map (\<lambda>n. the (nrByName r n)) (case nrByActor r a of None \<Rightarrow> [] | Some ns \<Rightarrow> ns)"
proof -
  have mem: "(\<exists>e. nrByName r n = Some e \<and> reActorID e = a) \<longleftrightarrow>
      (\<exists>ns. nrByActor r a = Some ns \<and> n \<in> set ns)" for n
    using assms unfolding nrInv_def by blast
  have d: "nrByActor r a = Some ns \<Longrightarrow>
      nr_dropNames (nrByName r) ns =
        ((\<lambda>n. if n \<in> set ns then None else nrByName r n), map (\<lambda>n. the (nrByName r n)) ns)" for ns
    using nrInv_byActor [OF assms] by (intro nr_dropNames_spec) blast+
  show "nrByName (fst (nr_unregisterByActor r a)) = nrSpec (nrByName r) (NrUnregisterByActor a)"
  proof
    fix n
    show "nrByName (fst (nr_unregisterByActor r a)) n = nrSpec (nrByName r) (NrUnregisterByActor a) n"
      using mem [of n] by (auto simp: nr_unregisterByActor_def d split: option.splits)
  qed
  show "nrByActor (fst (nr_unregisterByActor r a)) = (nrByActor r)(a := None)"
    by (auto simp: nr_unregisterByActor_def d split: option.splits)
  show "snd (nr_unregisterByActor r a) =
      map (\<lambda>n. the (nrByName r n)) (case nrByActor r a of None \<Rightarrow> [] | Some ns \<Rightarrow> ns)"
    by (auto simp: nr_unregisterByActor_def d split: option.splits)
qed

lemma nrInv_unregisterByActor: "nrInv r \<Longrightarrow> nrInv (fst (nr_unregisterByActor r a))"
proof -
  assume inv: "nrInv r"
  have m: "(\<exists>e. nrByName r n = Some e \<and> reActorID e = b) \<longleftrightarrow>
      (\<exists>ns. nrByActor r b = Some ns \<and> n \<in> set ns)" for n b
    using inv unfolding nrInv_def by blast
  show ?thesis
    unfolding nrInv_def nr_unregisterByActor_spec [OF inv]
  proof (intro conjI allI)
    fix n b
    show "(\<exists>e. nrSpec (nrByName r) (NrUnregisterByActor a) n = Some e \<and> reActorID e = b) \<longleftrightarrow>
        (\<exists>ns. ((nrByActor r)(a := None)) b = Some ns \<and> n \<in> set ns)"
      using m [of n b] m [of n a] by (auto split: option.splits if_splits)
  qed (use inv in \<open>auto simp: nrInv_def split: option.splits if_splits\<close>)
qed

lemma nr_register_ok:
  assumes "validateRegistryName n = None" and "nrByName r n = None"
  shows "nrByName (fst (nr_register r n a p)) = (nrByName r)(n \<mapsto> \<lparr>reName = n, reActorID = a, rePid = p\<rparr>)"
    and "nrByActor (fst (nr_register r n a p)) = (nrByActor r)(a \<mapsto>
           List.insert n (case nrByActor r a of None \<Rightarrow> [] | Some ns \<Rightarrow> ns))"
  using assms by (simp_all add: nr_register_def Let_def)

lemma nr_register_rejected:
  "validateRegistryName n \<noteq> None \<or> nrByName r n \<noteq> None \<Longrightarrow> fst (nr_register r n a p) = r"
  by (auto simp: nr_register_def split: option.splits)

lemma nrInv_register: "nrInv r \<Longrightarrow> nrInv (fst (nr_register r n a p))"
proof (cases "validateRegistryName n = None \<and> nrByName r n = None")
  case True
  assume inv: "nrInv r"
  have m: "(\<exists>e. nrByName r k = Some e \<and> reActorID e = b) \<longleftrightarrow>
      (\<exists>ns. nrByActor r b = Some ns \<and> k \<in> set ns)" for k b
    using inv unfolding nrInv_def by blast
  show ?thesis
    unfolding nrInv_def nr_register_ok [OF True [THEN conjunct1] True [THEN conjunct2]]
  proof (intro conjI allI)
    fix k b
    show "(\<exists>e. ((nrByName r)(n \<mapsto> \<lparr>reName = n, reActorID = a, rePid = p\<rparr>)) k = Some e \<and> reActorID e = b) \<longleftrightarrow>
        (\<exists>ns. ((nrByActor r)(a \<mapsto> List.insert n (case nrByActor r a of None \<Rightarrow> [] | Some ns \<Rightarrow> ns))) b =
           Some ns \<and> k \<in> set ns)"
      using m [of k b] m [of n b] True by (auto split: option.splits)
  qed (use inv True in \<open>auto simp: nrInv_def List.insert_def split: option.splits if_splits\<close>)
qed (simp add: nr_register_rejected)

lemma nr_unregister_missing: "nrByName r n = None \<Longrightarrow> nr_unregister r n = (r, None)"
  by (simp add: nr_unregister_def)

lemma nr_unregister_found:
  assumes "nrInv r" and "nrByName r n = Some e"
  obtains ns where "nrByActor r (reActorID e) = Some ns" and "n \<in> set ns" and
    "nr_unregister r n = (r\<lparr>nrByName := (nrByName r)(n := None),
       nrByActor := (nrByActor r)(reActorID e := (if removeAll n ns = [] then None else Some (removeAll n ns)))\<rparr>,
       Some e)"
proof -
  from assms obtain ns where "nrByActor r (reActorID e) = Some ns" "n \<in> set ns"
    unfolding nrInv_def by blast
  with assms(2) that show thesis by (simp add: nr_unregister_def Let_def)
qed

lemma nrInv_unregister: "nrInv r \<Longrightarrow> nrInv (fst (nr_unregister r n))"
proof (cases "nrByName r n")
  case None
  assume "nrInv r"
  with None show ?thesis by (simp add: nr_unregister_missing)
next
  case (Some e)
  assume inv: "nrInv r"
  from nr_unregister_found [OF inv Some] obtain ns where ns: "nrByActor r (reActorID e) = Some ns"
    and mem: "n \<in> set ns" and u: "nr_unregister r n = (r\<lparr>nrByName := (nrByName r)(n := None),
       nrByActor := (nrByActor r)(reActorID e := (if removeAll n ns = [] then None else Some (removeAll n ns)))\<rparr>,
       Some e)" by blast
  have m: "(\<exists>e. nrByName r k = Some e \<and> reActorID e = b) \<longleftrightarrow>
      (\<exists>ns. nrByActor r b = Some ns \<and> k \<in> set ns)" for k b
    using inv unfolding nrInv_def by blast
  have e: "(\<exists>l. (if removeAll n ns = [] then None else Some (removeAll n ns)) = Some l \<and> k \<in> set l)
      \<longleftrightarrow> k \<in> set ns \<and> k \<noteq> n" for k
    using set_removeAll [of n ns] by (cases "removeAll n ns") auto
  have f: "nrByName (fst (nr_unregister r n)) = (nrByName r)(n := None)"
    "nrByActor (fst (nr_unregister r n)) =
      (nrByActor r)(reActorID e := (if removeAll n ns = [] then None else Some (removeAll n ns)))"
    by (simp_all add: u)
  show ?thesis
    unfolding nrInv_def f
  proof (intro conjI allI)
    fix k b
    show "(\<exists>x. ((nrByName r)(n := None)) k = Some x \<and> reActorID x = b) \<longleftrightarrow>
       (\<exists>l. ((nrByActor r)(reActorID e := (if removeAll n ns = [] then None else Some (removeAll n ns)))) b =
          Some l \<and> k \<in> set l)"
      using m [of k b] e [of k] ns Some by (cases "b = reActorID e") auto
  qed (use inv ns in \<open>auto simp: nrInv_def distinct_removeAll split: if_splits\<close>)
qed

lemma out_distinct:
  assumes "nrInv r"
  shows "distinct (snd (nr_unregisterByActor r a))"
    and "set (snd (nr_unregisterByActor r a)) = {e. \<exists>n. nrByName r n = Some e \<and> reActorID e = a}"
proof -
  let ?ns = "case nrByActor r a of None \<Rightarrow> [] | Some ns \<Rightarrow> ns"
  have d: "distinct ?ns" using assms by (auto simp: nrInv_def split: option.splits)
  have m: "n \<in> set ?ns \<longleftrightarrow> (\<exists>e. nrByName r n = Some e \<and> reActorID e = a)" for n
    using assms unfolding nrInv_def by (cases "nrByActor r a") auto
  have "inj_on (\<lambda>n. the (nrByName r n)) (set ?ns)"
  proof (rule inj_onI)
    fix x y
    assume "x \<in> set ?ns" "y \<in> set ?ns" "the (nrByName r x) = the (nrByName r y)"
    with m assms show "x = y" unfolding nrInv_def by (metis option.sel)
  qed
  with d show "distinct (snd (nr_unregisterByActor r a))"
    by (simp add: nr_unregisterByActor_spec [OF assms] distinct_map)
  show "set (snd (nr_unregisterByActor r a)) = {e. \<exists>n. nrByName r n = Some e \<and> reActorID e = a}"
    using m by (force simp: nr_unregisterByActor_spec [OF assms] image_iff)
qed

interpretation names: name_registry nr_register nr_lookup nr_unregister nr_unregisterByActor nrInv
proof (unfold_locales, goal_cases)
  case (4 r n a p)
  then show ?case
    by (cases "validateRegistryName n = None \<and> nrByName r n = None")
      (auto simp: nr_lookup_def fun_eq_iff nr_register_ok nr_register_rejected)
next
  case (5 r n)
  then show ?case
    by (cases "nrByName r n")
      (auto simp: nr_lookup_def fun_eq_iff nr_unregister_missing elim: nr_unregister_found)
next
  case (6 r a)
  then show ?case by (simp add: nr_lookup_eq nr_unregisterByActor_spec del: nrSpec.simps)
qed (simp_all add: nrInv_register nrInv_unregister nrInv_unregisterByActor out_distinct nr_lookup_def)

text \<open>
  Starting from an empty registry, after any sequence of register, unregister and
  unregister-by-actor calls, the two maps of the name registry agree with each other and
  \<open>lookup\<close> answers exactly as a single map would: the first valid registration of a free name
  wins, and unregistering an actor frees exactly its names.
\<close>

theorem name_registry_refines_map:
  "let run = foldl (nrStepOf nr_register nr_unregister nr_unregisterByActor) newNamedRegistry ops
   in nrInv run \<and> nr_lookup run = foldl nrSpec Map.empty ops"
proof -
  have e: "nr_lookup newNamedRegistry = Map.empty"
    by (simp add: nr_lookup_def newNamedRegistry_def fun_eq_iff)
  from names.simulation [OF nrInv_new, of ops] show ?thesis by (simp add: e Let_def)
qed

text \<open>
  A name is accepted exactly when it has between 1 and 128 characters, starts with a
  letter or digit and continues with letters, digits, dots, underscores and dashes; registering
  it when it is free makes \<open>lookup\<close> return the new entry, and \<open>unregister\<close> then returns that
  entry and frees the name. Any other name is rejected and the registry is unchanged.
\<close>

theorem name_roundtrip:
  assumes "nrInv r" and "nr_lookup r name = None"
  shows "if name \<noteq> [] \<and> length name \<le> 128 \<and> nameStart (hd name) \<and> list_all nameChar (tl name)
    then \<exists>r1 e r2. nr_register r name actorID pid = (r1, Inr e) \<and>
       e = \<lparr>reName = name, reActorID = actorID, rePid = pid\<rparr> \<and> nr_lookup r1 name = Some e \<and>
       nr_unregister r1 name = (r2, Some e) \<and> nr_lookup r2 = nr_lookup r
    else nr_register r name actorID pid = (r, Inl ErrRegistryNameInvalid)"
proof (cases "validateRegistryName name")
  case None
  have f: "nrByName r name = None" using assms by (simp add: nr_lookup_def)
  let ?e = "\<lparr>reName = name, reActorID = actorID, rePid = pid\<rparr>"
  let ?r1 = "fst (nr_register r name actorID pid)"
  have s: "nr_register r name actorID pid = (?r1, Inr ?e)"
    using None f by (simp add: nr_register_def Let_def)
  have l: "nr_lookup ?r1 name = Some ?e" using None f by (simp add: nr_lookup_def nr_register_ok)
  then have "nrByName ?r1 name = Some ?e" by (simp add: nr_lookup_def)
  from nr_unregister_found [OF nrInv_register [OF assms(1)] this] obtain r2 where
    u: "nr_unregister ?r1 name = (r2, Some ?e)" by metis
  have "nr_lookup r2 = nrSpec (nr_lookup ?r1) (NrUnregister name)"
    using names.look_unreg [OF nrInv_register [OF assms(1)], of name actorID pid name] u by simp
  then have "nr_lookup r2 = nr_lookup r"
    using None f by (auto simp: nr_lookup_def nr_register_ok fun_eq_iff)
  with s l u show ?thesis using None by (auto simp: validateRegistryName_None)
next
  case (Some e)
  then have "e = ErrRegistryNameInvalid" by (cases name) (auto split: if_splits)
  with Some show ?thesis
    using validateRegistryName_None [of name] by (auto simp: nr_register_def)
qed

theorem name_roundtrip_witness:
  "\<exists>r1 e r2. nr_register newNamedRegistry ''db-1'' ''a'' zeroPID = (r1, Inr e) \<and>
     e = \<lparr>reName = ''db-1'', reActorID = ''a'', rePid = zeroPID\<rparr> \<and> nr_lookup r1 ''db-1'' = Some e \<and>
     nr_unregister r1 ''db-1'' = (r2, Some e) \<and> nr_lookup r2 = nr_lookup newNamedRegistry"
  using name_roundtrip [OF nrInv_new, of "''db-1''" "''a''" zeroPID]
  by (simp add: nameStart_def nameChar_def nr_lookup_def newNamedRegistry_def)

end
