(* ===== verification/TypeRouting.thy ===== *)
theory TypeRouting
  imports Types
begin

text \<open>
  Type routing (\<open>routing.go\<close>): an actor may restrict the payload types and schema versions it
  accepts. A rule set holds exact rules, the versions known per type, and an optional fallback.
\<close>

definition defaultSchemaVersion :: string where
  "defaultSchemaVersion = ''v1''"

definition defaultHandlerKey :: string where
  "defaultHandlerKey = ''default''"

datatype routeMatch =
  routeNoRules | routeExact | routeFallback | routeUnsupportedType | routeVersionMismatch

record routeResolution =
  rrMatch :: routeMatch
  rrHandlerKey :: string

record typeRoutingRule =
  trrTypeName :: string
  trrSchemaVersion :: string
  trrHandlerKey :: string
  trrIsFallback :: bool

type_synonym routeKey = "string \<times> string" \<comment> \<open>typeName, schemaVersion\<close>

record actorRoutes =
  arExact :: "(routeKey, typeRoutingRule) gomap"
  arVersions :: "string \<rightharpoonup> string list"
  arFallback :: "typeRoutingRule option"

type_synonym typeRoutingRegistry = "string \<rightharpoonup> actorRoutes"

definition newTypeRoutingRegistry :: typeRoutingRegistry where
  "newTypeRoutingRegistry = Map.empty"

definition tr_ensure :: "typeRoutingRegistry \<Rightarrow> string \<Rightarrow> actorRoutes" where
  "tr_ensure r actorID = (case r actorID of Some ar \<Rightarrow> ar
     | None \<Rightarrow> \<lparr>arExact = [], arVersions = Map.empty, arFallback = None\<rparr>)"

definition registerExact :: "typeRoutingRegistry \<Rightarrow> string \<Rightarrow> string \<Rightarrow> string \<Rightarrow> string \<Rightarrow> typeRoutingRegistry" where
  "registerExact r actorID typeName schemaVersion handlerKey =
     (if typeName = '''' then r
      else
        let schemaVersion = (if schemaVersion = '''' then defaultSchemaVersion else schemaVersion);
            handlerKey = (if handlerKey = '''' then defaultHandlerKey else handlerKey);
            ar = tr_ensure r actorID;
            rule = \<lparr>trrTypeName = typeName, trrSchemaVersion = schemaVersion,
                    trrHandlerKey = handlerKey, trrIsFallback = False\<rparr>;
            versions = (case arVersions ar typeName of None \<Rightarrow> [] | Some vs \<Rightarrow> vs)
        in r(actorID \<mapsto> ar\<lparr>arExact := gomap_put (typeName, schemaVersion) rule (arExact ar),
                          arVersions := (arVersions ar)(typeName \<mapsto> List.insert schemaVersion versions)\<rparr>))"

definition registerFallback :: "typeRoutingRegistry \<Rightarrow> string \<Rightarrow> string \<Rightarrow> typeRoutingRegistry" where
  "registerFallback r actorID handlerKey =
     (let handlerKey = (if handlerKey = '''' then defaultHandlerKey else handlerKey);
          ar = tr_ensure r actorID
      in r(actorID \<mapsto> ar\<lparr>arFallback := Some \<lparr>trrTypeName = '''', trrSchemaVersion = '''',
                                              trrHandlerKey = handlerKey, trrIsFallback = True\<rparr>\<rparr>))"

definition resolveRoute :: "typeRoutingRegistry \<Rightarrow> string \<Rightarrow> string \<Rightarrow> string \<Rightarrow> routeResolution" where
  "resolveRoute r actorID typeName schemaVersion =
     (case r actorID of
        None \<Rightarrow> \<lparr>rrMatch = routeNoRules, rrHandlerKey = ''''\<rparr>
      | Some ar \<Rightarrow>
         if arExact ar = [] \<and> arFallback ar = None then \<lparr>rrMatch = routeNoRules, rrHandlerKey = ''''\<rparr>
         else
           let schemaVersion = (if schemaVersion = '''' then defaultSchemaVersion else schemaVersion)
           in (case map_of (arExact ar) (typeName, schemaVersion) of
                 Some rule \<Rightarrow> \<lparr>rrMatch = routeExact, rrHandlerKey = trrHandlerKey rule\<rparr>
               | None \<Rightarrow>
                  if (case arVersions ar typeName of Some vs \<Rightarrow> vs \<noteq> [] | None \<Rightarrow> False)
                  then \<lparr>rrMatch = routeVersionMismatch, rrHandlerKey = ''''\<rparr>
                  else (case arFallback ar of
                          Some f \<Rightarrow> \<lparr>rrMatch = routeFallback, rrHandlerKey = trrHandlerKey f\<rparr>
                        | None \<Rightarrow> \<lparr>rrMatch = routeUnsupportedType, rrHandlerKey = ''''\<rparr>)))"

text \<open>
  What \<open>reflect.TypeOf(payload).String()\<close> prints: the package-qualified type name.
\<close>

fun messageTypeName :: "any \<Rightarrow> string" where
  "messageTypeName NilAny = ''''"
| "messageTypeName (UserVal u) = uvType u"
| "messageTypeName (AskReplyEnvelope _ _) = ''actor.AskReplyEnvelope''"
| "messageTypeName (BrokerSubscribeCommand _ _) = ''actor.BrokerSubscribeCommand''"
| "messageTypeName (BrokerUnsubscribeCommand _ _) = ''actor.BrokerUnsubscribeCommand''"
| "messageTypeName (BrokerPublishCommand _ _ _) = ''actor.BrokerPublishCommand''"
| "messageTypeName (BrokerRemotePublishCommand _ _ _) = ''actor.brokerRemotePublishCommand''"
| "messageTypeName (BrokerPublishedMessage _ _ _) = ''actor.BrokerPublishedMessage''"
| "messageTypeName (BrokerCommandAckVal _) = ''actor.BrokerCommandAck''"
| "messageTypeName (DownMessage _ _ _) = ''actor.DownMessage''"
| "messageTypeName (ClusterMembershipEvent _ _) = ''actor.ClusterMembershipEvent''"
| "messageTypeName (CronSubscribeCommand _ _ _ _) = ''actor.CronSubscribeCommand''"
| "messageTypeName (CronUnsubscribeCommand _ _) = ''actor.CronUnsubscribeCommand''"
| "messageTypeName (CronUnsubscribeAllCommand _) = ''actor.CronUnsubscribeAllCommand''"
| "messageTypeName (CronListCommand _) = ''actor.CronListCommand''"
| "messageTypeName (CronTickMessage _ _ _) = ''actor.CronTickMessage''"
| "messageTypeName (CronCommandAckVal _) = ''actor.CronCommandAck''"
| "messageTypeName (CronHandoffState _) = ''actor.CronHandoffState''"

definition messageSchemaVersion :: "any \<Rightarrow> string" where
  "messageSchemaVersion payload =
     (case payload of
        UserVal u \<Rightarrow>
          (case uvSchema u of
             None \<Rightarrow> defaultSchemaVersion
           | Some version \<Rightarrow> if version = '''' then defaultSchemaVersion else version)
      | _ \<Rightarrow> defaultSchemaVersion)"

section \<open>Resolution against the registration history\<close>

datatype trOp = TrExact string string string string | TrFallback string string

fun trStep :: "typeRoutingRegistry \<Rightarrow> trOp \<Rightarrow> typeRoutingRegistry" where
  "trStep r (TrExact a t v h) = registerExact r a t v h"
| "trStep r (TrFallback a h) = registerFallback r a h"

definition orDefault :: "string \<Rightarrow> string \<Rightarrow> string" where
  "orDefault d s = (if s = '''' then d else s)"

text \<open>
  The reference reads the registration history, newest first: the handler of the newest exact
  rule for the type and version, whether the type has any rule, the newest fallback.
\<close>

fun histExact :: "trOp list \<Rightarrow> string \<Rightarrow> string \<Rightarrow> string \<Rightarrow> string option" where
  "histExact [] a t v = None"
| "histExact (TrExact a' t' v' h # ops) a t v =
     (if a' = a \<and> t' = t \<and> t' \<noteq> '''' \<and> orDefault defaultSchemaVersion v' = v
      then Some (orDefault defaultHandlerKey h) else histExact ops a t v)"
| "histExact (TrFallback _ _ # ops) a t v = histExact ops a t v"

fun histType :: "trOp list \<Rightarrow> string \<Rightarrow> string \<Rightarrow> bool" where
  "histType [] a t = False"
| "histType (TrExact a' t' _ _ # ops) a t = (a' = a \<and> t' = t \<and> t' \<noteq> '''' \<or> histType ops a t)"
| "histType (TrFallback _ _ # ops) a t = histType ops a t"

fun histAny :: "trOp list \<Rightarrow> string \<Rightarrow> bool" where
  "histAny [] a = False"
| "histAny (TrExact a' t' _ _ # ops) a = (a' = a \<and> t' \<noteq> '''' \<or> histAny ops a)"
| "histAny (TrFallback _ _ # ops) a = histAny ops a"

fun histFallback :: "trOp list \<Rightarrow> string \<Rightarrow> string option" where
  "histFallback [] a = None"
| "histFallback (TrFallback a' h # ops) a =
     (if a' = a then Some (orDefault defaultHandlerKey h) else histFallback ops a)"
| "histFallback (TrExact _ _ _ _ # ops) a = histFallback ops a"

definition routeSpec :: "trOp list \<Rightarrow> string \<Rightarrow> string \<Rightarrow> string \<Rightarrow> routeResolution" where
  "routeSpec hist a t v =
     (if \<not> histAny hist a \<and> histFallback hist a = None then \<lparr>rrMatch = routeNoRules, rrHandlerKey = ''''\<rparr>
      else case histExact hist a t (orDefault defaultSchemaVersion v) of
             Some h \<Rightarrow> \<lparr>rrMatch = routeExact, rrHandlerKey = h\<rparr>
           | None \<Rightarrow>
              if histType hist a t then \<lparr>rrMatch = routeVersionMismatch, rrHandlerKey = ''''\<rparr>
              else case histFallback hist a of
                     Some h \<Rightarrow> \<lparr>rrMatch = routeFallback, rrHandlerKey = h\<rparr>
                   | None \<Rightarrow> \<lparr>rrMatch = routeUnsupportedType, rrHandlerKey = ''''\<rparr>)"

text \<open>The registry state a history describes.\<close>

definition trRel :: "typeRoutingRegistry \<Rightarrow> trOp list \<Rightarrow> bool" where
  "trRel r hist \<longleftrightarrow> (\<forall>a.
     (\<forall>t v. map_option trrHandlerKey (map_of (arExact (tr_ensure r a)) (t, v)) = histExact hist a t v) \<and>
     (\<forall>t. (case arVersions (tr_ensure r a) t of Some vs \<Rightarrow> vs \<noteq> [] | None \<Rightarrow> False) = histType hist a t) \<and>
     (arExact (tr_ensure r a) \<noteq> []) = histAny hist a \<and>
     map_option trrHandlerKey (arFallback (tr_ensure r a)) = histFallback hist a)"

lemma trRel_new: "trRel newTypeRoutingRegistry []"
  by (simp add: trRel_def newTypeRoutingRegistry_def tr_ensure_def)

lemma trRel_exact:
  assumes "trRel r hist"
  shows "trRel (registerExact r a t v h) (TrExact a t v h # hist)"
proof (cases "t = ''''")
  case True
  then show ?thesis using assms by (simp add: trRel_def registerExact_def)
next
  case False
  have e: "tr_ensure (registerExact r a t v h) b =
     (if b = a then (tr_ensure r a)\<lparr>
        arExact := gomap_put (t, orDefault defaultSchemaVersion v)
          \<lparr>trrTypeName = t, trrSchemaVersion = orDefault defaultSchemaVersion v,
           trrHandlerKey = orDefault defaultHandlerKey h, trrIsFallback = False\<rparr> (arExact (tr_ensure r a)),
        arVersions := (arVersions (tr_ensure r a))(t \<mapsto> List.insert (orDefault defaultSchemaVersion v)
          (case arVersions (tr_ensure r a) t of None \<Rightarrow> [] | Some vs \<Rightarrow> vs))\<rparr>
      else tr_ensure r b)" for b
    using False by (simp add: registerExact_def Let_def tr_ensure_def orDefault_def)
  have ne: "List.insert x ys \<noteq> []" for x :: string and ys by (auto simp: List.insert_def)
  from assms False show ?thesis
    by (simp add: trRel_def e ne)
qed

lemma trRel_fallback:
  assumes "trRel r hist"
  shows "trRel (registerFallback r a h) (TrFallback a h # hist)"
proof -
  have e: "tr_ensure (registerFallback r a h) b =
     (if b = a then (tr_ensure r a)\<lparr>arFallback := Some \<lparr>trrTypeName = '''', trrSchemaVersion = '''',
        trrHandlerKey = orDefault defaultHandlerKey h, trrIsFallback = True\<rparr>\<rparr> else tr_ensure r b)" for b
    by (simp add: registerFallback_def Let_def tr_ensure_def orDefault_def)
  from assms show ?thesis by (simp add: trRel_def e)
qed

lemma trRel_step: "trRel r hist \<Longrightarrow> trRel (trStep r op) (op # hist)"
  by (cases op) (simp_all add: trRel_exact trRel_fallback)

lemma trRel_run: "trRel r hist \<Longrightarrow> trRel (foldl trStep r ops) (rev ops @ hist)"
  by (induction ops arbitrary: r hist) (simp_all add: trRel_step)

lemma resolveRoute_ensure:
  "resolveRoute r a t v =
     (let ar = tr_ensure r a; v = orDefault defaultSchemaVersion v
      in if arExact ar = [] \<and> arFallback ar = None then \<lparr>rrMatch = routeNoRules, rrHandlerKey = ''''\<rparr>
      else case map_of (arExact ar) (t, v) of
             Some rule \<Rightarrow> \<lparr>rrMatch = routeExact, rrHandlerKey = trrHandlerKey rule\<rparr>
           | None \<Rightarrow>
              if (case arVersions ar t of Some vs \<Rightarrow> vs \<noteq> [] | None \<Rightarrow> False)
              then \<lparr>rrMatch = routeVersionMismatch, rrHandlerKey = ''''\<rparr>
              else case arFallback ar of
                     Some f \<Rightarrow> \<lparr>rrMatch = routeFallback, rrHandlerKey = trrHandlerKey f\<rparr>
                   | None \<Rightarrow> \<lparr>rrMatch = routeUnsupportedType, rrHandlerKey = ''''\<rparr>)"
  by (cases "r a") (simp_all add: resolveRoute_def tr_ensure_def Let_def orDefault_def)

lemma resolveRoute_rel:
  assumes "trRel r hist"
  shows "resolveRoute r a t v = routeSpec hist a t v"
proof -
  let ?ar = "tr_ensure r a"
  have x: "histExact hist a t w = map_option trrHandlerKey (map_of (arExact ?ar) (t, w))"
    "histType hist a t = (case arVersions ?ar t of Some vs \<Rightarrow> vs \<noteq> [] | None \<Rightarrow> False)"
    "histAny hist a = (arExact ?ar \<noteq> [])"
    "histFallback hist a = map_option trrHandlerKey (arFallback ?ar)" for w
    using assms by (simp_all add: trRel_def)
  show ?thesis
    unfolding resolveRoute_ensure routeSpec_def x Let_def
    by (simp split: option.splits)
qed

text \<open>
  After any sequence of rule registrations, route resolution answers as the history
  says: no rules at all accept everything; the newest exact rule for the type and version wins;
  a type known under other versions only is a version mismatch, even with a fallback; the
  newest fallback takes unknown types; otherwise the type is unsupported.
\<close>

theorem route_resolution_history:
  "resolveRoute (foldl trStep newTypeRoutingRegistry ops) actorID typeName schemaVersion =
   routeSpec (rev ops) actorID typeName schemaVersion"
  using resolveRoute_rel [OF trRel_run [OF trRel_new, of ops]] by simp

end
