(* ===== verification/Outcomes.thy ===== *)
theory Outcomes
  imports Types
begin

text \<open>
  The outcome store (\<open>outcome.go\<close>) and the dead-letter sink (\<open>dead_letters.go\<close>). All
  histories grow by appending, except the readiness history, a ring buffer that keeps the
  newest \<open>readinessHistoryLimit\<close> records.
\<close>

section \<open>The outcome store\<close>

record outcomeStore =
  osByID :: "u64 \<rightharpoonup> ProcessingOutcome"
  osLifecycle :: "LifecycleHookOutcome list"
  osGuardrail :: "GuardrailOutcome list"
  osAsk :: "AskOutcome list"
  osRouting :: "RoutingOutcome list"
  osBatch :: "BatchOutcome list"
  osBroker :: "BrokerOutcome list"
  osBrokerPublished :: "string \<Rightarrow> int"
  osReadiness :: "ReadinessValidationRecord list"
  osReadinessCursor :: nat

definition readinessHistoryLimit :: nat where
  "readinessHistoryLimit = 256"

definition newOutcomeStore :: outcomeStore where
  "newOutcomeStore = \<lparr>osByID = Map.empty, osLifecycle = [], osGuardrail = [], osAsk = [],
     osRouting = [], osBatch = [], osBroker = [], osBrokerPublished = (\<lambda>_. 0),
     osReadiness = [], osReadinessCursor = 0\<rparr>"

definition os_put :: "outcomeStore \<Rightarrow> ProcessingOutcome \<Rightarrow> outcomeStore" where
  "os_put s out = s\<lparr>osByID := (osByID s)(poMessageID out \<mapsto> out)\<rparr>"

definition os_get :: "outcomeStore \<Rightarrow> u64 \<Rightarrow> ProcessingOutcome option" where
  "os_get s mid = osByID s mid"

definition putLifecycle :: "outcomeStore \<Rightarrow> LifecycleHookOutcome \<Rightarrow> outcomeStore" where
  "putLifecycle s out = s\<lparr>osLifecycle := osLifecycle s @ [out]\<rparr>"

definition lifecycleByActor :: "outcomeStore \<Rightarrow> string \<Rightarrow> LifecycleHookOutcome list" where
  "lifecycleByActor s actorID = filter (\<lambda>v. lhoActorID v = actorID) (osLifecycle s)"

definition putGuardrail :: "outcomeStore \<Rightarrow> GuardrailOutcome \<Rightarrow> outcomeStore" where
  "putGuardrail s out = s\<lparr>osGuardrail := osGuardrail s @ [out]\<rparr>"

definition guardrailByActor :: "outcomeStore \<Rightarrow> string \<Rightarrow> GuardrailOutcome list" where
  "guardrailByActor s actorID = filter (\<lambda>v. goActorID v = actorID) (osGuardrail s)"

definition putReadiness :: "outcomeStore \<Rightarrow> ReadinessValidationRecord \<Rightarrow> outcomeStore" where
  "putReadiness s out =
     (if length (osReadiness s) < readinessHistoryLimit
      then s\<lparr>osReadiness := osReadiness s @ [out]\<rparr>
      else s\<lparr>osReadiness := (osReadiness s)[osReadinessCursor s := out],
             osReadinessCursor := (osReadinessCursor s + 1) mod readinessHistoryLimit\<rparr>)"

definition putAsk :: "outcomeStore \<Rightarrow> AskOutcome \<Rightarrow> outcomeStore" where
  "putAsk s out = s\<lparr>osAsk := osAsk s @ [out]\<rparr>"

definition askByActor :: "outcomeStore \<Rightarrow> string \<Rightarrow> AskOutcome list" where
  "askByActor s actorID = filter (\<lambda>v. aoActorID v = actorID) (osAsk s)"

definition putRouting :: "outcomeStore \<Rightarrow> RoutingOutcome \<Rightarrow> outcomeStore" where
  "putRouting s out = s\<lparr>osRouting := osRouting s @ [out]\<rparr>"

definition routingByRouter :: "outcomeStore \<Rightarrow> string \<Rightarrow> RoutingOutcome list" where
  "routingByRouter s routerID = filter (\<lambda>v. roRouterID v = routerID) (osRouting s)"

definition putBatch :: "outcomeStore \<Rightarrow> BatchOutcome \<Rightarrow> outcomeStore" where
  "putBatch s out = s\<lparr>osBatch := osBatch s @ [out]\<rparr>"

definition batchByActor :: "outcomeStore \<Rightarrow> string \<Rightarrow> BatchOutcome list" where
  "batchByActor s actorID = filter (\<lambda>v. boActorID v = actorID) (osBatch s)"

definition putBroker :: "outcomeStore \<Rightarrow> BrokerOutcome \<Rightarrow> outcomeStore" where
  "putBroker s out =
     (let s = s\<lparr>osBroker := osBroker s @ [out]\<rparr>
      in if brOperation out = BrokerOperationPublish
         then s\<lparr>osBrokerPublished := (osBrokerPublished s)(brBrokerID out := osBrokerPublished s (brBrokerID out) + 1)\<rparr>
         else s)"

definition brokerByID :: "outcomeStore \<Rightarrow> string \<Rightarrow> BrokerOutcome list" where
  "brokerByID s brokerID = filter (\<lambda>v. brBrokerID v = brokerID) (osBroker s)"

definition brokerPublishedCount :: "outcomeStore \<Rightarrow> string \<Rightarrow> int" where
  "brokerPublishedCount s brokerID = osBrokerPublished s brokerID"

text \<open>
  The two \<open>copy\<close> calls fill the output with the part from the cursor on and then the part
  before it.
\<close>

definition readinessAll :: "outcomeStore \<Rightarrow> ReadinessValidationRecord list" where
  "readinessAll s =
     (if length (osReadiness s) < readinessHistoryLimit then osReadiness s
      else drop (osReadinessCursor s) (osReadiness s) @ take (osReadinessCursor s) (osReadiness s))"

lemmas outcome_defs [rt_defs] = os_put_def putLifecycle_def putGuardrail_def putReadiness_def putAsk_def
  putRouting_def putBatch_def putBroker_def

section \<open>The readiness ring buffer keeps the newest records\<close>

definition lastN :: "nat \<Rightarrow> 'a list \<Rightarrow> 'a list" where
  "lastN n xs = drop (length xs - n) xs"

lemma lastN_snoc_short: "length xs < n \<Longrightarrow> lastN n (xs @ [x]) = lastN n xs @ [x]"
  by (simp add: lastN_def)

lemma lastN_snoc_long: "n \<le> length xs \<Longrightarrow> 0 < n \<Longrightarrow> lastN n (xs @ [x]) = tl (lastN n xs) @ [x]"
  by (simp add: lastN_def Suc_diff_le drop_Suc flip: tl_drop)

lemma rotate_update:
  assumes "c < length xs"
  shows "drop (Suc c) (xs[c := x]) @ take (Suc c) (xs[c := x]) = tl (drop c xs @ take c xs) @ [x]"
proof -
  have "take (Suc c) (xs[c := x]) = take c xs @ [x]"
    using assms by (simp add: take_Suc_conv_app_nth)
  moreover have "drop c xs = xs ! c # drop (Suc c) xs"
    using assms by (simp add: Cons_nth_drop_Suc)
  ultimately show ?thesis by simp
qed

definition readinessRel :: "outcomeStore \<Rightarrow> ReadinessValidationRecord list \<Rightarrow> bool" where
  "readinessRel s hist \<longleftrightarrow>
     (if length hist < readinessHistoryLimit then osReadiness s = hist \<and> osReadinessCursor s = 0
      else length (osReadiness s) = readinessHistoryLimit \<and> osReadinessCursor s < readinessHistoryLimit \<and>
        drop (osReadinessCursor s) (osReadiness s) @ take (osReadinessCursor s) (osReadiness s) =
          lastN readinessHistoryLimit hist)"

lemma readinessRel_short:
  assumes "readinessRel s hist" and "length hist < readinessHistoryLimit"
  shows "readinessRel (putReadiness s x) (hist @ [x])"
  using assms by (auto simp: readinessRel_def putReadiness_def lastN_def readinessHistoryLimit_def)

lemma readinessRel_full:
  assumes "readinessRel s hist" and "\<not> length hist < readinessHistoryLimit"
  shows "readinessRel (putReadiness s x) (hist @ [x])"
proof -
  let ?c = "osReadinessCursor s" and ?xs = "osReadiness s" and ?n = readinessHistoryLimit
  from assms have l: "length ?xs = ?n" and c: "?c < ?n"
    and r: "drop ?c ?xs @ take ?c ?xs = lastN ?n hist"
    by (simp_all add: readinessRel_def)
  have n: "0 < ?n" by (simp add: readinessHistoryLimit_def)
  have p: "osReadiness (putReadiness s x) = ?xs[?c := x]"
    "osReadinessCursor (putReadiness s x) = (?c + 1) mod ?n"
    using l by (simp_all add: putReadiness_def)
  have "drop (Suc ?c) (?xs[?c := x]) @ take (Suc ?c) (?xs[?c := x]) = lastN ?n (hist @ [x])"
    using rotate_update [of ?c ?xs x] r c l n assms(2) by (simp add: lastN_snoc_long)
  moreover have "drop (Suc ?c mod ?n) (?xs[?c := x]) @ take (Suc ?c mod ?n) (?xs[?c := x]) =
      drop (Suc ?c) (?xs[?c := x]) @ take (Suc ?c) (?xs[?c := x])"
    using c l by (cases "Suc ?c = ?n") auto
  ultimately show ?thesis using p l n assms(2) by (simp add: readinessRel_def)
qed

lemma readinessRel_run:
  "readinessRel s hist \<Longrightarrow> readinessRel (foldl putReadiness s outs) (hist @ outs)"
proof (induction outs arbitrary: s hist)
  case (Cons x outs)
  have "readinessRel (putReadiness s x) (hist @ [x])"
    using readinessRel_short readinessRel_full Cons.prems by blast
  from Cons.IH [OF this] show ?case by simp
qed simp

text \<open>
  Whatever sequence of readiness records is stored, \<open>readinessAll\<close> returns the newest
  256 of them (all of them while there are fewer), oldest first.
\<close>

theorem readiness_ring_buffer:
  "readinessAll (foldl putReadiness newOutcomeStore outs) = lastN readinessHistoryLimit outs"
proof -
  have "readinessRel newOutcomeStore []"
    by (simp add: readinessRel_def newOutcomeStore_def readinessHistoryLimit_def)
  from readinessRel_run [OF this, of outs] show ?thesis
    by (auto simp: readinessRel_def readinessAll_def lastN_def split: if_splits)
qed

section \<open>Dead letters (dead_letters.go)\<close>

record DeadLetter =
  dlTargetActorID :: string
  dlTargetPID :: PID
  dlPayload :: any
  dlReason :: string

text \<open>
  The handler is a callback of the embedding program: the model records whether one is
  installed and the letters it was given.
\<close>

record deadLetterSink =
  dlsHandler :: bool
  dlsCount :: u64
  dlsDelivered :: "DeadLetter list"

definition newDeadLetterSink :: deadLetterSink where
  "newDeadLetterSink = \<lparr>dlsHandler = False, dlsCount = 0, dlsDelivered = []\<rparr>"

definition dls_setHandler :: "deadLetterSink \<Rightarrow> bool \<Rightarrow> deadLetterSink" where
  "dls_setHandler s h = s\<lparr>dlsHandler := h\<rparr>"

definition dls_emit :: "deadLetterSink \<Rightarrow> DeadLetter \<Rightarrow> deadLetterSink" where
  "dls_emit s letter =
     (let s = s\<lparr>dlsCount := dlsCount s + 1\<rparr>
      in if dlsHandler s then s\<lparr>dlsDelivered := dlsDelivered s @ [letter]\<rparr> else s)"

definition dls_Count :: "deadLetterSink \<Rightarrow> u64" where
  "dls_Count s = dlsCount s"

definition dls_emitPID :: "deadLetterSink \<Rightarrow> PID \<Rightarrow> any \<Rightarrow> string \<Rightarrow> deadLetterSink" where
  "dls_emitPID s pid payload reason = dls_emit s
     \<lparr>dlTargetActorID = pidActorID pid, dlTargetPID = pid, dlPayload = payload, dlReason = reason\<rparr>"

definition dls_emitActor :: "deadLetterSink \<Rightarrow> string \<Rightarrow> any \<Rightarrow> string \<Rightarrow> deadLetterSink" where
  "dls_emitActor s actorID payload reason = dls_emit s
     \<lparr>dlTargetActorID = actorID, dlTargetPID = zeroPID, dlPayload = payload, dlReason = reason\<rparr>"

end
