(* ===== verification/Supervisor.thy ===== *)
theory Supervisor
  imports Types
begin

text \<open>
  Supervision decisions (\<open>supervisor.go\<close>). The locale \<open>restart_bound\<close> is what the runtime
  needs of a \<open>SupervisorPolicy\<close> to keep a property of the restart count; \<open>restart_budget\<close>
  is the contract of a policy that restarts only below a budget and gives such a property.
  \<open>DefaultSupervisor\<close> meets it; every policy meets the trivial one.
\<close>

type_synonym SupervisorPolicy = "string \<Rightarrow> error \<Rightarrow> int \<Rightarrow> SupervisionDecision"

record DefaultSupervisor =
  dsMaxRestarts :: int
  dsOnLimit :: SupervisionDecision

definition effectiveMax :: "DefaultSupervisor \<Rightarrow> int" where
  "effectiveMax d = (if dsMaxRestarts d < 0 then 1 else dsMaxRestarts d)"

definition Decide :: "DefaultSupervisor \<Rightarrow> SupervisorPolicy" where
  "Decide d actorID err restartCount =
     (if restartCount < effectiveMax d then DecisionRestart
      else if dsOnLimit d = DecisionEscalate then DecisionEscalate
      else DecisionStop)"

text \<open>
  The decisions for a run of failures of one actor, each counted as the runtime counts them:
  the restart count grows by one at each restart, and the run ends at the first decision that
  is not a restart.
\<close>

fun decisionRun :: "SupervisorPolicy \<Rightarrow> string \<Rightarrow> error list \<Rightarrow> int \<Rightarrow> SupervisionDecision list" where
  "decisionRun pol actorID [] n = []"
| "decisionRun pol actorID (e # es) n =
     (if pol actorID e n = DecisionRestart then DecisionRestart # decisionRun pol actorID es (n + 1)
      else [pol actorID e n])"

locale restart_bound =
  fixes pol :: SupervisorPolicy and B :: "int \<Rightarrow> bool"
  assumes bound_zero: "B 0"
    and bound_step: "B n \<Longrightarrow> pol a e n = DecisionRestart \<Longrightarrow> B (n + 1)"

locale restart_budget =
  fixes pol :: SupervisorPolicy and budget :: int
  assumes budget_nonneg: "0 \<le> budget"
    and restart_below: "pol a e n = DecisionRestart \<Longrightarrow> n < budget"

sublocale restart_budget \<subseteq> within: restart_bound pol "\<lambda>n. 0 \<le> n \<and> n \<le> budget"
proof unfold_locales
  fix n a e
  assume "0 \<le> n \<and> n \<le> budget" and "pol a e n = DecisionRestart"
  then show "0 \<le> n + 1 \<and> n + 1 \<le> budget" using restart_below [of a e n] by simp
qed (simp add: budget_nonneg)

interpretation dflt: restart_budget "Decide d" "effectiveMax d" for d
  by unfold_locales (simp_all add: Decide_def effectiveMax_def split: if_splits)

interpretation anyPolicy: restart_bound pol "\<lambda>_. True" for pol
  by unfold_locales simp_all

lemma Decide_restart_iff: "Decide d a e n = DecisionRestart \<longleftrightarrow> n < effectiveMax d"
  by (simp add: Decide_def)

lemma Decide_run:
  "0 \<le> n \<Longrightarrow> n \<le> effectiveMax d \<Longrightarrow>
   decisionRun (Decide d) a es n =
     replicate (min (length es) (nat (effectiveMax d - n))) DecisionRestart @
     (if nat (effectiveMax d - n) < length es
      then [if dsOnLimit d = DecisionEscalate then DecisionEscalate else DecisionStop] else [])"
proof (induction es arbitrary: n)
  case (Cons e es)
  show ?case
  proof (cases "n < effectiveMax d")
    case True
    then have "nat (effectiveMax d - n) = Suc (nat (effectiveMax d - (n + 1)))" by simp
    with True Cons.IH [of "n + 1"] Cons.prems show ?thesis by (simp add: Decide_restart_iff)
  next
    case False
    with Cons.prems show ?thesis by (simp add: Decide_def)
  qed
qed simp

text \<open>
  Under \<open>DefaultSupervisor\<close> a run of failures is answered by exactly
  \<open>MaxRestarts\<close> restarts (one when the field is negative) and then by the limit action:
  escalation if the policy asks for it, a stop otherwise.
\<close>

theorem default_supervisor_run:
  "decisionRun (Decide d) actorID errs 0 =
     replicate (min (length errs) (nat (effectiveMax d))) DecisionRestart @
     (if nat (effectiveMax d) < length errs
      then [if dsOnLimit d = DecisionEscalate then DecisionEscalate else DecisionStop] else [])"
  using Decide_run [of 0 d actorID errs] by (simp add: effectiveMax_def split: if_splits)

end
