(* ===== verification/Monitors.thy ===== *)
theory Monitors
  imports Types
begin

text \<open>
  The monitor manager (\<open>monitors.go\<close>): who is told when an actor stops. Monitors are indexed by
  target and by reference; the theorem shows that the two indexes stay the two views of one
  list of live monitors. The operations of the runtime that use the manager are in theory
  \<open>Runtime\<close>.
\<close>

record monitorEntry =
  meRef :: u64
  meWatcher :: PID
  meTarget :: PID

record monitorManager =
  mmSeq :: u64
  mmByTarget :: "string \<rightharpoonup> monitorEntry list"
  mmByRef :: "u64 \<rightharpoonup> monitorEntry"

definition newMonitorManager :: monitorManager where
  "newMonitorManager = \<lparr>mmSeq = 0, mmByTarget = Map.empty, mmByRef = Map.empty\<rparr>"

text \<open>Indexing a Go map of slices: a missing key gives the empty slice.\<close>

definition sliceAt :: "('k \<rightharpoonup> 'v list) \<Rightarrow> 'k \<Rightarrow> 'v list" where
  "sliceAt m k = (case m k of None \<Rightarrow> [] | Some xs \<Rightarrow> xs)"

definition mm_add :: "monitorManager \<Rightarrow> PID \<Rightarrow> PID \<Rightarrow> monitorManager \<times> u64" where
  "mm_add mm watcher target =
     (let i = mmSeq mm + 1;
          entry = \<lparr>meRef = i, meWatcher = watcher, meTarget = target\<rparr>;
          t = pidActorID target
      in (mm\<lparr>mmSeq := i,
             mmByTarget := (mmByTarget mm)(t \<mapsto> sliceAt (mmByTarget mm) t @ [entry]),
             mmByRef := (mmByRef mm)(i \<mapsto> entry)\<rparr>, i))"

fun removeFirstRef :: "u64 \<Rightarrow> monitorEntry list \<Rightarrow> monitorEntry list" where
  "removeFirstRef i [] = []"
| "removeFirstRef i (e # es) = (if meRef e = i then es else e # removeFirstRef i es)"

definition mm_remove :: "monitorManager \<Rightarrow> u64 \<Rightarrow> monitorManager \<times> bool" where
  "mm_remove mm ref =
     (case mmByRef mm ref of
        None \<Rightarrow> (mm, False)
      | Some entry \<Rightarrow>
         let t = pidActorID (meTarget entry);
             entries = sliceAt (mmByTarget mm) t;
             m = (if \<exists>e\<in>set entries. meRef e = ref
                  then (mmByTarget mm)(t \<mapsto> removeFirstRef ref entries) else mmByTarget mm);
             m = (if sliceAt m t = [] then m(t := None) else m)
         in (mm\<lparr>mmByRef := (mmByRef mm)(ref := None), mmByTarget := m\<rparr>, True))"

fun dropRefs :: "(u64 \<rightharpoonup> monitorEntry) \<Rightarrow> monitorEntry list \<Rightarrow> (u64 \<rightharpoonup> monitorEntry)" where
  "dropRefs m [] = m"
| "dropRefs m (e # es) = dropRefs (m(meRef e := None)) es"

definition mm_drain :: "monitorManager \<Rightarrow> string \<Rightarrow> monitorManager \<times> monitorEntry list" where
  "mm_drain mm targetActorID =
     (let entries = sliceAt (mmByTarget mm) targetActorID
      in (mm\<lparr>mmByTarget := (mmByTarget mm)(targetActorID := None),
             mmByRef := dropRefs (mmByRef mm) entries\<rparr>, entries))"

section \<open>One list of live monitors\<close>

datatype mmOp = MmAdd PID PID | MmRemove u64 | MmDrain string

fun mmStep :: "monitorManager \<Rightarrow> mmOp \<Rightarrow> monitorManager" where
  "mmStep mm (MmAdd w t) = fst (mm_add mm w t)"
| "mmStep mm (MmRemove i) = fst (mm_remove mm i)"
| "mmStep mm (MmDrain t) = fst (mm_drain mm t)"

text \<open>The reference state: the number of monitors ever added and the live ones in order.\<close>

fun mmSpec :: "nat \<times> monitorEntry list \<Rightarrow> mmOp \<Rightarrow> nat \<times> monitorEntry list" where
  "mmSpec (n, live) (MmAdd w t) =
     (Suc n, live @ [\<lparr>meRef = of_nat (Suc n), meWatcher = w, meTarget = t\<rparr>])"
| "mmSpec (n, live) (MmRemove i) = (n, filter (\<lambda>e. meRef e \<noteq> i) live)"
| "mmSpec (n, live) (MmDrain t) = (n, filter (\<lambda>e. pidActorID (meTarget e) \<noteq> t) live)"

definition forTarget :: "string \<Rightarrow> monitorEntry list \<Rightarrow> monitorEntry list" where
  "forTarget t = filter (\<lambda>e. pidActorID (meTarget e) = t)"

definition mmRel :: "monitorManager \<Rightarrow> nat \<times> monitorEntry list \<Rightarrow> bool" where
  "mmRel mm s \<longleftrightarrow>
     mmSeq mm = of_nat (fst s) \<and>
     distinct (map meRef (snd s)) \<and>
     (\<forall>e\<in>set (snd s). unat (meRef e) \<le> fst s) \<and>
     (\<forall>t. sliceAt (mmByTarget mm) t = forTarget t (snd s)) \<and>
     (\<forall>t. mmByTarget mm t \<noteq> Some []) \<and>
     (\<forall>i e. mmByRef mm i = Some e \<longleftrightarrow> e \<in> set (snd s) \<and> meRef e = i)"

lemma mmRelI:
  assumes "mmSeq mm = of_nat n" and "distinct (map meRef live)"
    and "\<And>e. e \<in> set live \<Longrightarrow> unat (meRef e) \<le> n"
    and "\<And>t. sliceAt (mmByTarget mm) t = forTarget t live"
    and "\<And>t. mmByTarget mm t \<noteq> Some []"
    and "\<And>i e. mmByRef mm i = Some e \<longleftrightarrow> e \<in> set live \<and> meRef e = i"
  shows "mmRel mm (n, live)"
  using assms by (simp add: mmRel_def)

lemma mmRelD:
  assumes "mmRel mm (n, live)"
  shows "mmSeq mm = of_nat n" "distinct (map meRef live)"
    "e \<in> set live \<Longrightarrow> unat (meRef e) \<le> n"
    "sliceAt (mmByTarget mm) t = forTarget t live"
    "mmByTarget mm t \<noteq> Some []"
    "mmByRef mm i = Some e \<longleftrightarrow> e \<in> set live \<and> meRef e = i"
  using assms by (simp_all add: mmRel_def)

lemma sliceAt_upd [simp]:
  "sliceAt (m(k \<mapsto> v)) k' = (if k' = k then v else sliceAt m k')"
  "sliceAt (m(k := None)) k' = (if k' = k then [] else sliceAt m k')"
  by (simp_all add: sliceAt_def)

lemma removeFirstRef_filter:
  "distinct (map meRef es) \<Longrightarrow> removeFirstRef i es = filter (\<lambda>e. meRef e \<noteq> i) es"
proof (induction es)
  case (Cons e es)
  then show ?case
    by (auto simp: image_iff intro!: filter_True [symmetric])
qed simp

lemma dropRefs_apply: "dropRefs m es i = (if \<exists>e\<in>set es. meRef e = i then None else m i)"
  by (induction es arbitrary: m) auto

lemma mmRel_add:
  assumes rel: "mmRel mm (n, live)" and n: "Suc n < 2 ^ 64"
  shows "mmRel (fst (mm_add mm w t)) (mmSpec (n, live) (MmAdd w t))"
proof -
  have u: "unat (of_nat (Suc n) :: u64) = Suc n" using n by (simp add: unat_of_nat del: of_nat_Suc)
  have i: "mmSeq mm + 1 = of_nat (Suc n)" using mmRelD(1) [OF rel] by simp
  have fresh: "meRef e \<noteq> of_nat (Suc n)" if "e \<in> set live" for e
    using mmRelD(3) [OF rel that] u by (metis not_less_eq_eq order_refl)
  show ?thesis
    unfolding mmSpec.simps
  proof (rule mmRelI)
    show "distinct (map meRef (live @ [\<lparr>meRef = of_nat (Suc n), meWatcher = w, meTarget = t\<rparr>]))"
      using mmRelD(2) [OF rel] fresh by (fastforce simp del: of_nat_Suc)
  next
    fix e
    assume "e \<in> set (live @ [\<lparr>meRef = of_nat (Suc n), meWatcher = w, meTarget = t\<rparr>])"
    then show "unat (meRef e) \<le> Suc n"
      using mmRelD(3) [OF rel, of e] u by (auto simp del: of_nat_Suc)
  next
    fix i' e
    show "(mmByRef (fst (mm_add mm w t)) i' = Some e) =
        (e \<in> set (live @ [\<lparr>meRef = of_nat (Suc n), meWatcher = w, meTarget = t\<rparr>]) \<and> meRef e = i')"
      using mmRelD(6) [OF rel] fresh by (auto simp: mm_add_def Let_def i simp del: of_nat_Suc)
  qed (use mmRelD(4,5) [OF rel] i in \<open>auto simp: mm_add_def Let_def forTarget_def simp del: of_nat_Suc\<close>)
qed

lemma mm_remove_found:
  assumes rel: "mmRel mm (n, live)" and f: "mmByRef mm i = Some e"
  shows "sliceAt (mmByTarget (fst (mm_remove mm i))) t = forTarget t (filter (\<lambda>e. meRef e \<noteq> i) live)"
    and "mmByTarget (fst (mm_remove mm i)) t \<noteq> Some []"
    and "mmByRef (fst (mm_remove mm i)) = (mmByRef mm)(i := None)"
    and "mmSeq (fst (mm_remove mm i)) = mmSeq mm"
proof -
  let ?t = "pidActorID (meTarget e)"
  let ?es = "sliceAt (mmByTarget mm) ?t"
  from f have e: "e \<in> set live" "meRef e = i" using mmRelD(6) [OF rel, of i e] by blast+
  have es: "?es = forTarget ?t live" by (rule mmRelD(4) [OF rel])
  then have mem: "\<exists>x\<in>set ?es. meRef x = i" using e by (auto simp: forTarget_def)
  have "distinct (map meRef ?es)"
    using mmRelD(2) [OF rel] es by (simp add: forTarget_def distinct_map_filter)
  then have rf: "removeFirstRef i ?es = forTarget ?t (filter (\<lambda>e. meRef e \<noteq> i) live)"
    using es by (simp add: removeFirstRef_filter forTarget_def conj_commute)
  have other: "forTarget t (filter (\<lambda>e. meRef e \<noteq> i) live) = forTarget t live" if "t \<noteq> ?t" for t
  proof -
    have "x = e" if "x \<in> set live" "meRef x = i" for x
      using that e mmRelD(2) [OF rel] by (metis distinct_map inj_onD)
    with that show ?thesis by (auto simp: forTarget_def intro!: filter_cong)
  qed
  show "sliceAt (mmByTarget (fst (mm_remove mm i))) t = forTarget t (filter (\<lambda>e. meRef e \<noteq> i) live)"
    using rf other [of t] mmRelD(4) [OF rel, of t] f mem by (simp add: mm_remove_def Let_def)
  show "mmByTarget (fst (mm_remove mm i)) t \<noteq> Some []"
    using mmRelD(5) [OF rel, of t] f mem by (auto simp: mm_remove_def Let_def)
  show "mmByRef (fst (mm_remove mm i)) = (mmByRef mm)(i := None)"
    "mmSeq (fst (mm_remove mm i)) = mmSeq mm"
    using f by (simp_all add: mm_remove_def Let_def)
qed

lemma mmRel_remove:
  assumes rel: "mmRel mm (n, live)"
  shows "mmRel (fst (mm_remove mm i)) (mmSpec (n, live) (MmRemove i))"
proof (cases "mmByRef mm i")
  case None
  then have "\<forall>e\<in>set live. meRef e \<noteq> i" using mmRelD(6) [OF rel, of i] by force
  then have "filter (\<lambda>e. meRef e \<noteq> i) live = live" by (simp add: filter_id_conv)
  with None rel show ?thesis by (simp add: mm_remove_def)
next
  case (Some e)
  note r = mm_remove_found [OF rel Some]
  show ?thesis unfolding mmSpec.simps
  proof (rule mmRelI)
    show "distinct (map meRef (filter (\<lambda>e. meRef e \<noteq> i) live))"
      using mmRelD(2) [OF rel] by (simp add: distinct_map_filter)
  qed (use r mmRelD(1,3,6) [OF rel] in auto)
qed

lemma mmRel_drain:
  assumes rel: "mmRel mm (n, live)"
  shows "mmRel (fst (mm_drain mm t)) (mmSpec (n, live) (MmDrain t))"
  unfolding mmSpec.simps
proof (rule mmRelI)
  show "distinct (map meRef (filter (\<lambda>e. pidActorID (meTarget e) \<noteq> t) live))"
    using mmRelD(2) [OF rel] by (simp add: distinct_map_filter)
next
  fix i e
  have u: "x = y" if "x \<in> set live" "y \<in> set live" "meRef x = meRef y" for x y
    using that mmRelD(2) [OF rel] by (metis distinct_map inj_onD)
  show "(mmByRef (fst (mm_drain mm t)) i = Some e) =
      (e \<in> set (filter (\<lambda>e. pidActorID (meTarget e) \<noteq> t) live) \<and> meRef e = i)"
    using mmRelD(6) [OF rel, of i e] mmRelD(4) [OF rel, of t] u
    by (auto simp: mm_drain_def Let_def dropRefs_apply forTarget_def)
next
  fix t'
  show "sliceAt (mmByTarget (fst (mm_drain mm t))) t' =
      forTarget t' (filter (\<lambda>e. pidActorID (meTarget e) \<noteq> t) live)"
    using mmRelD(4) [OF rel, of t']
    by (auto simp: mm_drain_def Let_def forTarget_def filter_empty_conv intro!: filter_cong)
qed (use mmRelD(1,3,5) [OF rel] in \<open>auto simp: mm_drain_def Let_def\<close>)

lemma mmSpec_count: "fst (mmSpec s op) \<le> Suc (fst s)"
  by (cases s; cases op) simp_all

lemma mmRel_run:
  "mmRel mm s \<Longrightarrow> fst s + length ops < 2 ^ 64 \<Longrightarrow> mmRel (foldl mmStep mm ops) (foldl mmSpec s ops)"
proof (induction ops arbitrary: mm s)
  case (Cons op ops)
  obtain n live where s: "s = (n, live)" by (cases s)
  have "mmRel (mmStep mm op) (mmSpec s op)"
    using Cons.prems mmRel_add mmRel_remove mmRel_drain unfolding s by (cases op) auto
  moreover have "fst (mmSpec s op) + length ops < 2 ^ 64"
    using mmSpec_count [of s op] Cons.prems(2) by simp
  ultimately show ?case using Cons.IH by simp
qed simp

lemma mmRel_new: "mmRel newMonitorManager (0, [])"
  by (simp add: mmRel_def newMonitorManager_def forTarget_def sliceAt_def)

text \<open>
  After any sequence of monitor, demonitor and drain operations (fewer than
  \<open>2 ^ 64\<close>, so the reference counter has not wrapped), draining an actor returns exactly the
  monitors on it that were added and neither cancelled nor already drained, in the order they
  were added, so every monitor is reported at most once; a drain returns nothing when repeated.
\<close>

theorem drain_returns_live_monitors:
  assumes "length ops < 2 ^ 64"
  shows "snd (mm_drain (foldl mmStep newMonitorManager ops) t) =
           forTarget t (snd (foldl mmSpec (0, []) ops)) \<and>
         snd (mm_drain (fst (mm_drain (foldl mmStep newMonitorManager ops) t)) t) = []"
proof -
  let ?mm = "foldl mmStep newMonitorManager ops"
  obtain n live where s: "foldl mmSpec (0, []) ops = (n, live)" by (cases "foldl mmSpec (0, []) ops")
  have "mmRel ?mm (n, live)" using mmRel_run [OF mmRel_new, of ops] assms s by simp
  then show ?thesis using mmRelD(4) [of ?mm n live t] s by (simp add: mm_drain_def Let_def)
qed

theorem drain_returns_live_monitors_witness:
  "snd (mm_drain (foldl mmStep newMonitorManager
      [MmAdd zeroPID zeroPID, MmAdd zeroPID zeroPID, MmRemove 1]) '''') =
   [\<lparr>meRef = 2, meWatcher = zeroPID, meTarget = zeroPID\<rparr>]"
  using drain_returns_live_monitors [of "[MmAdd zeroPID zeroPID, MmAdd zeroPID zeroPID, MmRemove 1]" "''''"]
  by (simp add: forTarget_def zeroPID_def del: mmStep.simps)

end
