(* ===== verification/PubSub.thy ===== *)
theory PubSub
  imports Pid
begin

text \<open>
  Topics of the publish/subscribe broker: pattern and topic parsing (\<open>pubsub_pattern.go\<close>), the
  subscription trie (\<open>pubsub_trie.go\<close>), and the subscription tables of the broker service with
  the trie kept beside them (\<open>pubsub_broker.go\<close>). The trie is compared with direct matching of
  a pattern against a topic. Strings are ASCII texts, so \<open>strings.TrimSpace\<close> removes the six
  ASCII white-space characters.
\<close>

section \<open>Splitting at dots\<close>

fun splitDot :: "string \<Rightarrow> string list" where
  "splitDot [] = [[]]"
| "splitDot (c # cs) =
     (if c = CHR ''.'' then [] # splitDot cs
      else case splitDot cs of [] \<Rightarrow> [[c]] | seg # segs \<Rightarrow> (c # seg) # segs)"

fun joinDot :: "string list \<Rightarrow> string" where
  "joinDot [] = []"
| "joinDot [s] = s"
| "joinDot (s # ss) = s @ ''.'' @ joinDot ss"

lemma splitDot_not_Nil [simp]: "splitDot s \<noteq> []"
  by (cases s) (simp_all split: list.split)

lemma joinDot_Cons: "ss \<noteq> [] \<Longrightarrow> joinDot (s # ss) = s @ ''.'' @ joinDot ss"
  by (cases ss) simp_all

lemma joinDot_splitDot [simp]: "joinDot (splitDot s) = s"
proof (induction s)
  case (Cons c s)
  obtain seg segs where "splitDot s = seg # segs" by (meson splitDot_not_Nil neq_Nil_conv)
  with Cons show ?case by (cases segs) (auto simp: joinDot_Cons)
qed simp

lemma splitDot_no_dot: "seg \<in> set (splitDot s) \<Longrightarrow> CHR ''.'' \<notin> set seg"
  by (induction s arbitrary: seg) (auto split: if_splits list.splits)

lemma splitDot_append: "CHR ''.'' \<notin> set s \<Longrightarrow> splitDot (s @ CHR ''.'' # t) = s # splitDot t"
  by (induction s) auto

lemma splitDot_single: "CHR ''.'' \<notin> set s \<Longrightarrow> splitDot s = [s]"
  by (induction s) auto

lemma splitDot_joinDot:
  "ss \<noteq> [] \<Longrightarrow> \<forall>s\<in>set ss. CHR ''.'' \<notin> set s \<Longrightarrow> splitDot (joinDot ss) = ss"
  by (induction ss rule: joinDot.induct) (auto simp: splitDot_single splitDot_append)

section \<open>Patterns and topics (pubsub_pattern.go)\<close>

record topicPattern =
  tpRaw :: string
  tpSegments :: "string list"

definition isSpaceChar :: "char \<Rightarrow> bool" where
  "isSpaceChar c \<longleftrightarrow> of_char c \<in> {9, 10, 11, 12, 13, 32 :: nat}"

definition trimIsEmpty :: "string \<Rightarrow> bool" where
  "trimIsEmpty s = list_all isSpaceChar s"

fun patternSegmentsOk :: "string list \<Rightarrow> bool" where
  "patternSegmentsOk [] = True"
| "patternSegmentsOk (seg # rest) =
     (if seg = '''' then False
      else if CHR ''+'' \<in> set seg \<and> seg \<noteq> ''+'' then False
      else if CHR ''#'' \<in> set seg \<and> seg \<noteq> ''#'' then False
      else if seg = ''#'' \<and> rest \<noteq> [] then False
      else patternSegmentsOk rest)"

definition parseTopicPattern :: "string \<Rightarrow> error + topicPattern" where
  "parseTopicPattern raw =
     (if trimIsEmpty raw then Inl ErrPubSubInvalidPattern
      else let segments = splitDot raw
           in if patternSegmentsOk segments then Inr \<lparr>tpRaw = raw, tpSegments = segments\<rparr>
              else Inl ErrPubSubInvalidPattern)"

fun topicSegmentsOk :: "string list \<Rightarrow> bool" where
  "topicSegmentsOk [] = True"
| "topicSegmentsOk (seg # rest) =
     (if seg = '''' \<or> seg = ''+'' \<or> seg = ''#'' then False
      else if CHR ''+'' \<in> set seg \<or> CHR ''#'' \<in> set seg then False
      else topicSegmentsOk rest)"

definition parsePublishTopic :: "string \<Rightarrow> error + string list" where
  "parsePublishTopic raw =
     (if trimIsEmpty raw then Inl ErrPubSubInvalidTopic
      else let segments = splitDot raw
           in if topicSegmentsOk segments then Inr segments else Inl ErrPubSubInvalidTopic)"

text \<open>
  What a pattern means: \<open>+\<close> stands for one segment, a final \<open>#\<close> for any rest of the topic,
  the empty rest included.
\<close>

fun patMatch :: "string list \<Rightarrow> string list \<Rightarrow> bool" where
  "patMatch [] topic = (topic = [])"
| "patMatch (seg # segs) topic =
     (if seg = ''#'' then True
      else case topic of
             [] \<Rightarrow> False
           | t # ts \<Rightarrow> (seg = ''+'' \<or> seg = t) \<and> patMatch segs ts)"

section \<open>The subscription trie (pubsub_trie.go)\<close>

datatype trieNode = TrieNode
  (tnChildren: "string \<Rightarrow> trieNode option")
  (tnStar: "trieNode option")
  (tnExact: "(string, PID) gomap")
  (tnTail: "(string, PID) gomap")

definition newTrieNode :: trieNode where
  "newTrieNode = TrieNode (\<lambda>_. None) None [] []"

definition newSubscriptionTrie :: trieNode where
  "newSubscriptionTrie = newTrieNode"

text \<open>
  The loop of \<open>insert\<close> walks down from the root and updates in place; here each step returns
  the updated node.
\<close>

fun trieInsert :: "trieNode \<Rightarrow> string list \<Rightarrow> PID \<Rightarrow> trieNode" where
  "trieInsert node [] pid = node"
| "trieInsert node (seg # segs) pid =
     (if seg = ''#'' then
        TrieNode (tnChildren node) (tnStar node) (tnExact node) (gomap_put (Key pid) pid (tnTail node))
      else if seg = ''+'' then
        (let star = (case tnStar node of None \<Rightarrow> newTrieNode | Some n \<Rightarrow> n)
         in TrieNode (tnChildren node) (Some (trieInsert star segs pid)) (tnExact node) (tnTail node))
      else
        (let nxt = (case tnChildren node seg of None \<Rightarrow> newTrieNode | Some n \<Rightarrow> n);
             nxt = (if segs = [] then TrieNode (tnChildren nxt) (tnStar nxt)
                       (gomap_put (Key pid) pid (tnExact nxt)) (tnTail nxt)
                    else nxt)
         in TrieNode ((tnChildren node)(seg \<mapsto> trieInsert nxt segs pid)) (tnStar node)
              (tnExact node) (tnTail node)))"

definition subTrie_insert :: "trieNode \<Rightarrow> topicPattern \<Rightarrow> PID \<Rightarrow> trieNode" where
  "subTrie_insert t p pid = trieInsert t (tpSegments p) pid"

definition putAll :: "(string, PID) gomap \<Rightarrow> (string, PID) gomap \<Rightarrow> (string, PID) gomap" where
  "putAll src results = foldl (\<lambda>m (k, v). gomap_put k v m) results src"

fun trieWalk :: "trieNode option \<Rightarrow> string list \<Rightarrow> (string, PID) gomap \<Rightarrow> (string, PID) gomap" where
  "trieWalk None topic results = results"
| "trieWalk (Some node) [] results = putAll (tnExact node) (putAll (tnTail node) results)"
| "trieWalk (Some node) (seg # topic) results =
     trieWalk (tnStar node) topic
       (trieWalk (tnChildren node seg) topic (putAll (tnTail node) results))"

definition trieMatch :: "trieNode \<Rightarrow> string list \<Rightarrow> PID list" where
  "trieMatch t topic = map snd (trieWalk (Some t) topic [])"

section \<open>The trie finds the matching subscriptions\<close>

text \<open>What a walk collects, as the set of stored (key, PID) pairs it visits.\<close>

fun reach :: "trieNode option \<Rightarrow> string list \<Rightarrow> (string \<times> PID) set" where
  "reach None topic = {}"
| "reach (Some node) [] = set (tnTail node) \<union> set (tnExact node)"
| "reach (Some node) (seg # topic) =
     set (tnTail node) \<union> reach (tnChildren node seg) topic \<union> reach (tnStar node) topic"

text \<open>Patterns that \<open>insert\<close> stores: those that do not end in \<open>+\<close>.\<close>

fun stored :: "string list \<Rightarrow> bool" where
  "stored [] = False"
| "stored (seg # segs) = (seg = ''#'' \<or> (if segs = [] then seg \<noteq> ''+'' else stored segs))"

lemma putAll_Nil [simp]: "putAll [] r = r"
  by (simp add: putAll_def)

lemma putAll_Cons [simp]: "putAll ((k, v) # src) r = putAll src (gomap_put k v r)"
  by (simp add: putAll_def)

lemma putAll_ok [simp]: "gomap_ok r \<Longrightarrow> gomap_ok (putAll src r)"
  by (induction src arbitrary: r) auto

lemma putAll_keys: "fst ` set (putAll src r) = fst ` set src \<union> fst ` set r"
proof (induction src arbitrary: r)
  case (Cons kv src)
  obtain k v where "kv = (k, v)" by (cases kv)
  with Cons [of "gomap_put k v r"] show ?case by (simp add: dom_update insert_commute)
qed simp

lemma set_gomap_put: "set (gomap_put k v m) \<subseteq> insert (k, v) (set m)"
  by (induction m) auto

lemma putAll_set: "set (putAll src r) \<subseteq> set src \<union> set r"
proof (induction src arbitrary: r)
  case (Cons kv src)
  obtain k v where kv: "kv = (k, v)" by (cases kv)
  show ?case using Cons [of "gomap_put k v r"] set_gomap_put [of k v r] kv by auto
qed simp

lemma trieWalk_ok: "gomap_ok r \<Longrightarrow> gomap_ok (trieWalk n topic r)"
  by (induction n topic r rule: trieWalk.induct) simp_all

lemma trieWalk_keys: "fst ` set (trieWalk n topic r) = fst ` reach n topic \<union> fst ` set r"
  by (induction n topic r rule: trieWalk.induct) (auto simp: putAll_keys image_Un)

lemma trieWalk_set: "set (trieWalk n topic r) \<subseteq> reach n topic \<union> set r"
proof (induction n topic r rule: trieWalk.induct)
  case (2 node r)
  show ?case using putAll_set [of "tnExact node"] putAll_set [of "tnTail node" r] by fastforce
next
  case (3 node seg topic r)
  then show ?case using putAll_set [of "tnTail node" r] by fastforce
qed simp

text \<open>The entries of a trie node carry the key of their PID.\<close>

definition keyed :: "(string \<times> PID) set \<Rightarrow> bool" where
  "keyed S \<longleftrightarrow> (\<forall>(k, p) \<in> S. k = Key p)"

lemma keyed_Un [simp]: "keyed (A \<union> B) \<longleftrightarrow> keyed A \<and> keyed B"
  by (auto simp: keyed_def)

lemma keyed_empty [simp]: "keyed {}"
  by (simp add: keyed_def)

lemma reach_newTrieNode [simp]: "reach (Some newTrieNode) topic = {}"
  by (cases topic) (simp_all add: newTrieNode_def)

lemma reach_star:
  "reach (Some (TrieNode c s e t)) topic =
     set t \<union> (case topic of [] \<Rightarrow> set e | x # xs \<Rightarrow> reach (c x) xs \<union> reach s xs)"
  by (cases topic) auto

lemma fst_put: "fst ` set (gomap_put k v m) = insert k (fst ` set m)"
  by (simp add: dom_update)

lemma reach_default:
  "reach (Some (case x of None \<Rightarrow> newTrieNode | Some n \<Rightarrow> n)) topic = reach x topic"
  by (cases x) simp_all

lemma reach_unfold:
  "reach (Some n) topic = set (tnTail n) \<union>
     (case topic of [] \<Rightarrow> set (tnExact n) | x # xs \<Rightarrow> reach (tnChildren n x) xs \<union> reach (tnStar n) xs)"
  by (cases topic) auto

lemma reach_put_exact:
  "fst ` reach (Some (TrieNode (tnChildren n) (tnStar n) (gomap_put k v (tnExact n)) (tnTail n))) topic =
   fst ` reach (Some n) topic \<union> (if topic = [] then {k} else {})"
  by (cases topic) (simp_all add: image_Un fst_put)

lemma trieInsert_last: "trieInsert n [] p = n"
  by simp

lemma reach_insert:
  "fst ` reach (Some (trieInsert n segs p)) topic =
     fst ` reach (Some n) topic \<union> (if stored segs \<and> patMatch segs topic then {Key p} else {})"
proof (induction segs arbitrary: n topic)
  case Nil
  then show ?case by simp
next
  case (Cons seg segs)
  consider (tail) "seg = ''#''" | (plus) "seg = ''+''" | (lit) "seg \<noteq> ''#''" "seg \<noteq> ''+''" by blast
  then show ?case
  proof cases
    case tail
    then show ?thesis by (cases topic) (simp_all add: image_Un fst_put)
  next
    case plus
    show ?thesis
    proof (cases topic)
      case Nil
      with plus show ?thesis by simp
    next
      case (Cons x xs)
      let ?s = "case tnStar n of None \<Rightarrow> newTrieNode | Some m \<Rightarrow> m"
      have "fst ` reach (Some (trieInsert ?s segs p)) xs =
          fst ` reach (tnStar n) xs \<union> (if stored segs \<and> patMatch segs xs then {Key p} else {})"
        using Cons.IH [of ?s xs] by (simp add: reach_default)
      with plus Cons show ?thesis by (simp add: Let_def image_Un Un_ac)
    qed
  next
    case lit
    show ?thesis
    proof (cases topic)
      case Nil
      with lit show ?thesis by (simp add: Let_def)
    next
      case (Cons x xs)
      let ?c = "case tnChildren n seg of None \<Rightarrow> newTrieNode | Some m \<Rightarrow> m"
      let ?d = "if segs = [] then TrieNode (tnChildren ?c) (tnStar ?c)
                  (gomap_put (Key p) p (tnExact ?c)) (tnTail ?c) else ?c"
      have "fst ` reach (Some (trieInsert ?d segs p)) xs = fst ` reach (tnChildren n seg) xs \<union>
          (if (segs = [] \<or> stored segs) \<and> patMatch segs xs then {Key p} else {})"
        using Cons.IH [of ?d xs] by (cases "segs = []") (simp_all add: reach_default reach_put_exact)
      with lit Cons show ?thesis by (cases "x = seg") (simp_all add: Let_def image_Un Un_ac)
    qed
  qed
qed

lemma trieInsert_keyed:
  "(\<And>topic. keyed (reach (Some n) topic)) \<Longrightarrow> keyed (reach (Some (trieInsert n segs p)) topic)"
proof (induction segs arbitrary: n topic)
  case (Cons seg segs)
  note k = Cons.prems
  have sub: "keyed (reach (tnChildren n x) xs)" "keyed (reach (tnStar n) xs)"
    "keyed (set (tnTail n))" "keyed (set (tnExact n))" for x xs
    using k [of "x # xs"] k [of "[]"] by simp_all
  have put: "keyed (set m) \<Longrightarrow> keyed (set (gomap_put (Key p) p m))" for m
    using set_gomap_put [of "Key p" p m] by (auto simp: keyed_def)
  show ?case
  proof (cases "seg = ''#''")
    case True
    then show ?thesis using sub put by (cases topic) simp_all
  next
    case False
    show ?thesis
    proof (cases "seg = ''+''")
      case True
      let ?s = "case tnStar n of None \<Rightarrow> newTrieNode | Some m \<Rightarrow> m"
      have "keyed (reach (Some (trieInsert ?s segs p)) xs)" for xs
        using Cons.IH [of ?s xs] sub by (simp add: reach_default)
      with True sub show ?thesis by (cases topic) (simp_all add: Let_def)
    next
      case lit: False
      let ?c = "case tnChildren n seg of None \<Rightarrow> newTrieNode | Some m \<Rightarrow> m"
      let ?d = "if segs = [] then TrieNode (tnChildren ?c) (tnStar ?c)
                  (gomap_put (Key p) p (tnExact ?c)) (tnTail ?c) else ?c"
      have c: "keyed (reach (Some ?c) xs)" for xs using sub by (simp add: reach_default)
      then have "keyed (set (tnExact ?c))" using c [of "[]"] by simp
      with put have "keyed (reach (Some ?d) xs)" for xs
        using c [of xs] by (cases xs) simp_all
      with Cons.IH have "keyed (reach (Some (trieInsert ?d segs p)) xs)" for xs by blast
      with False lit sub show ?thesis by (cases topic) (simp_all add: Let_def)
    qed
  qed
qed simp

text \<open>An insertion adds no other PID, and none for a topic the pattern does not match.\<close>

lemma reach_insert_pids:
  "reach (Some (trieInsert n segs p)) topic \<subseteq>
     reach (Some n) topic \<union> (if patMatch segs topic then {(Key p, p)} else {})"
proof (induction segs arbitrary: n topic)
  case (Cons seg segs)
  have put: "set (gomap_put (Key p) p m) \<subseteq> insert (Key p, p) (set m)" for m by (rule set_gomap_put)
  consider (tail) "seg = ''#''" | (plus) "seg = ''+''" | (lit) "seg \<noteq> ''#''" "seg \<noteq> ''+''" by blast
  then show ?case
  proof cases
    case tail
    then show ?thesis using put [of "tnTail n"] by (cases topic) auto
  next
    case plus
    show ?thesis
    proof (cases topic)
      case (Cons x xs)
      let ?s = "case tnStar n of None \<Rightarrow> newTrieNode | Some m \<Rightarrow> m"
      show ?thesis using Cons.IH [of ?s xs] plus Cons by (auto simp: Let_def reach_default split: if_splits)
    qed (use plus in simp)
  next
    case lit
    show ?thesis
    proof (cases topic)
      case (Cons x xs)
      let ?c = "case tnChildren n seg of None \<Rightarrow> newTrieNode | Some m \<Rightarrow> m"
      let ?d = "if segs = [] then TrieNode (tnChildren ?c) (tnStar ?c)
                  (gomap_put (Key p) p (tnExact ?c)) (tnTail ?c) else ?c"
      have "reach (Some ?d) xs \<subseteq> reach (Some ?c) xs \<union> (if patMatch segs xs then {(Key p, p)} else {})"
        using put [of "tnExact ?c"] by (cases xs) auto
      with Cons.IH [of ?d xs] have "reach (Some (trieInsert ?d segs p)) xs \<subseteq>
          reach (tnChildren n seg) xs \<union> (if patMatch segs xs then {(Key p, p)} else {})"
        by (auto simp: reach_default split: if_splits)
      with lit Cons show ?thesis by (cases "x = seg") (auto simp: Let_def)
    qed (use lit in \<open>simp add: Let_def\<close>)
  qed
qed simp

text \<open>The subscriptions a trie was built from.\<close>

definition trieOf :: "(string list \<times> PID) list \<Rightarrow> trieNode" where
  "trieOf subs = foldl (\<lambda>t (segs, p). trieInsert t segs p) newSubscriptionTrie subs"

lemma trieOf_snoc [simp]: "trieOf (subs @ [(segs, p)]) = trieInsert (trieOf subs) segs p"
  by (simp add: trieOf_def)

lemma trieOf_keyed: "keyed (reach (Some (trieOf subs)) topic)"
proof (induction subs arbitrary: topic rule: rev_induct)
  case Nil
  then show ?case by (simp add: trieOf_def newSubscriptionTrie_def)
next
  case (snoc s subs)
  then show ?case by (cases s) (simp add: trieInsert_keyed)
qed

lemma trieOf_reach:
  "fst ` reach (Some (trieOf subs)) topic =
     {Key p | segs p. (segs, p) \<in> set subs \<and> stored segs \<and> patMatch segs topic}"
proof (induction subs rule: rev_induct)
  case Nil
  then show ?case by (simp add: trieOf_def newSubscriptionTrie_def)
next
  case (snoc s subs)
  then show ?case by (cases s) (auto simp: reach_insert)
qed

lemma trieOf_pids:
  "(k, q) \<in> reach (Some (trieOf subs)) topic \<Longrightarrow> \<exists>segs. (segs, q) \<in> set subs \<and> patMatch segs topic"
proof (induction subs rule: rev_induct)
  case (snoc s subs)
  obtain segs p where s: "s = (segs, p)" by (cases s)
  have "(k, q) \<in> reach (Some (trieOf subs)) topic \<or> patMatch segs topic \<and> q = p"
    using snoc.prems subsetD [OF reach_insert_pids [of "trieOf subs" segs p topic], of "(k, q)"] by (auto simp: s split: if_splits)
  then show ?case using snoc.IH by (auto simp: s)
qed (simp add: trieOf_def newSubscriptionTrie_def)

lemma trieMatch_keys:
  assumes "keyed (reach (Some t) topic)"
  shows "Key ` set (trieMatch t topic) = fst ` reach (Some t) topic"
    and "distinct (map Key (trieMatch t topic))"
proof -
  have k: "\<forall>(k, p) \<in> set (trieWalk (Some t) topic []). k = Key p"
    using assms trieWalk_set [of "Some t" topic "[]"] by (auto simp: keyed_def)
  then have m: "map Key (trieMatch t topic) = map fst (trieWalk (Some t) topic [])"
    by (auto simp: trieMatch_def)
  from arg_cong [where f = set, OF m] show "Key ` set (trieMatch t topic) = fst ` reach (Some t) topic"
    using trieWalk_keys [of "Some t" topic "[]"] by simp
  show "distinct (map Key (trieMatch t topic))"
    unfolding m using trieWalk_ok [of "[]" "Some t" topic] by (simp add: gomap_ok_def)
qed

lemma matching_filter:
  "{Key p | segs p. (segs, p) \<in> set subs \<and> patMatch segs topic} =
     set (map (\<lambda>(segs, p). Key p) (filter (\<lambda>(segs, p). patMatch segs topic) subs))"
  by force

text \<open>
  Matching a topic in a trie returns every subscriber of a matching pattern exactly
  once and no other, for all patterns except those ending in \<open>+\<close>: the keys of the returned PIDs
  are pairwise distinct and are the keys of the subscriptions whose pattern matches the topic.
\<close>

theorem trie_match_correct:
  assumes "\<forall>(segs, p) \<in> set subs. stored segs"
  shows "distinct (map Key (trieMatch (trieOf subs) topic)) \<and>
     Key ` set (trieMatch (trieOf subs) topic) =
       {Key p | segs p. (segs, p) \<in> set subs \<and> patMatch segs topic}"
proof -
  have "{Key p | segs p. (segs, p) \<in> set subs \<and> stored segs \<and> patMatch segs topic} =
      {Key p | segs p. (segs, p) \<in> set subs \<and> patMatch segs topic}"
    using assms by blast
  then show ?thesis
    using trieMatch_keys [OF trieOf_keyed, of subs topic] trieOf_reach [of subs topic] by simp
qed

theorem trie_match_correct_witness:
  "let p = \<lparr>pidNamespace = ''n'', pidActorID = ''x'', pidGeneration = 1\<rparr>;
       q = \<lparr>pidNamespace = ''n'', pidActorID = ''y'', pidGeneration = 1\<rparr>;
       subs = [([''a'', ''+'', ''c''], p), ([''a'', ''#''], q), ([''b''], q)]
   in Key ` set (trieMatch (trieOf subs) [''a'', ''b'', ''c'']) = {Key p, Key q}"
proof -
  let ?p = "\<lparr>pidNamespace = ''n'', pidActorID = ''x'', pidGeneration = 1\<rparr>"
  let ?q = "\<lparr>pidNamespace = ''n'', pidActorID = ''y'', pidGeneration = 1\<rparr>"
  let ?subs = "[([''a'', ''+'', ''c''], ?p), ([''a'', ''#''], ?q), ([''b''], ?q)]"
  have "\<forall>(segs, p) \<in> set ?subs. stored segs" by simp
  from trie_match_correct [OF this, of "[''a'', ''b'', ''c'']"]
  have "Key ` set (trieMatch (trieOf ?subs) [''a'', ''b'', ''c'']) =
      {Key p | segs p. (segs, p) \<in> set ?subs \<and> patMatch segs [''a'', ''b'', ''c'']}" by blast
  also have "\<dots> = {Key ?p, Key ?q}" unfolding matching_filter by simp
  finally show ?thesis by (simp add: Let_def)
qed

section \<open>The subscription tables of the broker (pubsub_broker.go)\<close>

record pubsubBrokerService =
  psBrokerID :: string
  psTrie :: trieNode
  psByPattern :: "(string, (string, PID) gomap) gomap"
  psBySubscriber :: "string \<rightharpoonup> string list"

definition newPubSubBrokerService :: "string \<Rightarrow> pubsubBrokerService" where
  "newPubSubBrokerService brokerID =
     \<lparr>psBrokerID = brokerID, psTrie = newSubscriptionTrie, psByPattern = [], psBySubscriber = Map.empty\<rparr>"

definition patternSubs :: "pubsubBrokerService \<Rightarrow> string \<Rightarrow> (string, PID) gomap" where
  "patternSubs b raw = (case map_of (psByPattern b) raw of None \<Rightarrow> [] | Some m \<Rightarrow> m)"

text \<open>
  The part of \<open>handleSubscribe\<close> under the lock; the flag is \<open>firstForPattern\<close>.
\<close>

definition subscribeLocked :: "pubsubBrokerService \<Rightarrow> topicPattern \<Rightarrow> PID \<Rightarrow> pubsubBrokerService \<times> bool" where
  "subscribeLocked b p subscriber =
     (let key = Key subscriber;
          exist = (map_of (patternSubs b (tpRaw p)) key \<noteq> None);
          subs = gomap_put key subscriber (patternSubs b (tpRaw p));
          pats = (case psBySubscriber b key of None \<Rightarrow> [] | Some l \<Rightarrow> l);
          firstForPattern = (\<not> exist \<and> length subs = 1);
          trie = (if exist then psTrie b else subTrie_insert (psTrie b) p subscriber)
      in (b\<lparr>psByPattern := gomap_put (tpRaw p) subs (psByPattern b),
            psBySubscriber := (psBySubscriber b)(key \<mapsto> List.insert (tpRaw p) pats),
            psTrie := trie\<rparr>, firstForPattern))"

fun insertSubscribers :: "trieNode \<Rightarrow> topicPattern \<Rightarrow> (string, PID) gomap \<Rightarrow> trieNode" where
  "insertSubscribers t p [] = t"
| "insertSubscribers t p ((k, pid) # subs) = insertSubscribers (subTrie_insert t p pid) p subs"

fun rebuildTrieFrom :: "trieNode \<Rightarrow> (string, (string, PID) gomap) gomap \<Rightarrow> trieNode" where
  "rebuildTrieFrom t [] = t"
| "rebuildTrieFrom t ((pattern, subscribers) # rest) =
     (case parseTopicPattern pattern of
        Inl _ \<Rightarrow> rebuildTrieFrom t rest
      | Inr p \<Rightarrow> rebuildTrieFrom (insertSubscribers t p subscribers) rest)"

definition rebuildTrieLocked :: "pubsubBrokerService \<Rightarrow> pubsubBrokerService" where
  "rebuildTrieLocked b = b\<lparr>psTrie := rebuildTrieFrom newSubscriptionTrie (psByPattern b)\<rparr>"

text \<open>
  The part of \<open>handleUnsubscribe\<close> under the lock; the flags are \<open>hasSub\<close> and
  \<open>lastForPattern\<close>.
\<close>

definition unsubscribeLocked :: "pubsubBrokerService \<Rightarrow> topicPattern \<Rightarrow> PID \<Rightarrow> pubsubBrokerService \<times> bool \<times> bool" where
  "unsubscribeLocked b p subscriber =
     (let key = Key subscriber; raw = tpRaw p
      in if map_of (patternSubs b raw) key = None then (b, False, False)
         else
           let subs = gomap_del key (patternSubs b raw);
               lastForPattern = (subs = []);
               byPattern = (if subs = [] then gomap_del raw (psByPattern b)
                            else gomap_put raw subs (psByPattern b));
               pats = removeAll raw (case psBySubscriber b key of None \<Rightarrow> [] | Some l \<Rightarrow> l);
               bySubscriber = (psBySubscriber b)(key := (if pats = [] then None else Some pats))
           in (rebuildTrieLocked (b\<lparr>psByPattern := byPattern, psBySubscriber := bySubscriber\<rparr>),
               True, lastForPattern))"

section \<open>The tables and the trie agree\<close>

text \<open>
  The invariant compares the tables and the trie by the keys of PIDs. It cannot ask for more: a
  subscriber that subscribes again with a newer generation is updated in the table by pattern
  and not in the trie. Which PIDs the trie may hold is the subject of \<open>pidsFrom\<close> below.
\<close>

definition subscriptions :: "pubsubBrokerService \<Rightarrow> (string \<times> string) set" where
  "subscriptions b = {(raw, k). map_of (patternSubs b raw) k \<noteq> None}"

definition byPatternInv :: "pubsubBrokerService \<Rightarrow> bool" where
  "byPatternInv b \<longleftrightarrow> gomap_ok (psByPattern b) \<and>
     (\<forall>(raw, m) \<in> set (psByPattern b). gomap_ok m \<and> m \<noteq> [] \<and> keyed (set m) \<and>
        (\<exists>p. parseTopicPattern raw = Inr p))"

definition trieInv :: "pubsubBrokerService \<Rightarrow> bool" where
  "trieInv b \<longleftrightarrow> (\<forall>topic. keyed (reach (Some (psTrie b)) topic) \<and>
     fst ` reach (Some (psTrie b)) topic =
       {k. \<exists>raw. (raw, k) \<in> subscriptions b \<and> stored (splitDot raw) \<and> patMatch (splitDot raw) topic})"

definition bySubscriberInv :: "pubsubBrokerService \<Rightarrow> bool" where
  "bySubscriberInv b \<longleftrightarrow> (\<forall>k. (psBySubscriber b k \<noteq> Some []) \<and>
     (\<forall>raw. (raw, k) \<in> subscriptions b \<longleftrightarrow>
        raw \<in> set (case psBySubscriber b k of None \<Rightarrow> [] | Some l \<Rightarrow> l)))"

definition brokerInv :: "pubsubBrokerService \<Rightarrow> bool" where
  "brokerInv b \<longleftrightarrow> byPatternInv b \<and> trieInv b \<and> bySubscriberInv b"

lemma parse_segments: "parseTopicPattern raw = Inr p \<Longrightarrow> tpRaw p = raw \<and> tpSegments p = splitDot raw"
  by (auto simp: parseTopicPattern_def Let_def split: if_splits)

lemma insertSubscribers_foldl:
  "insertSubscribers t p m = foldl (\<lambda>t (segs, q). trieInsert t segs q) t (map (\<lambda>(k, q). (tpSegments p, q)) m)"
  by (induction t p m rule: insertSubscribers.induct) (simp_all add: subTrie_insert_def)

definition flatSubs :: "(string, (string, PID) gomap) gomap \<Rightarrow> (string list \<times> PID) list" where
  "flatSubs bp = concat (map (\<lambda>(raw, m). map (\<lambda>(k, q). (splitDot raw, q)) m) bp)"

lemma rebuild_foldl:
  "\<forall>(raw, m) \<in> set bp. \<exists>p. parseTopicPattern raw = Inr p \<Longrightarrow>
   rebuildTrieFrom t bp = foldl (\<lambda>t (segs, q). trieInsert t segs q) t (flatSubs bp)"
proof (induction t bp rule: rebuildTrieFrom.induct)
  case (2 t raw m rest)
  then obtain p where p: "parseTopicPattern raw = Inr p" by auto
  with parse_segments [OF p] 2 show ?case
    by (simp add: insertSubscribers_foldl flatSubs_def)
qed (simp add: flatSubs_def)

lemma flatSubs_keys:
  assumes "\<forall>(raw, m) \<in> set bp. keyed (set m)"
  shows "{Key q | segs q. (segs, q) \<in> set (flatSubs bp) \<and> P segs} =
     {k. \<exists>raw m. (raw, m) \<in> set bp \<and> k \<in> fst ` set m \<and> P (splitDot raw)}"
proof -
  have m: "(segs, q) \<in> set (flatSubs bp) \<longleftrightarrow>
      (\<exists>raw m k. (raw, m) \<in> set bp \<and> (k, q) \<in> set m \<and> segs = splitDot raw)" for segs q
    by (force simp: flatSubs_def)
  have k: "(raw, m) \<in> set bp \<Longrightarrow> (k, q) \<in> set m \<Longrightarrow> k = Key q" for raw m k q
    using assms by (auto simp: keyed_def)
  show ?thesis
  proof (intro equalityI subsetI)
    fix x
    assume "x \<in> {Key q | segs q. (segs, q) \<in> set (flatSubs bp) \<and> P segs}"
    then obtain raw m k q where "(raw, m) \<in> set bp" "(k, q) \<in> set m" "P (splitDot raw)" "x = Key q"
      using m by auto
    then show "x \<in> {k. \<exists>raw m. (raw, m) \<in> set bp \<and> k \<in> fst ` set m \<and> P (splitDot raw)}"
      using k by force
  next
    fix x
    assume "x \<in> {k. \<exists>raw m. (raw, m) \<in> set bp \<and> k \<in> fst ` set m \<and> P (splitDot raw)}"
    then obtain raw m q where "(raw, m) \<in> set bp" "(x, q) \<in> set m" "P (splitDot raw)" by auto
    with k [of raw m x q] m [of "splitDot raw" q]
    show "x \<in> {Key q | segs q. (segs, q) \<in> set (flatSubs bp) \<and> P segs}" by blast
  qed
qed

lemma subscriptions_iff:
  assumes "byPatternInv b"
  shows "(raw, k) \<in> subscriptions b \<longleftrightarrow> (\<exists>m. (raw, m) \<in> set (psByPattern b) \<and> k \<in> fst ` set m)"
proof -
  have "(raw, m) \<in> set (psByPattern b) \<longleftrightarrow> map_of (psByPattern b) raw = Some m" for m
    using assms by (auto simp: byPatternInv_def gomap_mem_iff)
  moreover have "map_of m k \<noteq> None \<longleftrightarrow> k \<in> fst ` set m" for m :: "(string, PID) gomap"
    by (simp add: map_of_eq_None_iff)
  ultimately show ?thesis
    by (cases "map_of (psByPattern b) raw") (simp_all add: subscriptions_def patternSubs_def)
qed

lemma trieInv_rebuild:
  assumes "byPatternInv b"
  shows "trieInv (rebuildTrieLocked b)"
proof -
  let ?bp = "psByPattern b"
  have k: "\<forall>(raw, m) \<in> set ?bp. keyed (set m)" and
    p: "\<forall>(raw, m) \<in> set ?bp. \<exists>p. parseTopicPattern raw = Inr p"
    using assms by (auto simp: byPatternInv_def)
  have t: "psTrie (rebuildTrieLocked b) = trieOf (flatSubs ?bp)"
    by (simp add: rebuildTrieLocked_def trieOf_def rebuild_foldl [OF p])
  have s: "subscriptions (rebuildTrieLocked b) = subscriptions b"
    by (simp add: subscriptions_def patternSubs_def rebuildTrieLocked_def)
  have r: "fst ` reach (Some (trieOf (flatSubs ?bp))) topic =
      {k. \<exists>raw. (raw, k) \<in> subscriptions b \<and> stored (splitDot raw) \<and> patMatch (splitDot raw) topic}" for topic
    unfolding trieOf_reach
    using flatSubs_keys [OF k, of "\<lambda>segs. stored segs \<and> patMatch segs topic"]
    by (auto simp: subscriptions_iff [OF assms])
  show ?thesis unfolding trieInv_def t s using r trieOf_keyed by blast
qed

lemma patternSubs_put:
  "patternSubs (b\<lparr>psByPattern := gomap_put raw m (psByPattern b)\<rparr>) raw' =
     (if raw' = raw then m else patternSubs b raw')"
  by (simp add: patternSubs_def)

lemma patternSubs_props:
  assumes "byPatternInv b"
  shows "gomap_ok (patternSubs b raw)" and "keyed (set (patternSubs b raw))"
proof -
  have "gomap_ok (patternSubs b raw) \<and> keyed (set (patternSubs b raw))"
  proof (cases "map_of (psByPattern b) raw")
    case (Some m)
    then have "(raw, m) \<in> set (psByPattern b)" by (rule map_of_SomeD)
    with assms Some show ?thesis by (auto simp: byPatternInv_def patternSubs_def)
  qed (simp add: patternSubs_def)
  then show "gomap_ok (patternSubs b raw)" and "keyed (set (patternSubs b raw))" by simp_all
qed

lemma set_gomap_del: "set (gomap_del k m) \<subseteq> set m"
  by (induction m) auto

lemma byPatternInv_put:
  assumes "byPatternInv b" and "parseTopicPattern raw = Inr p" and "gomap_ok m" and "m \<noteq> []" and "keyed (set m)"
  shows "byPatternInv (b\<lparr>psByPattern := gomap_put raw m (psByPattern b), psBySubscriber := s, psTrie := t\<rparr>)"
  unfolding byPatternInv_def pubsubBrokerService.simps
proof (intro conjI ballI)
  show "gomap_ok (psByPattern (b\<lparr>psByPattern := gomap_put raw m (psByPattern b), psBySubscriber := s, psTrie := t\<rparr>))"
    using assms(1) by (simp add: byPatternInv_def)
  fix x
  assume "x \<in> set (psByPattern (b\<lparr>psByPattern := gomap_put raw m (psByPattern b), psBySubscriber := s, psTrie := t\<rparr>))"
  then have "x = (raw, m) \<or> x \<in> set (psByPattern b)"
    using set_gomap_put [of raw m "psByPattern b"] by auto
  with assms show "case x of (raw, m) \<Rightarrow> gomap_ok m \<and> m \<noteq> [] \<and> keyed (set m) \<and>
      (\<exists>p. parseTopicPattern raw = Inr p)"
    by (auto simp: byPatternInv_def)
qed

lemma subscribe_subscriptions:
  "subscriptions (fst (subscribeLocked b p q)) = insert (tpRaw p, Key q) (subscriptions b)"
  by (auto simp: subscriptions_def subscribeLocked_def Let_def patternSubs_def split: if_splits option.splits)

lemma subscribe_byPatternInv:
  assumes "byPatternInv b" and "parseTopicPattern raw = Inr p"
  shows "byPatternInv (fst (subscribeLocked b p q))"
proof -
  have "keyed (set (gomap_put (Key q) q (patternSubs b raw)))"
    using set_gomap_put [of "Key q" q "patternSubs b raw"] patternSubs_props(2) [OF assms(1), of raw]
    by (auto simp: keyed_def)
  with assms patternSubs_props(1) [OF assms(1), of raw] parse_segments [OF assms(2)] show ?thesis
    by (simp add: subscribeLocked_def Let_def byPatternInv_put)
qed

lemma subscribe_trieInv:
  assumes "trieInv b" and "parseTopicPattern raw = Inr p"
  shows "trieInv (fst (subscribeLocked b p q))"
proof (cases "(raw, Key q) \<in> subscriptions b")
  case True
  then have "psTrie (fst (subscribeLocked b p q)) = psTrie b"
    using parse_segments [OF assms(2)] by (simp add: subscriptions_def subscribeLocked_def Let_def)
  with assms(1) show ?thesis
    using True parse_segments [OF assms(2)]
    unfolding trieInv_def subscribe_subscriptions by (simp add: insert_absorb)
next
  case False
  then have t: "psTrie (fst (subscribeLocked b p q)) = trieInsert (psTrie b) (splitDot raw) q"
    using parse_segments [OF assms(2)]
    by (simp add: subscriptions_def subscribeLocked_def Let_def subTrie_insert_def)
  show ?thesis
    unfolding trieInv_def subscribe_subscriptions t
    using assms(1) parse_segments [OF assms(2)]
    by (auto simp: trieInv_def reach_insert intro!: trieInsert_keyed)
qed

lemma subscribe_bySubscriberInv:
  assumes "bySubscriberInv b"
  shows "bySubscriberInv (fst (subscribeLocked b p q))"
proof -
  have ne: "List.insert x ys \<noteq> []" for x :: string and ys by (auto simp: List.insert_def)
  show ?thesis
    using assms unfolding bySubscriberInv_def subscribe_subscriptions
    by (auto simp: subscribeLocked_def Let_def ne)
qed

lemma subscribe_brokerInv:
  "brokerInv b \<Longrightarrow> parseTopicPattern raw = Inr p \<Longrightarrow> brokerInv (fst (subscribeLocked b p q))"
  unfolding brokerInv_def
  using subscribe_byPatternInv subscribe_trieInv subscribe_bySubscriberInv by blast

lemma unsubscribe_missing:
  "(tpRaw p, Key q) \<notin> subscriptions b \<Longrightarrow> unsubscribeLocked b p q = (b, False, False)"
  by (simp add: subscriptions_def unsubscribeLocked_def Let_def)

text \<open>The tables after a removal, before the trie is rebuilt.\<close>

definition unsubTables :: "pubsubBrokerService \<Rightarrow> topicPattern \<Rightarrow> PID \<Rightarrow> pubsubBrokerService" where
  "unsubTables b p q =
     (let key = Key q; raw = tpRaw p; subs = gomap_del key (patternSubs b raw);
          pats = removeAll raw (case psBySubscriber b key of None \<Rightarrow> [] | Some l \<Rightarrow> l)
      in b\<lparr>psByPattern := (if subs = [] then gomap_del raw (psByPattern b) else gomap_put raw subs (psByPattern b)),
           psBySubscriber := (psBySubscriber b)(key := (if pats = [] then None else Some pats))\<rparr>)"

lemma unsubscribe_found:
  "(tpRaw p, Key q) \<in> subscriptions b \<Longrightarrow>
   unsubscribeLocked b p q =
     (rebuildTrieLocked (unsubTables b p q), True, gomap_del (Key q) (patternSubs b (tpRaw p)) = [])"
  by (auto simp: subscriptions_def unsubscribeLocked_def unsubTables_def Let_def)

lemma patternSubs_unsubTables:
  "patternSubs (unsubTables b p q) raw =
     (if raw = tpRaw p then gomap_del (Key q) (patternSubs b raw) else patternSubs b raw)"
  by (simp add: patternSubs_def unsubTables_def Let_def)

lemma subscriptions_unsubTables:
  "subscriptions (unsubTables b p q) = subscriptions b - {(tpRaw p, Key q)}"
  by (auto simp: subscriptions_def patternSubs_unsubTables split: if_splits)

lemma subscriptions_rebuild [simp]: "subscriptions (rebuildTrieLocked b) = subscriptions b"
  by (simp add: subscriptions_def patternSubs_def rebuildTrieLocked_def)

lemma unsubscribe_subscriptions:
  "subscriptions (fst (unsubscribeLocked b p q)) = subscriptions b - {(tpRaw p, Key q)}"
  by (cases "(tpRaw p, Key q) \<in> subscriptions b")
    (simp_all add: unsubscribe_missing unsubscribe_found subscriptions_unsubTables)

lemma byPatternInv_unsubTables:
  assumes "byPatternInv b" and "parseTopicPattern raw = Inr p"
  shows "byPatternInv (unsubTables b p q)"
proof -
  let ?subs = "gomap_del (Key q) (patternSubs b raw)"
  have k: "keyed (set ?subs)"
    using set_gomap_del [of "Key q" "patternSubs b raw"] patternSubs_props(2) [OF assms(1), of raw]
    by (auto simp: keyed_def)
  have raw: "tpRaw p = raw" using parse_segments [OF assms(2)] by simp
  show ?thesis
  proof (cases "?subs = []")
    case True
    with assms(1) raw show ?thesis
      using set_gomap_del [of raw "psByPattern b"]
      by (auto simp: unsubTables_def Let_def byPatternInv_def)
  next
    case False
    from byPatternInv_put [OF assms patternSubs_props(1) [OF assms(1), THEN gomap_ok_del] False k,
        where s = "psBySubscriber (unsubTables b p q)" and t = "psTrie b"]
    show ?thesis using False raw by (simp add: unsubTables_def Let_def)
  qed
qed

lemma unsubscribe_brokerInv:
  assumes "brokerInv b" and "parseTopicPattern raw = Inr p"
  shows "brokerInv (fst (unsubscribeLocked b p q))"
proof (cases "(tpRaw p, Key q) \<in> subscriptions b")
  case True
  have bp: "byPatternInv (unsubTables b p q)"
    using assms by (simp add: brokerInv_def byPatternInv_unsubTables)
  have "bySubscriberInv (rebuildTrieLocked (unsubTables b p q))"
    unfolding bySubscriberInv_def subscriptions_rebuild subscriptions_unsubTables
  proof (intro allI conjI)
    fix k raw
    have b: "psBySubscriber b k \<noteq> Some []"
      "(raw, k) \<in> subscriptions b \<longleftrightarrow> raw \<in> set (case psBySubscriber b k of None \<Rightarrow> [] | Some l \<Rightarrow> l)" for raw
      using assms by (auto simp: brokerInv_def bySubscriberInv_def)
    have s: "psBySubscriber (rebuildTrieLocked (unsubTables b p q)) = (psBySubscriber b)(Key q :=
        (if removeAll (tpRaw p) (case psBySubscriber b (Key q) of None \<Rightarrow> [] | Some l \<Rightarrow> l) = [] then None
         else Some (removeAll (tpRaw p) (case psBySubscriber b (Key q) of None \<Rightarrow> [] | Some l \<Rightarrow> l))))"
      by (simp add: rebuildTrieLocked_def unsubTables_def Let_def)
    show "psBySubscriber (rebuildTrieLocked (unsubTables b p q)) k \<noteq> Some []"
      using b unfolding s by auto
    have r: "set (case (if removeAll x l = [] then None else Some (removeAll x l)) of None \<Rightarrow> [] | Some l \<Rightarrow> l) =
        set l - {x}" for x :: string and l
      using set_removeAll [of x l] by (cases "removeAll x l = []") auto
    show "(raw, k) \<in> subscriptions b - {(tpRaw p, Key q)} \<longleftrightarrow>
      raw \<in> set (case psBySubscriber (rebuildTrieLocked (unsubTables b p q)) k of None \<Rightarrow> [] | Some l \<Rightarrow> l)"
      using b(2) [of raw] unfolding s by (cases "k = Key q") (simp_all add: r)
  qed
  moreover have "byPatternInv (rebuildTrieLocked (unsubTables b p q))"
    using bp by (simp add: byPatternInv_def rebuildTrieLocked_def)
  ultimately show ?thesis
    using True trieInv_rebuild [OF bp] by (simp add: unsubscribe_found brokerInv_def)
qed (use assms in \<open>simp add: unsubscribe_missing\<close>)

lemma newBroker_inv: "brokerInv (newPubSubBrokerService i)"
  by (simp add: brokerInv_def byPatternInv_def trieInv_def bySubscriberInv_def subscriptions_def
      patternSubs_def newPubSubBrokerService_def newSubscriptionTrie_def)

section \<open>Publication targets\<close>

datatype psOp = PsSubscribe string PID | PsUnsubscribe string PID

text \<open>The effect of the two handlers on the tables: a pattern that does not parse changes nothing.\<close>

fun psStep :: "pubsubBrokerService \<Rightarrow> psOp \<Rightarrow> pubsubBrokerService" where
  "psStep b (PsSubscribe raw q) =
     (case parseTopicPattern raw of Inl _ \<Rightarrow> b | Inr p \<Rightarrow> fst (subscribeLocked b p q))"
| "psStep b (PsUnsubscribe raw q) =
     (case parseTopicPattern raw of Inl _ \<Rightarrow> b | Inr p \<Rightarrow> fst (unsubscribeLocked b p q))"

text \<open>The reference: the set of current (pattern, subscriber key) pairs.\<close>

fun psSpec :: "(string \<times> string) set \<Rightarrow> psOp \<Rightarrow> (string \<times> string) set" where
  "psSpec S (PsSubscribe raw q) = (if isl (parseTopicPattern raw) then S else insert (raw, Key q) S)"
| "psSpec S (PsUnsubscribe raw q) = (if isl (parseTopicPattern raw) then S else S - {(raw, Key q)})"

lemma psStep_inv: "brokerInv b \<Longrightarrow> brokerInv (psStep b op)"
  by (cases op) (auto simp: subscribe_brokerInv unsubscribe_brokerInv split: sum.splits)

lemma psStep_subscriptions: "subscriptions (psStep b op) = psSpec (subscriptions b) op"
  by (cases op)
    (auto simp: subscribe_subscriptions unsubscribe_subscriptions dest!: parse_segments split: sum.splits)

lemma psRun_sim:
  "brokerInv b \<Longrightarrow> brokerInv (foldl psStep b ops) \<and>
     subscriptions (foldl psStep b ops) = foldl psSpec (subscriptions b) ops"
  by (induction ops arbitrary: b) (simp_all add: psStep_inv psStep_subscriptions)

text \<open>
  Which PIDs the table by pattern and the trie hold: only ones that were subscribed, to a pattern
  that matches the topics they are found for.
\<close>

definition pidsFrom :: "(string \<Rightarrow> PID \<Rightarrow> bool) \<Rightarrow> pubsubBrokerService \<Rightarrow> bool" where
  "pidsFrom P b \<longleftrightarrow> (\<forall>(raw, m) \<in> set (psByPattern b). \<forall>(k, q) \<in> set m. P raw q) \<and>
     (\<forall>topic. \<forall>(k, q) \<in> reach (Some (psTrie b)) topic. \<exists>raw. P raw q \<and> patMatch (splitDot raw) topic)"

lemma pidsFromI:
  assumes "\<And>raw m k q. (raw, m) \<in> set (psByPattern b) \<Longrightarrow> (k, q) \<in> set m \<Longrightarrow> P raw q"
    and "\<And>topic k q. (k, q) \<in> reach (Some (psTrie b)) topic \<Longrightarrow> \<exists>raw. P raw q \<and> patMatch (splitDot raw) topic"
  shows "pidsFrom P b"
  using assms unfolding pidsFrom_def by blast

lemma pidsFromD:
  assumes "pidsFrom P b"
  shows "(raw, m) \<in> set (psByPattern b) \<Longrightarrow> (k, q) \<in> set m \<Longrightarrow> P raw q"
    and "(k, q) \<in> reach (Some (psTrie b)) topic \<Longrightarrow> \<exists>raw. P raw q \<and> patMatch (splitDot raw) topic"
    and "(k, q) \<in> set (patternSubs b raw) \<Longrightarrow> P raw q"
proof -
  show 1: "P raw q" if "(raw, m) \<in> set (psByPattern b)" "(k, q) \<in> set m" for raw m k q
    using assms that unfolding pidsFrom_def by blast
  show "(k, q) \<in> reach (Some (psTrie b)) topic \<Longrightarrow> \<exists>raw. P raw q \<and> patMatch (splitDot raw) topic"
    using assms unfolding pidsFrom_def by blast
  assume "(k, q) \<in> set (patternSubs b raw)"
  then obtain m where "map_of (psByPattern b) raw = Some m" "(k, q) \<in> set m"
    by (cases "map_of (psByPattern b) raw") (auto simp: patternSubs_def)
  with 1 map_of_SomeD show "P raw q" by metis
qed

lemma subscribe_pidsFrom:
  assumes "pidsFrom P b" "parseTopicPattern raw = Inr p" "P raw q"
  shows "pidsFrom P (fst (subscribeLocked b p q))"
proof (rule pidsFromI)
  have raw: "tpRaw p = raw" "tpSegments p = splitDot raw" using parse_segments [OF assms(2)] by simp_all
  let ?m = "gomap_put (Key q) q (patternSubs b raw)"
  fix raw' m k q'
  assume e: "(raw', m) \<in> set (psByPattern (fst (subscribeLocked b p q)))" "(k, q') \<in> set m"
  then have "(raw', m) = (raw, ?m) \<or> (raw', m) \<in> set (psByPattern b)"
    using set_gomap_put [of raw ?m "psByPattern b"] by (auto simp: subscribeLocked_def Let_def raw)
  then show "P raw' q'"
  proof
    assume m: "(raw', m) = (raw, ?m)"
    with e(2) have "(k, q') = (Key q, q) \<or> (k, q') \<in> set (patternSubs b raw)"
      using set_gomap_put [of "Key q" q "patternSubs b raw"] by auto
    with m pidsFromD(3) [OF assms(1)] assms(3) show ?thesis by auto
  qed (use e(2) pidsFromD(1) [OF assms(1)] in blast)
next
  have seg: "tpSegments p = splitDot raw" using parse_segments [OF assms(2)] by simp
  fix topic k q'
  assume "(k, q') \<in> reach (Some (psTrie (fst (subscribeLocked b p q)))) topic"
  then have "(k, q') \<in> reach (Some (psTrie b)) topic \<or> (k, q') \<in> reach (Some (trieInsert (psTrie b) (splitDot raw) q)) topic"
    by (auto simp: subscribeLocked_def Let_def subTrie_insert_def seg split: if_splits)
  then have "(k, q') \<in> reach (Some (psTrie b)) topic \<or> q' = q \<and> patMatch (splitDot raw) topic"
    using subsetD [OF reach_insert_pids [of "psTrie b" "splitDot raw" q topic], of "(k, q')"] by (auto split: if_splits)
  then show "\<exists>raw. P raw q' \<and> patMatch (splitDot raw) topic" using pidsFromD(2) [OF assms(1)] assms(3) by blast
qed

lemma pidsFrom_unsubTables:
  assumes "pidsFrom P b" "(raw', m) \<in> set (psByPattern (unsubTables b p q))" "(k, q') \<in> set m"
  shows "P raw' q'"
proof -
  let ?m = "gomap_del (Key q) (patternSubs b (tpRaw p))"
  have "(raw', m) = (tpRaw p, ?m) \<or> (raw', m) \<in> set (psByPattern b)"
    using assms(2) set_gomap_put [of "tpRaw p" ?m "psByPattern b"] set_gomap_del [of "tpRaw p" "psByPattern b"]
    by (auto simp: unsubTables_def Let_def split: if_splits)
  then show ?thesis
  proof
    assume m: "(raw', m) = (tpRaw p, ?m)"
    with assms(3) have "(k, q') \<in> set (patternSubs b (tpRaw p))"
      using set_gomap_del [of "Key q" "patternSubs b (tpRaw p)"] by auto
    with m pidsFromD(3) [OF assms(1)] show ?thesis by auto
  qed (use assms(3) pidsFromD(1) [OF assms(1)] in blast)
qed

lemma unsubscribe_pidsFrom:
  assumes "pidsFrom P b" "byPatternInv b" "parseTopicPattern raw = Inr p"
  shows "pidsFrom P (fst (unsubscribeLocked b p q))"
proof (cases "(tpRaw p, Key q) \<in> subscriptions b")
  case True
  let ?u = "unsubTables b p q"
  have inv: "\<forall>(raw, m) \<in> set (psByPattern ?u). \<exists>p. parseTopicPattern raw = Inr p"
    using byPatternInv_unsubTables [OF assms(2,3), of q] by (auto simp: byPatternInv_def)
  have t: "psTrie (rebuildTrieLocked ?u) = trieOf (flatSubs (psByPattern ?u))" "psByPattern (rebuildTrieLocked ?u) = psByPattern ?u"
    by (simp_all add: rebuildTrieLocked_def trieOf_def rebuild_foldl [OF inv])
  have flat: "\<exists>raw m k. (raw, m) \<in> set bp \<and> (k, q') \<in> set m \<and> segs = splitDot raw" if "(segs, q') \<in> set (flatSubs bp)" for segs q' bp
    using that by (force simp: flatSubs_def)
  have "pidsFrom P (rebuildTrieLocked ?u)"
  proof (rule pidsFromI)
    fix topic k q' assume "(k, q') \<in> reach (Some (psTrie (rebuildTrieLocked ?u))) topic"
    from trieOf_pids [OF this [unfolded t]] flat obtain raw' m k' where
      "(raw', m) \<in> set (psByPattern ?u)" "(k', q') \<in> set m" "patMatch (splitDot raw') topic" by blast
    with pidsFrom_unsubTables [OF assms(1)] show "\<exists>raw. P raw q' \<and> patMatch (splitDot raw) topic" by blast
  qed (use pidsFrom_unsubTables [OF assms(1)] t(2) in simp)
  with True show ?thesis by (simp add: unsubscribe_found)
qed (use assms in \<open>simp add: unsubscribe_missing\<close>)

lemma psRun_pids:
  "brokerInv b \<Longrightarrow> pidsFrom P b \<Longrightarrow> \<forall>raw q. PsSubscribe raw q \<in> set ops \<longrightarrow> P raw q \<Longrightarrow> pidsFrom P (foldl psStep b ops)"
proof (induction ops arbitrary: b)
  case (Cons op ops)
  have "pidsFrom P (psStep b op)"
    using Cons.prems subscribe_pidsFrom [OF Cons.prems(2)] unsubscribe_pidsFrom [OF Cons.prems(2)]
    by (cases op) (auto simp: brokerInv_def split: sum.splits)
  with Cons.IH [OF psStep_inv [OF Cons.prems(1)]] Cons.prems(3) show ?case by simp
qed simp

lemma psSpec_subscribed: "(raw, k) \<in> foldl psSpec {} ops \<Longrightarrow> \<exists>q. PsSubscribe raw q \<in> set ops \<and> Key q = k"
proof (induction ops rule: rev_induct)
  case (snoc op ops)
  then show ?case by (cases op) (auto split: if_splits)
qed simp

lemma psSpec_parsed:
  "\<forall>(raw, k) \<in> S. P raw \<Longrightarrow> \<forall>raw q. PsSubscribe raw q \<in> set ops \<longrightarrow> isl (parseTopicPattern raw) \<or> P raw \<Longrightarrow>
   \<forall>(raw, k) \<in> foldl psSpec S ops. P raw"
proof (induction ops arbitrary: S)
  case (Cons op ops)
  have "\<forall>(raw, k) \<in> psSpec S op. P raw" using Cons.prems by (cases op) auto
  moreover have "\<forall>raw q. PsSubscribe raw q \<in> set ops \<longrightarrow> isl (parseTopicPattern raw) \<or> P raw"
    using Cons.prems(2) by simp
  ultimately show ?case using Cons.IH by simp
qed simp

lemma stored_of_parsed:
  "segs \<noteq> [] \<Longrightarrow> last segs \<noteq> ''+'' \<Longrightarrow> stored segs"
  by (induction segs) auto

lemma not_stored_of_parsed:
  "segs \<noteq> [] \<Longrightarrow> patternSegmentsOk segs \<Longrightarrow> last segs = ''+'' \<Longrightarrow> \<not> stored segs"
proof (induction segs)
  case (Cons seg segs)
  show ?case
  proof (cases "segs = []")
    case True
    with Cons.prems(3) show ?thesis by simp
  next
    case False
    with Cons.prems(2) have "seg \<noteq> ''#''" "patternSegmentsOk segs"
      unfolding patternSegmentsOk.simps by argo+
    with False Cons.prems(3) Cons.IH show ?thesis by simp
  qed
qed simp

text \<open>Sets of PIDs that are compared by key are equal when a key determines its PID.\<close>

lemma targets_by_key:
  assumes "Key ` T = {k. \<exists>raw. (raw, k) \<in> S \<and> M raw}" and "\<And>q. q \<in> T \<Longrightarrow> \<exists>raw. sub raw q \<and> M raw"
    and "\<And>raw k. (raw, k) \<in> S \<Longrightarrow> \<exists>q. sub raw q \<and> Key q = k"
    and "\<forall>raw q raw' q'. sub raw q \<longrightarrow> sub raw' q' \<longrightarrow> Key q = Key q' \<longrightarrow> q = q'"
  shows "T = {q. \<exists>raw. sub raw q \<and> (raw, Key q) \<in> S \<and> M raw}"
proof (intro equalityI subsetI)
  fix q assume q: "q \<in> T"
  then have "Key q \<in> {k. \<exists>raw. (raw, k) \<in> S \<and> M raw}" unfolding assms(1) [symmetric] by (rule imageI)
  then obtain raw where raw: "(raw, Key q) \<in> S" "M raw" by auto
  from assms(3) [OF raw(1)] obtain q' where q': "sub raw q'" "Key q' = Key q" by blast
  with assms(2) [OF q] assms(4) have "q' = q" by blast
  with q' raw show "q \<in> {q. \<exists>raw. sub raw q \<and> (raw, Key q) \<in> S \<and> M raw}" by blast
next
  fix q assume "q \<in> {q. \<exists>raw. sub raw q \<and> (raw, Key q) \<in> S \<and> M raw}"
  then obtain raw where raw: "sub raw q" "(raw, Key q) \<in> S" "M raw" by blast
  then have "Key q \<in> Key ` T" unfolding assms(1) by blast
  then obtain q' where q': "q' \<in> T" "Key q' = Key q" by force
  with assms(2) [OF q'(1)] assms(4) raw(1) have "q' = q" by blast
  with q'(1) show "q \<in> T" by simp
qed

text \<open>
  Claim C3. After any sequence of subscribe and unsubscribe commands whose patterns do not end in
  \<open>+\<close>, the keys of the targets the broker computes for a topic are, each exactly once, the keys of
  the subscribers that currently have a subscription whose pattern matches the topic, and the
  tables by pattern and by subscriber and the trie agree on these keys. Every target is a PID that
  some command has subscribed to a pattern matching the topic. A key leaves the generation open: a
  target may be an older PID of a subscriber that has subscribed again with a newer one. When the
  commands never subscribe two generations of one actor, the targets are exactly the current
  subscribers, generation included.
\<close>

theorem broker_targets_correct:
  assumes "\<forall>raw q. PsSubscribe raw q \<in> set ops \<longrightarrow> last (splitDot raw) \<noteq> ''+''"
    and "b = foldl psStep (newPubSubBrokerService brokerID) ops"
  shows "brokerInv b \<and> distinct (map Key (trieMatch (psTrie b) topic)) \<and>
    Key ` set (trieMatch (psTrie b) topic) = {k. \<exists>raw. (raw, k) \<in> foldl psSpec {} ops \<and> patMatch (splitDot raw) topic} \<and>
    (\<forall>q \<in> set (trieMatch (psTrie b) topic). \<exists>raw. PsSubscribe raw q \<in> set ops \<and> patMatch (splitDot raw) topic) \<and>
    ((\<forall>raw q raw' q'. PsSubscribe raw q \<in> set ops \<longrightarrow> PsSubscribe raw' q' \<in> set ops \<longrightarrow> Key q = Key q' \<longrightarrow> q = q') \<longrightarrow>
       set (trieMatch (psTrie b) topic) =
         {q. \<exists>raw. PsSubscribe raw q \<in> set ops \<and> (raw, Key q) \<in> foldl psSpec {} ops \<and> patMatch (splitDot raw) topic})"
proof -
  have e: "subscriptions (newPubSubBrokerService brokerID) = {}"
    by (simp add: subscriptions_def patternSubs_def newPubSubBrokerService_def)
  have inv: "brokerInv b" and s: "subscriptions b = foldl psSpec {} ops"
    using psRun_sim [OF newBroker_inv [of brokerID], of ops] by (simp_all add: e assms(2))
  have st: "\<forall>(raw, k) \<in> foldl psSpec {} ops. stored (splitDot raw)"
  proof (rule psSpec_parsed)
    show "\<forall>raw q. PsSubscribe raw q \<in> set ops \<longrightarrow> isl (parseTopicPattern raw) \<or> stored (splitDot raw)"
      using assms(1) stored_of_parsed splitDot_not_Nil by blast
  qed simp
  have t: "keyed (reach (Some (psTrie b)) topic)" "fst ` reach (Some (psTrie b)) topic =
      {k. \<exists>raw. (raw, k) \<in> foldl psSpec {} ops \<and> stored (splitDot raw) \<and> patMatch (splitDot raw) topic}"
    using inv s by (simp_all add: brokerInv_def trieInv_def)
  have keys: "Key ` set (trieMatch (psTrie b) topic) = {k. \<exists>raw. (raw, k) \<in> foldl psSpec {} ops \<and> patMatch (splitDot raw) topic}"
    using trieMatch_keys(1) [OF t(1)] t(2) st by auto
  have "pidsFrom (\<lambda>raw q. PsSubscribe raw q \<in> set ops) (newPubSubBrokerService brokerID)"
    by (simp add: pidsFrom_def newPubSubBrokerService_def newSubscriptionTrie_def)
  from psRun_pids [OF newBroker_inv this] have pids: "pidsFrom (\<lambda>raw q. PsSubscribe raw q \<in> set ops) b" by (simp add: assms(2))
  have sub: "\<exists>raw. PsSubscribe raw q \<in> set ops \<and> patMatch (splitDot raw) topic" if q: "q \<in> set (trieMatch (psTrie b) topic)" for q
  proof -
    obtain k where "(k, q) \<in> set (trieWalk (Some (psTrie b)) topic [])" using q by (auto simp: trieMatch_def)
    with trieWalk_set [of "Some (psTrie b)" topic "[]"] have "(k, q) \<in> reach (Some (psTrie b)) topic" by auto
    from pidsFromD(2) [OF pids this] show ?thesis .
  qed
  have exact: "set (trieMatch (psTrie b) topic) =
      {q. \<exists>raw. PsSubscribe raw q \<in> set ops \<and> (raw, Key q) \<in> foldl psSpec {} ops \<and> patMatch (splitDot raw) topic}"
    if one: "\<forall>raw q raw' q'. PsSubscribe raw q \<in> set ops \<longrightarrow> PsSubscribe raw' q' \<in> set ops \<longrightarrow> Key q = Key q' \<longrightarrow> q = q'"
    by (rule targets_by_key [OF keys sub psSpec_subscribed one])
  show ?thesis by (intro conjI ballI impI inv trieMatch_keys(2) [OF t(1)] keys exact) (rule sub)
qed

theorem broker_targets_correct_witness:
  "let q = \<lparr>pidNamespace = ''n'', pidActorID = ''x'', pidGeneration = 1\<rparr>;
       b = foldl psStep (newPubSubBrokerService ''b'') [PsSubscribe ''a.#'' q]
   in set (trieMatch (psTrie b) [''a'', ''b'']) = {q}"
proof -
  let ?q = "\<lparr>pidNamespace = ''n'', pidActorID = ''x'', pidGeneration = 1\<rparr>"
  have "\<forall>raw q. PsSubscribe raw q \<in> set [PsSubscribe ''a.#'' ?q] \<longrightarrow> last (splitDot raw) \<noteq> ''+''" by simp
  note t = broker_targets_correct [OF this refl, of "''b''" "[''a'', ''b'']", THEN conjunct2, THEN conjunct2, THEN conjunct2, THEN conjunct2, THEN mp]
  have "\<forall>raw q raw' q'. PsSubscribe raw q \<in> set [PsSubscribe ''a.#'' ?q] \<longrightarrow> PsSubscribe raw' q' \<in> set [PsSubscribe ''a.#'' ?q] \<longrightarrow>
      Key q = Key q' \<longrightarrow> q = q'" by simp
  from t [OF this] show ?thesis
    by (simp only: Let_def) (simp add: parseTopicPattern_def trimIsEmpty_def isSpaceChar_def, blast)
qed

text \<open>
  Claim C40. A subscription whose pattern ends in \<open>+\<close> is accepted and recorded, but the trie never
  delivers to it: the targets of every topic are those from before the subscription, although
  the pattern matches topics (a final \<open>+\<close> is documented to stand for one segment).
\<close>

theorem trailing_plus_never_delivered:
  assumes "brokerInv b" and "parseTopicPattern raw = Inr p" and "last (splitDot raw) = ''+''"
  shows "(raw, Key q) \<in> subscriptions (fst (subscribeLocked b p q)) \<and>
    Key ` set (trieMatch (psTrie (fst (subscribeLocked b p q))) topic) = Key ` set (trieMatch (psTrie b) topic)"
proof -
  have "patternSegmentsOk (splitDot raw)"
    using assms(2) by (auto simp: parseTopicPattern_def Let_def split: if_splits)
  then have ns: "\<not> stored (splitDot raw)" using assms(3) by (simp add: not_stored_of_parsed)
  have raw: "tpRaw p = raw" using parse_segments [OF assms(2)] by simp
  have inv: "trieInv b" "trieInv (fst (subscribeLocked b p q))"
    using assms subscribe_brokerInv [OF assms(1,2)] by (simp_all add: brokerInv_def)
  have "fst ` reach (Some (psTrie (fst (subscribeLocked b p q)))) topic = fst ` reach (Some (psTrie b)) topic"
    using inv ns raw unfolding trieInv_def subscribe_subscriptions by auto
  then show ?thesis
    using inv trieMatch_keys(1) [of "psTrie b" topic]
      trieMatch_keys(1) [of "psTrie (fst (subscribeLocked b p q))" topic] raw
    by (simp add: trieInv_def subscribe_subscriptions)
qed

theorem trailing_plus_never_delivered_witness:
  "let b = newPubSubBrokerService ''b''; p = \<lparr>tpRaw = ''a.+'', tpSegments = [''a'', ''+'']\<rparr>
   in parseTopicPattern ''a.+'' = Inr p \<and> patMatch [''a'', ''+''] [''a'', ''b''] \<and>
      Key ` set (trieMatch (psTrie (fst (subscribeLocked b p zeroPID))) [''a'', ''b'']) = {}"
proof -
  let ?p = "\<lparr>tpRaw = ''a.+'', tpSegments = [''a'', ''+'']\<rparr>"
  have p: "parseTopicPattern ''a.+'' = Inr ?p"
    by (simp add: parseTopicPattern_def trimIsEmpty_def isSpaceChar_def)
  have "last (splitDot ''a.+'') = ''+''" by simp
  from trailing_plus_never_delivered [OF newBroker_inv [of "''b''"] p this, of zeroPID "[''a'', ''b'']"] p
  show ?thesis
    by (simp add: Let_def trieMatch_def newPubSubBrokerService_def newSubscriptionTrie_def newTrieNode_def)
qed

text \<open>
  Subscribing again with a PID of a newer generation updates the table but not the trie:
  the broker keeps delivering to the old generation, which the resolver rejects as stale after a
  restart.
\<close>

theorem resubscribe_keeps_old_generation:
  "let old = \<lparr>pidNamespace = ns, pidActorID = a, pidGeneration = 1\<rparr>;
       new = \<lparr>pidNamespace = ns, pidActorID = a, pidGeneration = 2\<rparr>;
       b = foldl psStep (newPubSubBrokerService i) [PsSubscribe ''t'' old, PsSubscribe ''t'' new]
   in map_of (patternSubs b ''t'') (Key new) = Some new \<and> trieMatch (psTrie b) [''t''] = [old]"
proof -
  let ?old = "\<lparr>pidNamespace = ns, pidActorID = a, pidGeneration = 1\<rparr>"
  let ?new = "\<lparr>pidNamespace = ns, pidActorID = a, pidGeneration = 2\<rparr>"
  have k: "Key ?new = Key ?old" by (simp add: Key_def)
  have p: "parseTopicPattern ''t'' = Inr \<lparr>tpRaw = ''t'', tpSegments = [''t'']\<rparr>"
    by (simp add: parseTopicPattern_def trimIsEmpty_def isSpaceChar_def)
  show ?thesis
    by (simp add: Let_def p k subscribeLocked_def patternSubs_def newPubSubBrokerService_def
        newSubscriptionTrie_def newTrieNode_def subTrie_insert_def trieMatch_def)
qed

end
