(* ===== verification/CronTable.thy ===== *)
theory CronTable
  imports Types
begin

text \<open>
  The tables of a cron timer service (\<open>cron_broker.go\<close>): subscriptions by reference ID, the index
  by actor, and the goroutines \<open>runSchedule\<close> with their contexts. The cron parser is a
  third-party package: a parsed schedule is the function that maps a time to the next one at
  which it fires, if there is one. The set of reference IDs of an actor is a list without
  repetitions in some iteration order of the Go map.
\<close>

type_synonym cronSchedule = "int \<Rightarrow> int option"

record cronSubscription =
  cuRef :: CronRef
  cuSubscriber :: PID
  cuActorID :: string
  cuSchedule :: cronSchedule
  cuPayload :: any
  cuTag :: string
  cuMonitorRef :: u64
  cuCancel :: nat \<comment> \<open>the goroutine whose context the cancel function ends\<close>

text \<open>A goroutine \<open>runSchedule\<close>, waiting for a time or at the head of its loop.\<close>

record cronJob =
  cjID :: nat
  cjSub :: cronSubscription
  cjCanceled :: bool
  cjNext :: "int option"

record cronBrokerService =
  cbCronID :: string
  cbSubs :: "(string, cronSubscription) gomap"
  cbByActor :: "string \<rightharpoonup> string list"
  cbSeq :: u64
  cbRestored :: bool
  cbJobs :: "cronJob list"
  cbNextJob :: nat

definition newCronBrokerService :: "string \<Rightarrow> cronBrokerService" where
  "newCronBrokerService cronID = \<lparr>cbCronID = cronID, cbSubs = [], cbByActor = Map.empty, cbSeq = 0,
     cbRestored = False, cbJobs = [], cbNextJob = 0\<rparr>"

definition cronRefsOf :: "cronBrokerService \<Rightarrow> string \<Rightarrow> string list" where
  "cronRefsOf cs actorID = (case cbByActor cs actorID of None \<Rightarrow> [] | Some refs \<Rightarrow> refs)"

text \<open>Storing a subscription and starting its goroutine.\<close>

definition cronAdd :: "cronSubscription \<Rightarrow> cronBrokerService \<Rightarrow> cronBrokerService" where
  "cronAdd sub cs =
     (let refID = crID (cuRef sub); sub = sub\<lparr>cuCancel := cbNextJob cs\<rparr>
      in cs\<lparr>cbSubs := gomap_put refID sub (cbSubs cs),
            cbByActor := (cbByActor cs)(cuActorID sub \<mapsto> List.insert refID (cronRefsOf cs (cuActorID sub))),
            cbJobs := cbJobs cs @ [\<lparr>cjID = cbNextJob cs, cjSub = sub, cjCanceled = False, cjNext = None\<rparr>],
            cbNextJob := Suc (cbNextJob cs)\<rparr>)"

definition cronCancel :: "cronSubscription \<Rightarrow> cronBrokerService \<Rightarrow> cronBrokerService" where
  "cronCancel sub cs =
     cs\<lparr>cbJobs := map (\<lambda>j. if cjID j = cuCancel sub then j\<lparr>cjCanceled := True\<rparr> else j) (cbJobs cs)\<rparr>"

text \<open>\<open>removeLocked\<close> without the call of \<open>Demonitor\<close>.\<close>

definition cronRemove :: "string \<Rightarrow> cronSubscription \<Rightarrow> cronBrokerService \<Rightarrow> cronBrokerService" where
  "cronRemove refID sub cs =
     (let cs = cronCancel sub cs;
          cs = cs\<lparr>cbSubs := gomap_del refID (cbSubs cs)\<rparr>
      in case cbByActor cs (cuActorID sub) of
           None \<Rightarrow> cs
         | Some refs \<Rightarrow>
             let refs = removeAll refID refs
             in cs\<lparr>cbByActor := (cbByActor cs)(cuActorID sub := (if refs = [] then None else Some refs))\<rparr>)"

definition cronDownOne :: "string \<Rightarrow> cronBrokerService \<Rightarrow> cronBrokerService" where
  "cronDownOne refID cs =
     (case map_of (cbSubs cs) refID of
        None \<Rightarrow> cs
      | Some sub \<Rightarrow> (cronCancel sub cs)\<lparr>cbSubs := gomap_del refID (cbSubs cs)\<rparr>)"

definition cron_handleDown :: "string \<Rightarrow> cronBrokerService \<Rightarrow> cronBrokerService" where
  "cron_handleDown actorID cs =
     (let cs = fold cronDownOne (cronRefsOf cs actorID) cs
      in cs\<lparr>cbByActor := (cbByActor cs)(actorID := None)\<rparr>)"

definition cronListRefs :: "string \<Rightarrow> cronBrokerService \<Rightarrow> CronRef list" where
  "cronListRefs actorID cs =
     List.map_filter (\<lambda>refID. map_option cuRef (map_of (cbSubs cs) refID)) (cronRefsOf cs actorID)"

text \<open>
  The handoff state lists the entries of the map in the order in which the association list has
  them; in the program this order changes from call to call. An association list with the same
  entries in another order stands for the same map, so a property of a handoff quantifies over all
  such orders.
\<close>

definition captureState :: "cronBrokerService \<Rightarrow> any" where
  "captureState cs =
     CronHandoffState (map (\<lambda>(refID, sub). (crID (cuRef sub), cuActorID sub, crSchedule (cuRef sub), cuTag sub, cuPayload sub)) (cbSubs cs))"

definition cronRefID :: "string \<Rightarrow> u64 \<Rightarrow> string" where
  "cronRefID cronID n = ''cron-'' @ cronID @ ''-'' @ string_of_u64 n"

lemma cronRefID_inj [simp]: "cronRefID c m = cronRefID c n \<longleftrightarrow> m = n"
  by (simp add: cronRefID_def)

section \<open>The invariant of every service\<close>

text \<open>
  Subscriptions are stored under their own reference ID, the index covers every subscription,
  has no empty entries, and goroutine numbers are fresh.
\<close>

definition cronInv :: "cronBrokerService \<Rightarrow> bool" where
  "cronInv cs \<longleftrightarrow> gomap_ok (cbSubs cs) \<and>
     (\<forall>refID sub. map_of (cbSubs cs) refID = Some sub \<longrightarrow> crID (cuRef sub) = refID \<and> crActorID (cuRef sub) = cuActorID sub \<and>
        refID \<in> set (cronRefsOf cs (cuActorID sub)) \<and> cuCancel sub < cbNextJob cs) \<and>
     (\<forall>a. cbByActor cs a \<noteq> Some [] \<and> distinct (cronRefsOf cs a)) \<and>
     distinct (map cjID (cbJobs cs)) \<and> (\<forall>j\<in>set (cbJobs cs). cjID j < cbNextJob cs \<and> cuCancel (cjSub j) = cjID j)"

lemma cronInvI:
  assumes "gomap_ok (cbSubs cs)"
    and "\<And>refID sub. map_of (cbSubs cs) refID = Some sub \<Longrightarrow> crID (cuRef sub) = refID \<and> crActorID (cuRef sub) = cuActorID sub \<and>
        refID \<in> set (cronRefsOf cs (cuActorID sub)) \<and> cuCancel sub < cbNextJob cs"
    and "\<And>a. cbByActor cs a \<noteq> Some []" and "\<And>a. distinct (cronRefsOf cs a)"
    and "distinct (map cjID (cbJobs cs))"
    and "\<And>j. j \<in> set (cbJobs cs) \<Longrightarrow> cjID j < cbNextJob cs \<and> cuCancel (cjSub j) = cjID j"
  shows "cronInv cs"
  unfolding cronInv_def using assms by blast

lemma cronInvD:
  assumes "cronInv cs"
  shows "gomap_ok (cbSubs cs)"
    and "map_of (cbSubs cs) refID = Some sub \<Longrightarrow> crID (cuRef sub) = refID \<and> crActorID (cuRef sub) = cuActorID sub \<and>
        refID \<in> set (cronRefsOf cs (cuActorID sub)) \<and> cuCancel sub < cbNextJob cs"
    and "cbByActor cs a \<noteq> Some []" and "distinct (cronRefsOf cs a)" and "distinct (map cjID (cbJobs cs))"
    and "j \<in> set (cbJobs cs) \<Longrightarrow> cjID j < cbNextJob cs \<and> cuCancel (cjSub j) = cjID j"
  using assms unfolding cronInv_def by blast+

lemma cronInv_new: "cronInv (newCronBrokerService c)"
  by (simp add: cronInv_def newCronBrokerService_def cronRefsOf_def)

lemma cronCancel_fields [simp]:
  "cbSubs (cronCancel s cs) = cbSubs cs" "cbByActor (cronCancel s cs) = cbByActor cs" "cbSeq (cronCancel s cs) = cbSeq cs"
  "cbNextJob (cronCancel s cs) = cbNextJob cs" "cbCronID (cronCancel s cs) = cbCronID cs" "cbRestored (cronCancel s cs) = cbRestored cs"
  "cronRefsOf (cronCancel s cs) a = cronRefsOf cs a"
  by (simp_all add: cronCancel_def cronRefsOf_def)

lemma cronCancel_ids [simp]: "map cjID (cbJobs (cronCancel s cs)) = map cjID (cbJobs cs)"
  by (simp add: cronCancel_def)

lemma cronCancel_jobs:
  assumes "j \<in> set (cbJobs (cronCancel s cs))"
  obtains j0 where "j0 \<in> set (cbJobs cs)" "cjID j = cjID j0" "cjSub j = cjSub j0" "\<not> cjCanceled j \<Longrightarrow> j = j0 \<and> cjID j \<noteq> cuCancel s"
proof -
  from assms obtain j0 where j0: "j0 \<in> set (cbJobs cs)" "j = (if cjID j0 = cuCancel s then j0\<lparr>cjCanceled := True\<rparr> else j0)"
    unfolding cronCancel_def by auto
  show ?thesis
  proof (rule that [OF j0(1)])
    show "cjID j = cjID j0" "cjSub j = cjSub j0" using j0(2) by simp_all
    show "j = j0 \<and> cjID j \<noteq> cuCancel s" if "\<not> cjCanceled j" using j0(2) that by (cases "cjID j0 = cuCancel s") simp_all
  qed
qed

lemma cronCancel_bound:
  assumes "cronInv cs" and "j \<in> set (cbJobs (cronCancel s cs))"
  shows "cjID j < cbNextJob cs \<and> cuCancel (cjSub j) = cjID j"
  using assms(2) by (rule cronCancel_jobs) (simp add: cronInvD(6) [OF assms(1)])

lemma cronAdd_fields [simp]:
  "cbSubs (cronAdd sub cs) = gomap_put (crID (cuRef sub)) (sub\<lparr>cuCancel := cbNextJob cs\<rparr>) (cbSubs cs)"
  "cronRefsOf (cronAdd sub cs) a = (if a = cuActorID sub then List.insert (crID (cuRef sub)) (cronRefsOf cs a) else cronRefsOf cs a)"
  "cbByActor (cronAdd sub cs) a \<noteq> Some [] \<longleftrightarrow> a = cuActorID sub \<or> cbByActor cs a \<noteq> Some []"
  "cbNextJob (cronAdd sub cs) = Suc (cbNextJob cs)" "cbSeq (cronAdd sub cs) = cbSeq cs" "cbCronID (cronAdd sub cs) = cbCronID cs"
  "cbJobs (cronAdd sub cs) = cbJobs cs @ [\<lparr>cjID = cbNextJob cs, cjSub = sub\<lparr>cuCancel := cbNextJob cs\<rparr>, cjCanceled = False, cjNext = None\<rparr>]"
proof -
  have "List.insert x xs \<noteq> []" for x and xs :: "string list" by (simp add: List.insert_def) auto
  then show "cbByActor (cronAdd sub cs) a \<noteq> Some [] \<longleftrightarrow> a = cuActorID sub \<or> cbByActor cs a \<noteq> Some []"
    by (simp add: cronAdd_def Let_def)
qed (simp_all add: cronAdd_def cronRefsOf_def Let_def)

lemma cronRemove_fields [simp]:
  "cbSubs (cronRemove refID sub cs) = gomap_del refID (cbSubs cs)" "cbJobs (cronRemove refID sub cs) = cbJobs (cronCancel sub cs)"
  "cronRefsOf (cronRemove refID sub cs) a = (if a = cuActorID sub then removeAll refID (cronRefsOf cs a) else cronRefsOf cs a)"
  "cbNextJob (cronRemove refID sub cs) = cbNextJob cs" "cbSeq (cronRemove refID sub cs) = cbSeq cs"
  "cbCronID (cronRemove refID sub cs) = cbCronID cs"
  by (simp_all add: cronRemove_def cronRefsOf_def Let_def split: option.split)

lemma cronRemove_nonempty: "cbByActor cs a \<noteq> Some [] \<Longrightarrow> cbByActor (cronRemove refID sub cs) a \<noteq> Some []"
  by (simp add: cronRemove_def Let_def split: option.split)

lemma cronDownOne_fields [simp]:
  "cbSubs (cronDownOne refID cs) = gomap_del refID (cbSubs cs)"
  "cbByActor (cronDownOne refID cs) = cbByActor cs" "cronRefsOf (cronDownOne refID cs) a = cronRefsOf cs a"
  "cbNextJob (cronDownOne refID cs) = cbNextJob cs" "cbSeq (cronDownOne refID cs) = cbSeq cs"
  "cbCronID (cronDownOne refID cs) = cbCronID cs"
  by (auto simp: cronDownOne_def cronRefsOf_def delete_idem map_of_eq_None_iff split: option.split)

lemma cronInv_add:
  assumes "cronInv cs" and "crActorID (cuRef sub) = cuActorID sub"
  shows "cronInv (cronAdd sub cs)"
proof (rule cronInvI)
  fix refID s assume "map_of (cbSubs (cronAdd sub cs)) refID = Some s"
  then show "crID (cuRef s) = refID \<and> crActorID (cuRef s) = cuActorID s \<and>
      refID \<in> set (cronRefsOf (cronAdd sub cs) (cuActorID s)) \<and> cuCancel s < cbNextJob (cronAdd sub cs)"
    using cronInvD(2) [OF assms(1), of refID s] assms(2) by (auto split: if_splits)
next
  fix j assume "j \<in> set (cbJobs (cronAdd sub cs))"
  then show "cjID j < cbNextJob (cronAdd sub cs) \<and> cuCancel (cjSub j) = cjID j"
    using cronInvD(6) [OF assms(1), of j] by auto
next
  show "distinct (map cjID (cbJobs (cronAdd sub cs)))"
    using cronInvD(5,6) [OF assms(1)] by fastforce
qed (use cronInvD(1,3,4) [OF assms(1)] in simp_all)

lemma cronInv_remove:
  assumes "cronInv cs" and "map_of (cbSubs cs) refID = Some sub"
  shows "cronInv (cronRemove refID sub cs)"
proof (rule cronInvI)
  fix k s assume "map_of (cbSubs (cronRemove refID sub cs)) k = Some s"
  then show "crID (cuRef s) = k \<and> crActorID (cuRef s) = cuActorID s \<and>
      k \<in> set (cronRefsOf (cronRemove refID sub cs) (cuActorID s)) \<and> cuCancel s < cbNextJob (cronRemove refID sub cs)"
    using cronInvD(2) [OF assms(1), of k s] by (auto split: if_splits)
next
  fix j assume "j \<in> set (cbJobs (cronRemove refID sub cs))"
  then show "cjID j < cbNextJob (cronRemove refID sub cs) \<and> cuCancel (cjSub j) = cjID j"
    using cronCancel_bound [OF assms(1), of j sub] by simp
qed (use cronInvD(1,3-5) [OF assms(1)] cronRemove_nonempty in \<open>simp_all add: distinct_removeAll\<close>)

text \<open>A subscription on its way out: removed from the table, not yet from the index.\<close>

lemma cronInv_downOne:
  assumes "cronInv cs"
  shows "cronInv (cronDownOne refID cs)"
proof (cases "map_of (cbSubs cs) refID")
  case (Some sub)
  then have j: "cbJobs (cronDownOne refID cs) = cbJobs (cronCancel sub cs)" by (simp add: cronDownOne_def)
  show ?thesis
  proof (rule cronInvI)
    fix k s assume "map_of (cbSubs (cronDownOne refID cs)) k = Some s"
    then show "crID (cuRef s) = k \<and> crActorID (cuRef s) = cuActorID s \<and>
        k \<in> set (cronRefsOf (cronDownOne refID cs) (cuActorID s)) \<and> cuCancel s < cbNextJob (cronDownOne refID cs)"
      using cronInvD(2) [OF assms(1), of k s] by (auto split: if_splits)
  qed (use cronInvD(1,3-5) [OF assms(1)] cronCancel_bound [OF assms(1)] j in simp_all)
qed (use assms in \<open>simp add: cronDownOne_def\<close>)

lemma cronDown_fold:
  "cronInv cs \<Longrightarrow> cronInv (fold cronDownOne ids cs)"
  "cbByActor (fold cronDownOne ids cs) = cbByActor cs"
  "map_of (cbSubs (fold cronDownOne ids cs)) k = (if k \<in> set ids then None else map_of (cbSubs cs) k)"
  "cbSeq (fold cronDownOne ids cs) = cbSeq cs" "cbCronID (fold cronDownOne ids cs) = cbCronID cs"
  "cbNextJob (fold cronDownOne ids cs) = cbNextJob cs"
  by (induction ids arbitrary: cs) (simp_all add: cronInv_downOne)

lemma cron_handleDown_fields:
  "cronRefsOf (cron_handleDown a cs) b = (if b = a then [] else cronRefsOf cs b)"
  "map_of (cbSubs (cron_handleDown a cs)) k = (if k \<in> set (cronRefsOf cs a) then None else map_of (cbSubs cs) k)"
  "cbSeq (cron_handleDown a cs) = cbSeq cs" "cbCronID (cron_handleDown a cs) = cbCronID cs"
  "cbNextJob (cron_handleDown a cs) = cbNextJob cs" "cbJobs (cron_handleDown a cs) = cbJobs (fold cronDownOne (cronRefsOf cs a) cs)"
  by (simp_all add: cron_handleDown_def Let_def cronDown_fold cronRefsOf_def)

lemma cronInv_down:
  assumes "cronInv cs"
  shows "cronInv (cron_handleDown a cs)"
proof -
  have "cronInv (fold cronDownOne (cronRefsOf cs a) cs)" using assms by (rule cronDown_fold)
  moreover have "cuActorID sub \<noteq> a" if "map_of (cbSubs cs) k = Some sub" "k \<notin> set (cronRefsOf cs a)" for k sub
    using assms that by (auto simp: cronInv_def)
  ultimately show ?thesis
    unfolding cronInv_def cron_handleDown_fields
    by (auto simp: cron_handleDown_def cronDown_fold Let_def cronRefsOf_def)
qed

end
