(* ===== verification/RuntimeState.thy ===== *)
theory RuntimeState
  imports Mailbox Pid NameRegistry TypeRouting Outcomes Supervisor Monitors PubSub CronTable
begin

text \<open>
  The state of the actor runtime (\<open>runtime.go\<close>) and its event emission. Fields of the Go struct
  that only hang together are grouped in sub-records: what the runtime reports
  (\<open>observations\<close>: event counter, emitted events, outcome store), the ask tables
  (\<open>askTables\<close>) and the functions the cluster layer injects (\<open>clusterHooks\<close>).

  Actor instances live in a list; the registry maps an actor ID to the index of its instance, as
  the Go map holds a pointer, so an instance removed from the registry stays reachable for its
  goroutine. Injected functions are parameters: a function of the number of calls made so far
  and of the arguments, so that its answers may change over time; every call is logged. Hooks
  and handlers of the embedding program are functions too; what they do to the runtime from
  inside is a step of its own in the interleaving semantics.
\<close>

section \<open>Actors\<close>

datatype handlerResult = HandlerOk any | HandlerErr error | HandlerPanic string

datatype handler =
  UserHandler "any \<Rightarrow> Message \<Rightarrow> handlerResult" \<comment> \<open>state, message\<close>
| BrokerHandler \<comment> \<open>the bound method \<open>svc.handler\<close> of the broker service with the actor's ID\<close>
| CronHandlerOf string \<comment> \<open>the bound method \<open>svc.handler\<close> of the cron service with this ID\<close>

datatype hookResult = HookOk | HookErr string | HookPanic string

datatype stopHookResult = StopHookDone hookResult | StopHookTimeout

record BatchConfig =
  bcEnabled :: bool
  bcMaxSize :: int
  bcReceiver :: "(any \<Rightarrow> any list \<Rightarrow> handlerResult) option"

definition zeroBatchConfig :: BatchConfig where
  "zeroBatchConfig = \<lparr>bcEnabled = False, bcMaxSize = 0, bcReceiver = None\<rparr>"

text \<open>A hook's answer may differ from run to run; the argument is the restart count.\<close>

record actorConfig =
  acMailboxCapacity :: int
  acStartHook :: "(int \<Rightarrow> hookResult) option"
  acStopHook :: "stopHookResult option"
  acBatch :: BatchConfig

definition defaultActorConfig :: actorConfig where
  "defaultActorConfig =
     \<lparr>acMailboxCapacity = 1024, acStartHook = None, acStopHook = None, acBatch = zeroBatchConfig\<rparr>"

definition WithMailboxCapacity :: "int \<Rightarrow> actorConfig \<Rightarrow> actorConfig" where
  "WithMailboxCapacity capacity c = c\<lparr>acMailboxCapacity := capacity\<rparr>"

definition WithStartHook :: "(int \<Rightarrow> hookResult) \<Rightarrow> actorConfig \<Rightarrow> actorConfig" where
  "WithStartHook h c = c\<lparr>acStartHook := Some h\<rparr>"

definition WithStopHook :: "stopHookResult \<Rightarrow> actorConfig \<Rightarrow> actorConfig" where
  "WithStopHook h c = c\<lparr>acStopHook := Some h\<rparr>"

definition WithBatching :: "int \<Rightarrow> (any \<Rightarrow> any list \<Rightarrow> handlerResult) option \<Rightarrow> actorConfig \<Rightarrow> actorConfig" where
  "WithBatching maxBatchSize receiver c =
     c\<lparr>acBatch := \<lparr>bcEnabled = True, bcMaxSize = maxBatchSize, bcReceiver = receiver\<rparr>\<rparr>"

text \<open>
  Where the goroutine \<open>runActor\<close> of an instance is: before its start hook, at the \<open>select\<close>,
  inside the inner loop that empties the mailbox, or returned.
\<close>

datatype actorPC = PcStart | PcSelect | PcDrain | PcDone

record actorInstance =
  aiID :: string
  aiStatus :: ActorStatus
  aiMailbox :: mailbox
  aiHandler :: handler
  aiState :: actorState
  aiInitialState :: any
  aiRestarts :: int
  aiLastDecision :: SupervisionDecision
  aiCanceled :: bool
  aiCfg :: actorConfig
  aiBatch :: BatchConfig
  aiPC :: actorPC

section \<open>Routers, asks, cluster hooks\<close>

record routerRuntimeState =
  rsStrategy :: RouterStrategy
  rsWorkers :: "string list"
  rsRrNext :: u64

record pendingAsk =
  paRequestID :: string
  paTargetActor :: string
  paReplyTo :: PID

text \<open>
  The reply channel of an ask has capacity one and belongs to one request, so the channels are
  a map from request IDs to their buffered envelopes.
\<close>

record askTables =
  askSeq :: u64
  askWait :: "string \<rightharpoonup> pendingAsk"
  askReply :: "string \<rightharpoonup> string"
  askClosed :: "(string, string) gomap"
  askChan :: "string \<Rightarrow> any list"

record clusterHooks =
  chRemoteSend :: "(nat \<Rightarrow> string \<Rightarrow> PID \<Rightarrow> any \<Rightarrow> u64 \<Rightarrow> PIDSendAck \<times> string option) option"
  chRemoteAsk :: "(nat \<Rightarrow> string \<Rightarrow> PID \<Rightarrow> any \<Rightarrow> u64 \<Rightarrow> string \<Rightarrow> PID \<Rightarrow> PIDSendAck \<times> string option) option"
  chRegister :: bool
  chLookup :: "(nat \<Rightarrow> string \<Rightarrow> PID option) option"
  chUnregister :: bool
  chBroadcast :: bool
  chOnSubscribe :: bool
  chOnUnsubscribe :: bool
  chMembers :: "(nat \<Rightarrow> ClusterMemberInfo list) option"

definition noHooks :: clusterHooks where
  "noHooks = \<lparr>chRemoteSend = None, chRemoteAsk = None, chRegister = False, chLookup = None,
     chUnregister = False, chBroadcast = False, chOnSubscribe = False, chOnUnsubscribe = False,
     chMembers = None\<rparr>"

datatype clusterCall =
  CallRemoteSend string PID any u64
| CallRemoteAsk string PID any u64 string PID
| CallRegister string PID
| CallLookup string
| CallUnregister string
| CallBroadcast string any
| CallOnSubscribe string
| CallOnUnsubscribe string
| CallMembers

section \<open>The runtime\<close>

record observations =
  obEventSeq :: u64
  obEvents :: "Event list"
  obOutcomes :: outcomeStore

text \<open>
  The target of a timer: a PID, or a name resolved when the timer fires. A timer goroutine
  waits for its tick or for its context to be cancelled.
\<close>

record timerJob =
  tjID :: u64
  tjTarget :: "PID + string"
  tjPayload :: any
  tjInterval :: bool
  tjCanceled :: bool

record timerManager =
  tmSeq :: u64
  tmTimers :: "(u64, bool) gomap" \<comment> \<open>the registered refs: id to interval flag\<close>
  tmJobs :: "timerJob list" \<comment> \<open>the running timer goroutines\<close>

text \<open>A publication goroutine of a broker: the broker, the command and the targets.\<close>

record publishJob =
  pjBroker :: string
  pjTopic :: string
  pjPayload :: any
  pjPublisher :: string
  pjTargets :: "PID list"

text \<open>The cron services by ID, and the parser, which belongs to a third-party package.\<close>

record cronTimers =
  ctParse :: "string \<Rightarrow> cronSchedule option"
  ctServices :: "string \<rightharpoonup> cronBrokerService"

record Runtime =
  rtRegistry :: "string \<rightharpoonup> nat"
  rtInsts :: "actorInstance list"
  rtNames :: namedRegistry
  rtPolicy :: SupervisorPolicy
  rtRouting :: typeRoutingRegistry
  rtMsgSeq :: u64
  rtObs :: observations
  rtResolver :: InMemoryPIDResolver
  rtActorPID :: "string \<rightharpoonup> PID"
  rtPidPolicy :: PIDInteractionPolicyMode
  rtAsk :: askTables
  rtRouters :: "string \<rightharpoonup> routerRuntimeState"
  rtRand :: "nat \<Rightarrow> nat" \<comment> \<open>the random source: its \<open>k\<close>-th number\<close>
  rtRandPos :: nat
  rtBrokers :: "string \<rightharpoonup> pubsubBrokerService"
  rtNodeID :: string
  rtHooks :: clusterHooks
  rtCalls :: "clusterCall list"
  rtTimers :: timerManager
  rtDeadLetters :: deadLetterSink
  rtMonitors :: monitorManager
  rtPublishing :: "publishJob list"
  rtStack :: nat \<comment> \<open>how many nested router dispatches a goroutine stack admits\<close>
  rtCron :: cronTimers

definition newAskTables :: askTables where
  "newAskTables = \<lparr>askSeq = 0, askWait = Map.empty, askReply = Map.empty, askClosed = [], askChan = (\<lambda>_. [])\<rparr>"

definition newTimerManager :: timerManager where
  "newTimerManager = \<lparr>tmSeq = 0, tmTimers = [], tmJobs = []\<rparr>"

text \<open>
  The arguments are the options \<open>NewRuntime\<close> takes (supervision policy, node ID, hooks, whether
  a dead-letter handler is set), the random source, the stack bound and the cron parser.
\<close>

definition NewRuntime ::
    "SupervisorPolicy option \<Rightarrow> string \<Rightarrow> clusterHooks \<Rightarrow> bool \<Rightarrow> (nat \<Rightarrow> nat) \<Rightarrow> nat \<Rightarrow>
     (string \<Rightarrow> cronSchedule option) \<Rightarrow> Runtime" where
  "NewRuntime policy node hooks dlHandler rnd stack parse = \<lparr>
     rtRegistry = Map.empty, rtInsts = [], rtNames = newNamedRegistry,
     rtPolicy = (case policy of None \<Rightarrow> Decide \<lparr>dsMaxRestarts = 1, dsOnLimit = DecisionOther ''''\<rparr> | Some p \<Rightarrow> p),
     rtRouting = newTypeRoutingRegistry, rtMsgSeq = 0,
     rtObs = \<lparr>obEventSeq = 0, obEvents = [], obOutcomes = newOutcomeStore\<rparr>,
     rtResolver = NewInMemoryPIDResolver, rtActorPID = Map.empty,
     rtPidPolicy = PIDInteractionPolicyDisabled, rtAsk = newAskTables, rtRouters = Map.empty,
     rtRand = rnd, rtRandPos = 0, rtBrokers = Map.empty, rtNodeID = node, rtHooks = hooks,
     rtCalls = [], rtTimers = newTimerManager,
     rtDeadLetters = dls_setHandler newDeadLetterSink dlHandler,
     rtMonitors = newMonitorManager, rtPublishing = [], rtStack = stack,
     rtCron = \<lparr>ctParse = parse, ctServices = Map.empty\<rparr>\<rparr>"

definition rt_registry_get :: "Runtime \<Rightarrow> string \<Rightarrow> nat option" where
  "rt_registry_get r actorID = rtRegistry r actorID"

definition rt_registry_put :: "Runtime \<Rightarrow> string \<Rightarrow> actorInstance \<Rightarrow> error + Runtime" where
  "rt_registry_put r actorID inst =
     (case rtRegistry r actorID of
        Some _ \<Rightarrow> Inl ErrDuplicateActorID
      | None \<Rightarrow> Inr (r\<lparr>rtRegistry := (rtRegistry r)(actorID \<mapsto> length (rtInsts r)),
                       rtInsts := rtInsts r @ [inst]\<rparr>))"

definition rt_registry_remove :: "Runtime \<Rightarrow> string \<Rightarrow> Runtime \<times> bool" where
  "rt_registry_remove r actorID =
     (case rtRegistry r actorID of
        None \<Rightarrow> (r, False)
      | Some _ \<Rightarrow> (r\<lparr>rtRegistry := (rtRegistry r)(actorID := None)\<rparr>, True))"

abbreviation instAt :: "Runtime \<Rightarrow> nat \<Rightarrow> actorInstance" where
  "instAt r p \<equiv> rtInsts r ! p"

definition updInst :: "nat \<Rightarrow> (actorInstance \<Rightarrow> actorInstance) \<Rightarrow> Runtime \<Rightarrow> Runtime" where
  "updInst p f r = r\<lparr>rtInsts := (rtInsts r)[p := f (rtInsts r ! p)]\<rparr>"

definition logCall :: "clusterCall \<Rightarrow> Runtime \<Rightarrow> Runtime" where
  "logCall c r = r\<lparr>rtCalls := rtCalls r @ [c]\<rparr>"

section \<open>Events and outcomes (the emit functions)\<close>

definition emitEvent :: "Event \<Rightarrow> Runtime \<Rightarrow> Runtime" where
  "emitEvent e r = r\<lparr>rtObs := (rtObs r)\<lparr>
     obEventSeq := obEventSeq (rtObs r) + 1,
     obEvents := obEvents (rtObs r) @ [e\<lparr>evEventID := obEventSeq (rtObs r) + 1\<rparr>]\<rparr>\<rparr>"

definition updOutcomes :: "(outcomeStore \<Rightarrow> outcomeStore) \<Rightarrow> Runtime \<Rightarrow> Runtime" where
  "updOutcomes f r = r\<lparr>rtObs := (rtObs r)\<lparr>obOutcomes := f (obOutcomes (rtObs r))\<rparr>\<rparr>"

definition putOutcome :: "ProcessingOutcome \<Rightarrow> Runtime \<Rightarrow> Runtime" where
  "putOutcome out = updOutcomes (\<lambda>s. os_put s out)"

definition emit :: "EventType \<Rightarrow> string \<Rightarrow> u64 \<Rightarrow> string \<Rightarrow> string \<Rightarrow> Runtime \<Rightarrow> Runtime" where
  "emit eventType actorID messageID result code =
     emitEvent ((zeroEvent eventType)\<lparr>evActorID := actorID, evMessageID := messageID,
       evResult := result, evErrorCode := code\<rparr>)"

definition emitDecision ::
    "EventType \<Rightarrow> string \<Rightarrow> u64 \<Rightarrow> SupervisionDecision \<Rightarrow> int \<Rightarrow> string \<Rightarrow> string \<Rightarrow> Runtime \<Rightarrow> Runtime" where
  "emitDecision eventType actorID messageID decision restartCount result code =
     emitEvent ((zeroEvent eventType)\<lparr>evActorID := actorID, evMessageID := messageID,
       evSupervisionDecision := strSupervisionDecision decision, evRestartCount := restartCount,
       evResult := result, evErrorCode := code\<rparr>)"

definition emitLocal :: "EventType \<Rightarrow> string \<Rightarrow> Message \<Rightarrow> string \<Rightarrow> string \<Rightarrow> Runtime \<Rightarrow> Runtime" where
  "emitLocal eventType actorID msg result code =
     emitEvent ((zeroEvent eventType)\<lparr>evActorID := actorID, evMessageID := msgID msg,
       evTypeName := msgTypeName msg, evSchemaVersion := msgSchemaVersion msg,
       evResult := result, evErrorCode := code\<rparr>)"

definition emitPID :: "EventType \<Rightarrow> PID \<Rightarrow> u64 \<Rightarrow> PIDDeliveryOutcome \<Rightarrow> string \<Rightarrow> Runtime \<Rightarrow> Runtime" where
  "emitPID eventType pid messageID outcome code =
     emitEvent ((zeroEvent eventType)\<lparr>evActorID := pidActorID pid, evMessageID := messageID,
       evPID := pid, evResult := strPIDDeliveryOutcome outcome, evErrorCode := code\<rparr>)"

definition emitRegistry ::
    "EventType \<Rightarrow> string \<Rightarrow> string \<Rightarrow> PID \<Rightarrow> RegistryOperationResult \<Rightarrow> string \<Rightarrow> Runtime \<Rightarrow> Runtime" where
  "emitRegistry eventType name actorID pid result code =
     emitEvent ((zeroEvent eventType)\<lparr>evActorID := actorID, evPID := pid, evRegistryName := name,
       evResult := strRegistryOperationResult result, evErrorCode := code\<rparr>)"

definition emitLifecycle ::
    "string \<Rightarrow> LifecycleHookPhase \<Rightarrow> LifecycleHookResult \<Rightarrow> string \<Rightarrow> Runtime \<Rightarrow> Runtime" where
  "emitLifecycle actorID phase result code =
     emitEvent ((zeroEvent EventLifecycleHook)\<lparr>evActorID := actorID,
       evLifecyclePhase := strLifecycleHookPhase phase, evResult := strLifecycleHookResult result,
       evErrorCode := code\<rparr>)"

definition emitGuardrail ::
    "string \<Rightarrow> GatewayRouteMode \<Rightarrow> GuardrailOutcomeType \<Rightarrow> string \<Rightarrow> Runtime \<Rightarrow> Runtime" where
  "emitGuardrail actorID mode outcome code r =
     updOutcomes (\<lambda>s. putGuardrail s \<lparr>goActorID = actorID, goPolicyMode = rtPidPolicy r,
         goGatewayMode = mode, goOutcome = outcome, goReasonCode = code\<rparr>)
       (emitEvent ((zeroEvent EventGuardrailDecision)\<lparr>evActorID := actorID,
         evGatewayMode := strGatewayRouteMode mode, evResult := strGuardrailOutcomeType outcome,
         evErrorCode := code\<rparr>) r)"

definition emitReadiness :: "ReadinessScope \<Rightarrow> ReadinessResult \<Rightarrow> string \<Rightarrow> Runtime \<Rightarrow> Runtime" where
  "emitReadiness scope result evidence r =
     updOutcomes (\<lambda>s. putReadiness s \<lparr>rvrScope = scope, rvrResult = result, rvrEvidenceRef = evidence\<rparr>)
       (emitEvent ((zeroEvent EventReadinessValidation)\<lparr>evReadinessScope := strReadinessScope scope,
         evResult := strReadinessResult result, evErrorCode := evidence\<rparr>) r)"

definition emitAsk ::
    "string \<Rightarrow> string \<Rightarrow> PID \<Rightarrow> AskOutcomeType \<Rightarrow> string \<Rightarrow> Runtime \<Rightarrow> Runtime" where
  "emitAsk actorID requestID replyTo outcome code r =
     updOutcomes (\<lambda>s. putAsk s \<lparr>aoRequestID = requestID, aoActorID = actorID, aoReplyTo = replyTo,
         aoOutcome = outcome, aoReasonCode = code\<rparr>)
       (emitEvent ((zeroEvent EventAskLifecycle)\<lparr>evActorID := actorID, evRequestID := requestID,
         evReplyTo := replyTo, evResult := strAskOutcomeType outcome, evErrorCode := code\<rparr>) r)"

definition emitRouter ::
    "string \<Rightarrow> u64 \<Rightarrow> RouterStrategy \<Rightarrow> string \<Rightarrow> RoutingOutcomeType \<Rightarrow> string \<Rightarrow> Runtime \<Rightarrow> Runtime" where
  "emitRouter routerID messageID strategy selectedWorker outcome code r =
     updOutcomes (\<lambda>s. putRouting s \<lparr>roRouterID = routerID, roMessageID = messageID,
         roStrategy = strategy, roSelectedWorker = selectedWorker, roOutcome = outcome, roReasonCode = code\<rparr>)
       (emitEvent ((zeroEvent EventRouterLifecycle)\<lparr>evActorID := routerID, evMessageID := messageID,
         evRouterStrategy := strRouterStrategy strategy, evSelectedWorker := selectedWorker,
         evResult := strRoutingOutcomeType outcome, evErrorCode := code\<rparr>) r)"

definition emitBatch :: "string \<Rightarrow> int \<Rightarrow> BatchResult \<Rightarrow> string \<Rightarrow> Runtime \<Rightarrow> Runtime" where
  "emitBatch actorID batchSize result code r =
     updOutcomes (\<lambda>s. putBatch s \<lparr>boActorID = actorID, boBatchSize = batchSize, boResult = result,
         boReasonCode = code\<rparr>)
       (emitEvent ((zeroEvent EventBatchLifecycle)\<lparr>evActorID := actorID, evBatchSize := batchSize,
         evResult := strBatchResult result, evErrorCode := code\<rparr>) r)"

text \<open>The event of \<open>emitBroker\<close> carries namespace and actor ID of the subscriber, not its generation.\<close>

definition emitBroker ::
    "string \<Rightarrow> BrokerOperation \<Rightarrow> string \<Rightarrow> PID \<Rightarrow> int \<Rightarrow> BrokerOutcomeType \<Rightarrow> string \<Rightarrow> Runtime \<Rightarrow> Runtime" where
  "emitBroker brokerID op topicPattern subscriber matched result reason r =
     updOutcomes (\<lambda>s. putBroker s \<lparr>brBrokerID = brokerID, brOperation = op, brTopicPattern = topicPattern,
         brSubscriber = subscriber, brMatchedCount = matched, brResult = result, brReasonCode = reason\<rparr>)
       (emitEvent ((zeroEvent EventBrokerLifecycle)\<lparr>evActorID := brokerID,
         evPID := subscriber\<lparr>pidGeneration := 0\<rparr>, evResult := strBrokerOutcomeType result,
         evErrorCode := reason\<rparr>) r)"

text \<open>
  Emission changes the observations only. The proofs use this through one rewrite rule per
  function: each is an update of \<open>rtObs\<close>.
\<close>

definition obsOnly :: "(Runtime \<Rightarrow> Runtime) \<Rightarrow> bool" where
  "obsOnly f \<longleftrightarrow> (\<forall>r. f r = r\<lparr>rtObs := rtObs (f r)\<rparr>)"

lemma obsOnly_base [intro, simp]: "obsOnly (emitEvent e)" "obsOnly (updOutcomes g)"
  by (simp_all add: obsOnly_def emitEvent_def updOutcomes_def)

lemma obsOnly_comp: "obsOnly f \<Longrightarrow> obsOnly g \<Longrightarrow> obsOnly (\<lambda>r. f (g r))"
  unfolding obsOnly_def
proof (rule allI)
  fix r
  assume f: "\<forall>r. f r = r\<lparr>rtObs := rtObs (f r)\<rparr>" and g: "\<forall>r. g r = r\<lparr>rtObs := rtObs (g r)\<rparr>"
  show "f (g r) = r\<lparr>rtObs := rtObs (f (g r))\<rparr>"
    by (subst f [rule_format], subst g [rule_format]) simp
qed

lemma obsOnly_emits [simp]:
  "obsOnly (putOutcome out)" "obsOnly (emit t a m res c)" "obsOnly (emitDecision t a m d n res c)"
  "obsOnly (emitLocal t a msg res c)" "obsOnly (emitPID t p m oc c)" "obsOnly (emitRegistry t nm a p rr c)"
  "obsOnly (emitLifecycle a ph lr c)"
  by (simp_all add: putOutcome_def emit_def emitDecision_def emitLocal_def emitPID_def emitRegistry_def
      emitLifecycle_def)

lemma obsOnly_emits2 [simp]:
  "obsOnly (emitGuardrail a gm go c)" "obsOnly (emitReadiness sc rr c)" "obsOnly (emitAsk a q p ao c)"
  "obsOnly (emitRouter a m st w ro c)" "obsOnly (emitBatch a n br c)" "obsOnly (emitBroker b op tp s k bo c)"
  by (simp_all add: obsOnly_def emitGuardrail_def emitReadiness_def emitAsk_def emitRouter_def emitBatch_def
      emitBroker_def updOutcomes_def emitEvent_def)

lemma obsOnly_frame:
  assumes "obsOnly f"
  shows "rtRegistry (f r) = rtRegistry r" "rtInsts (f r) = rtInsts r" "rtNames (f r) = rtNames r"
    "rtPolicy (f r) = rtPolicy r" "rtRouting (f r) = rtRouting r" "rtMsgSeq (f r) = rtMsgSeq r"
    "rtResolver (f r) = rtResolver r" "rtActorPID (f r) = rtActorPID r" "rtPidPolicy (f r) = rtPidPolicy r"
    "rtAsk (f r) = rtAsk r" "rtRouters (f r) = rtRouters r" "rtRand (f r) = rtRand r"
    "rtRandPos (f r) = rtRandPos r" "rtBrokers (f r) = rtBrokers r" "rtNodeID (f r) = rtNodeID r"
    "rtHooks (f r) = rtHooks r" "rtCalls (f r) = rtCalls r" "rtTimers (f r) = rtTimers r"
    "rtDeadLetters (f r) = rtDeadLetters r" "rtMonitors (f r) = rtMonitors r"
    "rtPublishing (f r) = rtPublishing r" "rtStack (f r) = rtStack r" "rtCron (f r) = rtCron r"
proof -
  have e: "f r = r\<lparr>rtObs := rtObs (f r)\<rparr>" using assms unfolding obsOnly_def by blast
  show "rtRegistry (f r) = rtRegistry r" "rtInsts (f r) = rtInsts r" "rtNames (f r) = rtNames r"
    "rtPolicy (f r) = rtPolicy r" "rtRouting (f r) = rtRouting r" "rtMsgSeq (f r) = rtMsgSeq r"
    "rtResolver (f r) = rtResolver r" "rtActorPID (f r) = rtActorPID r" "rtPidPolicy (f r) = rtPidPolicy r"
    "rtAsk (f r) = rtAsk r" "rtRouters (f r) = rtRouters r" "rtRand (f r) = rtRand r"
    "rtRandPos (f r) = rtRandPos r" "rtBrokers (f r) = rtBrokers r" "rtNodeID (f r) = rtNodeID r"
    "rtHooks (f r) = rtHooks r" "rtCalls (f r) = rtCalls r" "rtTimers (f r) = rtTimers r"
    "rtDeadLetters (f r) = rtDeadLetters r" "rtMonitors (f r) = rtMonitors r"
    "rtPublishing (f r) = rtPublishing r" "rtStack (f r) = rtStack r" "rtCron (f r) = rtCron r"
    by (subst e, simp)+
qed

lemmas emit_frame [simp, rt_frame] =
  obsOnly_emits [THEN obsOnly_frame(1)] obsOnly_emits2 [THEN obsOnly_frame(1)]
  obsOnly_emits [THEN obsOnly_frame(2)] obsOnly_emits2 [THEN obsOnly_frame(2)]
  obsOnly_emits [THEN obsOnly_frame(3)] obsOnly_emits2 [THEN obsOnly_frame(3)]
  obsOnly_emits [THEN obsOnly_frame(4)] obsOnly_emits2 [THEN obsOnly_frame(4)]
  obsOnly_emits [THEN obsOnly_frame(5)] obsOnly_emits2 [THEN obsOnly_frame(5)]
  obsOnly_emits [THEN obsOnly_frame(6)] obsOnly_emits2 [THEN obsOnly_frame(6)]
  obsOnly_emits [THEN obsOnly_frame(7)] obsOnly_emits2 [THEN obsOnly_frame(7)]
  obsOnly_emits [THEN obsOnly_frame(8)] obsOnly_emits2 [THEN obsOnly_frame(8)]
  obsOnly_emits [THEN obsOnly_frame(9)] obsOnly_emits2 [THEN obsOnly_frame(9)]
  obsOnly_emits [THEN obsOnly_frame(10)] obsOnly_emits2 [THEN obsOnly_frame(10)]
  obsOnly_emits [THEN obsOnly_frame(11)] obsOnly_emits2 [THEN obsOnly_frame(11)]
  obsOnly_emits [THEN obsOnly_frame(12)] obsOnly_emits2 [THEN obsOnly_frame(12)]
  obsOnly_emits [THEN obsOnly_frame(13)] obsOnly_emits2 [THEN obsOnly_frame(13)]
  obsOnly_emits [THEN obsOnly_frame(14)] obsOnly_emits2 [THEN obsOnly_frame(14)]
  obsOnly_emits [THEN obsOnly_frame(15)] obsOnly_emits2 [THEN obsOnly_frame(15)]
  obsOnly_emits [THEN obsOnly_frame(16)] obsOnly_emits2 [THEN obsOnly_frame(16)]
  obsOnly_emits [THEN obsOnly_frame(17)] obsOnly_emits2 [THEN obsOnly_frame(17)]
  obsOnly_emits [THEN obsOnly_frame(18)] obsOnly_emits2 [THEN obsOnly_frame(18)]
  obsOnly_emits [THEN obsOnly_frame(19)] obsOnly_emits2 [THEN obsOnly_frame(19)]
  obsOnly_emits [THEN obsOnly_frame(20)] obsOnly_emits2 [THEN obsOnly_frame(20)]
  obsOnly_emits [THEN obsOnly_frame(21)] obsOnly_emits2 [THEN obsOnly_frame(21)]
  obsOnly_emits [THEN obsOnly_frame(22)] obsOnly_emits2 [THEN obsOnly_frame(22)]
  obsOnly_emits [THEN obsOnly_frame(23)] obsOnly_emits2 [THEN obsOnly_frame(23)]

end
