(* ===== verification/RuntimeSend.thy ===== *)
theory RuntimeSend
  imports RuntimeState
begin

text \<open>
  Message submission (\<open>runtime.go\<close>): routers and worker selection, \<open>sendWithAskContext\<close>, the
  ask tables and reply routing, delivery by PID, names, policies and monitors. A router forwards
  to its worker by calling \<open>sendWithAskContext\<close> again, so the function carries the number of
  nested dispatches the stack still admits; \<open>None\<close> is the fatal stack overflow of a run that
  exceeds it.
\<close>

section \<open>Configuration\<close>

definition nextMsgID :: "Runtime \<Rightarrow> Runtime" where
  "nextMsgID r = r\<lparr>rtMsgSeq := rtMsgSeq r + 1\<rparr>"

definition CreateActor ::
    "string \<Rightarrow> any \<Rightarrow> handler option \<Rightarrow> actorConfig \<Rightarrow> Runtime \<Rightarrow> error + Runtime" where
  "CreateActor i initialState h cfg r =
     (if i = '''' then Inl (ErrOther ''empty actor id'')
      else case h of
        None \<Rightarrow> Inl (ErrOther ''nil handler'')
      | Some h \<Rightarrow>
          rt_registry_put r i \<lparr>aiID = i, aiStatus = ActorStarting,
            aiMailbox = NewMailbox (acMailboxCapacity cfg), aiHandler = h,
            aiState = newActorState initialState, aiInitialState = initialState, aiRestarts = 0,
            aiLastDecision = DecisionOther '''', aiCanceled = False, aiCfg = cfg,
            aiBatch = acBatch cfg, aiPC = PcStart\<rparr>)"

definition ConfigureBatching ::
    "string \<Rightarrow> int \<Rightarrow> (any \<Rightarrow> any list \<Rightarrow> handlerResult) option \<Rightarrow> Runtime \<Rightarrow> error + Runtime" where
  "ConfigureBatching actorID maxBatchSize receiver r =
     (case rt_registry_get r actorID of
        None \<Rightarrow> Inl ErrActorNotFound
      | Some p \<Rightarrow>
          if maxBatchSize \<le> 0 then Inl ErrBatchConfigInvalid
          else let b = \<lparr>bcEnabled = True, bcMaxSize = maxBatchSize, bcReceiver = receiver\<rparr>
               in Inr (updInst p (\<lambda>i. i\<lparr>aiBatch := b, aiCfg := (aiCfg i)\<lparr>acBatch := b\<rparr>\<rparr>) r))"

definition DisableBatching :: "string \<Rightarrow> Runtime \<Rightarrow> error + Runtime" where
  "DisableBatching actorID r =
     (case rt_registry_get r actorID of
        None \<Rightarrow> Inl ErrActorNotFound
      | Some p \<Rightarrow> Inr (updInst p (\<lambda>i. i\<lparr>aiBatch := zeroBatchConfig,
                                      aiCfg := (aiCfg i)\<lparr>acBatch := zeroBatchConfig\<rparr>\<rparr>) r))"

text \<open>Worker IDs without empty ones and repetitions, in the given order.\<close>

fun normalizeWorkers :: "string list \<Rightarrow> string list \<Rightarrow> string list" where
  "normalizeWorkers seen [] = []"
| "normalizeWorkers seen (w # ws) =
     (if w = '''' then normalizeWorkers seen ws
      else if w \<in> set seen then normalizeWorkers seen ws
      else w # normalizeWorkers (w # seen) ws)"

fun validStrategy :: "RouterStrategy \<Rightarrow> bool" where
  "validStrategy (RouterStrategyOther _) = False"
| "validStrategy _ = True"

definition ConfigureRouter :: "string \<Rightarrow> RouterStrategy \<Rightarrow> string list \<Rightarrow> Runtime \<Rightarrow> error + Runtime" where
  "ConfigureRouter routerID strategy workers r =
     (case rt_registry_get r routerID of
        None \<Rightarrow> Inl ErrActorNotFound
      | Some _ \<Rightarrow>
          if \<not> validStrategy strategy
          then Inl (ErrOther (''invalid router strategy: '' @ strRouterStrategy strategy))
          else Inr (r\<lparr>rtRouters := (rtRouters r)(routerID \<mapsto>
                 \<lparr>rsStrategy = strategy, rsWorkers = normalizeWorkers [] workers, rsRrNext = 0\<rparr>)\<rparr>))"

definition RegisterTypeRoute :: "string \<Rightarrow> string \<Rightarrow> string \<Rightarrow> string \<Rightarrow> Runtime \<Rightarrow> error + Runtime" where
  "RegisterTypeRoute actorID typeName schemaVersion handlerKey r =
     (case rt_registry_get r actorID of
        None \<Rightarrow> Inl ErrActorNotFound
      | Some _ \<Rightarrow> Inr (r\<lparr>rtRouting := registerExact (rtRouting r) actorID typeName schemaVersion handlerKey\<rparr>))"

definition RegisterFallbackRoute :: "string \<Rightarrow> string \<Rightarrow> Runtime \<Rightarrow> error + Runtime" where
  "RegisterFallbackRoute actorID handlerKey r =
     (case rt_registry_get r actorID of
        None \<Rightarrow> Inl ErrActorNotFound
      | Some _ \<Rightarrow> Inr (r\<lparr>rtRouting := registerFallback (rtRouting r) actorID handlerKey\<rparr>))"

definition Status :: "Runtime \<Rightarrow> string \<Rightarrow> ActorStatus" where
  "Status r actorID = (case rt_registry_get r actorID of None \<Rightarrow> ActorStopped | Some p \<Rightarrow> aiStatus (instAt r p))"

section \<open>Routers\<close>

definition fnv32a :: "string \<Rightarrow> u32" where
  "fnv32a key = foldl (\<lambda>h c. xor h (of_nat (of_char c)) * 16777619) 2166136261 key"

fun payloadHashKey :: "any \<Rightarrow> string option" where
  "payloadHashKey (UserVal u) = uvHashKey u"
| "payloadHashKey _ = None"

text \<open>
  The counter of a router is updated through the pointer \<open>routerState\<close> returned; the state
  is the router's current one.
\<close>

definition selectRoutedWorker ::
    "string \<Rightarrow> routerRuntimeState \<Rightarrow> any \<Rightarrow> Runtime \<Rightarrow> Runtime \<times> string \<times> RoutingOutcomeType \<times> string" where
  "selectRoutedWorker routerID st payload r =
     (let workers = rsWorkers st
      in if workers = [] then (r, '''', RouteFailedNoWorkers, ''router_no_workers'')
      else case rsStrategy st of
        RouterStrategyRoundRobin \<Rightarrow>
          (let counter = rsRrNext st + 1; idx = counter - 1
           in (r\<lparr>rtRouters := (rtRouters r)(routerID \<mapsto> st\<lparr>rsRrNext := counter\<rparr>)\<rparr>,
               workers ! unat (idx mod of_nat (length workers)), RouteSuccess, ''''))
      | RouterStrategyRandom \<Rightarrow>
          (r\<lparr>rtRandPos := rtRandPos r + 1\<rparr>,
           workers ! (rtRand r (rtRandPos r) mod length workers), RouteSuccess, '''')
      | RouterStrategyConsistentKey \<Rightarrow>
          (case payloadHashKey payload of
             None \<Rightarrow> (r, '''', RouteFailedInvalidKey, ''router_missing_hash_key'')
           | Some key \<Rightarrow>
              if key = '''' then (r, '''', RouteFailedInvalidKey, ''router_empty_hash_key'')
              else (r, workers ! unat (fnv32a key mod of_nat (length workers)), RouteSuccess, ''''))
      | RouterStrategyOther _ \<Rightarrow> (r, '''', RouteFailedInvalidKey, ''router_invalid_strategy''))"

section \<open>Submission\<close>

definition rejectSubmit ::
    "string \<Rightarrow> u64 \<Rightarrow> ProcessingResult \<Rightarrow> SubmitResult \<Rightarrow> Runtime \<Rightarrow> Runtime \<times> SubmitAck" where
  "rejectSubmit actorID mid pres sres r =
     (emit EventMessageRejected actorID mid (strProcessingResult pres) (strSubmitResult sres)
        (putOutcome \<lparr>poMessageID = mid, poActorID = actorID, poResult = pres,
           poSupervisionDecision = DecisionOther '''', poSupervisionIteration = 0,
           poErrorCode = strSubmitResult sres\<rparr> r),
      \<lparr>saResult = sres, saMessageID = mid\<rparr>)"

definition rejectRouted ::
    "string \<Rightarrow> Message \<Rightarrow> ProcessingResult \<Rightarrow> SubmitResult \<Rightarrow> Runtime \<Rightarrow> Runtime \<times> SubmitAck" where
  "rejectRouted actorID msg pres sres r =
     (emitLocal EventMessageRejected actorID msg (strProcessingResult pres) (strSubmitResult sres)
        (putOutcome \<lparr>poMessageID = msgID msg, poActorID = actorID, poResult = pres,
           poSupervisionDecision = DecisionOther '''', poSupervisionIteration = 0,
           poErrorCode = strSubmitResult sres\<rparr> r),
      \<lparr>saResult = sres, saMessageID = msgID msg\<rparr>)"

definition buildMessage :: "u64 \<Rightarrow> string \<Rightarrow> any \<Rightarrow> AskRequestContext option \<Rightarrow> Message" where
  "buildMessage mid actorID payload askCtx = \<lparr>msgID = mid, msgActorID = actorID, msgSenderActorID = '''',
     msgPayload = payload, msgAsk = askCtx, msgTypeName = messageTypeName payload,
     msgSchemaVersion = messageSchemaVersion payload, msgAttempt = 1\<rparr>"

text \<open>The tail of \<open>sendWithAskContext\<close>: the enqueue and its outcomes.\<close>

definition enqueueTo :: "nat \<Rightarrow> string \<Rightarrow> Message \<Rightarrow> Runtime \<Rightarrow> Runtime \<times> SubmitAck" where
  "enqueueTo p actorID msg r =
     (let (mb, res) = Enqueue (aiMailbox (instAt r p)) msg;
          r = updInst p (\<lambda>i. i\<lparr>aiMailbox := mb\<rparr>) r
      in if res = SubmitRejectedFull then rejectSubmit actorID (msgID msg) ResultRejectedFull SubmitRejectedFull r
         else if res = SubmitRejectedStop then rejectSubmit actorID (msgID msg) ResultRejectedStop SubmitRejectedStop r
         else (r, \<lparr>saResult = res, saMessageID = msgID msg\<rparr>))"

definition submitToInst ::
    "nat \<Rightarrow> string \<Rightarrow> any \<Rightarrow> AskRequestContext option \<Rightarrow> Runtime \<Rightarrow> Runtime \<times> SubmitAck" where
  "submitToInst p actorID payload askCtx r =
     (let msg = buildMessage (rtMsgSeq r) actorID payload askCtx
      in case rrMatch (resolveRoute (rtRouting r) actorID (msgTypeName msg) (msgSchemaVersion msg)) of
           routeExact \<Rightarrow>
             enqueueTo p actorID msg (emitLocal EventMessageRoutedExact actorID msg (strSubmitResult SubmitAccepted) '''' r)
         | routeFallback \<Rightarrow>
             enqueueTo p actorID msg (emitLocal EventMessageRoutedFallback actorID msg (strSubmitResult SubmitAccepted) '''' r)
         | routeVersionMismatch \<Rightarrow>
             rejectRouted actorID msg ResultRejectedVersionMismatch SubmitRejectedVersionMismatch r
         | routeUnsupportedType \<Rightarrow>
             rejectRouted actorID msg ResultRejectedUnsupportedType SubmitRejectedUnsupportedType r
         | routeNoRules \<Rightarrow> enqueueTo p actorID msg r)"

definition sendDirect ::
    "string \<Rightarrow> any \<Rightarrow> AskRequestContext option \<Rightarrow> Runtime \<Rightarrow> Runtime \<times> SubmitAck" where
  "sendDirect actorID payload askCtx r =
     (let r = nextMsgID r
      in case rt_registry_get r actorID of
           None \<Rightarrow> rejectSubmit actorID (rtMsgSeq r) ResultRejectedFound SubmitRejectedFound r
         | Some p \<Rightarrow>
             if aiStatus (instAt r p) = ActorStopped
             then rejectSubmit actorID (rtMsgSeq r) ResultRejectedStop SubmitRejectedStop r
             else submitToInst p actorID payload askCtx r)"

text \<open>The argument \<open>sendTo\<close> stands for the call of \<open>sendWithAskContext\<close> on the worker.\<close>

definition dispatchRouted ::
    "(Runtime \<Rightarrow> string \<Rightarrow> (Runtime \<times> SubmitAck) option) \<Rightarrow> string \<Rightarrow> any \<Rightarrow> routerRuntimeState \<Rightarrow>
     Runtime \<Rightarrow> (Runtime \<times> SubmitAck) option" where
  "dispatchRouted sendTo routerID payload st r =
     (let r = nextMsgID r; mid = rtMsgSeq r; strategy = rsStrategy st;
          (r, selectedWorker, outcome, reason) = selectRoutedWorker routerID st payload r
      in if outcome \<noteq> RouteSuccess
         then Some (emitRouter routerID mid strategy '''' outcome reason r,
                    \<lparr>saResult = SubmitRejectedFound, saMessageID = mid\<rparr>)
         else case sendTo r selectedWorker of
                None \<Rightarrow> None
              | Some (r, ack) \<Rightarrow>
                  if saResult ack \<noteq> SubmitAccepted
                  then Some (emitRouter routerID (saMessageID ack) strategy selectedWorker
                               RouteFailedWorkerUnavailable (strSubmitResult (saResult ack)) r, ack)
                  else Some (emitRouter routerID (saMessageID ack) strategy selectedWorker RouteSuccess '''' r, ack))"

primrec sendWithAskContext ::
    "nat \<Rightarrow> Runtime \<Rightarrow> string \<Rightarrow> any \<Rightarrow> AskRequestContext option \<Rightarrow> (Runtime \<times> SubmitAck) option" where
  "sendWithAskContext 0 r actorID payload askCtx = None"
| "sendWithAskContext (Suc n) r actorID payload askCtx =
     (if payload = NilAny then
        (let r = nextMsgID r
         in Some (rejectSubmit actorID (rtMsgSeq r) ResultRejectedNilPayload SubmitRejectedNilPayload r))
      else case rtRouters r actorID of
        Some st \<Rightarrow>
          (let r = nextMsgID r
           in case rt_registry_get r actorID of
                None \<Rightarrow> Some (rejectSubmit actorID (rtMsgSeq r) ResultRejectedFound SubmitRejectedFound r)
              | Some p \<Rightarrow>
                  if aiStatus (instAt r p) = ActorStopped
                  then Some (rejectSubmit actorID (rtMsgSeq r) ResultRejectedStop SubmitRejectedStop r)
                  else dispatchRouted (\<lambda>r w. sendWithAskContext n r w payload askCtx)
                         actorID payload st r)
      | None \<Rightarrow> Some (sendDirect actorID payload askCtx r))"

definition Send :: "string \<Rightarrow> any \<Rightarrow> Runtime \<Rightarrow> (Runtime \<times> SubmitAck) option" where
  "Send actorID payload r = sendWithAskContext (rtStack r) r actorID payload None"

definition Route :: "string \<Rightarrow> any \<Rightarrow> Runtime \<Rightarrow> (Runtime \<times> SubmitAck) option" where
  "Route routerID payload r = sendWithAskContext (rtStack r) r routerID payload None"

definition DeliverLocal ::
    "string \<Rightarrow> any \<Rightarrow> AskRequestContext option \<Rightarrow> Runtime \<Rightarrow> (Runtime \<times> SubmitAck) option" where
  "DeliverLocal actorID payload askCtx r = sendWithAskContext (rtStack r) r actorID payload askCtx"

section \<open>Asks\<close>

definition newAskRequest :: "string \<Rightarrow> Runtime \<Rightarrow> Runtime \<times> pendingAsk" where
  "newAskRequest targetActor r =
     (let t = rtAsk r; sq = askSeq t + 1;
          requestID = ''ask-'' @ string_of_u64 sq;
          ns = (if rtNodeID r \<noteq> '''' then askReplyNamespace @ ''@'' @ rtNodeID r else askReplyNamespace);
          replyTo = \<lparr>pidNamespace = ns, pidActorID = requestID, pidGeneration = 1\<rparr>;
          wait = \<lparr>paRequestID = requestID, paTargetActor = targetActor, paReplyTo = replyTo\<rparr>
      in (r\<lparr>rtAsk := t\<lparr>askSeq := sq, askWait := (askWait t)(requestID \<mapsto> wait),
                       askReply := (askReply t)(Key replyTo \<mapsto> requestID),
                       askChan := (askChan t)(requestID := [])\<rparr>\<rparr>, wait))"

definition askClosedPut :: "string \<Rightarrow> string \<Rightarrow> (string, string) gomap \<Rightarrow> (string, string) gomap" where
  "askClosedPut requestID target m =
     (let m = gomap_put requestID target m
      in if length m > 4096 then gomap_del (fst (hd m)) m else m)"

definition completeAskRequest :: "pendingAsk \<Rightarrow> Runtime \<Rightarrow> Runtime" where
  "completeAskRequest wait r =
     (let t = rtAsk r
      in r\<lparr>rtAsk := t\<lparr>askWait := (askWait t)(paRequestID wait := None),
                     askReply := (askReply t)(Key (paReplyTo wait) := None),
                     askClosed := askClosedPut (paRequestID wait) (paTargetActor wait) (askClosed t)\<rparr>\<rparr>)"

text \<open>
  \<open>Ask\<close> up to its \<open>select\<close>: the timeout check, the request, the send. A send that is not
  accepted ends the ask; otherwise the caller waits.
\<close>

definition askSent :: "string \<Rightarrow> pendingAsk \<Rightarrow> Runtime \<times> SubmitAck \<Rightarrow> Runtime \<times> (error + pendingAsk)" where
  "askSent actorID wait ra =
     (case ra of (r, ack) \<Rightarrow>
        if saResult ack \<noteq> SubmitAccepted
        then (emitAsk actorID (paRequestID wait) (paReplyTo wait) AskOutcomeReplyTargetInvalid
                (strSubmitResult (saResult ack)) (completeAskRequest wait r), Inl ErrAskReplyTargetInvalid)
        else (r, Inr wait))"

definition AskBegin :: "string \<Rightarrow> any \<Rightarrow> int \<Rightarrow> Runtime \<Rightarrow> (Runtime \<times> (error + pendingAsk)) option" where
  "AskBegin actorID payload timeout r =
     (if timeout \<le> 0 then Some (r, Inl ErrAskInvalidTimeout)
      else let (r, wait) = newAskRequest actorID r
           in map_option (askSent actorID wait)
                (sendWithAskContext (rtStack r) r actorID payload
                   (Some \<lparr>arcRequestID = paRequestID wait, arcReplyTo = paReplyTo wait\<rparr>)))"

text \<open>
  The \<open>select\<close> of \<open>Ask\<close>: the caller wakes by a reply, the timer or its context. \<open>None\<close>
  means the channel is empty and the caller keeps waiting.
\<close>

datatype askWake = WakeReply | WakeTimeout | WakeCanceled

definition AskResume :: "string \<Rightarrow> pendingAsk \<Rightarrow> askWake \<Rightarrow> Runtime \<Rightarrow> (Runtime \<times> (error + AskResult)) option" where
  "AskResume actorID wait wake r =
     (let q = paRequestID wait; fin = emitAsk actorID q (paReplyTo wait)
      in case wake of
           WakeReply \<Rightarrow>
             (case askChan (rtAsk r) q of
                AskReplyEnvelope rid payload # rest \<Rightarrow>
                  let r = r\<lparr>rtAsk := (rtAsk r)\<lparr>askChan := (askChan (rtAsk r))(q := rest)\<rparr>\<rparr>
                  in Some (fin AskOutcomeSuccess '''' (completeAskRequest wait r),
                           Inr \<lparr>arRequestID = rid, arPayload = payload\<rparr>)
              | _ \<Rightarrow> None)
         | WakeTimeout \<Rightarrow>
             Some (fin AskOutcomeTimeout (errorText ErrAskTimeout) (completeAskRequest wait r), Inl ErrAskTimeout)
         | WakeCanceled \<Rightarrow>
             Some (fin AskOutcomeCanceled (errorText ErrAskCanceled) (completeAskRequest wait r), Inl ErrAskCanceled))"

text \<open>\<open>None\<close> is the answer \<open>handled = false\<close>.\<close>

definition askEnvelope :: "string \<Rightarrow> any \<Rightarrow> string \<times> any" where
  "askEnvelope requestID payload =
     (case payload of
        AskReplyEnvelope rid p \<Rightarrow> (if rid = '''' then requestID else rid, p)
      | _ \<Rightarrow> (requestID, payload))"

definition routeAskReply :: "PID \<Rightarrow> any \<Rightarrow> u64 \<Rightarrow> Runtime \<Rightarrow> (Runtime \<times> PIDSendAck) option" where
  "routeAskReply pid payload mid r =
     (if \<not> isAskReplyNamespace (pidNamespace pid) then None
      else if rtNodeID r \<noteq> '''' \<and> pidNamespace pid \<noteq> askReplyNamespace \<and>
              pidNamespace pid \<noteq> askReplyNamespace @ ''@'' @ rtNodeID r then None
      else let t = rtAsk r
      in case askReply t (Key pid) of
           None \<Rightarrow>
             (case map_of (askClosed t) (pidActorID pid) of
                Some targetActor \<Rightarrow>
                  Some (emitAsk targetActor (pidActorID pid) pid AskOutcomeLateReplyDropped ''ask_wait_closed'' r,
                        \<lparr>psaOutcome = PIDRejectedStopped, psaMessageID = mid\<rparr>)
              | None \<Rightarrow>
                  Some (emitAsk '''' (pidActorID pid) pid AskOutcomeReplyTargetInvalid
                          (errorText ErrAskReplyTargetInvalid) r,
                        \<lparr>psaOutcome = PIDRejectedNotFound, psaMessageID = mid\<rparr>))
         | Some requestID \<Rightarrow>
             let target = (case askWait t requestID of None \<Rightarrow> '''' | Some w \<Rightarrow> paTargetActor w);
                 open = (askWait t requestID \<noteq> None \<and> askChan t requestID = []);
                 t = t\<lparr>askWait := (askWait t)(requestID := None),
                       askReply := (askReply t)(Key pid := None),
                       askClosed := gomap_put requestID target (askClosed t)\<rparr>;
                 r = r\<lparr>rtAsk := t\<rparr>;
                 (rid, body) = askEnvelope requestID payload
             in if rid \<noteq> requestID
                then Some (emitAsk target requestID pid AskOutcomeReplyTargetInvalid ''ask_request_mismatch'' r,
                           \<lparr>psaOutcome = PIDRejectedNotFound, psaMessageID = mid\<rparr>)
                else if open
                then Some (r\<lparr>rtAsk := t\<lparr>askChan := (askChan t)(requestID := [AskReplyEnvelope rid body])\<rparr>\<rparr>,
                           \<lparr>psaOutcome = PIDDelivered, psaMessageID = mid\<rparr>)
                else Some (emitAsk target requestID pid AskOutcomeLateReplyDropped ''ask_duplicate_reply'' r,
                           \<lparr>psaOutcome = PIDRejectedStopped, psaMessageID = mid\<rparr>))"

section \<open>Delivery by PID\<close>

definition rejectPID ::
    "EventType \<Rightarrow> string \<Rightarrow> PID \<Rightarrow> any \<Rightarrow> u64 \<Rightarrow> PIDDeliveryOutcome \<Rightarrow> string option \<Rightarrow> string \<Rightarrow> Runtime \<Rightarrow> Runtime \<times> PIDSendAck" where
  "rejectPID ev guardrailActor pid payload mid outcome letter code r =
     (let r = emitPID ev pid mid outcome code r;
          r = emitGuardrail guardrailActor (resolver_GatewayMode (rtResolver r)) GuardrailGatewayRouteFailure code r;
          r = (case letter of None \<Rightarrow> r
               | Some reason \<Rightarrow> r\<lparr>rtDeadLetters := dls_emitPID (rtDeadLetters r) pid payload reason\<rparr>)
      in (r, \<lparr>psaOutcome = outcome, psaMessageID = mid\<rparr>))"

text \<open>The part of \<open>sendPIDWithSender\<close> behind the remote branch.\<close>

definition sendPIDLocal :: "string \<Rightarrow> PID \<Rightarrow> any \<Rightarrow> u64 \<Rightarrow> Runtime \<Rightarrow> (Runtime \<times> PIDSendAck) option" where
  "sendPIDLocal senderActorID pid payload mid r =
     (let mode = resolver_GatewayMode (rtResolver r);
          guardrailActor = (if senderActorID \<noteq> '''' then senderActorID else pidActorID pid)
      in case resolver_Resolve (rtResolver r) pid of
           None \<Rightarrow>
             if rt_registry_get r (pidActorID pid) = None
             then Some (rejectPID EventPIDRejected guardrailActor pid payload mid PIDRejectedNotFound
                          (Some ''actor_not_found'') (strPIDDeliveryOutcome PIDRejectedNotFound) r)
             else Some (rejectPID EventPIDUnresolved guardrailActor pid payload mid PIDUnresolved
                          (Some ''pid_unresolved'') (strPIDDeliveryOutcome PIDUnresolved) r)
         | Some entry \<Rightarrow>
             if reRouteState entry = PIDRouteStopped
             then Some (rejectPID EventPIDRejected guardrailActor pid payload mid PIDRejectedStopped
                          (Some ''actor_stopped'') (strPIDDeliveryOutcome PIDRejectedStopped) r)
             else if pidGeneration pid \<noteq> reCurrentGeneration entry
             then Some (rejectPID EventPIDRejected guardrailActor pid payload mid PIDRejectedStaleGeneration
                          (Some ''stale_generation'') (strPIDDeliveryOutcome PIDRejectedStaleGeneration) r)
             else if mode = GatewayRouteGatewayMediated \<and> \<not> resolver_GatewayAvailable (rtResolver r)
             then Some (rejectPID EventPIDRejected guardrailActor pid payload mid PIDUnresolved
                          None (errorText ErrGatewayRouteFailed) r)
             else case Send (pidActorID pid) payload r of
                    None \<Rightarrow> None
                  | Some (r, ack) \<Rightarrow>
                      if saResult ack \<noteq> SubmitAccepted
                      then Some (rejectPID EventPIDRejected guardrailActor pid payload (saMessageID ack)
                                   PIDRejectedStopped None (strPIDDeliveryOutcome PIDRejectedStopped) r)
                      else Some (emitGuardrail guardrailActor mode GuardrailGatewayRouteSuccess ''''
                                   (emitPID EventPIDDelivered pid (saMessageID ack) PIDDelivered '''' r),
                                 \<lparr>psaOutcome = PIDDelivered, psaMessageID = saMessageID ack\<rparr>))"

definition sendPIDWithSender :: "string \<Rightarrow> PID \<Rightarrow> any \<Rightarrow> Runtime \<Rightarrow> (Runtime \<times> PIDSendAck) option" where
  "sendPIDWithSender senderActorID pid payload r =
     (let r = nextMsgID r; mid = rtMsgSeq r
      in case routeAskReply pid payload mid r of
           Some (r, ack) \<Rightarrow>
             Some (if psaOutcome ack = PIDDelivered
                   then emitPID EventPIDDelivered pid mid (psaOutcome ack) '''' r
                   else emitPID EventPIDRejected pid mid (psaOutcome ack) (strPIDDeliveryOutcome (psaOutcome ack)) r,
                   ack)
         | None \<Rightarrow>
             (case chRemoteSend (rtHooks r) of
                Some remoteSend \<Rightarrow>
                  if IsRemote pid (rtNodeID r)
                  then let (ack, err) = remoteSend (length (rtCalls r)) senderActorID pid payload mid;
                           r = logCall (CallRemoteSend senderActorID pid payload mid) r
                       in Some (case err of
                             Some e \<Rightarrow> (emitPID EventPIDRejected pid mid PIDUnresolved e r, ack)
                           | None \<Rightarrow> (emitPID EventPIDDelivered pid mid PIDDelivered '''' r, ack))
                  else sendPIDLocal senderActorID pid payload mid r
              | None \<Rightarrow> sendPIDLocal senderActorID pid payload mid r))"

definition SendPID :: "PID \<Rightarrow> any \<Rightarrow> Runtime \<Rightarrow> (Runtime \<times> PIDSendAck) option" where
  "SendPID pid payload r = sendPIDWithSender '''' pid payload r"

definition DeliverPID :: "PID \<Rightarrow> any \<Rightarrow> Runtime \<Rightarrow> (Runtime \<times> PIDSendAck) option" where
  "DeliverPID pid payload r = SendPID pid payload r"

text \<open>\<open>AskPID\<close> up to its \<open>select\<close>, which is \<open>AskResume\<close> with the actor ID of the PID.\<close>

definition AskPIDBegin :: "PID \<Rightarrow> any \<Rightarrow> int \<Rightarrow> Runtime \<Rightarrow> (Runtime \<times> (error + pendingAsk)) option" where
  "AskPIDBegin pid payload timeout r =
     (if timeout \<le> 0 then Some (r, Inl ErrAskInvalidTimeout)
      else let (r, wait) = newAskRequest (pidActorID pid) r;
               sendLocal = map_option (askSent (pidActorID pid) wait)
                 (sendWithAskContext (rtStack r) r (pidActorID pid) payload
                    (Some \<lparr>arcRequestID = paRequestID wait, arcReplyTo = paReplyTo wait\<rparr>))
           in case chRemoteAsk (rtHooks r) of
                None \<Rightarrow> sendLocal
              | Some remoteAsk \<Rightarrow>
                  if \<not> IsRemote pid (rtNodeID r) then sendLocal
                  else let r = nextMsgID r; mid = rtMsgSeq r;
                           (ack, err) = remoteAsk (length (rtCalls r)) '''' pid payload mid (paRequestID wait) (paReplyTo wait);
                           r = logCall (CallRemoteAsk '''' pid payload mid (paRequestID wait) (paReplyTo wait)) r
                       in if err \<noteq> None \<or> psaOutcome ack \<noteq> PIDDelivered
                          then Some (emitAsk (pidActorID pid) (paRequestID wait) (paReplyTo wait)
                                       AskOutcomeReplyTargetInvalid ''remote_send_failed'' (completeAskRequest wait r),
                                     Inl ErrAskReplyTargetInvalid)
                          else Some (r, Inr wait))"

section \<open>PIDs and names\<close>

definition IssuePID :: "string \<Rightarrow> string \<Rightarrow> Runtime \<Rightarrow> Runtime \<times> (error + PID)" where
  "IssuePID namespace actorID r =
     (case rt_registry_get r actorID of
        None \<Rightarrow> (r, Inl ErrActorNotFound)
      | Some _ \<Rightarrow>
          let namespace = (if namespace = '''' \<and> rtNodeID r \<noteq> '''' then rtNodeID r else namespace);
              pid = \<lparr>pidNamespace = namespace, pidActorID = actorID, pidGeneration = 1\<rparr>
          in case PID_Validate pid of
               Some e \<Rightarrow> (r, Inl (ErrOther e))
             | None \<Rightarrow> (r\<lparr>rtResolver := resolver_Register (rtResolver r) pid,
                          rtActorPID := (rtActorPID r)(actorID \<mapsto> pid)\<rparr>, Inr pid))"

definition PIDForActor :: "Runtime \<Rightarrow> string \<Rightarrow> PID option" where
  "PIDForActor r actorID = rtActorPID r actorID"

definition ResolvePID :: "PID \<Rightarrow> Runtime \<Rightarrow> Runtime \<times> PIDResolverEntry option" where
  "ResolvePID pid r =
     (case resolver_Resolve (rtResolver r) pid of
        None \<Rightarrow> (emitPID EventPIDUnresolved pid 0 PIDUnresolved (strPIDDeliveryOutcome PIDUnresolved) r, None)
      | Some entry \<Rightarrow> (emitPID EventPIDResolved pid 0 PIDDelivered '''' r, Some entry))"

definition RegisterName :: "string \<Rightarrow> string \<Rightarrow> string \<Rightarrow> Runtime \<Rightarrow> Runtime \<times> RegistryAck \<times> error option" where
  "RegisterName actorID name namespace r =
     (let dup = \<lparr>raResult = RegistryRegisterRejectedDup, raName = name, raPID = zeroPID\<rparr>
      in case rt_registry_get r actorID of
           None \<Rightarrow> (r, dup, Some ErrActorNotFound)
         | Some _ \<Rightarrow>
             let namespace = (if namespace = '''' then ''default'' else namespace);
                 (r, issued) = (case PIDForActor r actorID of
                     Some pid \<Rightarrow> if pidNamespace pid = namespace then (r, Inr pid) else IssuePID namespace actorID r
                   | None \<Rightarrow> IssuePID namespace actorID r)
             in case issued of
                  Inl e \<Rightarrow> (r, dup, Some e)
                | Inr pid \<Rightarrow>
                    (case nr_register (rtNames r) name actorID pid of
                       (nr, Inl e) \<Rightarrow>
                         (emitRegistry EventRegistryRegister name actorID pid RegistryRegisterRejectedDup (errorText e)
                            (r\<lparr>rtNames := nr\<rparr>), dup, Some e)
                     | (nr, Inr entry) \<Rightarrow>
                         let r = emitRegistry EventRegistryRegister (reName entry) (reActorID entry) (rePid entry)
                                   RegistryRegisterSuccess '''' (r\<lparr>rtNames := nr\<rparr>);
                             r = (if chRegister (rtHooks r) then logCall (CallRegister name (rePid entry)) r else r)
                         in (r, \<lparr>raResult = RegistryRegisterSuccess, raName = reName entry, raPID = rePid entry\<rparr>, None)))"

definition LookupName :: "string \<Rightarrow> Runtime \<Rightarrow> Runtime \<times> RegistryAck" where
  "LookupName name r =
     (case nr_lookup (rtNames r) name of
        Some entry \<Rightarrow>
          (emitRegistry EventRegistryLookup (reName entry) (reActorID entry) (rePid entry) RegistryLookupHit '''' r,
           \<lparr>raResult = RegistryLookupHit, raName = reName entry, raPID = rePid entry\<rparr>)
      | None \<Rightarrow>
          let (r, found) = (case chLookup (rtHooks r) of
                  None \<Rightarrow> (r, None)
                | Some f \<Rightarrow> (logCall (CallLookup name) r, f (length (rtCalls r)) name))
          in case found of
               Some pid \<Rightarrow>
                 (emitRegistry EventRegistryLookup name (pidActorID pid) pid RegistryLookupHit ''cluster'' r,
                  \<lparr>raResult = RegistryLookupHit, raName = name, raPID = pid\<rparr>)
             | None \<Rightarrow>
                 (emitRegistry EventRegistryLookup name '''' zeroPID RegistryLookupNotFound
                    (errorText ErrRegistryNameNotFound) r,
                  \<lparr>raResult = RegistryLookupNotFound, raName = name, raPID = zeroPID\<rparr>))"

definition UnregisterName :: "string \<Rightarrow> Runtime \<Rightarrow> Runtime \<times> RegistryAck" where
  "UnregisterName name r =
     (case nr_unregister (rtNames r) name of
        (nr, None) \<Rightarrow>
          (emitRegistry EventRegistryUnregister name '''' zeroPID RegistryLookupNotFound
             (errorText ErrRegistryNameNotFound) (r\<lparr>rtNames := nr\<rparr>),
           \<lparr>raResult = RegistryLookupNotFound, raName = name, raPID = zeroPID\<rparr>)
      | (nr, Some entry) \<Rightarrow>
          let r = emitRegistry EventRegistryUnregister (reName entry) (reActorID entry) (rePid entry)
                    RegistryUnregisterSuccess '''' (r\<lparr>rtNames := nr\<rparr>);
              r = (if chUnregister (rtHooks r) then logCall (CallUnregister name) r else r)
          in (r, \<lparr>raResult = RegistryUnregisterSuccess, raName = reName entry, raPID = rePid entry\<rparr>))"

definition SendName :: "string \<Rightarrow> any \<Rightarrow> Runtime \<Rightarrow> (Runtime \<times> PIDSendAck) option" where
  "SendName name payload r =
     (let (r, ack) = LookupName name r
      in if raResult ack \<noteq> RegistryLookupHit
         then Some (r, \<lparr>psaOutcome = PIDRejectedNotFound, psaMessageID = 0\<rparr>)
         else SendPID (raPID ack) payload r)"

definition AskNameBegin :: "string \<Rightarrow> any \<Rightarrow> int \<Rightarrow> Runtime \<Rightarrow> (Runtime \<times> (error + pendingAsk)) option" where
  "AskNameBegin name payload timeout r =
     (let (r, ack) = LookupName name r
      in if raResult ack \<noteq> RegistryLookupHit then Some (r, Inl ErrRegistryNameNotFound)
         else AskPIDBegin (raPID ack) payload timeout r)"

section \<open>Policies\<close>

definition SetPIDInteractionPolicy :: "PIDInteractionPolicyMode \<Rightarrow> Runtime \<Rightarrow> Runtime" where
  "SetPIDInteractionPolicy mode r = r\<lparr>rtPidPolicy := mode\<rparr>"

definition SetGatewayRouteMode :: "GatewayRouteMode \<Rightarrow> Runtime \<Rightarrow> Runtime" where
  "SetGatewayRouteMode mode r = r\<lparr>rtResolver := resolver_SetGatewayMode (rtResolver r) mode\<rparr>"

definition SetGatewayAvailable :: "bool \<Rightarrow> Runtime \<Rightarrow> Runtime" where
  "SetGatewayAvailable available r = r\<lparr>rtResolver := resolver_SetGatewayAvailability (rtResolver r) available\<rparr>"

definition CrossActorSendByActorID ::
    "string \<Rightarrow> string \<Rightarrow> any \<Rightarrow> Runtime \<Rightarrow> (Runtime \<times> SubmitAck) option" where
  "CrossActorSendByActorID senderActorID targetActorID payload r =
     (if rtPidPolicy r = PIDInteractionPolicyPIDOnly \<and> senderActorID \<noteq> '''' \<and> senderActorID \<noteq> targetActorID
      then let r = nextMsgID r; mid = rtMsgSeq r;
               r = putOutcome \<lparr>poMessageID = mid, poActorID = targetActorID, poResult = ResultRejectedFound,
                     poSupervisionDecision = DecisionOther '''', poSupervisionIteration = 0,
                     poErrorCode = errorText ErrNonPIDCrossActor\<rparr> r;
               r = emitGuardrail senderActorID (resolver_GatewayMode (rtResolver r)) GuardrailPolicyRejectNonPID
                     (errorText ErrNonPIDCrossActor) r
           in Some (r, \<lparr>saResult = SubmitRejectedFound, saMessageID = mid\<rparr>)
      else Send targetActorID payload
             (emitGuardrail senderActorID (resolver_GatewayMode (rtResolver r)) GuardrailPolicyAccept '''' r))"

definition CrossActorSendPID :: "string \<Rightarrow> PID \<Rightarrow> any \<Rightarrow> Runtime \<Rightarrow> (Runtime \<times> PIDSendAck) option" where
  "CrossActorSendPID senderActorID target payload r =
     sendPIDWithSender senderActorID target payload
       (if rtPidPolicy r = PIDInteractionPolicyPIDOnly
        then emitGuardrail senderActorID (resolver_GatewayMode (rtResolver r)) GuardrailPolicyAccept '''' r
        else r)"

definition ValidateDistributedReadiness :: "Runtime \<Rightarrow> Runtime \<times> ReadinessValidationRecord list" where
  "ValidateDistributedReadiness r =
     (let r = (if rtPidPolicy r = PIDInteractionPolicyPIDOnly
               then emitReadiness ReadinessScopePIDPolicy ReadinessPass '''' r
               else emitReadiness ReadinessScopePIDPolicy ReadinessFail ''pid_policy_not_enforced'' r);
          mode = resolver_GatewayMode (rtResolver r);
          r = (if mode = GatewayRouteLocalDirect \<or> mode = GatewayRouteGatewayMediated
               then emitReadiness ReadinessScopeGatewayBoundary ReadinessPass '''' r
               else emitReadiness ReadinessScopeGatewayBoundary ReadinessFail ''invalid_gateway_mode'' r);
          r = emitReadiness ReadinessScopeLocationTransparency ReadinessPass '''' r
      in (r, readinessAll (obOutcomes (rtObs r))))"

section \<open>Monitors\<close>

definition Monitor :: "PID \<Rightarrow> PID \<Rightarrow> Runtime \<Rightarrow> Runtime \<times> u64" where
  "Monitor watcher target r =
     (let (mm, ref) = mm_add (rtMonitors r) watcher target in (r\<lparr>rtMonitors := mm\<rparr>, ref))"

definition Demonitor :: "u64 \<Rightarrow> Runtime \<Rightarrow> Runtime" where
  "Demonitor ref r = r\<lparr>rtMonitors := fst (mm_remove (rtMonitors r) ref)\<rparr>"

fun notifyEntries :: "string \<Rightarrow> monitorEntry list \<Rightarrow> Runtime \<Rightarrow> Runtime option" where
  "notifyEntries reason [] r = Some r"
| "notifyEntries reason (e # es) r =
     (case SendPID (meWatcher e) (DownMessage (meRef e) (meTarget e) reason) r of
        None \<Rightarrow> None
      | Some (r, _) \<Rightarrow> notifyEntries reason es r)"

definition notifyMonitors :: "string \<Rightarrow> string \<Rightarrow> Runtime \<Rightarrow> Runtime option" where
  "notifyMonitors actorID reason r =
     (let (mm, entries) = mm_drain (rtMonitors r) actorID
      in notifyEntries reason entries (r\<lparr>rtMonitors := mm\<rparr>))"

fun emitUnregistered :: "RegistryOperationResult \<Rightarrow> registryEntry list \<Rightarrow> Runtime \<Rightarrow> Runtime" where
  "emitUnregistered result [] r = r"
| "emitUnregistered result (e # es) r =
     emitUnregistered result es (emitRegistry EventRegistryUnregister (reName e) (reActorID e) (rePid e) result '''' r)"

definition cleanupRegistryForActor :: "string \<Rightarrow> RegistryOperationResult \<Rightarrow> Runtime \<Rightarrow> Runtime option" where
  "cleanupRegistryForActor actorID result r =
     (let (nr, entries) = nr_unregisterByActor (rtNames r) actorID
      in notifyMonitors actorID ''stopped'' (emitUnregistered result entries (r\<lparr>rtNames := nr\<rparr>)))"

end
