(* ===== verification/Broker.thy ===== *)
theory Broker
  imports RuntimeSend
begin

text \<open>
  The broker actor (\<open>pubsub_broker.go\<close>, \<open>pubsub_runtime.go\<close>, \<open>pubsub_dispatch.go\<close>,
  \<open>pubsub_commands.go\<close>): its message handler on top of the tables of theory \<open>PubSub\<close>, the
  goroutine that delivers a publication, and the runtime's broker calls. A broker reply goes
  through \<open>SendPID\<close>, so the handler may run out of stack like any send.
\<close>

definition DefaultBrokerActorID :: string where
  "DefaultBrokerActorID = ''__native_pubsub_broker''"

definition defaultBrokerMailboxCapacity :: int where
  "defaultBrokerMailboxCapacity = 65536"

definition defaultBrokerID :: "string \<Rightarrow> string" where
  "defaultBrokerID brokerID = (if brokerID \<noteq> '''' then brokerID else DefaultBrokerActorID)"

definition classifyPublishResult :: "int \<Rightarrow> int \<Rightarrow> BrokerOutcomeType \<times> string" where
  "classifyPublishResult unreachable n =
     (if unreachable = 0 then (BrokerOutcomePublishSuccess, '''')
      else if unreachable < n then (BrokerOutcomePublishPartialDelivery, ''subscriber_unreachable'')
      else (BrokerOutcomeTargetUnreachable, ''subscriber_unreachable''))"

fun isBrokerCommand :: "any \<Rightarrow> bool" where
  "isBrokerCommand (BrokerSubscribeCommand _ _) = True"
| "isBrokerCommand (BrokerUnsubscribeCommand _ _) = True"
| "isBrokerCommand (BrokerPublishCommand _ _ _) = True"
| "isBrokerCommand _ = False"

definition brokerAck :: "BrokerOperation \<Rightarrow> BrokerOutcomeType \<Rightarrow> string \<Rightarrow> string \<Rightarrow> BrokerCommandAck" where
  "brokerAck op result pattern reason = \<lparr>bcaOperation = op, bcaResult = result, bcaTopicPattern = pattern,
     bcaMatchedCount = 0, bcaReasonCode = reason\<rparr>"

definition replyAsk :: "string \<Rightarrow> PID \<Rightarrow> BrokerCommandAck \<Rightarrow> Runtime \<Rightarrow> Runtime option" where
  "replyAsk requestID replyTo ack r =
     map_option fst (SendPID replyTo (AskReplyEnvelope requestID (BrokerCommandAckVal ack)) r)"

text \<open>The reply PID of an ask message; the zero PID when the message is not an ask.\<close>

definition replyToOf :: "Message \<Rightarrow> PID" where
  "replyToOf msg = (case AskReplyTo msg of None \<Rightarrow> zeroPID | Some p \<Rightarrow> p)"

definition handleSubscribe :: "pubsubBrokerService \<Rightarrow> Message \<Rightarrow> PID \<Rightarrow> string \<Rightarrow> Runtime \<Rightarrow> Runtime option" where
  "handleSubscribe b msg subscriber pattern r =
     (let i = psBrokerID b
      in if \<not> IsAsk msg
         then Some (emitBroker i BrokerOperationSubscribe pattern subscriber 0 BrokerOutcomeInvalidCommand
                      (errorText ErrPubSubInvalidCommand) r)
         else case parseTopicPattern pattern of
           Inl _ \<Rightarrow>
             replyAsk (AskRequestID msg) (replyToOf msg)
               (brokerAck BrokerOperationSubscribe BrokerOutcomeInvalidPattern pattern (errorText ErrPubSubInvalidPattern))
               (emitBroker i BrokerOperationSubscribe pattern subscriber 0 BrokerOutcomeInvalidPattern
                  (errorText ErrPubSubInvalidPattern) r)
         | Inr p \<Rightarrow>
             let (b, firstForPattern) = subscribeLocked b p subscriber;
                 r = r\<lparr>rtBrokers := (rtBrokers r)(i \<mapsto> b)\<rparr>;
                 r = (if firstForPattern \<and> chOnSubscribe (rtHooks r)
                      then logCall (CallOnSubscribe (tpRaw p)) r else r);
                 r = emitBroker i BrokerOperationSubscribe (tpRaw p) subscriber 0 BrokerOutcomeSubscribeSuccess '''' r
             in replyAsk (AskRequestID msg) (replyToOf msg)
                  (brokerAck BrokerOperationSubscribe BrokerOutcomeSubscribeSuccess (tpRaw p) '''') r)"

definition handleUnsubscribe :: "pubsubBrokerService \<Rightarrow> Message \<Rightarrow> PID \<Rightarrow> string \<Rightarrow> Runtime \<Rightarrow> Runtime option" where
  "handleUnsubscribe b msg subscriber pattern r =
     (let i = psBrokerID b
      in if \<not> IsAsk msg
         then Some (emitBroker i BrokerOperationUnsubscribe pattern subscriber 0 BrokerOutcomeInvalidCommand
                      (errorText ErrPubSubInvalidCommand) r)
         else case parseTopicPattern pattern of
           Inl _ \<Rightarrow>
             replyAsk (AskRequestID msg) (replyToOf msg)
               (brokerAck BrokerOperationUnsubscribe BrokerOutcomeInvalidPattern pattern (errorText ErrPubSubInvalidPattern))
               (emitBroker i BrokerOperationUnsubscribe pattern subscriber 0 BrokerOutcomeInvalidPattern
                  (errorText ErrPubSubInvalidPattern) r)
         | Inr p \<Rightarrow>
             let (b, hasSub, lastForPattern) = unsubscribeLocked b p subscriber;
                 r = r\<lparr>rtBrokers := (rtBrokers r)(i \<mapsto> b)\<rparr>;
                 r = (if lastForPattern \<and> chOnUnsubscribe (rtHooks r)
                      then logCall (CallOnUnsubscribe (tpRaw p)) r else r);
                 result = (if hasSub then BrokerOutcomeUnsubscribeSuccess else BrokerOutcomeNotFoundNoop);
                 r = emitBroker i BrokerOperationUnsubscribe (tpRaw p) subscriber 0 result '''' r
             in replyAsk (AskRequestID msg) (replyToOf msg)
                  (brokerAck BrokerOperationUnsubscribe result (tpRaw p) '''') r)"

text \<open>With targets, \<open>dispatchPublish\<close> starts a goroutine; it is queued here and run by \<open>publishJobRun\<close>.\<close>

definition dispatchPublish :: "string \<Rightarrow> string \<Rightarrow> any \<Rightarrow> string \<Rightarrow> PID list \<Rightarrow> Runtime \<Rightarrow> Runtime" where
  "dispatchPublish i topic payload publisher targets r =
     (if targets = []
      then emitBroker i BrokerOperationPublish topic zeroPID 0 BrokerOutcomePublishSuccess '''' r
      else r\<lparr>rtPublishing := rtPublishing r @ [\<lparr>pjBroker = i, pjTopic = topic, pjPayload = payload,
               pjPublisher = publisher, pjTargets = targets\<rparr>]\<rparr>)"

definition handlePublish :: "pubsubBrokerService \<Rightarrow> string \<Rightarrow> any \<Rightarrow> string \<Rightarrow> bool \<Rightarrow> Runtime \<Rightarrow> Runtime" where
  "handlePublish b topic payload publisher isRemote r =
     (let i = psBrokerID b
      in case parsePublishTopic topic of
           Inl _ \<Rightarrow> emitBroker i BrokerOperationPublish topic zeroPID 0 BrokerOutcomeInvalidTopic
                     (errorText ErrPubSubInvalidTopic) r
         | Inr segs \<Rightarrow>
             let r = dispatchPublish i topic payload publisher (trieMatch (psTrie b) segs) r
             in if \<not> isRemote \<and> chBroadcast (rtHooks r) then logCall (CallBroadcast topic payload) r else r)"

fun publishSends :: "publishJob \<Rightarrow> PID list \<Rightarrow> int \<Rightarrow> Runtime \<Rightarrow> (Runtime \<times> int) option" where
  "publishSends job [] unreachable r = Some (r, unreachable)"
| "publishSends job (pid # pids) unreachable r =
     (case SendPID pid (BrokerPublishedMessage (pjTopic job) (pjPayload job) (pjPublisher job)) r of
        None \<Rightarrow> None
      | Some (r, ack) \<Rightarrow>
          publishSends job pids (if psaOutcome ack \<noteq> PIDDelivered then unreachable + 1 else unreachable) r)"

definition publishJobRun :: "publishJob \<Rightarrow> Runtime \<Rightarrow> Runtime option" where
  "publishJobRun job r =
     (case publishSends job (pjTargets job) 0 r of
        None \<Rightarrow> None
      | Some (r, unreachable) \<Rightarrow>
          let n = int (length (pjTargets job));
              (result, reason) = classifyPublishResult unreachable n
          in Some (emitBroker (pjBroker job) BrokerOperationPublish (pjTopic job) zeroPID n result reason r))"

text \<open>The handler keeps the actor state and never fails.\<close>

definition brokerHandler :: "string \<Rightarrow> any \<Rightarrow> Message \<Rightarrow> Runtime \<Rightarrow> (Runtime \<times> handlerResult) option" where
  "brokerHandler brokerID state msg r =
     (case rtBrokers r brokerID of
        None \<Rightarrow> Some (r, HandlerOk state)
      | Some b \<Rightarrow>
         map_option (\<lambda>r. (r, HandlerOk state))
           (case msgPayload msg of
              BrokerSubscribeCommand subscriber pattern \<Rightarrow> handleSubscribe b msg subscriber pattern r
            | BrokerUnsubscribeCommand subscriber pattern \<Rightarrow> handleUnsubscribe b msg subscriber pattern r
            | BrokerPublishCommand topic payload publisher \<Rightarrow> Some (handlePublish b topic payload publisher False r)
            | BrokerRemotePublishCommand topic payload publisher \<Rightarrow> Some (handlePublish b topic payload publisher True r)
            | _ \<Rightarrow>
                let r = emitBroker brokerID BrokerOperationPublish '''' zeroPID 0 BrokerOutcomeInvalidCommand
                          (errorText ErrPubSubInvalidCommand) r
                in case AskReplyTo msg of
                     None \<Rightarrow> Some r
                   | Some replyTo \<Rightarrow>
                       replyAsk (AskRequestID msg) replyTo
                         (brokerAck BrokerOperationPublish BrokerOutcomeInvalidCommand ''''
                            (errorText ErrPubSubInvalidCommand)) r))"

text \<open>The answer is the broker's actor ID, which is what the returned reference holds.\<close>

definition EnsureBrokerActor :: "string \<Rightarrow> Runtime \<Rightarrow> error + (Runtime \<times> string)" where
  "EnsureBrokerActor brokerID r =
     (let brokerID = defaultBrokerID brokerID
      in case rtBrokers r brokerID of
           Some _ \<Rightarrow> Inr (r, brokerID)
         | None \<Rightarrow>
             (case CreateActor brokerID NilAny (Some BrokerHandler)
                     (WithMailboxCapacity defaultBrokerMailboxCapacity defaultActorConfig) r of
                Inl e \<Rightarrow> Inl e
              | Inr r \<Rightarrow> Inr (r\<lparr>rtBrokers := (rtBrokers r)(brokerID \<mapsto> newPubSubBrokerService brokerID)\<rparr>, brokerID)))"

definition BrokerSubscribeBegin ::
    "string \<Rightarrow> PID \<Rightarrow> string \<Rightarrow> int \<Rightarrow> Runtime \<Rightarrow> (Runtime \<times> (error + pendingAsk)) option" where
  "BrokerSubscribeBegin brokerID subscriber pattern timeout r =
     (case EnsureBrokerActor (defaultBrokerID brokerID) r of
        Inl e \<Rightarrow> Some (r, Inl e)
      | Inr (r, broker) \<Rightarrow> AskBegin broker (BrokerSubscribeCommand subscriber pattern) timeout r)"

definition BrokerUnsubscribeBegin ::
    "string \<Rightarrow> PID \<Rightarrow> string \<Rightarrow> int \<Rightarrow> Runtime \<Rightarrow> (Runtime \<times> (error + pendingAsk)) option" where
  "BrokerUnsubscribeBegin brokerID subscriber pattern timeout r =
     (case EnsureBrokerActor (defaultBrokerID brokerID) r of
        Inl e \<Rightarrow> Some (r, Inl e)
      | Inr (r, broker) \<Rightarrow> AskBegin broker (BrokerUnsubscribeCommand subscriber pattern) timeout r)"

text \<open>What both calls make of the ask's result.\<close>

definition brokerAskResult :: "error + AskResult \<Rightarrow> error + BrokerCommandAck" where
  "brokerAskResult res =
     (case res of
        Inl e \<Rightarrow> Inl e
      | Inr a \<Rightarrow> (case arPayload a of BrokerCommandAckVal ack \<Rightarrow> Inr ack | _ \<Rightarrow> Inl ErrPubSubInvalidCommand))"

definition BrokerPublish :: "string \<Rightarrow> string \<Rightarrow> any \<Rightarrow> string \<Rightarrow> Runtime \<Rightarrow> (Runtime \<times> SubmitAck) option" where
  "BrokerPublish brokerID topic payload publisher r =
     (case EnsureBrokerActor (defaultBrokerID brokerID) r of
        Inl e \<Rightarrow> Some (r, \<lparr>saResult = SubmitRejectedFound, saMessageID = 0\<rparr>)
      | Inr (r, broker) \<Rightarrow> Send broker (BrokerPublishCommand topic payload publisher) r)"

definition BrokerPublishRemote :: "string \<Rightarrow> string \<Rightarrow> any \<Rightarrow> string \<Rightarrow> Runtime \<Rightarrow> (Runtime \<times> SubmitAck) option" where
  "BrokerPublishRemote brokerID topic payload publisher r =
     (case EnsureBrokerActor (defaultBrokerID brokerID) r of
        Inl e \<Rightarrow> Some (r, \<lparr>saResult = SubmitRejectedFound, saMessageID = 0\<rparr>)
      | Inr (r, broker) \<Rightarrow> Send broker (BrokerRemotePublishCommand topic payload publisher) r)"

definition ClusterMembershipTopic :: string where
  "ClusterMembershipTopic = ''cluster.membership''"

definition PublishMembershipEvent :: "string \<Rightarrow> ClusterMemberInfo \<Rightarrow> Runtime \<Rightarrow> Runtime option" where
  "PublishMembershipEvent typ member r =
     map_option fst (BrokerPublish '''' ClusterMembershipTopic (ClusterMembershipEvent typ member) ''cluster'' r)"

end
