(* ===== verification/Cron.thy ===== *)
theory Cron
  imports Broker
begin

text \<open>
  The cron timer actor (\<open>cron_broker.go\<close>, \<open>cron_runtime.go\<close>): its message handler on top of the
  tables of theory \<open>CronTable\<close>, the steps of the goroutine \<open>runSchedule\<close>, and the runtime's
  cron calls. Times are integers; the time a tick carries is dropped like all time stamps.
\<close>

definition DefaultCronActorID :: string where
  "DefaultCronActorID = ''__native_cron_timer''"

definition SingletonCronActorID :: string where
  "SingletonCronActorID = ''__native_cron_singleton_timer''"

definition defaultCronMailboxCapacity :: int where
  "defaultCronMailboxCapacity = 65536"

definition defaultCronID :: "string \<Rightarrow> string" where
  "defaultCronID cronID = (if cronID \<noteq> '''' then cronID else DefaultCronActorID)"

definition zeroCronRef :: CronRef where
  "zeroCronRef = \<lparr>crID = '''', crSchedule = '''', crActorID = ''''\<rparr>"

definition cronAck :: "CronOperation \<Rightarrow> CronOutcomeType \<Rightarrow> CronRef \<Rightarrow> CronRef list \<Rightarrow> string \<Rightarrow> CronCommandAck" where
  "cronAck op result ref refs reason =
     \<lparr>ccaOperation = op, ccaResult = result, ccaRef = ref, ccaRefs = refs, ccaReasonCode = reason\<rparr>"

definition putCron :: "string \<Rightarrow> cronBrokerService \<Rightarrow> Runtime \<Rightarrow> Runtime" where
  "putCron cronID cs r = r\<lparr>rtCron := (rtCron r)\<lparr>ctServices := (ctServices (rtCron r))(cronID \<mapsto> cs)\<rparr>\<rparr>"

section \<open>The handler\<close>

definition cron_replyAsk :: "string \<Rightarrow> PID \<Rightarrow> CronCommandAck \<Rightarrow> Runtime \<Rightarrow> Runtime option" where
  "cron_replyAsk requestID replyTo ack r =
     map_option fst (SendPID replyTo (AskReplyEnvelope requestID (CronCommandAckVal ack)) r)"

definition cronSubscriber :: "string \<Rightarrow> CronRef \<Rightarrow> PID \<Rightarrow> cronSchedule \<Rightarrow> any \<Rightarrow> string \<Rightarrow> cronBrokerService \<Rightarrow> Runtime \<Rightarrow> cronBrokerService \<times> Runtime" where
  "cronSubscriber cronID ref pid sched payload tag cs r =
     (let cronPID = \<lparr>pidNamespace = pidNamespace pid, pidActorID = cronID, pidGeneration = 1\<rparr>;
          (r, monRef) = Monitor cronPID pid r
      in (cronAdd \<lparr>cuRef = ref, cuSubscriber = pid, cuActorID = pidActorID pid, cuSchedule = sched, cuPayload = payload,
            cuTag = tag, cuMonitorRef = monRef, cuCancel = 0\<rparr> cs, r))"

definition cron_handleSubscribe ::
    "cronBrokerService \<Rightarrow> Message \<Rightarrow> PID \<Rightarrow> string \<Rightarrow> any \<Rightarrow> string \<Rightarrow> Runtime \<Rightarrow> Runtime option" where
  "cron_handleSubscribe cs msg subscriber schedule payload tag r =
     (if \<not> IsAsk msg then Some r
      else case ctParse (rtCron r) schedule of
        None \<Rightarrow> cron_replyAsk (AskRequestID msg) (replyToOf msg)
                  (cronAck CronOperationSubscribe CronOutcomeInvalidSchedule zeroCronRef [] (errorText ErrCronInvalidSchedule)) r
      | Some sched \<Rightarrow>
          let cs = cs\<lparr>cbSeq := cbSeq cs + 1\<rparr>;
              refID = cronRefID (cbCronID cs) (cbSeq cs);
              ref = \<lparr>crID = refID, crSchedule = schedule, crActorID = pidActorID subscriber\<rparr>;
              (cs, r) = cronSubscriber (cbCronID cs) ref subscriber sched payload tag cs r
          in cron_replyAsk (AskRequestID msg) (replyToOf msg)
               (cronAck CronOperationSubscribe CronOutcomeSubscribeSuccess ref [] '''') (putCron (cbCronID cs) cs r))"

definition removeLocked :: "string \<Rightarrow> cronSubscription \<Rightarrow> cronBrokerService \<times> Runtime \<Rightarrow> cronBrokerService \<times> Runtime" where
  "removeLocked refID sub = (\<lambda>(cs, r). (cronRemove refID sub cs, Demonitor (cuMonitorRef sub) r))"

definition cron_handleUnsubscribe :: "cronBrokerService \<Rightarrow> Message \<Rightarrow> string \<Rightarrow> Runtime \<Rightarrow> Runtime option" where
  "cron_handleUnsubscribe cs msg refID r =
     (if \<not> IsAsk msg then Some r
      else case map_of (cbSubs cs) refID of
        None \<Rightarrow> cron_replyAsk (AskRequestID msg) (replyToOf msg)
                  (cronAck CronOperationUnsubscribe CronOutcomeNotFound zeroCronRef [] (errorText ErrCronRefNotFound)) r
      | Some sub \<Rightarrow>
          let (cs, r) = removeLocked refID sub (cs, r)
          in cron_replyAsk (AskRequestID msg) (replyToOf msg)
               (cronAck CronOperationUnsubscribe CronOutcomeUnsubscribeSuccess (cuRef sub) [] '''') (putCron (cbCronID cs) cs r))"

definition removeKnown :: "string \<Rightarrow> cronBrokerService \<times> Runtime \<Rightarrow> cronBrokerService \<times> Runtime" where
  "removeKnown refID x = (case map_of (cbSubs (fst x)) refID of None \<Rightarrow> x | Some sub \<Rightarrow> removeLocked refID sub x)"

definition cron_handleUnsubscribeAll :: "cronBrokerService \<Rightarrow> Message \<Rightarrow> PID \<Rightarrow> Runtime \<Rightarrow> Runtime option" where
  "cron_handleUnsubscribeAll cs msg subscriber r =
     (if \<not> IsAsk msg then Some r
      else let (cs, r) = fold removeKnown (cronRefsOf cs (pidActorID subscriber)) (cs, r)
           in cron_replyAsk (AskRequestID msg) (replyToOf msg)
                (cronAck CronOperationUnsubscribeAll CronOutcomeUnsubscribeSuccess zeroCronRef [] '''') (putCron (cbCronID cs) cs r))"

definition cron_handleList :: "cronBrokerService \<Rightarrow> Message \<Rightarrow> PID \<Rightarrow> Runtime \<Rightarrow> Runtime option" where
  "cron_handleList cs msg subscriber r =
     (if \<not> IsAsk msg then Some r
      else cron_replyAsk (AskRequestID msg) (replyToOf msg)
             (cronAck CronOperationList CronOutcomeListSuccess zeroCronRef (cronListRefs (pidActorID subscriber) cs) '''') r)"

definition restoreOne :: "string \<times> string \<times> string \<times> string \<times> any \<Rightarrow> cronBrokerService \<times> Runtime \<Rightarrow> cronBrokerService \<times> Runtime" where
  "restoreOne = (\<lambda>(refID, actorID, schedule, tag, payload) (cs, r).
     case ctParse (rtCron r) schedule of
       None \<Rightarrow> (cs, r)
     | Some sched \<Rightarrow>
         let ref = \<lparr>crID = refID, crSchedule = schedule, crActorID = actorID\<rparr>;
             pid = \<lparr>pidNamespace = rtNodeID r, pidActorID = actorID, pidGeneration = 1\<rparr>
         in cronSubscriber (cbCronID cs) ref pid sched payload tag cs r)"

definition restoreFromHandoff ::
    "(string \<times> string \<times> string \<times> string \<times> any) list \<Rightarrow> cronBrokerService \<times> Runtime \<Rightarrow> cronBrokerService \<times> Runtime" where
  "restoreFromHandoff entries x = fold restoreOne entries x"

text \<open>The state of the actor that makes \<open>restoreFromHandoff\<close> run is a pointer to a handoff state.\<close>

definition cronRestore :: "any \<Rightarrow> cronBrokerService \<times> Runtime \<Rightarrow> cronBrokerService \<times> Runtime" where
  "cronRestore state = (\<lambda>(cs, r).
     if cbRestored cs then (cs, r)
     else let cs = cs\<lparr>cbRestored := True\<rparr>
          in case state of CronHandoffState entries \<Rightarrow> restoreFromHandoff entries (cs, r) | _ \<Rightarrow> (cs, r))"

definition cronCommand :: "cronBrokerService \<Rightarrow> Message \<Rightarrow> Runtime \<Rightarrow> Runtime option" where
  "cronCommand cs msg r =
     (case msgPayload msg of
        CronSubscribeCommand subscriber schedule payload tag \<Rightarrow> cron_handleSubscribe cs msg subscriber schedule payload tag r
      | CronUnsubscribeCommand subscriber refID \<Rightarrow> cron_handleUnsubscribe cs msg refID r
      | CronUnsubscribeAllCommand subscriber \<Rightarrow> cron_handleUnsubscribeAll cs msg subscriber r
      | CronListCommand subscriber \<Rightarrow> cron_handleList cs msg subscriber r
      | DownMessage ref target reason \<Rightarrow> Some (putCron (cbCronID cs) (cron_handleDown (pidActorID target) cs) r)
      | _ \<Rightarrow>
          (case AskReplyTo msg of
             None \<Rightarrow> Some r
           | Some replyTo \<Rightarrow>
               cron_replyAsk (AskRequestID msg) replyTo
                 (cronAck CronOperationSubscribe CronOutcomeInvalidCommand zeroCronRef [] (errorText ErrCronInvalidCommand)) r))"

definition cronHandler :: "string \<Rightarrow> any \<Rightarrow> Message \<Rightarrow> Runtime \<Rightarrow> (Runtime \<times> handlerResult) option" where
  "cronHandler cronID state msg r =
     (case ctServices (rtCron r) cronID of
        None \<Rightarrow> Some (r, HandlerOk state)
      | Some cs \<Rightarrow>
          let (cs, r) = cronRestore state (cs, r)
          in map_option (\<lambda>r. (r, HandlerOk (case ctServices (rtCron r) cronID of None \<Rightarrow> state | Some cs \<Rightarrow> captureState cs)))
               (cronCommand cs msg (putCron cronID cs r)))"

section \<open>The goroutine of a subscription\<close>

definition updJob :: "nat \<Rightarrow> (cronJob \<Rightarrow> cronJob) \<Rightarrow> cronBrokerService \<Rightarrow> cronBrokerService" where
  "updJob i f cs = cs\<lparr>cbJobs := map (\<lambda>j. if cjID j = i then f j else j) (cbJobs cs)\<rparr>"

definition dropJob :: "nat \<Rightarrow> cronBrokerService \<Rightarrow> cronBrokerService" where
  "dropJob i cs = cs\<lparr>cbJobs := filter (\<lambda>j. cjID j \<noteq> i) (cbJobs cs)\<rparr>"

text \<open>The head of the loop, at time \<open>now\<close>.\<close>

definition scheduleLoop :: "int \<Rightarrow> cronJob \<Rightarrow> cronBrokerService \<Rightarrow> cronBrokerService" where
  "scheduleLoop now j cs =
     (if cjCanceled j then dropJob (cjID j) cs
      else case cuSchedule (cjSub j) now of
             None \<Rightarrow> dropJob (cjID j) cs
           | Some nxt \<Rightarrow> updJob (cjID j) (\<lambda>j. j\<lparr>cjNext := Some nxt\<rparr>) cs)"

text \<open>The timer case of the \<open>select\<close>.\<close>

definition scheduleFires :: "string \<Rightarrow> cronJob \<Rightarrow> Runtime \<Rightarrow> Runtime option" where
  "scheduleFires cronID j r =
     (case ctServices (rtCron r) cronID of
        None \<Rightarrow> Some r
      | Some cs \<Rightarrow>
          if cjCanceled j then Some (putCron cronID (dropJob (cjID j) cs) r)
          else map_option fst (Send (cuActorID (cjSub j)) (CronTickMessage (cuRef (cjSub j)) (cuPayload (cjSub j)) (cuTag (cjSub j)))
                 (putCron cronID (updJob (cjID j) (\<lambda>j. j\<lparr>cjNext := None\<rparr>) cs) r)))"

text \<open>The context case of the \<open>select\<close>.\<close>

definition scheduleDone :: "cronJob \<Rightarrow> cronBrokerService \<Rightarrow> cronBrokerService" where
  "scheduleDone j cs = (if cjCanceled j then dropJob (cjID j) cs else cs)"

section \<open>Runtime calls\<close>

definition EnsureCronActor :: "string \<Rightarrow> Runtime \<Rightarrow> error + (Runtime \<times> string)" where
  "EnsureCronActor cronID r =
     (let cronID = defaultCronID cronID
      in case ctServices (rtCron r) cronID of
           Some _ \<Rightarrow> Inr (r, cronID)
         | None \<Rightarrow>
             (case CreateActor cronID NilAny (Some (CronHandlerOf cronID))
                     (WithMailboxCapacity defaultCronMailboxCapacity defaultActorConfig) r of
                Inl e \<Rightarrow> Inl e
              | Inr r \<Rightarrow> Inr (putCron cronID (newCronBrokerService cronID) r, cronID)))"

definition CronHandler :: "string \<Rightarrow> Runtime \<Rightarrow> Runtime \<times> handler" where
  "CronHandler cronID r =
     (let cronID = defaultCronID cronID
      in (case ctServices (rtCron r) cronID of
            Some _ \<Rightarrow> r
          | None \<Rightarrow> putCron cronID (newCronBrokerService cronID) r, CronHandlerOf cronID))"

text \<open>The cron calls up to the wait of their ask, and what they make of its result.\<close>

definition cronAskBegin :: "string \<Rightarrow> any \<Rightarrow> int \<Rightarrow> Runtime \<Rightarrow> (Runtime \<times> (error + pendingAsk)) option" where
  "cronAskBegin cronID command timeout r =
     (case EnsureCronActor (defaultCronID cronID) r of
        Inl e \<Rightarrow> Some (r, Inl e)
      | Inr (r, cron) \<Rightarrow> AskBegin cron command timeout r)"

definition CronSubscribe :: "string \<Rightarrow> PID \<Rightarrow> string \<Rightarrow> any \<Rightarrow> string \<Rightarrow> int \<Rightarrow> Runtime \<Rightarrow> (Runtime \<times> (error + pendingAsk)) option" where
  "CronSubscribe cronID subscriber schedule payload tag timeout =
     cronAskBegin cronID (CronSubscribeCommand subscriber schedule payload tag) timeout"

definition CronUnsubscribe :: "string \<Rightarrow> PID \<Rightarrow> string \<Rightarrow> int \<Rightarrow> Runtime \<Rightarrow> (Runtime \<times> (error + pendingAsk)) option" where
  "CronUnsubscribe cronID subscriber refID timeout = cronAskBegin cronID (CronUnsubscribeCommand subscriber refID) timeout"

definition CronUnsubscribeAll :: "string \<Rightarrow> PID \<Rightarrow> int \<Rightarrow> Runtime \<Rightarrow> (Runtime \<times> (error + pendingAsk)) option" where
  "CronUnsubscribeAll cronID subscriber timeout = cronAskBegin cronID (CronUnsubscribeAllCommand subscriber) timeout"

definition CronList :: "string \<Rightarrow> PID \<Rightarrow> int \<Rightarrow> Runtime \<Rightarrow> (Runtime \<times> (error + pendingAsk)) option" where
  "CronList cronID subscriber timeout = cronAskBegin cronID (CronListCommand subscriber) timeout"

definition cronAskResult :: "error + AskResult \<Rightarrow> error + CronCommandAck" where
  "cronAskResult res =
     (case res of
        Inl e \<Rightarrow> Inl e
      | Inr a \<Rightarrow> (case arPayload a of CronCommandAckVal ack \<Rightarrow> Inr ack | _ \<Rightarrow> Inl ErrCronInvalidCommand))"

end
