(* ===== verification/RuntimeActor.thy ===== *)
theory RuntimeActor
  imports Cron
begin

text \<open>
  The life of an actor (\<open>runtime.go\<close>): lifecycle hooks, the goroutine \<open>runActor\<close> cut into its
  steps, message and batch processing with supervision, stopping and removal; and the timers of
  \<open>timers.go\<close>. An iteration of the inner loop of \<open>runActor\<close> is \<open>drainStep\<close>; \<open>drainLoop\<close>
  repeats it with a bound on the number of iterations.
\<close>

section \<open>Lifecycle hooks\<close>

fun hookFailure :: "hookResult \<Rightarrow> string option" where
  "hookFailure HookOk = None"
| "hookFailure (HookErr _) = Some ''error''"
| "hookFailure (HookPanic _) = Some ''panic''"

definition recordHook ::
    "string \<Rightarrow> LifecycleHookPhase \<Rightarrow> LifecycleHookResult \<Rightarrow> string \<Rightarrow> Runtime \<Rightarrow> Runtime" where
  "recordHook actorID phase result code r =
     emitLifecycle actorID phase result code
       (updOutcomes (\<lambda>s. putLifecycle s \<lparr>lhoActorID = actorID, lhoPhase = phase, lhoResult = result,
          lhoErrorCode = code\<rparr>) r)"

text \<open>\<open>runLifecycleHook\<close> for the start phase; the flag says whether the hook failed.\<close>

definition runLifecycleHook :: "nat \<Rightarrow> Runtime \<Rightarrow> Runtime \<times> bool" where
  "runLifecycleHook p r =
     (let i = instAt r p
      in case acStartHook (aiCfg i) of
           None \<Rightarrow> (r, False)
         | Some h \<Rightarrow>
             (case hookFailure (h (aiRestarts i)) of
                Some code \<Rightarrow> (recordHook (aiID i) LifecyclePhaseStart LifecycleStartFailed code r, True)
              | None \<Rightarrow> (recordHook (aiID i) LifecyclePhaseStart LifecycleStartSuccess '''' r, False)))"

definition runLifecycleStopHookWithTimeout :: "nat \<Rightarrow> Runtime \<Rightarrow> Runtime" where
  "runLifecycleStopHookWithTimeout p r =
     (let i = instAt r p
      in case acStopHook (aiCfg i) of
           None \<Rightarrow> r
         | Some StopHookTimeout \<Rightarrow> recordHook (aiID i) LifecyclePhaseStop LifecycleStopFailed ''timeout'' r
         | Some (StopHookDone h) \<Rightarrow>
             (case hookFailure h of
                Some code \<Rightarrow> recordHook (aiID i) LifecyclePhaseStop LifecycleStopFailed code r
              | None \<Rightarrow> recordHook (aiID i) LifecyclePhaseStop LifecycleStopSuccess '''' r))"

section \<open>Supervision\<close>

definition setStatus :: "nat \<Rightarrow> ActorStatus \<Rightarrow> Runtime \<Rightarrow> Runtime" where
  "setStatus p s = updInst p (\<lambda>i. i\<lparr>aiStatus := s\<rparr>)"

text \<open>The restart branch up to the start hook.\<close>

definition restartActor :: "nat \<Rightarrow> Runtime \<Rightarrow> Runtime" where
  "restartActor p r =
     (let r = updInst p (\<lambda>i. i\<lparr>aiStatus := ActorRestarting, aiRestarts := aiRestarts i + 1,
                aiState := newActorState (aiInitialState i)\<rparr>) r;
          i = aiID (instAt r p)
      in case rtActorPID r i of
           None \<Rightarrow> r
         | Some oldPID \<Rightarrow>
             let (rs, bumped) = resolver_BumpGeneration
                   (resolver_SetState (rtResolver r) oldPID PIDRouteRestarting) oldPID
             in r\<lparr>rtResolver := rs,
                  rtActorPID := (case bumped of None \<Rightarrow> rtActorPID r
                    | Some newPID \<Rightarrow> (rtActorPID r)(i \<mapsto> newPID))\<rparr>)"

text \<open>The common end of the branches that stop the actor.\<close>

definition terminateActor :: "nat \<Rightarrow> Runtime \<Rightarrow> Runtime option" where
  "terminateActor p r =
     cleanupRegistryForActor (aiID (instAt r p)) RegistryUnregisterLifecycleTerm
       (updInst p (\<lambda>i. i\<lparr>aiStatus := ActorStopped, aiCanceled := True, aiMailbox := Close (aiMailbox i)\<rparr>) r)"

text \<open>
  The \<open>switch\<close> on the supervision decision. \<open>processMessage\<close> and \<open>processBatch\<close> repeat it with
  the same effects, except that the batch version also reports a failed batch; \<open>batch\<close> is the
  batch size there.
\<close>

definition reportBatch :: "string \<Rightarrow> int option \<Rightarrow> string \<Rightarrow> Runtime \<Rightarrow> Runtime" where
  "reportBatch actorID batch code r =
     (case batch of None \<Rightarrow> r | Some n \<Rightarrow> emitBatch actorID n BatchResultFailedSupervision code r)"

definition applyDecision ::
    "nat \<Rightarrow> u64 \<Rightarrow> int option \<Rightarrow> SupervisionDecision \<Rightarrow> Runtime \<Rightarrow> Runtime option" where
  "applyDecision p mid batch decision r =
     (let actorID = aiID (instAt r p)
      in case decision of
           DecisionRestart \<Rightarrow>
             (let r = restartActor p r; (r, failed) = runLifecycleHook p r;
                  restarts = aiRestarts (instAt r p)
              in if failed
                 then map_option (\<lambda>r. emitDecision EventActorStopped actorID mid DecisionStop restarts
                          (strActorStatus ActorStopped) (errorText ErrLifecycleStartFailed)
                          (reportBatch actorID batch (errorText ErrLifecycleStartFailed) r))
                        (terminateActor p r)
                 else Some (emitDecision EventActorRestarted actorID mid decision restarts
                          (strActorStatus ActorRunning) '''' (setStatus p ActorRunning r)))
         | DecisionEscalate \<Rightarrow>
             map_option (\<lambda>r'. emitDecision EventActorEscalated actorID mid decision (aiRestarts (instAt r p))
                 (strActorStatus ActorStopped) ''escalated'' (reportBatch actorID batch ''escalated'' r'))
               (terminateActor p r)
         | _ \<Rightarrow>
             map_option (\<lambda>r'. emitDecision EventActorStopped actorID mid decision (aiRestarts (instAt r p))
                 (strActorStatus ActorStopped) ''supervisor_stop'' (reportBatch actorID batch ''supervisor_stop'' r'))
               (terminateActor p r))"

definition handlerError :: "handlerResult \<Rightarrow> error option" where
  "handlerError res = (case res of HandlerOk _ \<Rightarrow> None | HandlerErr e \<Rightarrow> Some e
     | HandlerPanic s \<Rightarrow> Some (ErrOther (''panic: '' @ s)))"

definition failedOutcome :: "u64 \<Rightarrow> string \<Rightarrow> SupervisionDecision \<Rightarrow> int \<Rightarrow> string \<Rightarrow> ProcessingOutcome" where
  "failedOutcome mid actorID decision restarts code = \<lparr>poMessageID = mid, poActorID = actorID,
     poResult = ResultFailed, poSupervisionDecision = decision, poSupervisionIteration = restarts,
     poErrorCode = code\<rparr>"

definition deliveredOutcome :: "u64 \<Rightarrow> string \<Rightarrow> ProcessingOutcome" where
  "deliveredOutcome mid actorID = \<lparr>poMessageID = mid, poActorID = actorID, poResult = ResultDelivered,
     poSupervisionDecision = DecisionOther '''', poSupervisionIteration = 0, poErrorCode = ''''\<rparr>"

section \<open>Processing\<close>

definition runHandler :: "nat \<Rightarrow> Message \<Rightarrow> Runtime \<Rightarrow> (Runtime \<times> handlerResult) option" where
  "runHandler p msg r =
     (let i = instAt r p; cur = actorState_value (aiState i)
      in case aiHandler i of
           UserHandler h \<Rightarrow> Some (r, h cur msg)
         | BrokerHandler \<Rightarrow> brokerHandler (aiID i) cur msg r
         | CronHandlerOf cronID \<Rightarrow> cronHandler cronID cur msg r)"

definition processMessage :: "nat \<Rightarrow> Message \<Rightarrow> Runtime \<Rightarrow> Runtime option" where
  "processMessage p msg r =
     (case runHandler p msg r of
        None \<Rightarrow> None
      | Some (r, res) \<Rightarrow>
         let i = instAt r p; actorID = aiID i
         in case handlerError res of
              Some err \<Rightarrow>
                let decision = rtPolicy r actorID err (aiRestarts i);
                    r = putOutcome (failedOutcome (msgID msg) actorID decision (aiRestarts i) ''handler_error'') r;
                    r = emitDecision EventActorFailed actorID (msgID msg) decision (aiRestarts i)
                          (strProcessingResult ResultFailed) ''handler_error'' r;
                    r = updInst p (\<lambda>i. i\<lparr>aiLastDecision := decision\<rparr>) r
                in applyDecision p (msgID msg) None decision r
            | None \<Rightarrow>
                let nxt = (case res of HandlerOk n \<Rightarrow> n | _ \<Rightarrow> NilAny);
                    r = updInst p (\<lambda>i. i\<lparr>aiState := actorState_apply (aiState i) nxt\<rparr>) r;
                    r = putOutcome (deliveredOutcome (msgID msg) actorID) r
                in Some (emitLocal EventMessageProcessed actorID msg (strProcessingResult ResultDelivered) '''' r))"

fun processEach :: "nat \<Rightarrow> Message list \<Rightarrow> Runtime \<Rightarrow> Runtime option" where
  "processEach p [] r = Some r"
| "processEach p (m # ms) r = (case processMessage p m r of None \<Rightarrow> None | Some r \<Rightarrow> processEach p ms r)"

fun putFailed :: "Message list \<Rightarrow> string \<Rightarrow> SupervisionDecision \<Rightarrow> int \<Rightarrow> Runtime \<Rightarrow> Runtime" where
  "putFailed [] actorID decision restarts r = r"
| "putFailed (m # ms) actorID decision restarts r =
     putFailed ms actorID decision restarts
       (putOutcome (failedOutcome (msgID m) actorID decision restarts ''batch_handler_error'') r)"

fun putProcessed :: "Message list \<Rightarrow> string \<Rightarrow> Runtime \<Rightarrow> Runtime" where
  "putProcessed [] actorID r = r"
| "putProcessed (m # ms) actorID r =
     putProcessed ms actorID
       (emitLocal EventMessageProcessed actorID m (strProcessingResult ResultDelivered) ''''
          (putOutcome (deliveredOutcome (msgID m) actorID) r))"

definition processBatch :: "nat \<Rightarrow> Message list \<Rightarrow> Runtime \<Rightarrow> Runtime option" where
  "processBatch p msgs r =
     (if msgs = [] then Some r
      else
        let i = instAt r p; actorID = aiID i; cfg = aiBatch i; n = int (length msgs)
        in case (if bcEnabled cfg then bcReceiver cfg else None) of
             None \<Rightarrow> processEach p msgs r
           | Some recv \<Rightarrow>
               let res = recv (actorState_value (aiState i)) (map msgPayload msgs)
               in case handlerError res of
                    Some err \<Rightarrow>
                      let r = emitBatch actorID n BatchResultFailedHandler ''batch_handler_error'' r;
                          decision = rtPolicy r actorID err (aiRestarts i);
                          r = putFailed msgs actorID decision (aiRestarts i) r;
                          r = emitDecision EventActorFailed actorID (msgID (hd msgs)) decision (aiRestarts i)
                                (strProcessingResult ResultFailed) ''batch_handler_error'' r;
                          r = updInst p (\<lambda>i. i\<lparr>aiLastDecision := decision\<rparr>) r
                      in applyDecision p (msgID (hd msgs)) (Some n) decision r
                  | None \<Rightarrow>
                      let nxt = (case res of HandlerOk x \<Rightarrow> x | _ \<Rightarrow> NilAny);
                          r = updInst p (\<lambda>i. i\<lparr>aiState := actorState_apply (aiState i) nxt\<rparr>) r
                      in Some (emitBatch actorID n BatchResultSuccess '''' (putProcessed msgs actorID r)))"

section \<open>The goroutine of an actor\<close>

text \<open>The start: the hook, then running, or stopped when the hook fails.\<close>

definition actorStart :: "nat \<Rightarrow> Runtime \<Rightarrow> Runtime" where
  "actorStart p r =
     (let actorID = aiID (instAt r p); (r, failed) = runLifecycleHook p r
      in if failed
         then emit EventActorStopped actorID 0 (strActorStatus ActorStopped) (errorText ErrLifecycleStartFailed)
                (updInst p (\<lambda>i. i\<lparr>aiStatus := ActorStopped, aiMailbox := Close (aiMailbox i),
                   aiCanceled := True, aiPC := PcDone\<rparr>) r)
         else emit EventActorStarted actorID 0 (strActorStatus ActorRunning) ''''
                (updInst p (\<lambda>i. i\<lparr>aiStatus := ActorRunning, aiPC := PcSelect\<rparr>) r))"

text \<open>The \<open>ctx.Done()\<close> case of the \<open>select\<close>.\<close>

definition actorCtxDone :: "nat \<Rightarrow> Runtime \<Rightarrow> Runtime" where
  "actorCtxDone p r =
     emit EventActorStopped (aiID (instAt r p)) 0 (strActorStatus ActorStopped) ''''
       (updInst p (\<lambda>i. i\<lparr>aiStatus := ActorStopped, aiPC := PcDone\<rparr>) r)"

text \<open>The \<open>Notify()\<close> case: the token is taken and the inner loop entered.\<close>

definition actorNotified :: "nat \<Rightarrow> Runtime \<Rightarrow> Runtime" where
  "actorNotified p = updInst p (\<lambda>i. i\<lparr>aiMailbox := (aiMailbox i)\<lparr>mbNotify := False\<rparr>, aiPC := PcDrain\<rparr>)"

definition drainStep :: "nat \<Rightarrow> Runtime \<Rightarrow> Runtime option" where
  "drainStep p r =
     (let i = instAt r p; b = aiBatch i
      in if bcEnabled b \<and> bcMaxSize b > 1
         then let (mb, msgs) = DequeueBatch (aiMailbox i) (bcMaxSize b);
                  r = updInst p (\<lambda>i. i\<lparr>aiMailbox := mb\<rparr>) r
              in if msgs = [] then Some (updInst p (\<lambda>i. i\<lparr>aiPC := PcSelect\<rparr>) r)
                 else processBatch p msgs r
         else let (mb, msg) = Dequeue (aiMailbox i);
                  r = updInst p (\<lambda>i. i\<lparr>aiMailbox := mb\<rparr>) r
              in case msg of
                   None \<Rightarrow> Some (updInst p (\<lambda>i. i\<lparr>aiPC := PcSelect\<rparr>) r)
                 | Some m \<Rightarrow> processMessage p m r)"

text \<open>Iterations of the inner loop until it breaks; \<open>None\<close> when the bound is reached first.\<close>

fun drainLoop :: "nat \<Rightarrow> nat \<Rightarrow> Runtime \<Rightarrow> Runtime option" where
  "drainLoop 0 p r = None"
| "drainLoop (Suc n) p r =
     (case drainStep p r of
        None \<Rightarrow> None
      | Some r \<Rightarrow> if aiPC (instAt r p) = PcDrain then drainLoop n p r else Some r)"

section \<open>Stopping and removal\<close>

definition stopResolver :: "string \<Rightarrow> Runtime \<Rightarrow> Runtime" where
  "stopResolver actorID r =
     (case rtActorPID r actorID of
        None \<Rightarrow> r
      | Some pid \<Rightarrow> r\<lparr>rtResolver := resolver_SetState (rtResolver r) pid PIDRouteStopped\<rparr>)"

definition stopTail :: "nat \<Rightarrow> string \<Rightarrow> Runtime \<Rightarrow> Runtime option" where
  "stopTail p actorID r =
     (let r = runLifecycleStopHookWithTimeout p r;
          r = stopResolver actorID (setStatus p ActorStopped r);
          r = updInst p (\<lambda>i. i\<lparr>aiCanceled := True, aiMailbox := Close (aiMailbox i)\<rparr>) r
      in cleanupRegistryForActor actorID RegistryUnregisterLifecycleTerm r)"

definition Stop :: "string \<Rightarrow> Runtime \<Rightarrow> (Runtime \<times> StopResult) option" where
  "Stop actorID r =
     (case rt_registry_get r actorID of
        None \<Rightarrow> Some (r, StopNotFound)
      | Some p \<Rightarrow>
          if Status r actorID = ActorStopped then Some (r, StopAlready)
          else map_option (\<lambda>r. (r, StopStopped)) (stopTail p actorID (setStatus p ActorStopping r)))"

definition StopAndCapture :: "string \<Rightarrow> Runtime \<Rightarrow> (Runtime \<times> any \<times> StopResult) option" where
  "StopAndCapture actorID r =
     (case rt_registry_get r actorID of
        None \<Rightarrow> Some (r, NilAny, StopNotFound)
      | Some p \<Rightarrow>
          if Status r actorID = ActorStopped then Some (r, NilAny, StopAlready)
          else let r = setStatus p ActorStopping r; state = actorState_value (aiState (instAt r p))
               in map_option (\<lambda>r. (r, state, StopStopped)) (stopTail p actorID r))"

definition RemoveActor :: "string \<Rightarrow> Runtime \<Rightarrow> error + Runtime" where
  "RemoveActor actorID r =
     (case rt_registry_get r actorID of
        None \<Rightarrow> Inl ErrActorNotFound
      | Some p \<Rightarrow>
          if aiStatus (instAt r p) \<noteq> ActorStopped then Inl ErrActorStillRunning
          else let r = fst (rt_registry_remove r actorID)
               in Inr (case rtActorPID r actorID of
                    None \<Rightarrow> r
                  | Some pid \<Rightarrow> r\<lparr>rtActorPID := (rtActorPID r)(actorID := None),
                                 rtResolver := resolver_Remove (rtResolver r) pid\<rparr>))"

section \<open>Timers (timers.go)\<close>

definition startTimer :: "PID + string \<Rightarrow> any \<Rightarrow> bool \<Rightarrow> Runtime \<Rightarrow> Runtime \<times> u64" where
  "startTimer target payload interval r =
     (let tm = rtTimers r; i = tmSeq tm + 1
      in (r\<lparr>rtTimers := tm\<lparr>tmSeq := i, tmTimers := gomap_put i interval (tmTimers tm),
             tmJobs := tmJobs tm @ [\<lparr>tjID = i, tjTarget = target, tjPayload = payload,
               tjInterval = interval, tjCanceled = False\<rparr>]\<rparr>\<rparr>, i))"

definition SendAfter :: "PID \<Rightarrow> any \<Rightarrow> Runtime \<Rightarrow> Runtime \<times> u64" where
  "SendAfter target payload = startTimer (Inl target) payload False"

definition SendInterval :: "PID \<Rightarrow> any \<Rightarrow> Runtime \<Rightarrow> Runtime \<times> u64" where
  "SendInterval target payload = startTimer (Inl target) payload True"

definition SendAfterName :: "string \<Rightarrow> any \<Rightarrow> Runtime \<Rightarrow> Runtime \<times> u64" where
  "SendAfterName name payload = startTimer (Inr name) payload False"

definition SendIntervalName :: "string \<Rightarrow> any \<Rightarrow> Runtime \<Rightarrow> Runtime \<times> u64" where
  "SendIntervalName name payload = startTimer (Inr name) payload True"

text \<open>\<open>CancelTimer\<close> cancels the context of the timer's goroutine.\<close>

definition CancelTimer :: "u64 \<Rightarrow> Runtime \<Rightarrow> Runtime" where
  "CancelTimer i r = r\<lparr>rtTimers := (rtTimers r)\<lparr>tmJobs :=
     map (\<lambda>j. if tjID j = i then j\<lparr>tjCanceled := True\<rparr> else j) (tmJobs (rtTimers r))\<rparr>\<rparr>"

definition dropTimer :: "u64 \<Rightarrow> Runtime \<Rightarrow> Runtime" where
  "dropTimer i r = r\<lparr>rtTimers := (rtTimers r)\<lparr>tmTimers := gomap_del i (tmTimers (rtTimers r)),
     tmJobs := filter (\<lambda>j. tjID j \<noteq> i) (tmJobs (rtTimers r))\<rparr>\<rparr>"

text \<open>The timer case of the goroutine's \<open>select\<close>: one delivery; a one-shot timer is then done.\<close>

definition timerFires :: "timerJob \<Rightarrow> Runtime \<Rightarrow> Runtime option" where
  "timerFires j r =
     map_option (\<lambda>(r, _). if tjInterval j then r else dropTimer (tjID j) r)
       (case tjTarget j of Inl pid \<Rightarrow> SendPID pid (tjPayload j) r | Inr name \<Rightarrow> SendName name (tjPayload j) r)"

end
