(* ===== verification/SendRel.thy ===== *)
theory SendRel
  imports RuntimeActor
begin

text \<open>
  What a send does to the runtime, as a relation: every send, by ID, through routers, by PID or
  as an ask reply, only appends well-formed messages to mailboxes and changes counters,
  observations and the ask tables. The relation is reflexive and transitive, so it also covers
  the loops that send many messages, and every later proof about an operation that sends rests
  on it.
\<close>

section \<open>Mailboxes and instances only grow\<close>

definition mbGrow :: "(Message \<Rightarrow> bool) \<Rightarrow> mailbox \<Rightarrow> mailbox \<Rightarrow> bool" where
  "mbGrow P m m' \<longleftrightarrow>
     (mbInv m \<longrightarrow> mbInv m') \<and> mbClosed m' = mbClosed m \<and> mbMax m' = mbMax m \<and>
     (mbInv m \<longrightarrow> (\<exists>ms. mbContents m' = mbContents m @ ms \<and> (\<forall>x\<in>set ms. P x) \<and> (mbClosed m \<longrightarrow> ms = []))) \<and>
     (mbInv m \<and> (mbContents m \<noteq> [] \<longrightarrow> mbNotify m) \<longrightarrow> mbContents m' \<noteq> [] \<longrightarrow> mbNotify m')"

lemma mbGrow_refl [simp]: "mbGrow P m m"
  by (auto simp: mbGrow_def)

lemma mbGrow_trans: "mbGrow P a b \<Longrightarrow> mbGrow P b c \<Longrightarrow> mbGrow P a c"
  unfolding mbGrow_def by (smt (verit) Un_iff append.assoc append_Nil2 append_is_Nil_conv set_append)

lemma mbGrow_Enqueue: "P x \<Longrightarrow> mbGrow P m (fst (Enqueue m x))"
proof (cases "mbClosed m \<or> \<not> Depth m < mbMax m")
  case True
  then show ?thesis by (simp add: Enqueue_rejects)
next
  case False
  assume P: "P x"
  have a: "mbClosed (fst (Enqueue m x)) = mbClosed m" using False by (simp add: Enqueue_accepts)
  have c: "mbInv m \<Longrightarrow> mbContents (fst (Enqueue m x)) = mbContents m @ [x]"
    using False by (simp add: Enqueue_accepts mbContents_def mbInv_def)
  have n: "mbInv m \<Longrightarrow> (mbContents m \<noteq> [] \<longrightarrow> mbNotify m) \<Longrightarrow>
      mbContents (fst (Enqueue m x)) \<noteq> [] \<longrightarrow> mbNotify (fst (Enqueue m x))"
    by (rule Enqueue_notify)
  show ?thesis
    unfolding mbGrow_def using P False a c n Enqueue_inv [of m x] by auto
qed

definition instGrow :: "actorInstance \<Rightarrow> actorInstance \<Rightarrow> bool" where
  "instGrow i i' \<longleftrightarrow> i' = i\<lparr>aiMailbox := aiMailbox i'\<rparr> \<and>
     mbGrow (\<lambda>m. msgActorID m = aiID i \<and> msgPayload m \<noteq> NilAny) (aiMailbox i) (aiMailbox i')"

lemma instGrow_refl [simp]: "instGrow i i"
  by (simp add: instGrow_def)

lemma instGrow_iff:
  "instGrow i i' \<longleftrightarrow> (\<exists>m. i' = i\<lparr>aiMailbox := m\<rparr> \<and>
     mbGrow (\<lambda>m. msgActorID m = aiID i \<and> msgPayload m \<noteq> NilAny) (aiMailbox i) m)"
  by (auto simp: instGrow_def)

lemma instGrow_trans: "instGrow a b \<Longrightarrow> instGrow b c \<Longrightarrow> instGrow a c"
  unfolding instGrow_iff by (elim exE conjE) (auto intro!: exI intro: mbGrow_trans)

lemma instGrow_fields:
  assumes "instGrow i i'"
  shows "aiID i' = aiID i" "aiStatus i' = aiStatus i" "aiHandler i' = aiHandler i" "aiState i' = aiState i"
    "aiInitialState i' = aiInitialState i" "aiRestarts i' = aiRestarts i" "aiCanceled i' = aiCanceled i"
    "aiCfg i' = aiCfg i" "aiBatch i' = aiBatch i" "aiPC i' = aiPC i" "aiLastDecision i' = aiLastDecision i"
    "mbGrow (\<lambda>m. msgActorID m = aiID i \<and> msgPayload m \<noteq> NilAny) (aiMailbox i) (aiMailbox i')"
proof -
  have e: "i' = i\<lparr>aiMailbox := aiMailbox i'\<rparr>" using assms by (simp add: instGrow_def)
  show "aiID i' = aiID i" "aiStatus i' = aiStatus i" "aiHandler i' = aiHandler i" "aiState i' = aiState i"
    "aiInitialState i' = aiInitialState i" "aiRestarts i' = aiRestarts i" "aiCanceled i' = aiCanceled i"
    "aiCfg i' = aiCfg i" "aiBatch i' = aiBatch i" "aiPC i' = aiPC i" "aiLastDecision i' = aiLastDecision i"
    by (subst e, simp)+
  show "mbGrow (\<lambda>m. msgActorID m = aiID i \<and> msgPayload m \<noteq> NilAny) (aiMailbox i) (aiMailbox i')"
    using assms by (simp add: instGrow_def)
qed

section \<open>The ask tables\<close>

text \<open>
  The reply PID of a request, and the consistency of the tables: the pending requests and the
  reply keys are in one-to-one correspondence, and a pending request has an empty channel.
\<close>

definition replyPID :: "string \<Rightarrow> string \<Rightarrow> PID" where
  "replyPID node q = \<lparr>pidNamespace = (if node \<noteq> '''' then askReplyNamespace @ ''@'' @ node else askReplyNamespace),
     pidActorID = q, pidGeneration = 1\<rparr>"

definition askInv :: "string \<Rightarrow> askTables \<Rightarrow> bool" where
  "askInv node t \<longleftrightarrow>
     (\<forall>q w. askWait t q = Some w \<longrightarrow> paRequestID w = q \<and> paReplyTo w = replyPID node q \<and> askChan t q = []) \<and>
     (\<forall>q. askWait t q \<noteq> None \<longleftrightarrow> askReply t (Key (replyPID node q)) = Some q) \<and>
     (\<forall>k q. askReply t k = Some q \<longrightarrow> k = Key (replyPID node q)) \<and>
     gomap_ok (askClosed t)"

lemma Key_replyPID_inj [simp]: "Key (replyPID node q) = Key (replyPID node q') \<longleftrightarrow> q = q'"
  by (auto simp: Key_def replyPID_def)

lemma askInv_new [simp]: "askInv node newAskTables"
  by (simp add: askInv_def newAskTables_def)

lemma askClosedPut_ok: "gomap_ok m \<Longrightarrow> gomap_ok (askClosedPut q t m)"
  by (simp add: askClosedPut_def Let_def)

text \<open>Closing the entry of one request keeps the tables consistent.\<close>

lemma askInv_close:
  assumes "askInv node t" and "gomap_ok c" and "\<forall>x. x \<noteq> q \<longrightarrow> ch x = askChan t x"
  shows "askInv node (t\<lparr>askWait := (askWait t)(q := None),
           askReply := (askReply t)(Key (replyPID node q) := None), askClosed := c, askChan := ch\<rparr>)"
  using assms unfolding askInv_def by auto

section \<open>The send relation\<close>

text \<open>The part of the runtime that no send changes.\<close>

definition coreOf :: "Runtime \<Rightarrow> Runtime" where
  "coreOf r = r\<lparr>rtInsts := [], rtMsgSeq := 0, rtObs := \<lparr>obEventSeq = 0, obEvents = [], obOutcomes = newOutcomeStore\<rparr>,
     rtAsk := newAskTables, rtRouters := Map.empty, rtRandPos := 0, rtCalls := [],
     rtDeadLetters := newDeadLetterSink\<rparr>"

definition routersSame :: "(string \<rightharpoonup> routerRuntimeState) \<Rightarrow> (string \<rightharpoonup> routerRuntimeState) \<Rightarrow> bool" where
  "routersSame m m' \<longleftrightarrow> (\<forall>k. map_option (\<lambda>s. (rsStrategy s, rsWorkers s)) (m' k) =
     map_option (\<lambda>s. (rsStrategy s, rsWorkers s)) (m k))"

definition sendRel :: "Runtime \<Rightarrow> Runtime \<Rightarrow> bool" where
  "sendRel r r' \<longleftrightarrow> coreOf r' = coreOf r \<and> list_all2 instGrow (rtInsts r) (rtInsts r') \<and>
     routersSame (rtRouters r) (rtRouters r') \<and>
     (askInv (rtNodeID r) (rtAsk r) \<longrightarrow> askInv (rtNodeID r) (rtAsk r'))"

lemma coreOf_fields:
  assumes "coreOf r' = coreOf r"
  shows "rtRegistry r' = rtRegistry r" "rtNames r' = rtNames r" "rtPolicy r' = rtPolicy r"
    "rtRouting r' = rtRouting r" "rtResolver r' = rtResolver r" "rtActorPID r' = rtActorPID r"
    "rtPidPolicy r' = rtPidPolicy r" "rtRand r' = rtRand r" "rtBrokers r' = rtBrokers r"
    "rtNodeID r' = rtNodeID r" "rtHooks r' = rtHooks r" "rtTimers r' = rtTimers r"
    "rtMonitors r' = rtMonitors r" "rtPublishing r' = rtPublishing r" "rtStack r' = rtStack r"
  using arg_cong [OF assms, of rtRegistry] arg_cong [OF assms, of rtNames] arg_cong [OF assms, of rtPolicy]
    arg_cong [OF assms, of rtRouting] arg_cong [OF assms, of rtResolver] arg_cong [OF assms, of rtActorPID]
    arg_cong [OF assms, of rtPidPolicy] arg_cong [OF assms, of rtRand] arg_cong [OF assms, of rtBrokers]
    arg_cong [OF assms, of rtNodeID] arg_cong [OF assms, of rtHooks] arg_cong [OF assms, of rtTimers]
    arg_cong [OF assms, of rtMonitors] arg_cong [OF assms, of rtPublishing] arg_cong [OF assms, of rtStack]
  by (simp_all add: coreOf_def)

lemma sendRelD:
  assumes "sendRel r r'"
  shows "rtRegistry r' = rtRegistry r" "rtNames r' = rtNames r" "rtPolicy r' = rtPolicy r"
    "rtRouting r' = rtRouting r" "rtResolver r' = rtResolver r" "rtActorPID r' = rtActorPID r"
    "rtPidPolicy r' = rtPidPolicy r" "rtRand r' = rtRand r" "rtBrokers r' = rtBrokers r"
    "rtNodeID r' = rtNodeID r" "rtHooks r' = rtHooks r" "rtTimers r' = rtTimers r"
    "rtMonitors r' = rtMonitors r" "rtPublishing r' = rtPublishing r" "rtStack r' = rtStack r"
    "length (rtInsts r') = length (rtInsts r)"
    "p < length (rtInsts r) \<Longrightarrow> instGrow (instAt r p) (instAt r' p)"
    "routersSame (rtRouters r) (rtRouters r')"
    "askInv (rtNodeID r) (rtAsk r) \<Longrightarrow> askInv (rtNodeID r) (rtAsk r')"
  using assms by (auto simp: sendRel_def dest: coreOf_fields list_all2_lengthD list_all2_nthD)

lemma sendRel_cron: "sendRel r r' \<Longrightarrow> rtCron r' = rtCron r"
proof -
  assume "sendRel r r'"
  then have "rtCron (coreOf r') = rtCron (coreOf r)" by (simp add: sendRel_def)
  then show ?thesis by (simp add: coreOf_def)
qed

lemma routersSame_refl [simp]: "routersSame m m"
  by (simp add: routersSame_def)

lemma routersSame_trans: "routersSame a b \<Longrightarrow> routersSame b c \<Longrightarrow> routersSame a c"
  by (simp add: routersSame_def)

lemma sendRel_refl [simp]: "sendRel r r"
  by (simp add: sendRel_def list_all2_refl)

lemma sendRel_trans:
  assumes ab: "sendRel a b" and bc: "sendRel b c"
  shows "sendRel a c"
  unfolding sendRel_def
proof (intro conjI impI)
  show "coreOf c = coreOf a" using ab bc by (simp add: sendRel_def)
  show "list_all2 instGrow (rtInsts a) (rtInsts c)"
    using ab bc by (auto simp: sendRel_def intro: list_all2_trans [OF instGrow_trans])
  show "routersSame (rtRouters a) (rtRouters c)"
    using sendRelD(18) [OF ab] sendRelD(18) [OF bc] by (rule routersSame_trans)
  assume "askInv (rtNodeID a) (rtAsk a)"
  then show "askInv (rtNodeID a) (rtAsk c)"
    using sendRelD(19) [OF ab] sendRelD(19) [OF bc] sendRelD(10) [OF ab] by simp
qed

lemma sendRel_updates:
  "sendRel r (r\<lparr>rtObs := ob\<rparr>)" "sendRel r (r\<lparr>rtMsgSeq := m\<rparr>)" "sendRel r (r\<lparr>rtRandPos := k\<rparr>)"
  "sendRel r (r\<lparr>rtCalls := cs\<rparr>)" "sendRel r (r\<lparr>rtDeadLetters := dl\<rparr>)"
  by (simp_all add: sendRel_def coreOf_def list_all2_refl)

lemma sendRel_nextMsgID [simp]: "sendRel r (nextMsgID r)"
  by (simp add: nextMsgID_def sendRel_updates)

lemma sendRel_logCall [simp]: "sendRel r (logCall c r)"
  by (simp add: logCall_def sendRel_updates)

lemma sendRel_obs: "obsOnly f \<Longrightarrow> sendRel r (f r)"
  using sendRel_updates(1) [of r "rtObs (f r)"] unfolding obsOnly_def by metis

text \<open>Steps on the right of a chain.\<close>

lemma sendRel_obs_step: "sendRel r r' \<Longrightarrow> obsOnly f \<Longrightarrow> sendRel r (f r')"
  using sendRel_trans sendRel_obs by blast

lemma sendRel_ask:
  assumes "askInv (rtNodeID r) (rtAsk r) \<Longrightarrow> askInv (rtNodeID r) t"
  shows "sendRel r (r\<lparr>rtAsk := t\<rparr>)"
  using assms by (simp add: sendRel_def coreOf_def list_all2_refl)

lemma sendRel_counter:
  assumes "rtRouters r k = Some st"
  shows "sendRel r (r\<lparr>rtRouters := (rtRouters r)(k \<mapsto> st\<lparr>rsRrNext := c\<rparr>)\<rparr>)"
  using assms by (auto simp: sendRel_def coreOf_def list_all2_refl routersSame_def)

lemma list_all2_update_refl:
  assumes "\<And>x. R x x" and "p < length xs \<Longrightarrow> R (xs ! p) y"
  shows "list_all2 R xs (xs[p := y])"
  unfolding list_all2_conv_all_nth
proof (intro conjI allI impI)
  fix i
  assume "i < length xs"
  with assms show "R (xs ! i) (xs[p := y] ! i)" by (cases "i = p") simp_all
qed simp

lemma sendRel_mailbox:
  assumes "p < length (rtInsts r) \<Longrightarrow> mbGrow (\<lambda>m. msgActorID m = aiID (instAt r p) \<and> msgPayload m \<noteq> NilAny)
             (aiMailbox (instAt r p)) mb"
  shows "sendRel r (updInst p (\<lambda>i. i\<lparr>aiMailbox := mb\<rparr>) r)"
  using assms
  by (auto simp: sendRel_def updInst_def coreOf_def instGrow_def intro!: list_all2_update_refl)

section \<open>Every send satisfies the relation\<close>

definition regInv :: "Runtime \<Rightarrow> bool" where
  "regInv r \<longleftrightarrow> (\<forall>i p. rtRegistry r i = Some p \<longrightarrow> p < length (rtInsts r) \<and> aiID (instAt r p) = i)"

lemma regInv_sendRel: "sendRel r r' \<Longrightarrow> regInv r \<Longrightarrow> regInv r'"
proof -
  assume s: "sendRel r r'" and i: "regInv r"
  have "aiID (instAt r' p) = aiID (instAt r p)" if "p < length (rtInsts r)" for p
    using sendRelD(17) [OF s that] by (rule instGrow_fields)
  with i show ?thesis
    unfolding regInv_def sendRelD(1) [OF s] sendRelD(16) [OF s] by auto
qed

lemma rejectSubmit_rel [simp]: "sendRel r (fst (rejectSubmit a m pr sr r))"
  by (simp add: rejectSubmit_def sendRel_obs sendRel_obs_step)

lemma rejectRouted_rel [simp]: "sendRel r (fst (rejectRouted a m pr sr r))"
  by (simp add: rejectRouted_def sendRel_obs sendRel_obs_step)

lemma enqueueTo_rel:
  assumes "aiID (instAt r p) = msgActorID msg" and "msgPayload msg \<noteq> NilAny"
  shows "sendRel r (fst (enqueueTo p a msg r))"
proof -
  let ?r = "updInst p (\<lambda>i. i\<lparr>aiMailbox := fst (Enqueue (aiMailbox (instAt r p)) msg)\<rparr>) r"
  have "sendRel r ?r"
    using assms by (intro sendRel_mailbox mbGrow_Enqueue) simp
  then show ?thesis
    using sendRel_trans [OF _ rejectSubmit_rel]
    by (simp add: enqueueTo_def Let_def split_beta)
qed

lemma submitToInst_rel:
  assumes "aiID (instAt r p) = a" and "payload \<noteq> NilAny"
  shows "sendRel r (fst (submitToInst p a payload askCtx r))"
proof -
  let ?m = "buildMessage (rtMsgSeq r) a payload askCtx"
  have m: "msgActorID ?m = a" "msgPayload ?m = payload" by (simp_all add: buildMessage_def)
  have e: "sendRel r (fst (enqueueTo p a ?m (f r)))" if "obsOnly f" for f
  proof (rule sendRel_trans [OF sendRel_obs [OF that]])
    show "sendRel (f r) (fst (enqueueTo p a ?m (f r)))"
      using assms m obsOnly_frame(2) [OF that] by (intro enqueueTo_rel) simp_all
  qed
  show ?thesis
    using e [of "emitLocal EventMessageRoutedExact a ?m (strSubmitResult SubmitAccepted) ''''"]
      e [of "emitLocal EventMessageRoutedFallback a ?m (strSubmitResult SubmitAccepted) ''''"]
      enqueueTo_rel [of r p ?m a] assms m
    by (simp add: submitToInst_def Let_def split: routeMatch.split)
qed

lemma nextMsgID_fields [simp]:
  "rtRegistry (nextMsgID r) = rtRegistry r" "rtInsts (nextMsgID r) = rtInsts r"
  "rtRouters (nextMsgID r) = rtRouters r" "rtAsk (nextMsgID r) = rtAsk r" "rtNodeID (nextMsgID r) = rtNodeID r"
  "rtResolver (nextMsgID r) = rtResolver r" "rtHooks (nextMsgID r) = rtHooks r"
  "rtDeadLetters (nextMsgID r) = rtDeadLetters r" "rtMsgSeq (nextMsgID r) = rtMsgSeq r + 1"
  "rtStack (nextMsgID r) = rtStack r" "rtRouting (nextMsgID r) = rtRouting r"
  by (simp_all add: nextMsgID_def)

lemma sendDirect_rel:
  assumes "regInv r" and "payload \<noteq> NilAny"
  shows "sendRel r (fst (sendDirect a payload askCtx r))"
proof (cases "rtRegistry r a")
  case None
  then show ?thesis
    using sendRel_trans [OF sendRel_nextMsgID rejectSubmit_rel]
    by (simp add: sendDirect_def Let_def rt_registry_get_def)
next
  case (Some p)
  with assms(1) have "aiID (instAt (nextMsgID r) p) = a" by (simp add: regInv_def)
  from sendRel_trans [OF sendRel_nextMsgID submitToInst_rel [OF this assms(2)]] Some show ?thesis
    using sendRel_trans [OF sendRel_nextMsgID rejectSubmit_rel]
    by (simp add: sendDirect_def Let_def rt_registry_get_def)
qed

lemma selectRoutedWorker_rel:
  assumes "rtRouters r k = Some st"
  shows "sendRel r (fst (selectRoutedWorker k st payload r))"
  using sendRel_counter [OF assms]
  by (auto simp: selectRoutedWorker_def Let_def sendRel_updates split: RouterStrategy.split option.split)

lemma dispatchRouted_rel:
  assumes "rtRouters r k = Some st" and "regInv r"
    and "\<And>r w r' ack. regInv r \<Longrightarrow> sendTo r w = Some (r', ack) \<Longrightarrow> sendRel r r'"
    and "dispatchRouted sendTo k payload st r = Some (r', ack)"
  shows "sendRel r r'"
proof -
  obtain r1 w oc rs where s: "selectRoutedWorker k st payload (nextMsgID r) = (r1, w, oc, rs)"
    by (cases "selectRoutedWorker k st payload (nextMsgID r)")
  have "rtRouters (nextMsgID r) k = Some st" using assms(1) by simp
  from selectRoutedWorker_rel [OF this, of payload] s have r1: "sendRel r r1"
    using sendRel_trans [OF sendRel_nextMsgID] by simp
  note inv = regInv_sendRel [OF r1 assms(2)]
  show ?thesis
  proof (cases "oc = RouteSuccess")
    case False
    with assms(4) s r1 show ?thesis by (auto simp: dispatchRouted_def Let_def sendRel_obs_step)
  next
    case True
    with assms(4) s obtain r2 a2 where t: "sendTo r1 w = Some (r2, a2)"
      by (auto simp: dispatchRouted_def Let_def split: option.splits)
    have "sendRel r r2" using sendRel_trans [OF r1 assms(3) [OF inv t]] .
    with True assms(4) s t show ?thesis
      by (auto simp: dispatchRouted_def Let_def sendRel_obs_step split: if_splits)
  qed
qed

lemma sendWithAskContext_rel:
  "regInv r \<Longrightarrow> sendWithAskContext n r a payload askCtx = Some (r', ack) \<Longrightarrow> sendRel r r'"
proof (induction n arbitrary: r a r' ack)
  case (Suc n)
  note reject = sendRel_trans [OF sendRel_nextMsgID rejectSubmit_rel, of r]
  show ?case
  proof (cases "payload = NilAny")
    case True
    then show ?thesis using Suc.prems(2) by (auto simp: Let_def) (metis fst_conv reject)
  next
    case False
    show ?thesis
    proof (cases "rtRouters r a")
      case None
      with False Suc.prems sendDirect_rel [OF Suc.prems(1) False, of a askCtx] show ?thesis
        by (auto simp: Let_def)
    next
      case (Some st)
      have d: "dispatchRouted (\<lambda>r w. sendWithAskContext n r w payload askCtx) a payload st (nextMsgID r) =
          Some (r', ack) \<Longrightarrow> sendRel r r'"
        using dispatchRouted_rel [of "nextMsgID r" a st "\<lambda>r w. sendWithAskContext n r w payload askCtx" payload r' ack]
          Suc.IH Some regInv_sendRel [OF sendRel_nextMsgID Suc.prems(1)] sendRel_trans [OF sendRel_nextMsgID]
        by auto
      show ?thesis
        using Suc.prems(2) False Some d reject
        by (auto simp: Let_def rt_registry_get_def split: option.splits if_splits) (metis fst_conv)+
    qed
  qed
qed simp

lemma Send_rel: "regInv r \<Longrightarrow> Send a payload r = Some (r', ack) \<Longrightarrow> sendRel r r'"
  by (simp add: Send_def sendWithAskContext_rel)

section \<open>Ask replies, PIDs and names\<close>

lemma askInv_reply:
  assumes "askInv node t" and "askReply t k = Some q"
  shows "k = Key (replyPID node q)" "\<exists>w. askWait t q = Some w \<and> paRequestID w = q \<and> paReplyTo w = replyPID node q"
    "askChan t q = []"
proof -
  from assms show k: "k = Key (replyPID node q)" unfolding askInv_def by blast
  with assms have "askWait t q \<noteq> None" unfolding askInv_def by blast
  then obtain w where "askWait t q = Some w" by blast
  with assms(1) show "\<exists>w. askWait t q = Some w \<and> paRequestID w = q \<and> paReplyTo w = replyPID node q"
    "askChan t q = []" unfolding askInv_def by blast+
qed

lemma routeAskReply_rel:
  assumes "routeAskReply pid payload mid r = Some (r', ack)"
  shows "sendRel r r'"
proof (cases "askReply (rtAsk r) (Key pid)")
  case None
  with assms show ?thesis
    by (auto simp: routeAskReply_def Let_def sendRel_obs split: if_splits option.splits)
next
  case (Some q)
  let ?t = "\<lambda>c ch. (rtAsk r)\<lparr>askWait := (askWait (rtAsk r))(q := None),
      askReply := (askReply (rtAsk r))(Key pid := None), askClosed := c, askChan := ch\<rparr>"
  have rel: "sendRel r (r\<lparr>rtAsk := ?t (gomap_put q x (askClosed (rtAsk r))) ch\<rparr>)"
    if "\<forall>x. x \<noteq> q \<longrightarrow> ch x = askChan (rtAsk r) x" for x ch
  proof (rule sendRel_ask)
    assume inv: "askInv (rtNodeID r) (rtAsk r)"
    then have "gomap_ok (askClosed (rtAsk r))" by (simp add: askInv_def)
    with askInv_close [OF inv _ that, of "gomap_put q x (askClosed (rtAsk r))"] askInv_reply(1) [OF inv Some]
    show "askInv (rtNodeID r) (?t (gomap_put q x (askClosed (rtAsk r))) ch)" by simp
  qed
  have same: "?t c (askChan (rtAsk r)) = (rtAsk r)\<lparr>askWait := (askWait (rtAsk r))(q := None),
      askReply := (askReply (rtAsk r))(Key pid := None), askClosed := c\<rparr>" for c
    by simp
  note rel1 = rel [of "askChan (rtAsk r)", unfolded same]
  show ?thesis
    using assms Some rel1 rel [of "(askChan (rtAsk r))(q := [x])" for x]
    by (auto simp: routeAskReply_def Let_def sendRel_obs_step split: if_splits prod.splits option.splits)
qed

lemma rejectPID_rel: "sendRel r (fst (rejectPID ev g pid payload mid oc letter code r))"
proof -
  let ?r = "emitGuardrail g (resolver_GatewayMode (rtResolver r)) GuardrailGatewayRouteFailure code
    (emitPID ev pid mid oc code r)"
  have "sendRel r ?r" by (simp add: sendRel_obs sendRel_obs_step)
  from sendRel_trans [OF this sendRel_updates(5)] this show ?thesis
    by (auto simp: rejectPID_def Let_def split: option.split)
qed

lemma rejectPID_relD: "rejectPID ev g pid payload mid oc letter code r = (r', ack) \<Longrightarrow> sendRel r r'"
  using rejectPID_rel [of r ev g pid payload mid oc letter code] by simp

lemma sendPIDLocal_rel:
  assumes "regInv r" and "sendPIDLocal sender pid payload mid r = Some (r', ack)"
  shows "sendRel r r'"
proof -
  have "Send (pidActorID pid) payload r = Some (r1, a1) \<Longrightarrow> sendRel r r1" for r1 a1
    using Send_rel [OF assms(1)] .
  note s = this sendRel_trans [OF this rejectPID_relD]
  show ?thesis
    using assms(2) s rejectPID_relD
    by (auto simp: sendPIDLocal_def Let_def sendRel_obs_step split: option.splits if_splits)
qed

lemma sendPIDWithSender_rel:
  assumes "regInv r" and "sendPIDWithSender sender pid payload r = Some (r', ack)"
  shows "sendRel r r'"
proof -
  let ?r = "nextMsgID r"
  have inv: "regInv ?r" using regInv_sendRel [OF sendRel_nextMsgID assms(1)] .
  have ask: "routeAskReply pid payload m ?r = Some (r1, a1) \<Longrightarrow> sendRel r r1" for m r1 a1
    using sendRel_trans [OF sendRel_nextMsgID routeAskReply_rel] .
  have loc: "sendPIDLocal sender pid payload m ?r = Some (r1, a1) \<Longrightarrow> sendRel r r1" for m r1 a1
    using sendRel_trans [OF sendRel_nextMsgID sendPIDLocal_rel [OF inv]] .
  have log: "sendRel r (logCall c ?r)" for c
    using sendRel_trans [OF sendRel_nextMsgID sendRel_logCall] .
  show ?thesis
    using assms(2) ask loc log
    by (auto simp: sendPIDWithSender_def Let_def sendRel_obs_step split: option.splits if_splits prod.splits)
qed

lemma SendPID_rel: "regInv r \<Longrightarrow> SendPID pid payload r = Some (r', ack) \<Longrightarrow> sendRel r r'"
  unfolding SendPID_def by (rule sendPIDWithSender_rel)

lemma LookupName_rel: "LookupName name r = (r', ack) \<Longrightarrow> sendRel r r'"
  by (auto simp: LookupName_def Let_def sendRel_obs sendRel_obs_step [OF sendRel_logCall]
      split: option.splits prod.splits)

lemma SendName_rel:
  assumes "regInv r" and "SendName name payload r = Some (r', ack)"
  shows "sendRel r r'"
proof -
  obtain r1 a1 where l: "LookupName name r = (r1, a1)" by (cases "LookupName name r")
  note r1 = LookupName_rel [OF l]
  show ?thesis
  proof (cases "raResult a1 = RegistryLookupHit")
    case True
    with assms(2) l have "SendPID (raPID a1) payload r1 = Some (r', ack)" by (simp add: SendName_def)
    from sendRel_trans [OF r1 SendPID_rel [OF regInv_sendRel [OF r1 assms(1)] this]] show ?thesis .
  qed (use assms(2) l r1 in \<open>auto simp: SendName_def\<close>)
qed

lemma notifyEntries_rel: "regInv r \<Longrightarrow> notifyEntries reason es r = Some r' \<Longrightarrow> sendRel r r'"
proof (induction es arbitrary: r)
  case (Cons e es)
  then obtain r1 a1 where s: "SendPID (meWatcher e) (DownMessage (meRef e) (meTarget e) reason) r = Some (r1, a1)"
    and n: "notifyEntries reason es r1 = Some r'" by (auto split: option.splits)
  note r1 = SendPID_rel [OF Cons.prems(1) s]
  from sendRel_trans [OF r1 Cons.IH [OF regInv_sendRel [OF r1 Cons.prems(1)] n]] show ?case .
qed simp

lemma obsOnly_emitUnregistered [simp]: "obsOnly (emitUnregistered res es)"
proof (induction es)
  case Nil
  then show ?case by (simp add: obsOnly_def)
next
  case (Cons e es)
  have "emitUnregistered res (e # es) = (\<lambda>r. emitUnregistered res es
      (emitRegistry EventRegistryUnregister (reName e) (reActorID e) (rePid e) res '''' r))"
    by (rule ext) simp
  with obsOnly_comp [OF Cons.IH obsOnly_emits(6)] show ?case by simp
qed

lemma cleanup_rel:
  assumes "regInv r" and "cleanupRegistryForActor a res r = Some r'"
  shows "sendRel (r\<lparr>rtNames := fst (nr_unregisterByActor (rtNames r) a),
            rtMonitors := fst (mm_drain (rtMonitors r) a)\<rparr>) r'"
proof -
  obtain nr es where n: "nr_unregisterByActor (rtNames r) a = (nr, es)"
    by (cases "nr_unregisterByActor (rtNames r) a")
  let ?e = "emitUnregistered res es"
  let ?r = "?e (r\<lparr>rtNames := nr\<rparr>)"
  obtain mm ms where d: "mm_drain (rtMonitors r) a = (mm, ms)" by (cases "mm_drain (rtMonitors r) a")
  have m: "rtMonitors ?r = rtMonitors r" by (simp add: obsOnly_frame(20) [OF obsOnly_emitUnregistered])
  have obs: "?r = r\<lparr>rtNames := nr, rtObs := rtObs ?r\<rparr>"
    using obsOnly_emitUnregistered [of res es] unfolding obsOnly_def by (metis Runtime.surjective Runtime.update_convs(3,7))
  let ?r2 = "r\<lparr>rtNames := nr, rtMonitors := mm\<rparr>"
  have e: "?r\<lparr>rtMonitors := mm\<rparr> = ?r2\<lparr>rtObs := rtObs ?r\<rparr>" by (subst obs) simp
  have "regInv (?r\<lparr>rtMonitors := mm\<rparr>)" using assms(1) unfolding e by (simp add: regInv_def)
  moreover have "notifyEntries ''stopped'' ms (?r\<lparr>rtMonitors := mm\<rparr>) = Some r'"
    using assms(2) n d m by (simp add: cleanupRegistryForActor_def notifyMonitors_def)
  ultimately have "sendRel (?r\<lparr>rtMonitors := mm\<rparr>) r'" by (rule notifyEntries_rel)
  then show ?thesis
    using sendRel_trans [OF sendRel_updates(1) [of ?r2 "rtObs ?r"]] n d by (simp add: e)
qed

lemma replyAsk_rel: "regInv r \<Longrightarrow> replyAsk q p ack r = Some r' \<Longrightarrow> sendRel r r'"
  by (auto simp: replyAsk_def dest: SendPID_rel)

lemma publishSends_rel: "regInv r \<Longrightarrow> publishSends job pids u r = Some (r', u') \<Longrightarrow> sendRel r r'"
proof (induction pids arbitrary: r u)
  case (Cons pid pids)
  then obtain r1 a1 u1 where
    s: "SendPID pid (BrokerPublishedMessage (pjTopic job) (pjPayload job) (pjPublisher job)) r = Some (r1, a1)"
    and n: "publishSends job pids u1 r1 = Some (r', u')" by (auto split: option.splits)
  note r1 = SendPID_rel [OF Cons.prems(1) s]
  from sendRel_trans [OF r1 Cons.IH [OF regInv_sendRel [OF r1 Cons.prems(1)] n]] show ?case .
qed simp

lemma publishJobRun_rel: "regInv r \<Longrightarrow> publishJobRun job r = Some r' \<Longrightarrow> sendRel r r'"
  by (auto simp: publishJobRun_def Let_def sendRel_obs_step split: option.splits prod.splits
      dest!: publishSends_rel)

end
