(* ===== verification/RuntimeInv.thy ===== *)
theory RuntimeInv
  imports SendRel
begin

text \<open>
  The runtime as a transition system: one rule per exported call and per goroutine step, each
  call atomic, in any interleaving. The invariant ties the components together; it is proved
  for every reachable state, for an arbitrary supervision policy and, through the contract
  \<open>restart_bound\<close>, with a bound on the restarts.
\<close>

section \<open>The invariant\<close>

text \<open>
  One instance: a sound mailbox that holds only messages for this actor with a payload; a
  goroutine at its \<open>select\<close> (or not yet there) has its wake-up token whenever messages wait;
  the mailbox is closed exactly when the context is cancelled, and a goroutine has returned
  only after that.
\<close>

definition instInv :: "(int \<Rightarrow> bool) \<Rightarrow> actorInstance \<Rightarrow> bool" where
  "instInv B i \<longleftrightarrow>
     mbInv (aiMailbox i) \<and>
     (\<forall>m\<in>set (mbContents (aiMailbox i)). msgActorID m = aiID i \<and> msgPayload m \<noteq> NilAny) \<and>
     (aiPC i \<in> {PcStart, PcSelect} \<and> mbContents (aiMailbox i) \<noteq> [] \<longrightarrow> mbNotify (aiMailbox i)) \<and>
     aiCanceled i = mbClosed (aiMailbox i) \<and>
     (aiPC i = PcDone \<longrightarrow> aiCanceled i) \<and>
     B (aiRestarts i)"

definition resInv :: "InMemoryPIDResolver \<Rightarrow> bool" where
  "resInv rs \<longleftrightarrow> (\<forall>k e. rsByKey rs k = Some e \<longrightarrow>
     Key (rePID e) = k \<and> pidGeneration (rePID e) = reCurrentGeneration e)"

definition monInv :: "monitorManager \<Rightarrow> bool" where
  "monInv mm \<longleftrightarrow> (\<forall>t es. mmByTarget mm t = Some es \<longrightarrow> es \<noteq> [] \<and> (\<forall>e\<in>set es. pidActorID (meTarget e) = t))"

definition rtInv :: "SupervisorPolicy \<Rightarrow> (int \<Rightarrow> bool) \<Rightarrow> Runtime \<Rightarrow> bool" where
  "rtInv pol B r \<longleftrightarrow> rtPolicy r = pol \<and> regInv r \<and> (\<forall>i\<in>set (rtInsts r). instInv B i) \<and>
     nrInv (rtNames r) \<and> resInv (rtResolver r) \<and>
     (\<forall>a pid. rtActorPID r a = Some pid \<longrightarrow> (\<exists>ns. Key pid = ns @ '':'' @ a)) \<and>
     askInv (rtNodeID r) (rtAsk r) \<and> monInv (rtMonitors r) \<and>
     (\<forall>k b. rtBrokers r k = Some b \<longrightarrow> brokerInv b \<and> psBrokerID b = k) \<and>
     (\<forall>k s. rtRouters r k = Some s \<longrightarrow> validStrategy (rsStrategy s) \<and> distinct (rsWorkers s) \<and> '''' \<notin> set (rsWorkers s)) \<and>
     (\<forall>k cs. ctServices (rtCron r) k = Some cs \<longrightarrow> cronInv cs \<and> cbCronID cs = k)"

lemma instInv_grow: "instGrow i i' \<Longrightarrow> instInv B i \<Longrightarrow> instInv B i'"
proof -
  assume g: "instGrow i i'" and v: "instInv B i"
  from instGrow_fields(12) [OF g] v obtain ms where
    ms: "mbContents (aiMailbox i') = mbContents (aiMailbox i) @ ms"
      "\<forall>x\<in>set ms. msgActorID x = aiID i \<and> msgPayload x \<noteq> NilAny" and
    inv: "mbInv (aiMailbox i')" "mbClosed (aiMailbox i') = mbClosed (aiMailbox i)"
    unfolding mbGrow_def instInv_def by blast
  have "(aiPC i \<in> {PcStart, PcSelect} \<and> mbContents (aiMailbox i') \<noteq> [] \<longrightarrow> mbNotify (aiMailbox i'))"
    using instGrow_fields(12) [OF g] v unfolding mbGrow_def instInv_def by blast
  with v ms inv instGrow_fields(1-11) [OF g] show ?thesis by (auto simp: instInv_def)
qed

lemma rtInv_sendRel:
  assumes s: "sendRel r r'" and v: "rtInv pol B r"
  shows "rtInv pol B r'"
proof -
  have "\<forall>i\<in>set (rtInsts r'). instInv B i"
  proof
    fix i assume "i \<in> set (rtInsts r')"
    then obtain p where p: "p < length (rtInsts r')" "i = instAt r' p" by (auto simp: in_set_conv_nth)
    then have "p < length (rtInsts r)" using sendRelD(16) [OF s] by simp
    with v sendRelD(17) [OF s, of p] p show "instInv B i"
      unfolding rtInv_def by (auto intro: instInv_grow)
  qed
  moreover have "validStrategy (rsStrategy t) \<and> distinct (rsWorkers t) \<and> '''' \<notin> set (rsWorkers t)"
    if "rtRouters r' k = Some t" for k t
  proof -
    have "map_option (\<lambda>s. (rsStrategy s, rsWorkers s)) (rtRouters r k) = Some (rsStrategy t, rsWorkers t)"
      using sendRelD(18) [OF s] that unfolding routersSame_def by (metis option.map(2))
    then obtain t0 where "rtRouters r k = Some t0" "rsStrategy t0 = rsStrategy t" "rsWorkers t0 = rsWorkers t"
      by (auto simp: map_option_eq_Some)
    with v show ?thesis unfolding rtInv_def by metis
  qed
  ultimately show ?thesis
    using v regInv_sendRel [OF s] sendRelD(1-15,19) [OF s] sendRel_cron [OF s] unfolding rtInv_def by simp
qed

lemma rtInv_obs: "obsOnly f \<Longrightarrow> rtInv pol B r \<Longrightarrow> rtInv pol B (f r)"
  using rtInv_sendRel sendRel_obs by blast

lemma obsOnly_hook [simp]: "obsOnly (recordHook a ph res c)" "obsOnly (reportBatch a b c)"
  by (auto simp: obsOnly_def recordHook_def reportBatch_def emitLifecycle_def emitBatch_def updOutcomes_def
      emitEvent_def split: option.splits)

lemmas rtInv_emits = obsOnly_emits [THEN rtInv_obs] obsOnly_emits2 [THEN rtInv_obs] obsOnly_hook [THEN rtInv_obs]

lemma rtInv_frame [simp]:
  "rtInv pol B (r\<lparr>rtTimers := tm\<rparr>) = rtInv pol B r" "rtInv pol B (r\<lparr>rtPublishing := ps\<rparr>) = rtInv pol B r"
  "rtInv pol B (r\<lparr>rtPidPolicy := m\<rparr>) = rtInv pol B r" "rtInv pol B (r\<lparr>rtRouting := tr\<rparr>) = rtInv pol B r"
  "rtInv pol B (r\<lparr>rtCalls := cs\<rparr>) = rtInv pol B r"
  by (simp_all add: rtInv_def regInv_def)

lemma rtInv_updInst:
  assumes "rtInv pol B r"
    and "p < length (rtInsts r) \<Longrightarrow> instInv B (instAt r p) \<Longrightarrow>
           instInv B (f (instAt r p)) \<and> aiID (f (instAt r p)) = aiID (instAt r p)"
  shows "rtInv pol B (updInst p f r)"
proof (cases "p < length (rtInsts r)")
  case True
  with assms have f: "instInv B (f (instAt r p))" "aiID (f (instAt r p)) = aiID (instAt r p)"
    by (auto simp: rtInv_def)
  have "regInv (updInst p f r)"
    using assms(1) f(2) True by (auto simp: rtInv_def regInv_def updInst_def nth_list_update)
  moreover have "\<forall>i\<in>set (rtInsts (updInst p f r)). instInv B i"
    using assms(1) f(1) set_update_subset_insert [of "rtInsts r" p "f (instAt r p)"]
    by (auto simp: rtInv_def updInst_def)
  ultimately show ?thesis using assms(1) by (simp add: rtInv_def updInst_def)
next
  case False
  then show ?thesis using assms(1) by (simp add: updInst_def list_update_beyond)
qed

lemma rtInv_cleanup:
  assumes v: "rtInv pol B r" and c: "cleanupRegistryForActor a res r = Some r'"
  shows "rtInv pol B r'"
proof -
  let ?r = "r\<lparr>rtNames := fst (nr_unregisterByActor (rtNames r) a), rtMonitors := fst (mm_drain (rtMonitors r) a)\<rparr>"
  have "monInv (fst (mm_drain (rtMonitors r) a))"
    using v by (auto simp: rtInv_def monInv_def mm_drain_def Let_def split: if_splits)
  then have "rtInv pol B ?r"
    using v nrInv_unregisterByActor by (simp add: rtInv_def regInv_def)
  moreover have "sendRel ?r r'"
    using v by (intro cleanup_rel [OF _ c]) (simp add: rtInv_def)
  ultimately show ?thesis using rtInv_sendRel by blast
qed

lemma instInv_simple:
  "instInv B i \<Longrightarrow> instInv B (i\<lparr>aiStatus := s\<rparr>)"
  "instInv B i \<Longrightarrow> instInv B (i\<lparr>aiState := st\<rparr>)"
  "instInv B i \<Longrightarrow> instInv B (i\<lparr>aiLastDecision := d\<rparr>)"
  "instInv B i \<Longrightarrow> instInv B (i\<lparr>aiBatch := b, aiCfg := c\<rparr>)"
  by (auto simp: instInv_def)

lemma Close_fields [simp]: "mbClosed (Close m) = True" "mbNotify (Close m) = mbNotify m"
  by (simp_all add: Close_def)

lemma instInv_close:
  "instInv B i \<Longrightarrow> instInv B (i\<lparr>aiCanceled := True, aiMailbox := Close (aiMailbox i)\<rparr>)"
  by (simp add: instInv_def)

lemma instInv_stop:
  "instInv B i \<Longrightarrow> instInv B (i\<lparr>aiStatus := ActorStopped, aiCanceled := True, aiMailbox := Close (aiMailbox i)\<rparr>)"
  using instInv_close [of B "i\<lparr>aiStatus := ActorStopped\<rparr>"] instInv_simple(1) by simp

section \<open>Resolver updates\<close>

lemma resInv_new: "resInv NewInMemoryPIDResolver"
  by (simp add: resInv_def NewInMemoryPIDResolver_def)

lemma resInv_ops:
  "resInv rs \<Longrightarrow> resInv (resolver_Register rs p)" "resInv rs \<Longrightarrow> resInv (resolver_Remove rs p)"
  "resInv rs \<Longrightarrow> resInv (resolver_SetState rs p s)" "resInv rs \<Longrightarrow> resInv (fst (resolver_BumpGeneration rs p))"
  "resInv (resolver_SetGatewayMode rs m) = resInv rs" "resInv (resolver_SetGatewayAvailability rs up) = resInv rs"
  by (auto simp: resInv_def resolver_defs Let_def split: option.splits if_splits)

lemma bump_actor:
  "resInv rs \<Longrightarrow> snd (resolver_BumpGeneration rs p) = Some q \<Longrightarrow> Key q = Key p"
  by (auto simp: resInv_def resolver_defs Let_def split: option.splits)

text \<open>The PID a restart issues in place of \<open>p\<close>, and the resolver after it.\<close>

definition bumpedPID :: "InMemoryPIDResolver \<Rightarrow> PID \<Rightarrow> PID" where
  "bumpedPID rs p = (case rsByKey rs (Key p) of
     None \<Rightarrow> p\<lparr>pidGeneration := pidGeneration p + 1\<rparr>
   | Some e \<Rightarrow> (rePID e)\<lparr>pidGeneration := reCurrentGeneration e + 1\<rparr>)"

lemma setstate_bump:
  "resolver_BumpGeneration (resolver_SetState rs p s) p =
     (rs\<lparr>rsByKey := (rsByKey rs)(Key p \<mapsto> \<lparr>rePID = bumpedPID rs p, reRouteState = PIDRouteReachable,
        reCurrentGeneration = pidGeneration (bumpedPID rs p)\<rparr>)\<rparr>, Some (bumpedPID rs p))"
  by (cases "rsByKey rs (Key p)"; cases "the (rsByKey rs (Key p))")
    (simp_all add: resolver_defs Let_def bumpedPID_def)

lemma Key_bumpedPID: "resInv rs \<Longrightarrow> Key (bumpedPID rs p) = Key p"
  by (auto simp: bumpedPID_def resInv_def split: option.splits)

lemma restartActor_eq:
  "restartActor p r =
     (let r1 = updInst p (\<lambda>i. i\<lparr>aiStatus := ActorRestarting, aiRestarts := aiRestarts i + 1,
            aiState := newActorState (aiInitialState i)\<rparr>) r;
          a = aiID (instAt r1 p)
      in case rtActorPID r a of
           None \<Rightarrow> r1
         | Some old \<Rightarrow> let new = bumpedPID (rtResolver r) old in
             r1\<lparr>rtResolver := (rtResolver r)\<lparr>rsByKey := (rsByKey (rtResolver r))(Key old \<mapsto>
                  \<lparr>rePID = new, reRouteState = PIDRouteReachable, reCurrentGeneration = pidGeneration new\<rparr>)\<rparr>,
                rtActorPID := (rtActorPID r)(a \<mapsto> new)\<rparr>)"
  by (simp add: restartActor_def Let_def setstate_bump updInst_def split: option.split)

section \<open>Monitors and cron services\<close>

lemma monInv_add: "monInv mm \<Longrightarrow> monInv (fst (mm_add mm w t))"
  by (cases "mmByTarget mm (pidActorID t)") (auto simp: monInv_def mm_add_def Let_def sliceAt_def)

lemma inv_Monitor: "rtInv pol B r \<Longrightarrow> Monitor w t r = (r', ref) \<Longrightarrow> rtInv pol B r'"
  using monInv_add [of "rtMonitors r" w t] by (auto simp: Monitor_def rtInv_def regInv_def split: prod.splits)

lemma removeFirstRef_subset: "set (removeFirstRef i es) \<subseteq> set es"
  by (induction es) auto

lemma mm_remove_slice:
  assumes "mmByRef mm ref = Some e" and "t = pidActorID (meTarget e)" and "l = sliceAt (mmByTarget mm) t"
    and "l' = (if \<exists>x\<in>set l. meRef x = ref then removeFirstRef ref l else l)"
  shows "mmByTarget (fst (mm_remove mm ref)) x =
    (if x = t then if l' = [] then None else Some l' else mmByTarget mm x)"
proof (cases "\<exists>x\<in>set l. meRef x = ref")
  case True
  then have "l' = removeFirstRef ref l" using assms(4) by simp
  with True assms(1-3) show ?thesis by (simp add: mm_remove_def Let_def)
next
  case False
  then have "l' = l" using assms(4) by simp
  with False assms(1-3) show ?thesis
    by (cases "mmByTarget mm t") (auto simp: mm_remove_def Let_def sliceAt_def)
qed

lemma monInv_remove:
  assumes "monInv mm"
  shows "monInv (fst (mm_remove mm ref))"
proof (cases "mmByRef mm ref")
  case (Some e)
  define t where "t = pidActorID (meTarget e)"
  define l where "l = sliceAt (mmByTarget mm) t"
  define l' where "l' = (if \<exists>x\<in>set l. meRef x = ref then removeFirstRef ref l else l)"
  have "\<forall>x\<in>set l. pidActorID (meTarget x) = t"
    using assms unfolding l_def by (cases "mmByTarget mm t") (auto simp: monInv_def sliceAt_def)
  then have "\<forall>x\<in>set l'. pidActorID (meTarget x) = t"
    using removeFirstRef_subset [of ref l] unfolding l'_def by auto
  with assms show ?thesis
    unfolding monInv_def mm_remove_slice [OF Some t_def l_def l'_def] by (simp split: if_splits)
qed (use assms in \<open>simp add: mm_remove_def\<close>)

lemma inv_Demonitor: "rtInv pol B r \<Longrightarrow> rtInv pol B (Demonitor ref r)"
  by (simp add: Demonitor_def rtInv_def regInv_def monInv_remove)

lemma cron_replyAsk_rel: "regInv r \<Longrightarrow> cron_replyAsk q p ack r = Some r' \<Longrightarrow> sendRel r r'"
  by (auto simp: cron_replyAsk_def dest: SendPID_rel)

lemma inv_cron_replyAsk: "rtInv pol B r \<Longrightarrow> cron_replyAsk q pid ack r = Some r' \<Longrightarrow> rtInv pol B r'"
  using cron_replyAsk_rel rtInv_sendRel by (metis rtInv_def)

lemma inv_putCron: "rtInv pol B r \<Longrightarrow> cronInv cs \<Longrightarrow> cbCronID cs = k \<Longrightarrow> rtInv pol B (putCron k cs r)"
  by (auto simp: rtInv_def regInv_def putCron_def)

lemma inv_cronSubscriber:
  assumes "cronSubscriber c ref pid sched payload tag cs r = (cs', r')" and "rtInv pol B r" and "cronInv cs"
    and "crActorID ref = pidActorID pid"
  shows "rtInv pol B r' \<and> cronInv cs' \<and> cbCronID cs' = cbCronID cs \<and> rtCron r' = rtCron r \<and> rtNodeID r' = rtNodeID r"
proof -
  obtain r1 m where m: "Monitor \<lparr>pidNamespace = pidNamespace pid, pidActorID = c, pidGeneration = 1\<rparr> pid r = (r1, m)"
    by (cases "Monitor \<lparr>pidNamespace = pidNamespace pid, pidActorID = c, pidGeneration = 1\<rparr> pid r")
  then have "rtCron r1 = rtCron r" "rtNodeID r1 = rtNodeID r" by (auto simp: Monitor_def split: prod.splits)
  with m assms inv_Monitor [OF assms(2) m] cronInv_add [OF assms(3)] show ?thesis
    by (auto simp: cronSubscriber_def Let_def)
qed

lemma inv_removeKnown:
  assumes "rtInv pol B (snd x)" and "cronInv (fst x)"
  shows "rtInv pol B (snd (removeKnown i x)) \<and> cronInv (fst (removeKnown i x)) \<and> cbCronID (fst (removeKnown i x)) = cbCronID (fst x)"
  using assms inv_Demonitor cronInv_remove
  by (auto simp: removeKnown_def removeLocked_def case_prod_beta split: option.split)

lemma inv_removeAll:
  "rtInv pol B (snd x) \<Longrightarrow> cronInv (fst x) \<Longrightarrow> rtInv pol B (snd (fold removeKnown ids x)) \<and>
     cronInv (fst (fold removeKnown ids x)) \<and> cbCronID (fst (fold removeKnown ids x)) = cbCronID (fst x)"
  by (induction ids arbitrary: x) (simp_all add: inv_removeKnown)

lemma inv_restoreOne:
  assumes "rtInv pol B (snd x)" and "cronInv (fst x)"
  shows "rtInv pol B (snd (restoreOne e x)) \<and> cronInv (fst (restoreOne e x)) \<and> cbCronID (fst (restoreOne e x)) = cbCronID (fst x)"
proof (cases e)
  case (fields refID a schedule tag payload)
  obtain cs r where x: "x = (cs, r)" by (cases x)
  let ?ref = "\<lparr>crID = refID, crSchedule = schedule, crActorID = a\<rparr>"
  let ?pid = "\<lparr>pidNamespace = rtNodeID r, pidActorID = a, pidGeneration = 1\<rparr>"
  show ?thesis
  proof (cases "ctParse (rtCron r) schedule")
    case (Some sched)
    obtain cs1 r1 where c: "cronSubscriber (cbCronID cs) ?ref ?pid sched payload tag cs r = (cs1, r1)"
      by (cases "cronSubscriber (cbCronID cs) ?ref ?pid sched payload tag cs r")
    from inv_cronSubscriber [OF c] assms x have "rtInv pol B r1 \<and> cronInv cs1 \<and> cbCronID cs1 = cbCronID cs" by simp
    with Some c show ?thesis by (simp add: restoreOne_def fields x)
  qed (use assms in \<open>simp add: restoreOne_def fields x\<close>)
qed

lemma inv_cronRestore:
  assumes "cronRestore st (cs, r) = (cs', r')" and "rtInv pol B r" and "cronInv cs"
  shows "rtInv pol B r' \<and> cronInv cs' \<and> cbCronID cs' = cbCronID cs"
proof -
  have f: "rtInv pol B (snd x) \<Longrightarrow> cronInv (fst x) \<Longrightarrow> rtInv pol B (snd (restoreFromHandoff es x)) \<and>
      cronInv (fst (restoreFromHandoff es x)) \<and> cbCronID (fst (restoreFromHandoff es x)) = cbCronID (fst x)" for x es
    unfolding restoreFromHandoff_def by (induction es arbitrary: x) (simp_all add: inv_restoreOne)
  have c: "cronInv (cs\<lparr>cbRestored := True\<rparr>)" using assms(3) by (simp add: cronInv_def cronRefsOf_def)
  show ?thesis
  proof (cases "\<exists>es. st = CronHandoffState es \<and> \<not> cbRestored cs")
    case True
    then obtain es where "restoreFromHandoff es (cs\<lparr>cbRestored := True\<rparr>, r) = (cs', r')"
      using assms(1) by (auto simp: cronRestore_def Let_def)
    with f [of "(cs\<lparr>cbRestored := True\<rparr>, r)" es] assms(2) c show ?thesis by simp
  next
    case False
    then have "r' = r \<and> (cs' = cs \<or> cs' = cs\<lparr>cbRestored := True\<rparr>)"
      using assms(1) by (auto simp: cronRestore_def Let_def split: if_splits any.splits)
    with assms(2,3) c show ?thesis by auto
  qed
qed

lemma inv_cronCommand:
  assumes v: "rtInv pol B r" and cs: "cronInv cs" and h: "cronCommand cs msg r = Some r'"
  shows "rtInv pol B r'"
proof -
  have sub: "rtInv pol B r'" if "cron_handleSubscribe cs msg q s pl tag r = Some r'" for q s pl tag
  proof (cases "IsAsk msg \<and> ctParse (rtCron r) s \<noteq> None")
    case True
    then obtain sched where sched: "ctParse (rtCron r) s = Some sched" by blast
    let ?cs = "cs\<lparr>cbSeq := cbSeq cs + 1\<rparr>"
    let ?ref = "\<lparr>crID = cronRefID (cbCronID ?cs) (cbSeq ?cs), crSchedule = s, crActorID = pidActorID q\<rparr>"
    obtain cs1 r1 where c: "cronSubscriber (cbCronID ?cs) ?ref q sched pl tag ?cs r = (cs1, r1)"
      by (cases "cronSubscriber (cbCronID ?cs) ?ref q sched pl tag ?cs r")
    have "cronInv ?cs" using cs by (simp add: cronInv_def cronRefsOf_def)
    from inv_cronSubscriber [OF c v this] have "rtInv pol B (putCron (cbCronID cs1) cs1 r1)" by (simp add: inv_putCron)
    with that True sched c show ?thesis by (auto simp: cron_handleSubscribe_def Let_def elim!: inv_cron_replyAsk [rotated])
  qed (use that v in \<open>auto simp: cron_handleSubscribe_def split: if_splits option.splits elim!: inv_cron_replyAsk [rotated]\<close>)
  have one: "rtInv pol B r'" if "cron_handleUnsubscribe cs msg i r = Some r'" for i
    using that v inv_Demonitor [OF v] cronInv_remove [OF cs]
    by (auto simp: cron_handleUnsubscribe_def removeLocked_def split: if_splits option.splits elim!: inv_cron_replyAsk [rotated] intro!: inv_putCron)
  have all: "rtInv pol B r'" if "cron_handleUnsubscribeAll cs msg q r = Some r'" for q
    using that v inv_removeAll [where x = "(cs, r)"] cs
    by (auto simp: cron_handleUnsubscribeAll_def case_prod_beta split: if_splits elim!: inv_cron_replyAsk [rotated] intro!: inv_putCron)
  have list: "rtInv pol B r'" if "cron_handleList cs msg q r = Some r'" for q
    using that v by (auto simp: cron_handleList_def split: if_splits elim!: inv_cron_replyAsk [rotated])
  have down: "rtInv pol B (putCron (cbCronID cs) (cron_handleDown a cs) r)" for a
    by (rule inv_putCron [OF v cronInv_down [OF cs]]) (rule cron_handleDown_fields)
  have other: "rtInv pol B r'" if "(case AskReplyTo msg of None \<Rightarrow> Some r | Some p \<Rightarrow> cron_replyAsk q p ack r) = Some r'" for q ack
    using that v inv_cron_replyAsk by (cases "AskReplyTo msg") auto
  from h down show ?thesis by (cases "msgPayload msg") (auto simp: cronCommand_def dest: sub one all list other)
qed

lemma inv_cronHandler:
  assumes v: "rtInv pol B r" and h: "cronHandler k st msg r = Some (r', res)"
  shows "rtInv pol B r'"
proof (cases "ctServices (rtCron r) k")
  case None
  with v h show ?thesis by (simp add: cronHandler_def)
next
  case (Some cs)
  with v have cs: "cronInv cs" "cbCronID cs = k" by (auto simp: rtInv_def)
  obtain cs1 r1 where c: "cronRestore st (cs, r) = (cs1, r1)" by (cases "cronRestore st (cs, r)")
  from inv_cronRestore [OF c v cs(1)] cs(2) have i: "rtInv pol B (putCron k cs1 r1)" "cronInv cs1" by (simp_all add: inv_putCron)
  from h Some c have "cronCommand cs1 msg (putCron k cs1 r1) = Some r'" by (auto simp: cronHandler_def)
  with i show ?thesis by (blast intro: inv_cronCommand)
qed

section \<open>Every operation preserves the invariant\<close>

context restart_bound
begin

lemma inv_restart:
  assumes v: "rtInv pol B r" and b: "p < length (rtInsts r) \<Longrightarrow> B (aiRestarts (instAt r p) + 1)"
  shows "rtInv pol B (restartActor p r)"
proof -
  let ?r1 = "updInst p (\<lambda>i. i\<lparr>aiStatus := ActorRestarting, aiRestarts := aiRestarts i + 1,
            aiState := newActorState (aiInitialState i)\<rparr>) r"
  have v1: "rtInv pol B ?r1"
    by (rule rtInv_updInst [OF v]) (use b in \<open>auto simp: instInv_def\<close>)
  show ?thesis
  proof (cases "rtActorPID r (aiID (instAt ?r1 p))")
    case None
    with v1 show ?thesis by (simp add: restartActor_eq Let_def)
  next
    case (Some old)
    have rs: "resInv (rtResolver r)" using v by (simp add: rtInv_def)
    have k: "Key (bumpedPID (rtResolver r) old) = Key old" using rs by (rule Key_bumpedPID)
    have "\<exists>ns. Key old = ns @ '':'' @ aiID (instAt ?r1 p)" using v Some unfolding rtInv_def by blast
    with v1 Some k rs show ?thesis
      by (auto simp: restartActor_eq Let_def rtInv_def regInv_def resInv_def updInst_def)
  qed
qed

lemma inv_startHook: "rtInv pol B r \<Longrightarrow> runLifecycleHook p r = (r', f) \<Longrightarrow> rtInv pol B r'"
  by (auto simp: runLifecycleHook_def Let_def rtInv_emits split: option.splits)

lemma inv_terminate:
  assumes v: "rtInv pol B r" and t: "terminateActor p r = Some r'"
  shows "rtInv pol B r'"
proof -
  have "rtInv pol B (updInst p (\<lambda>i. i\<lparr>aiStatus := ActorStopped, aiCanceled := True,
      aiMailbox := Close (aiMailbox i)\<rparr>) r)"
    by (rule rtInv_updInst [OF v]) (simp add: instInv_stop)
  from rtInv_cleanup [OF this t [unfolded terminateActor_def]] show ?thesis .
qed

lemma inv_setStatus: "rtInv pol B r \<Longrightarrow> rtInv pol B (setStatus p s r)"
  unfolding setStatus_def by (rule rtInv_updInst) (simp_all add: instInv_simple)

lemma inv_applyDecision:
  assumes v: "rtInv pol B r" and d: "applyDecision p mid batch decision r = Some r'"
    and b: "decision = DecisionRestart \<Longrightarrow> p < length (rtInsts r) \<Longrightarrow> B (aiRestarts (instAt r p) + 1)"
  shows "rtInv pol B r'"
proof (cases "decision = DecisionRestart")
  case True
  obtain r1 f where h: "runLifecycleHook p (restartActor p r) = (r1, f)"
    by (cases "runLifecycleHook p (restartActor p r)")
  have v1: "rtInv pol B r1" using inv_startHook [OF inv_restart [OF v b [OF True]] h] .
  show ?thesis
  proof (cases f)
    case True
    with d h \<open>decision = DecisionRestart\<close> obtain r2 where t: "terminateActor p r1 = Some r2"
      and r': "r' = emitDecision EventActorStopped (aiID (instAt r p)) mid DecisionStop (aiRestarts (instAt r1 p))
          (strActorStatus ActorStopped) (errorText ErrLifecycleStartFailed)
          (reportBatch (aiID (instAt r p)) batch (errorText ErrLifecycleStartFailed) r2)"
      by (auto simp: applyDecision_def Let_def)
    show ?thesis unfolding r' by (intro rtInv_emits inv_terminate [OF v1 t])
  next
    case False
    with d h \<open>decision = DecisionRestart\<close> show ?thesis
      by (auto simp: applyDecision_def Let_def intro!: rtInv_emits inv_setStatus v1)
  qed
next
  case False
  with d obtain r2 where t: "terminateActor p r = Some r2" and
    r': "\<exists>ev c. r' = emitDecision ev (aiID (instAt r p)) mid decision (aiRestarts (instAt r p))
          (strActorStatus ActorStopped) c (reportBatch (aiID (instAt r p)) batch c r2)"
    by (cases decision) (auto simp: applyDecision_def Let_def)
  from r' show ?thesis by (auto intro!: rtInv_emits inv_terminate [OF v t])
qed

lemma inv_broker_update:
  "rtInv pol B r \<Longrightarrow> brokerInv b \<Longrightarrow> psBrokerID b = k \<Longrightarrow> rtInv pol B (r\<lparr>rtBrokers := (rtBrokers r)(k \<mapsto> b)\<rparr>)"
  by (auto simp: rtInv_def regInv_def)

lemma inv_logCall: "rtInv pol B r \<Longrightarrow> rtInv pol B (logCall c r)"
  by (simp add: logCall_def)

lemma inv_replyAsk: "rtInv pol B r \<Longrightarrow> replyAsk q pid ack r = Some r' \<Longrightarrow> rtInv pol B r'"
  using replyAsk_rel rtInv_sendRel by (metis rtInv_def)

lemma psBrokerID_ops [simp]:
  "psBrokerID (fst (subscribeLocked b p q)) = psBrokerID b"
  "psBrokerID (fst (unsubscribeLocked b p q)) = psBrokerID b"
  by (simp_all add: subscribeLocked_def unsubscribeLocked_def rebuildTrieLocked_def Let_def)

lemma inv_handleSubscribe:
  assumes v: "rtInv pol B r" and b: "rtBrokers r k = Some b" and h: "handleSubscribe b msg q pat r = Some r'"
  shows "rtInv pol B r'"
proof (cases "parseTopicPattern pat")
  case (Inl e)
  with h v show ?thesis
    by (auto simp: handleSubscribe_def Let_def rtInv_emits split: if_splits elim!: inv_replyAsk [rotated])
next
  case (Inr p)
  obtain b1 ff where s: "subscribeLocked b p q = (b1, ff)" by (cases "subscribeLocked b p q")
  from v b have bi: "brokerInv b" "psBrokerID b = k" unfolding rtInv_def by blast+
  have "brokerInv b1" "psBrokerID b1 = k"
    using subscribe_brokerInv [OF bi(1) Inr, of q] psBrokerID_ops(1) [of b p q] bi(2) s by simp_all
  note v1 = inv_broker_update [OF v this]
  from h Inr s v v1 bi(2) show ?thesis
    by (auto simp: handleSubscribe_def Let_def intro: rtInv_emits inv_logCall split: if_splits
        elim!: inv_replyAsk [rotated])
qed

lemma inv_handleUnsubscribe:
  assumes v: "rtInv pol B r" and b: "rtBrokers r k = Some b" and h: "handleUnsubscribe b msg q pat r = Some r'"
  shows "rtInv pol B r'"
proof (cases "parseTopicPattern pat")
  case (Inl e)
  with h v show ?thesis
    by (auto simp: handleUnsubscribe_def Let_def rtInv_emits split: if_splits elim!: inv_replyAsk [rotated])
next
  case (Inr p)
  obtain b1 hs lf where s: "unsubscribeLocked b p q = (b1, hs, lf)" by (cases "unsubscribeLocked b p q")
  from v b have bi: "brokerInv b" "psBrokerID b = k" unfolding rtInv_def by blast+
  have "brokerInv b1" "psBrokerID b1 = k"
    using unsubscribe_brokerInv [OF bi(1) Inr, of q] psBrokerID_ops(2) [of b p q] bi(2) s by simp_all
  note v1 = inv_broker_update [OF v this]
  from h Inr s v v1 bi(2) show ?thesis
    by (auto simp: handleUnsubscribe_def Let_def intro: rtInv_emits inv_logCall split: if_splits
        elim!: inv_replyAsk [rotated])
qed

lemma inv_handlePublish: "rtInv pol B r \<Longrightarrow> rtInv pol B (handlePublish b topic payload pub rem r)"
  by (auto simp: handlePublish_def dispatchPublish_def Let_def intro: rtInv_emits inv_logCall split: sum.splits)

lemma inv_brokerHandler:
  assumes v: "rtInv pol B r" and h: "brokerHandler k st msg r = Some (r', res)"
  shows "rtInv pol B r'"
proof (cases "rtBrokers r k")
  case None
  with v h show ?thesis by (simp add: brokerHandler_def)
next
  case (Some b)
  have other: "rtInv pol B r1" if "(case AskReplyTo msg of None \<Rightarrow> Some r2
      | Some replyTo \<Rightarrow> replyAsk (AskRequestID msg) replyTo ack r2) = Some r1" "rtInv pol B r2" for r1 r2 ack
    using that inv_replyAsk by (cases "AskReplyTo msg") auto
  from h Some v show ?thesis
    by (cases "msgPayload msg")
      (auto simp: brokerHandler_def Let_def inv_handlePublish rtInv_emits
        dest: inv_handleSubscribe [OF v Some] inv_handleUnsubscribe [OF v Some] elim!: other)
qed

lemma inv_runHandler: "rtInv pol B r \<Longrightarrow> runHandler p msg r = Some (r', res) \<Longrightarrow> rtInv pol B r'"
  by (auto simp: runHandler_def Let_def split: handler.splits dest: inv_brokerHandler inv_cronHandler)

lemma restart_allowed:
  "rtInv pol B r \<Longrightarrow> p < length (rtInsts r) \<Longrightarrow> pol a e (aiRestarts (instAt r p)) = DecisionRestart \<Longrightarrow>
   B (aiRestarts (instAt r p) + 1)"
  using bound_step by (auto simp: rtInv_def instInv_def)

lemma inv_lastDecision: "rtInv pol B r \<Longrightarrow> rtInv pol B (updInst p (\<lambda>i. i\<lparr>aiLastDecision := d\<rparr>) r)"
  by (rule rtInv_updInst) (simp_all add: instInv_simple)

lemma inv_setState: "rtInv pol B r \<Longrightarrow> rtInv pol B (updInst p (\<lambda>i. i\<lparr>aiState := f i\<rparr>) r)"
  by (rule rtInv_updInst) (simp_all add: instInv_simple)

text \<open>The failure branch shared by messages and batches, after the outcomes were recorded.\<close>

lemma inv_failure:
  assumes v: "rtInv pol B r" and v1: "rtInv pol B r1" and i: "rtInsts r1 = rtInsts r"
    and d: "applyDecision p mid batch (pol a e (aiRestarts (instAt r p)))
      (updInst p (\<lambda>i. i\<lparr>aiLastDecision := dec\<rparr>) r1) = Some r'"
  shows "rtInv pol B r'"
proof (rule inv_applyDecision [OF inv_lastDecision [OF v1] d])
  assume *: "pol a e (aiRestarts (instAt r p)) = DecisionRestart"
    "p < length (rtInsts (updInst p (\<lambda>i. i\<lparr>aiLastDecision := dec\<rparr>) r1))"
  then have "p < length (rtInsts r)" by (simp add: updInst_def i)
  with * restart_allowed [OF v, of p a e]
  show "B (aiRestarts (instAt (updInst p (\<lambda>i. i\<lparr>aiLastDecision := dec\<rparr>) r1) p) + 1)"
    by (simp add: updInst_def i)
qed

lemma inv_processMessage:
  assumes v: "rtInv pol B r" and h: "processMessage p msg r = Some r'"
  shows "rtInv pol B r'"
proof -
  from h obtain r1 res where r1: "runHandler p msg r = Some (r1, res)"
    by (auto simp: processMessage_def split: option.splits)
  note v1 = inv_runHandler [OF v r1]
  have pol: "rtPolicy r1 = pol" using v1 by (simp add: rtInv_def)
  show ?thesis
  proof (cases "handlerError res")
    case None
    with h r1 v1 show ?thesis
      by (auto simp: processMessage_def Let_def intro!: rtInv_emits inv_setState)
  next
    case (Some err)
    let ?i = "instAt r1 p"
    let ?d = "pol (aiID ?i) err (aiRestarts ?i)"
    let ?r2 = "emitDecision EventActorFailed (aiID ?i) (msgID msg) ?d (aiRestarts ?i)
      (strProcessingResult ResultFailed) ''handler_error''
      (putOutcome (failedOutcome (msgID msg) (aiID ?i) ?d (aiRestarts ?i) ''handler_error'') r1)"
    have v2: "rtInv pol B ?r2" by (intro rtInv_emits v1)
    from h r1 Some have "applyDecision p (msgID msg) None ?d (updInst p (\<lambda>i. i\<lparr>aiLastDecision := ?d\<rparr>) ?r2) = Some r'"
      by (simp add: processMessage_def Let_def pol)
    from inv_failure [OF v1 v2 _ this] show ?thesis by simp
  qed
qed

lemma inv_processEach: "rtInv pol B r \<Longrightarrow> processEach p ms r = Some r' \<Longrightarrow> rtInv pol B r'"
  by (induction ms arbitrary: r) (auto split: option.splits dest: inv_processMessage)

end

lemma obsOnly_put [simp]: "obsOnly (putFailed ms a d n)" "obsOnly (putProcessed ms a)"
proof -
  have id: "obsOnly (\<lambda>r. r)" by (simp add: obsOnly_def)
  show "obsOnly (putFailed ms a d n)"
  proof (induction ms)
    case (Cons m ms)
    have "putFailed (m # ms) a d n = (\<lambda>r. putFailed ms a d n (putOutcome (failedOutcome (msgID m) a d n ''batch_handler_error'') r))"
      by (rule ext) simp
    with obsOnly_comp [OF Cons.IH obsOnly_emits(1)] show ?case by simp
  qed (use id in \<open>simp add: obsOnly_def\<close>)
  show "obsOnly (putProcessed ms a)"
  proof (induction ms)
    case (Cons m ms)
    have "putProcessed (m # ms) a = (\<lambda>r. putProcessed ms a (emitLocal EventMessageProcessed a m
        (strProcessingResult ResultDelivered) '''' (putOutcome (deliveredOutcome (msgID m) a) r)))"
      by (rule ext) simp
    with obsOnly_comp [OF Cons.IH obsOnly_comp [OF obsOnly_emits(4) obsOnly_emits(1)]] show ?case by simp
  qed (use id in \<open>simp add: obsOnly_def\<close>)
qed

lemmas put_frame [simp] = obsOnly_put [THEN obsOnly_frame(2)] obsOnly_put [THEN obsOnly_frame(4)]

lemma Dequeue_frame [simp]:
  "mbClosed (fst (Dequeue m)) = mbClosed m" "mbClosed (fst (DequeueBatch m n)) = mbClosed m"
  by (simp_all add: Dequeue_def DequeueBatch_def Let_def)

lemma Dequeue_subset: "mbInv m \<Longrightarrow> set (mbContents (fst (Dequeue m))) \<subseteq> set (mbContents m)"
  using Dequeue_contents_Cons [of m] mb.deq_empty [of m] by (cases "mbContents m") auto

lemma DequeueBatch_subset: "mbInv m \<Longrightarrow> set (mbContents (fst (DequeueBatch m n))) \<subseteq> set (mbContents m)"
  using DequeueBatch_contents [of m n] set_drop_subset [of "nat (max 1 n)" "mbContents m"] by simp

lemma instInv_dequeue:
  assumes "instInv B i" and "aiPC i = PcDrain"
  shows "instInv B (i\<lparr>aiMailbox := fst (Dequeue (aiMailbox i))\<rparr>)"
    and "instInv B (i\<lparr>aiMailbox := fst (DequeueBatch (aiMailbox i) n)\<rparr>)"
    and "snd (Dequeue (aiMailbox i)) = None \<Longrightarrow>
      instInv B (i\<lparr>aiMailbox := fst (Dequeue (aiMailbox i)), aiPC := PcSelect\<rparr>)"
    and "snd (DequeueBatch (aiMailbox i) n) = [] \<Longrightarrow>
      instInv B (i\<lparr>aiMailbox := fst (DequeueBatch (aiMailbox i) n), aiPC := PcSelect\<rparr>)"
proof -
  have m: "mbInv (aiMailbox i)" using assms(1) by (simp add: instInv_def)
  show "instInv B (i\<lparr>aiMailbox := fst (Dequeue (aiMailbox i))\<rparr>)"
    using assms Dequeue_inv [OF m] Dequeue_subset [OF m] by (auto simp: instInv_def)
  show "instInv B (i\<lparr>aiMailbox := fst (DequeueBatch (aiMailbox i) n)\<rparr>)"
    using assms DequeueBatch_inv [OF m] DequeueBatch_subset [OF m, of n] by (auto simp: instInv_def)
  show "instInv B (i\<lparr>aiMailbox := fst (Dequeue (aiMailbox i)), aiPC := PcSelect\<rparr>)"
    if "snd (Dequeue (aiMailbox i)) = None"
    using assms Dequeue_inv [OF m] Dequeue_None_empty [OF m that] by (simp add: instInv_def)
  show "instInv B (i\<lparr>aiMailbox := fst (DequeueBatch (aiMailbox i) n), aiPC := PcSelect\<rparr>)"
    if "snd (DequeueBatch (aiMailbox i) n) = []"
    using assms DequeueBatch_inv [OF m, of n] DequeueBatch_Nil_empty [OF m that] by (simp add: instInv_def)
qed

lemma updInst_twice [simp]: "updInst p f (updInst p g r) = updInst p (\<lambda>i. f (g i)) r"
  by (cases "p < length (rtInsts r)") (simp_all add: updInst_def list_update_beyond)

context restart_bound
begin

lemma inv_processBatch:
  assumes v: "rtInv pol B r" and h: "processBatch p msgs r = Some r'"
  shows "rtInv pol B r'"
proof -
  let ?i = "instAt r p" and ?n = "int (length msgs)"
  consider (empty) "msgs = []"
    | (each) "msgs \<noteq> []" "(if bcEnabled (aiBatch ?i) then bcReceiver (aiBatch ?i) else None) = None"
    | (recv) f where "msgs \<noteq> []" "(if bcEnabled (aiBatch ?i) then bcReceiver (aiBatch ?i) else None) = Some f"
    by (cases "if bcEnabled (aiBatch ?i) then bcReceiver (aiBatch ?i) else None") auto
  then show ?thesis
  proof cases
    case empty
    with v h show ?thesis by (simp add: processBatch_def)
  next
    case each
    then have "processEach p msgs r = Some r'" using h by (simp add: processBatch_def Let_def)
    then show ?thesis using inv_processEach v by blast
  next
    case recv
    have pol: "rtPolicy r = pol" using v by (simp add: rtInv_def)
    let ?res = "f (actorState_value (aiState ?i)) (map msgPayload msgs)"
    show ?thesis
    proof (cases "handlerError ?res")
      case None
      with h recv v show ?thesis
        by (auto simp: processBatch_def Let_def intro!: rtInv_emits inv_setState obsOnly_put [THEN rtInv_obs])
    next
      case (Some err)
      let ?d = "pol (aiID ?i) err (aiRestarts ?i)"
      let ?r2 = "emitDecision EventActorFailed (aiID ?i) (msgID (hd msgs)) ?d (aiRestarts ?i)
        (strProcessingResult ResultFailed) ''batch_handler_error'' (putFailed msgs (aiID ?i) ?d (aiRestarts ?i)
          (emitBatch (aiID ?i) ?n BatchResultFailedHandler ''batch_handler_error'' r))"
      have v2: "rtInv pol B ?r2" by (intro rtInv_emits obsOnly_put [THEN rtInv_obs] v)
      have "applyDecision p (msgID (hd msgs)) (Some ?n) ?d (updInst p (\<lambda>i. i\<lparr>aiLastDecision := ?d\<rparr>) ?r2) = Some r'"
        using h recv Some by (simp add: processBatch_def Let_def pol)
      from inv_failure [OF v v2 _ this] show ?thesis by simp
    qed
  qed
qed

lemma inv_drainStep:
  assumes v: "rtInv pol B r" and pc: "aiPC (instAt r p) = PcDrain" and h: "drainStep p r = Some r'"
  shows "rtInv pol B r'"
proof (cases "bcEnabled (aiBatch (instAt r p)) \<and> bcMaxSize (aiBatch (instAt r p)) > 1")
  case True
  let ?n = "bcMaxSize (aiBatch (instAt r p))"
  obtain mb ms where d: "DequeueBatch (aiMailbox (instAt r p)) ?n = (mb, ms)"
    by (cases "DequeueBatch (aiMailbox (instAt r p)) ?n")
  have v1: "rtInv pol B (updInst p (\<lambda>i. i\<lparr>aiMailbox := mb\<rparr>) r)"
    by (rule rtInv_updInst [OF v]) (use instInv_dequeue(2) [OF _ pc, of B ?n] d in simp)
  have v2: "ms = [] \<Longrightarrow> rtInv pol B (updInst p (\<lambda>i. i\<lparr>aiMailbox := mb, aiPC := PcSelect\<rparr>) r)"
    by (rule rtInv_updInst [OF v]) (use instInv_dequeue(4) [OF _ pc, of B ?n] d in simp)
  from h True d v1 v2 show ?thesis
    by (auto simp: drainStep_def Let_def split: if_splits dest: inv_processBatch)
next
  case False
  obtain mb ms where d: "Dequeue (aiMailbox (instAt r p)) = (mb, ms)"
    by (cases "Dequeue (aiMailbox (instAt r p))")
  have v1: "rtInv pol B (updInst p (\<lambda>i. i\<lparr>aiMailbox := mb\<rparr>) r)"
    by (rule rtInv_updInst [OF v]) (use instInv_dequeue(1) [OF _ pc, of B] d in simp)
  have v2: "ms = None \<Longrightarrow> rtInv pol B (updInst p (\<lambda>i. i\<lparr>aiMailbox := mb, aiPC := PcSelect\<rparr>) r)"
    by (rule rtInv_updInst [OF v]) (use instInv_dequeue(3) [OF _ pc, of B] d in simp)
  from h False d v1 v2 show ?thesis
    by (auto simp: drainStep_def Let_def split: if_splits option.splits dest: inv_processMessage)
qed

lemma inv_actorStart:
  assumes v: "rtInv pol B r" and pc: "aiPC (instAt r p) = PcStart"
  shows "rtInv pol B (actorStart p r)"
proof -
  obtain r1 f where h: "runLifecycleHook p r = (r1, f)" by (cases "runLifecycleHook p r")
  note v1 = inv_startHook [OF v h]
  have i: "rtInsts r1 = rtInsts r"
    using h by (auto simp: runLifecycleHook_def Let_def obsOnly_frame(2) [OF obsOnly_hook(1)] split: option.splits)
  have a: "rtInv pol B (updInst p (\<lambda>i. i\<lparr>aiStatus := ActorStopped, aiMailbox := Close (aiMailbox i),
      aiCanceled := True, aiPC := PcDone\<rparr>) r1)"
    by (rule rtInv_updInst [OF v1]) (simp add: instInv_def)
  have b: "rtInv pol B (updInst p (\<lambda>i. i\<lparr>aiStatus := ActorRunning, aiPC := PcSelect\<rparr>) r1)"
    by (rule rtInv_updInst [OF v1]) (use pc i in \<open>simp add: instInv_def\<close>)
  show ?thesis using a b h by (simp add: actorStart_def Let_def rtInv_emits)
qed

lemma inv_actorCtxDone:
  assumes v: "rtInv pol B r" and c: "aiCanceled (instAt r p)"
  shows "rtInv pol B (actorCtxDone p r)"
  unfolding actorCtxDone_def
  by (intro rtInv_emits rtInv_updInst [OF v]) (use c in \<open>simp add: instInv_def\<close>)

lemma inv_actorNotified:
  assumes v: "rtInv pol B r"
  shows "rtInv pol B (actorNotified p r)"
  unfolding actorNotified_def
proof (rule rtInv_updInst [OF v])
  assume i: "instInv B (instAt r p)"
  then have "mbInv ((aiMailbox (instAt r p))\<lparr>mbNotify := False\<rparr>)"
    by (simp add: instInv_def mbInv_def Depth_def)
  with i show "instInv B ((instAt r p)\<lparr>aiMailbox := (aiMailbox (instAt r p))\<lparr>mbNotify := False\<rparr>, aiPC := PcDrain\<rparr>) \<and>
      aiID ((instAt r p)\<lparr>aiMailbox := (aiMailbox (instAt r p))\<lparr>mbNotify := False\<rparr>, aiPC := PcDrain\<rparr>) = aiID (instAt r p)"
    by (simp add: instInv_def mbContents_def)
qed

lemma inv_stopHook: "rtInv pol B r \<Longrightarrow> rtInv pol B (runLifecycleStopHookWithTimeout p r)"
  by (auto simp: runLifecycleStopHookWithTimeout_def Let_def rtInv_emits split: option.splits stopHookResult.splits)

lemma inv_resolver: "rtInv pol B r \<Longrightarrow> resInv rs \<Longrightarrow> rtInv pol B (r\<lparr>rtResolver := rs\<rparr>)"
  by (simp add: rtInv_def regInv_def)

lemma inv_stopResolver: "rtInv pol B r \<Longrightarrow> rtInv pol B (stopResolver a r)"
  by (auto simp: stopResolver_def split: option.splits intro!: inv_resolver resInv_ops(3))
    (simp add: rtInv_def)

lemma inv_stopTail: "rtInv pol B r \<Longrightarrow> stopTail p a r = Some r' \<Longrightarrow> rtInv pol B r'"
  unfolding stopTail_def Let_def
  by (erule rtInv_cleanup [rotated], rule rtInv_updInst)
    (simp_all add: inv_stopResolver inv_setStatus inv_stopHook instInv_close)

lemma inv_Stop: "rtInv pol B r \<Longrightarrow> Stop a r = Some (r', x) \<Longrightarrow> rtInv pol B r'"
  by (auto simp: Stop_def split: option.splits if_splits intro: inv_stopTail inv_setStatus)

lemma inv_StopAndCapture: "rtInv pol B r \<Longrightarrow> StopAndCapture a r = Some (r', x) \<Longrightarrow> rtInv pol B r'"
  by (auto simp: StopAndCapture_def Let_def split: option.splits if_splits intro: inv_stopTail inv_setStatus)

lemma inv_RemoveActor: "rtInv pol B r \<Longrightarrow> RemoveActor a r = Inr r' \<Longrightarrow> rtInv pol B r'"
  by (auto simp: RemoveActor_def rt_registry_remove_def rt_registry_get_def Let_def rtInv_def regInv_def resInv_ops
      split: option.splits if_splits)

end

end
