(* ===== verification/RuntimeSteps.thy ===== *)
theory RuntimeSteps
  imports RuntimeInv
begin

text \<open>
  The transition system of the runtime: one rule per exported call, per blocking point of a call
  and per goroutine step. Reachable states satisfy the invariant of theory \<open>RuntimeInv\<close>.
\<close>

section \<open>The remaining operations keep the invariant\<close>

lemma normalizeWorkers_props:
  "distinct (normalizeWorkers seen ws) \<and> '''' \<notin> set (normalizeWorkers seen ws) \<and>
   set (normalizeWorkers seen ws) \<inter> set seen = {}"
  by (induction seen ws rule: normalizeWorkers.induct) auto

lemma askInv_newRequest:
  assumes "askInv node t" and "w = \<lparr>paRequestID = q, paTargetActor = a, paReplyTo = replyPID node q\<rparr>"
  shows "askInv node (t\<lparr>askSeq := s, askWait := (askWait t)(q \<mapsto> w),
           askReply := (askReply t)(Key (replyPID node q) \<mapsto> q), askChan := (askChan t)(q := [])\<rparr>)"
  using assms unfolding askInv_def by auto

lemma newAskRequest_eq:
  "newAskRequest a r = (let q = ''ask-'' @ string_of_u64 (askSeq (rtAsk r) + 1);
       w = \<lparr>paRequestID = q, paTargetActor = a, paReplyTo = replyPID (rtNodeID r) q\<rparr>
     in (r\<lparr>rtAsk := (rtAsk r)\<lparr>askSeq := askSeq (rtAsk r) + 1, askWait := (askWait (rtAsk r))(q \<mapsto> w),
           askReply := (askReply (rtAsk r))(Key (replyPID (rtNodeID r) q) \<mapsto> q),
           askChan := (askChan (rtAsk r))(q := [])\<rparr>\<rparr>, w))"
  by (simp add: newAskRequest_def replyPID_def Let_def)

lemma newAskRequest_rel:
  assumes "newAskRequest a r = (r', w)"
  shows "sendRel r r'" and "paReplyTo w = replyPID (rtNodeID r) (paRequestID w)"
proof -
  show "sendRel r r'"
    using assms askInv_newRequest [of "rtNodeID r" "rtAsk r"]
    by (auto simp: newAskRequest_eq Let_def intro!: sendRel_ask)
  show "paReplyTo w = replyPID (rtNodeID r) (paRequestID w)"
    using assms by (auto simp: newAskRequest_eq Let_def)
qed

lemma completeAskRequest_rel:
  assumes w: "paReplyTo w = replyPID (rtNodeID r) (paRequestID w)"
  shows "sendRel r (completeAskRequest w r)"
  unfolding completeAskRequest_def Let_def w
proof (rule sendRel_ask)
  let ?t = "rtAsk r" and ?q = "paRequestID w"
  let ?c = "askClosedPut ?q (paTargetActor w) (askClosed ?t)"
  assume i: "askInv (rtNodeID r) ?t"
  then have "gomap_ok ?c" by (simp add: askInv_def askClosedPut_ok)
  from askInv_close [OF i this, of ?q "askChan ?t"]
  show "askInv (rtNodeID r) (?t\<lparr>askWait := (askWait ?t)(?q := None),
      askReply := (askReply ?t)(Key (replyPID (rtNodeID r) ?q) := None), askClosed := ?c\<rparr>)"
    by simp
qed

lemma askSent_rel:
  assumes "askSent a w (r, ack) = (r', x)" and "paReplyTo w = replyPID (rtNodeID r) (paRequestID w)"
  shows "sendRel r r'"
  using assms completeAskRequest_rel [of w r]
  by (auto simp: askSent_def sendRel_obs_step split: if_splits)

lemma ask_local_rel:
  assumes v: "regInv r" and n: "newAskRequest a r = (r1, w)"
    and s: "map_option (askSent b w) (sendWithAskContext (rtStack r1) r1 c payload ctx) = Some (r', x)"
  shows "sendRel r r'"
proof -
  note r1 = newAskRequest_rel [OF n]
  obtain r2 ack where t: "sendWithAskContext (rtStack r1) r1 c payload ctx = Some (r2, ack)"
    and e: "askSent b w (r2, ack) = (r', x)" using s by auto
  note r2 = sendWithAskContext_rel [OF regInv_sendRel [OF r1(1) v] t]
  have node: "rtNodeID r2 = rtNodeID r" using sendRelD(10) [OF r2] sendRelD(10) [OF r1(1)] by simp
  show ?thesis
    using sendRel_trans [OF r1(1) sendRel_trans [OF r2 askSent_rel [OF e]]] r1(2) node by simp
qed

lemma AskBegin_rel:
  assumes v: "regInv r" and "AskBegin a payload timeout r = Some (r', x)"
  shows "sendRel r r'"
  using assms(2) ask_local_rel [OF v]
  by (auto simp: AskBegin_def split: if_splits prod.splits)

lemma AskPIDBegin_rel:
  assumes v: "regInv r" and a: "AskPIDBegin pid payload timeout r = Some (r', x)"
  shows "sendRel r r'"
proof (cases "timeout \<le> 0")
  case True
  with a show ?thesis by (simp add: AskPIDBegin_def)
next
  case False
  obtain r1 w where n: "newAskRequest (pidActorID pid) r = (r1, w)" by (cases "newAskRequest (pidActorID pid) r")
  note r1 = newAskRequest_rel [OF n]
  have node: "rtNodeID r1 = rtNodeID r" using sendRelD(10) [OF r1(1)] .
  have l: "sendRel r (logCall c (nextMsgID r1))" for c
    using sendRel_trans [OF r1(1) sendRel_trans [OF sendRel_nextMsgID sendRel_logCall]] .
  have c: "sendRel r (completeAskRequest w (logCall c (nextMsgID r1)))" for c
    using sendRel_trans [OF l completeAskRequest_rel] r1(2) node by (simp add: logCall_def nextMsgID_def)
  from a False n ask_local_rel [OF v n] l c show ?thesis
    by (auto simp: AskPIDBegin_def Let_def sendRel_obs_step split: option.splits if_splits prod.splits)
qed

text \<open>Taking the reply out of the channel, then closing the request.\<close>

lemma AskResume_inv:
  assumes v: "rtInv pol B r" and w: "paReplyTo w = replyPID (rtNodeID r) (paRequestID w)"
    and a: "AskResume a w wake r = Some (r', x)"
  shows "rtInv pol B r'"
proof -
  let ?q = "paRequestID w"
  let ?take = "\<lambda>rest. r\<lparr>rtAsk := (rtAsk r)\<lparr>askChan := (askChan (rtAsk r))(?q := rest)\<rparr>\<rparr>"
  have c: "rtInv pol B (completeAskRequest w r)"
    using rtInv_sendRel [OF completeAskRequest_rel [OF w] v] .
  have t: "rtInv pol B (completeAskRequest w (?take rest))" for rest
  proof -
    have i: "askInv (rtNodeID r) (rtAsk r)" using v by (simp add: rtInv_def)
    then have g: "gomap_ok (askClosedPut ?q (paTargetActor w) (askClosed (rtAsk r)))"
      by (simp add: askInv_def askClosedPut_ok)
    have "rtAsk (completeAskRequest w (?take rest)) = (rtAsk r)\<lparr>askWait := (askWait (rtAsk r))(?q := None),
        askReply := (askReply (rtAsk r))(Key (replyPID (rtNodeID r) ?q) := None),
        askClosed := askClosedPut ?q (paTargetActor w) (askClosed (rtAsk r)),
        askChan := (askChan (rtAsk r))(?q := rest)\<rparr>"
      by (cases "rtAsk r") (simp add: completeAskRequest_def Let_def w)
    then have "askInv (rtNodeID r) (rtAsk (completeAskRequest w (?take rest)))"
      using askInv_close [OF i g, of ?q "(askChan (rtAsk r))(?q := rest)"] by simp
    with v show ?thesis by (simp add: rtInv_def regInv_def completeAskRequest_def Let_def)
  qed
  from a c t show ?thesis
    by (cases wake) (auto simp: AskResume_def Let_def rtInv_emits split: list.splits any.splits)
qed

lemma CreateActor_Inr:
  assumes "CreateActor i st h cfg r = Inr r'"
  shows "\<exists>inst. rtRegistry r i = None \<and> aiID inst = i \<and> aiMailbox inst = NewMailbox (acMailboxCapacity cfg) \<and>
    aiRestarts inst = 0 \<and> aiPC inst = PcStart \<and> \<not> aiCanceled inst \<and> aiStatus inst = ActorStarting \<and>
    r' = r\<lparr>rtRegistry := (rtRegistry r)(i \<mapsto> length (rtInsts r)), rtInsts := rtInsts r @ [inst]\<rparr>"
  using assms by (auto simp: CreateActor_def rt_registry_put_def split: if_splits option.splits intro!: exI)

lemma inv_CreateActor:
  assumes v: "rtInv pol B r" and b: "B 0" and c: "CreateActor i st h cfg r = Inr r'"
  shows "rtInv pol B r'"
proof -
  from CreateActor_Inr [OF c] obtain inst where inst: "aiID inst = i"
    "aiMailbox inst = NewMailbox (acMailboxCapacity cfg)" "aiRestarts inst = 0" "aiPC inst = PcStart"
    "\<not> aiCanceled inst"
    and r': "r' = r\<lparr>rtRegistry := (rtRegistry r)(i \<mapsto> length (rtInsts r)), rtInsts := rtInsts r @ [inst]\<rparr>"
    by blast
  have "\<not> mbClosed (NewMailbox c)" for c by (simp add: NewMailbox_def)
  then have "instInv B inst" using inst b by (simp add: instInv_def)
  moreover have "regInv r'"
    using v inst(1) by (auto simp: r' rtInv_def regInv_def nth_append less_Suc_eq)
  ultimately show ?thesis using v by (simp add: r' rtInv_def)
qed

lemma inv_ConfigureBatching: "rtInv pol B r \<Longrightarrow> ConfigureBatching a n rc r = Inr r' \<Longrightarrow> rtInv pol B r'"
  by (auto simp: ConfigureBatching_def Let_def instInv_simple split: option.splits if_splits intro!: rtInv_updInst)

lemma inv_DisableBatching: "rtInv pol B r \<Longrightarrow> DisableBatching a r = Inr r' \<Longrightarrow> rtInv pol B r'"
  by (auto simp: DisableBatching_def instInv_simple split: option.splits intro!: rtInv_updInst)

lemma inv_ConfigureRouter: "rtInv pol B r \<Longrightarrow> ConfigureRouter a s ws r = Inr r' \<Longrightarrow> rtInv pol B r'"
  using normalizeWorkers_props [of "[]" ws]
  by (auto simp: ConfigureRouter_def rtInv_def regInv_def split: option.splits if_splits)

lemma inv_routes:
  "rtInv pol B r \<Longrightarrow> RegisterTypeRoute a t v k r = Inr r' \<Longrightarrow> rtInv pol B r'"
  "rtInv pol B r \<Longrightarrow> RegisterFallbackRoute a k r = Inr r' \<Longrightarrow> rtInv pol B r'"
  by (auto simp: RegisterTypeRoute_def RegisterFallbackRoute_def split: option.splits)

lemma inv_IssuePID: "rtInv pol B r \<Longrightarrow> IssuePID ns a r = (r', x) \<Longrightarrow> rtInv pol B r'"
  by (auto simp: IssuePID_def Let_def rtInv_def regInv_def resInv_ops Key_def split: option.splits if_splits)

lemma inv_names: "rtInv pol B r \<Longrightarrow> nrInv nr \<Longrightarrow> rtInv pol B (r\<lparr>rtNames := nr\<rparr>)"
  by (simp add: rtInv_def regInv_def)

lemma inv_log: "rtInv pol B r \<Longrightarrow> rtInv pol B (logCall c r)"
  by (simp add: logCall_def)

lemma inv_RegisterName:
  assumes v: "rtInv pol B r" and n: "RegisterName a name ns r = (r', ack, e)"
  shows "rtInv pol B r'"
proof (cases "rt_registry_get r a")
  case None
  with v n show ?thesis by (simp add: RegisterName_def)
next
  case (Some p)
  let ?ns = "if ns = '''' then ''default'' else ns"
  obtain r1 issued where i: "(case PIDForActor r a of
      Some pid \<Rightarrow> if pidNamespace pid = ?ns then (r, Inr pid) else IssuePID ?ns a r
    | None \<Rightarrow> IssuePID ?ns a r) = (r1, issued)" by fastforce
  have v1: "rtInv pol B r1"
    using i v inv_IssuePID by (auto split: option.splits if_splits)
  have nr: "nrInv (fst (nr_register (rtNames r1) name a q))" for q
    using v1 by (simp add: rtInv_def nrInv_register)
  show ?thesis
  proof (cases issued)
    case (Inl err)
    with n Some i v1 show ?thesis by (simp add: RegisterName_def Let_def)
  next
    case (Inr pid)
    obtain nr' x where g: "nr_register (rtNames r1) name a pid = (nr', x)"
      by (cases "nr_register (rtNames r1) name a pid")
    then have "nrInv nr'" using nr [of pid] by simp
    note v2 = inv_names [OF v1 this]
    from n Some i Inr g v2 show ?thesis
      by (cases x) (auto simp: RegisterName_def Let_def intro: rtInv_emits inv_log split: if_splits)
  qed
qed

lemma inv_UnregisterName:
  assumes v: "rtInv pol B r" and n: "UnregisterName name r = (r', ack)"
  shows "rtInv pol B r'"
proof -
  obtain nr x where u: "nr_unregister (rtNames r) name = (nr, x)" by (cases "nr_unregister (rtNames r) name")
  have "nrInv nr" using v nrInv_unregister [of "rtNames r" name] u by (simp add: rtInv_def)
  note v1 = inv_names [OF v this]
  from n u v1 show ?thesis
    by (cases x) (auto simp: UnregisterName_def Let_def intro: rtInv_emits inv_log split: if_splits)
qed

lemma inv_readiness: "rtInv pol B r \<Longrightarrow> rtInv pol B (fst (ValidateDistributedReadiness r))"
  by (simp add: ValidateDistributedReadiness_def Let_def rtInv_emits)

lemma inv_EnsureBroker:
  assumes v: "rtInv pol B r" and b: "B 0" and e: "EnsureBrokerActor k r = Inr (r', k')"
  shows "rtInv pol B r'"
proof (cases "rtBrokers r (defaultBrokerID k)")
  case None
  with e obtain r1 where c: "CreateActor (defaultBrokerID k) NilAny (Some BrokerHandler)
      (WithMailboxCapacity defaultBrokerMailboxCapacity defaultActorConfig) r = Inr r1"
    and r': "r' = r1\<lparr>rtBrokers := (rtBrokers r1)(defaultBrokerID k \<mapsto> newPubSubBrokerService (defaultBrokerID k))\<rparr>"
    by (auto simp: EnsureBrokerActor_def Let_def split: sum.splits)
  from inv_CreateActor [OF v b c] newBroker_inv [of "defaultBrokerID k"] show ?thesis
    unfolding r' by (auto simp: rtInv_def regInv_def newPubSubBrokerService_def)
qed (use v e in \<open>auto simp: EnsureBrokerActor_def Let_def\<close>)

lemma inv_EnsureCron:
  assumes v: "rtInv pol B r" and b: "B 0" and e: "EnsureCronActor k r = Inr (r', k')"
  shows "rtInv pol B r'"
proof (cases "ctServices (rtCron r) (defaultCronID k)")
  case None
  with e obtain r1 where c: "CreateActor (defaultCronID k) NilAny (Some (CronHandlerOf (defaultCronID k)))
      (WithMailboxCapacity defaultCronMailboxCapacity defaultActorConfig) r = Inr r1"
    and r': "r' = putCron (defaultCronID k) (newCronBrokerService (defaultCronID k)) r1"
    by (auto simp: EnsureCronActor_def Let_def split: sum.splits)
  show ?thesis unfolding r'
    by (rule inv_putCron [OF inv_CreateActor [OF v b c] cronInv_new]) (simp add: newCronBrokerService_def)
qed (use v e in \<open>auto simp: EnsureCronActor_def Let_def\<close>)

lemma inv_CronHandler: "rtInv pol B r \<Longrightarrow> rtInv pol B (fst (CronHandler k r))"
  by (auto simp: CronHandler_def Let_def newCronBrokerService_def intro!: inv_putCron cronInv_new [unfolded newCronBrokerService_def]
      split: option.split)

lemma cronInv_job:
  assumes "cronInv cs"
  shows "cronInv (dropJob i cs)" "(\<And>j. cjID (f j) = cjID j \<and> cjSub (f j) = cjSub j) \<Longrightarrow> cronInv (updJob i f cs)"
proof -
  show "cronInv (dropJob i cs)"
    using assms by (auto simp: cronInv_def dropJob_def cronRefsOf_def distinct_map_filter)
  assume f: "\<And>j. cjID (f j) = cjID j \<and> cjSub (f j) = cjSub j"
  then have "map cjID (cbJobs (updJob i f cs)) = map cjID (cbJobs cs)" by (simp add: updJob_def)
  moreover have "\<exists>j0\<in>set (cbJobs cs). cjID j = cjID j0 \<and> cjSub j = cjSub j0" if "j \<in> set (cbJobs (updJob i f cs))" for j
    using that f by (auto simp: updJob_def split: if_splits)
  moreover have "cronRefsOf (updJob i f cs) = cronRefsOf cs" "cbSubs (updJob i f cs) = cbSubs cs"
    "cbByActor (updJob i f cs) = cbByActor cs" "cbNextJob (updJob i f cs) = cbNextJob cs"
    by (simp_all add: updJob_def cronRefsOf_def fun_eq_iff)
  ultimately show "cronInv (updJob i f cs)"
    using assms unfolding cronInv_def by metis
qed

lemma cbCronID_job [simp]: "cbCronID (dropJob i cs) = cbCronID cs" "cbCronID (updJob i f cs) = cbCronID cs"
  by (simp_all add: dropJob_def updJob_def)

lemma inv_schedule:
  assumes v: "rtInv pol B r" and k: "ctServices (rtCron r) k = Some cs"
  shows "rtInv pol B (putCron k (scheduleLoop now j cs) r)" "rtInv pol B (putCron k (scheduleDone j cs) r)"
    "scheduleFires k j r = Some r' \<Longrightarrow> rtInv pol B r'"
proof -
  from v k have cs: "cronInv cs" "cbCronID cs = k" by (auto simp: rtInv_def)
  then show "rtInv pol B (putCron k (scheduleLoop now j cs) r)" "rtInv pol B (putCron k (scheduleDone j cs) r)"
    using v by (auto simp: scheduleLoop_def scheduleDone_def cronInv_job intro!: inv_putCron split: option.split)
  let ?r = "putCron k (updJob (cjID j) (\<lambda>j. j\<lparr>cjNext := None\<rparr>) cs) r"
  have u: "rtInv pol B ?r" using v cs by (simp add: inv_putCron cronInv_job)
  then have "rtInv pol B r1" if "Send a x ?r = Some (r1, ack)" for a x r1 ack
    using rtInv_sendRel [OF Send_rel [OF _ that] u] by (simp add: rtInv_def)
  moreover have "rtInv pol B (putCron k (dropJob (cjID j) cs) r)" using v cs by (simp add: inv_putCron cronInv_job)
  ultimately show "scheduleFires k j r = Some r' \<Longrightarrow> rtInv pol B r'"
    using k by (auto simp: scheduleFires_def split: if_splits)
qed

section \<open>The transition system\<close>

text \<open>
  The steps are coarser than the program's: an exported call is one step from its start to its
  return (or to its wait, for asks and timers), and an iteration of the inner loop of \<open>runActor\<close>
  takes a message, runs the handler and applies the decision of the supervisor in one step. In the
  program other goroutines may run between the critical sections of such a call.
\<close>

inductive rt_step :: "Runtime \<Rightarrow> Runtime \<Rightarrow> bool" where
  create: "CreateActor i st h cfg r = Inr r' \<Longrightarrow> rt_step r r'"
| configure_batching: "ConfigureBatching a n rc r = Inr r' \<Longrightarrow> rt_step r r'"
| disable_batching: "DisableBatching a r = Inr r' \<Longrightarrow> rt_step r r'"
| configure_router: "ConfigureRouter a s ws r = Inr r' \<Longrightarrow> rt_step r r'"
| type_route: "RegisterTypeRoute a t v k r = Inr r' \<Longrightarrow> rt_step r r'"
| fallback_route: "RegisterFallbackRoute a k r = Inr r' \<Longrightarrow> rt_step r r'"
| send: "DeliverLocal a payload ctx r = Some (r', ack) \<Longrightarrow> rt_step r r'"
| send_pid: "sendPIDWithSender sender pid payload r = Some (r', pack) \<Longrightarrow> rt_step r r'"
| send_name: "SendName name payload r = Some (r', pack) \<Longrightarrow> rt_step r r'"
| cross_id: "CrossActorSendByActorID sender a payload r = Some (r', ack) \<Longrightarrow> rt_step r r'"
| cross_pid: "CrossActorSendPID sender pid payload r = Some (r', pack) \<Longrightarrow> rt_step r r'"
| ask: "AskBegin a payload timeout r = Some (r', started) \<Longrightarrow> rt_step r r'"
| ask_pid: "AskPIDBegin pid payload timeout r = Some (r', started) \<Longrightarrow> rt_step r r'"
| ask_name: "AskNameBegin name payload timeout r = Some (r', started) \<Longrightarrow> rt_step r r'"
| ask_resume: "paReplyTo w = replyPID (rtNodeID r) (paRequestID w) \<Longrightarrow>
    AskResume a w wake r = Some (r', answer) \<Longrightarrow> rt_step r r'"
| issue_pid: "IssuePID ns a r = (r', issued) \<Longrightarrow> rt_step r r'"
| resolve_pid: "ResolvePID pid r = (r', entry) \<Longrightarrow> rt_step r r'"
| register_name: "RegisterName a name ns r = (r', rack, err) \<Longrightarrow> rt_step r r'"
| lookup_name: "LookupName name r = (r', rack) \<Longrightarrow> rt_step r r'"
| unregister_name: "UnregisterName name r = (r', rack) \<Longrightarrow> rt_step r r'"
| set_policy: "rt_step r (SetPIDInteractionPolicy mode r)"
| set_gateway_mode: "rt_step r (SetGatewayRouteMode gmode r)"
| set_gateway_up: "rt_step r (SetGatewayAvailable up r)"
| readiness: "rt_step r (fst (ValidateDistributedReadiness r))"
| monitor: "Monitor watcher target r = (r', ref) \<Longrightarrow> rt_step r r'"
| demonitor: "rt_step r (Demonitor ref r)"
| stop: "Stop a r = Some (r', stopped) \<Longrightarrow> rt_step r r'"
| stop_capture: "StopAndCapture a r = Some (r', captured) \<Longrightarrow> rt_step r r'"
| remove: "RemoveActor a r = Inr r' \<Longrightarrow> rt_step r r'"
| ensure_broker: "EnsureBrokerActor k r = Inr (r', k') \<Longrightarrow> rt_step r r'"
| ensure_cron: "EnsureCronActor k r = Inr (r', k') \<Longrightarrow> rt_step r r'"
| cron_handler: "rt_step r (fst (CronHandler k r))"
| cron_loop: "ctServices (rtCron r) k = Some cs \<Longrightarrow> cj \<in> set (cbJobs cs) \<Longrightarrow> cjNext cj = None \<Longrightarrow>
    rt_step r (putCron k (scheduleLoop now cj cs) r)"
| cron_fires: "ctServices (rtCron r) k = Some cs \<Longrightarrow> cj \<in> set (cbJobs cs) \<Longrightarrow> cjNext cj = Some at \<Longrightarrow>
    scheduleFires k cj r = Some r' \<Longrightarrow> rt_step r r'"
| cron_done: "ctServices (rtCron r) k = Some cs \<Longrightarrow> cj \<in> set (cbJobs cs) \<Longrightarrow> cjNext cj = Some at \<Longrightarrow>
    rt_step r (putCron k (scheduleDone cj cs) r)"
| publish_job: "k < length (rtPublishing r) \<Longrightarrow>
    publishJobRun (rtPublishing r ! k)
      (r\<lparr>rtPublishing := take k (rtPublishing r) @ drop (Suc k) (rtPublishing r)\<rparr>) = Some r' \<Longrightarrow> rt_step r r'"
| start_timer: "startTimer tgt payload interval r = (r', tid) \<Longrightarrow> rt_step r r'"
| cancel_timer: "rt_step r (CancelTimer tid r)"
| timer_fires: "j \<in> set (tmJobs (rtTimers r)) \<Longrightarrow> timerFires j r = Some r' \<Longrightarrow> rt_step r r'"
| timer_canceled: "j \<in> set (tmJobs (rtTimers r)) \<Longrightarrow> tjCanceled j \<Longrightarrow> rt_step r (dropTimer (tjID j) r)"
| actor_start: "p < length (rtInsts r) \<Longrightarrow> aiPC (instAt r p) = PcStart \<Longrightarrow> rt_step r (actorStart p r)"
| actor_done: "p < length (rtInsts r) \<Longrightarrow> aiPC (instAt r p) = PcSelect \<Longrightarrow> aiCanceled (instAt r p) \<Longrightarrow>
    rt_step r (actorCtxDone p r)"
| actor_notified: "p < length (rtInsts r) \<Longrightarrow> aiPC (instAt r p) = PcSelect \<Longrightarrow>
    mbNotify (aiMailbox (instAt r p)) \<Longrightarrow> rt_step r (actorNotified p r)"
| actor_drain: "p < length (rtInsts r) \<Longrightarrow> aiPC (instAt r p) = PcDrain \<Longrightarrow> drainStep p r = Some r' \<Longrightarrow>
    rt_step r r'"

inductive_cases rt_stepE: "rt_step r r'"

context restart_bound
begin

lemma send_step: "rtInv pol B r \<Longrightarrow> regInv r \<longrightarrow> sendRel r r' \<Longrightarrow> rtInv pol B r'"
  using rtInv_sendRel by (metis rtInv_def)

lemma inv_cross:
  "rtInv pol B r \<Longrightarrow> CrossActorSendByActorID s a payload r = Some (r', ack) \<Longrightarrow> rtInv pol B r'"
  "rtInv pol B r \<Longrightarrow> CrossActorSendPID s pid payload r = Some (r', pack) \<Longrightarrow> rtInv pol B r'"
proof -
  assume v: "rtInv pol B r"
  have g: "rtInv pol B (emitGuardrail s m oc c r)" for m oc c using v by (rule rtInv_emits)
  have n: "rtInv pol B (nextMsgID r)" using rtInv_sendRel [OF sendRel_nextMsgID v] .
  have snd: "rtInv pol B r2" if "rtInv pol B r1" "Send a payload r1 = Some (r2, x)" for r1 r2 x
    using rtInv_sendRel [OF Send_rel [OF _ that(2)] that(1)] that(1) by (simp add: rtInv_def)
  have sp: "rtInv pol B r2" if "rtInv pol B r1" "sendPIDWithSender s pid payload r1 = Some (r2, x)" for r1 r2 x
    using rtInv_sendRel [OF sendPIDWithSender_rel [OF _ that(2)] that(1)] that(1) by (simp add: rtInv_def)
  show "CrossActorSendByActorID s a payload r = Some (r', ack) \<Longrightarrow> rtInv pol B r'"
    using snd [OF g] n
    by (auto simp: CrossActorSendByActorID_def Let_def intro!: rtInv_emits split: if_splits)
  show "CrossActorSendPID s pid payload r = Some (r', pack) \<Longrightarrow> rtInv pol B r'"
    using sp [OF g] sp [OF v] by (auto simp: CrossActorSendPID_def split: if_splits)
qed

lemma inv_AskName: "rtInv pol B r \<Longrightarrow> AskNameBegin name payload t r = Some (r', x) \<Longrightarrow> rtInv pol B r'"
proof -
  assume v: "rtInv pol B r" and a: "AskNameBegin name payload t r = Some (r', x)"
  obtain r1 ack where l: "LookupName name r = (r1, ack)" by (cases "LookupName name r")
  have v1: "rtInv pol B r1" using rtInv_sendRel [OF LookupName_rel [OF l] v] .
  then have "regInv r1" by (simp add: rtInv_def)
  with a l v1 AskPIDBegin_rel rtInv_sendRel [OF _ v1] show ?thesis
    by (auto simp: AskNameBegin_def split: if_splits)
qed

lemma inv_timerFires: "rtInv pol B r \<Longrightarrow> timerFires j r = Some r' \<Longrightarrow> rtInv pol B r'"
proof -
  assume v: "rtInv pol B r" and t: "timerFires j r = Some r'"
  have i: "regInv r" using v by (simp add: rtInv_def)
  have "rtInv pol B r1" if "SendPID p x r = Some (r1, a)" for p x r1 a
    using rtInv_sendRel [OF SendPID_rel [OF i that] v] .
  moreover have "rtInv pol B r1" if "SendName p x r = Some (r1, a)" for p x r1 a
    using rtInv_sendRel [OF SendName_rel [OF i that] v] .
  ultimately show ?thesis
    using t by (auto simp: timerFires_def dropTimer_def split: sum.splits if_splits)
qed

lemma inv_publish_job:
  assumes v: "rtInv pol B r" and p: "publishJobRun j (r\<lparr>rtPublishing := ps\<rparr>) = Some r'"
  shows "rtInv pol B r'"
proof -
  have v1: "rtInv pol B (r\<lparr>rtPublishing := ps\<rparr>)" using v by simp
  then have "regInv (r\<lparr>rtPublishing := ps\<rparr>)" by (simp add: rtInv_def)
  from rtInv_sendRel [OF publishJobRun_rel [OF this p] v1] show ?thesis .
qed

lemma inv_setters:
  "rtInv pol B (SetPIDInteractionPolicy m r) = rtInv pol B r" "rtInv pol B (SetGatewayRouteMode gm r) = rtInv pol B r"
  "rtInv pol B (SetGatewayAvailable up r) = rtInv pol B r"
  by (simp_all add: SetPIDInteractionPolicy_def SetGatewayRouteMode_def SetGatewayAvailable_def rtInv_def regInv_def
      resInv_ops)

lemma step_inv: "rt_step r r' \<Longrightarrow> rtInv pol B r \<Longrightarrow> rtInv pol B r'"
proof (induction rule: rt_step.induct)
  case (send a payload ctx r r' ack)
  then show ?case
    using send_step [of r r'] sendWithAskContext_rel [of r] by (simp add: DeliverLocal_def)
next
  case (send_pid sender pid payload r r' pack)
  then show ?case using send_step [of r r'] sendPIDWithSender_rel by blast
next
  case (send_name name payload r r' pack)
  then show ?case using send_step [of r r'] SendName_rel by blast
next
  case (ask a payload timeout r r' started)
  then show ?case using send_step [of r r'] AskBegin_rel by blast
next
  case (ask_pid pid payload timeout r r' started)
  then show ?case using send_step [of r r'] AskPIDBegin_rel by blast
next
  case (resolve_pid pid r r' entry)
  then show ?case by (auto simp: ResolvePID_def rtInv_emits split: option.splits)
next
  case (lookup_name name r r' rack)
  then show ?case using rtInv_sendRel [OF LookupName_rel] by blast
next
  case (start_timer tgt payload interval r r' tid)
  then show ?case by (auto simp: startTimer_def Let_def)
next
  case create
  then show ?case using inv_CreateActor bound_zero by blast
next
  case configure_batching
  then show ?case using inv_ConfigureBatching by blast
next
  case disable_batching
  then show ?case using inv_DisableBatching by blast
next
  case configure_router
  then show ?case using inv_ConfigureRouter by blast
next
  case type_route
  then show ?case using inv_routes(1) by blast
next
  case fallback_route
  then show ?case using inv_routes(2) by blast
next
  case cross_id
  then show ?case using inv_cross(1) by blast
next
  case cross_pid
  then show ?case using inv_cross(2) by blast
next
  case ask_name
  then show ?case using inv_AskName by blast
next
  case ask_resume
  then show ?case using AskResume_inv by blast
next
  case issue_pid
  then show ?case using inv_IssuePID by blast
next
  case register_name
  then show ?case using inv_RegisterName by blast
next
  case unregister_name
  then show ?case using inv_UnregisterName by blast
next
  case monitor
  then show ?case using inv_Monitor by blast
next
  case stop
  then show ?case using inv_Stop by blast
next
  case stop_capture
  then show ?case using inv_StopAndCapture by blast
next
  case remove
  then show ?case using inv_RemoveActor by blast
next
  case ensure_broker
  then show ?case using inv_EnsureBroker bound_zero by blast
next
  case ensure_cron
  then show ?case using inv_EnsureCron bound_zero by blast
next
  case cron_loop
  then show ?case using inv_schedule(1) by blast
next
  case cron_fires
  then show ?case using inv_schedule(3) by blast
next
  case cron_done
  then show ?case using inv_schedule(2) by blast
next
  case publish_job
  then show ?case using inv_publish_job by blast
next
  case timer_fires
  then show ?case using inv_timerFires by blast
next
  case actor_start
  then show ?case using inv_actorStart by blast
next
  case actor_done
  then show ?case using inv_actorCtxDone by blast
next
  case actor_notified
  then show ?case using inv_actorNotified by blast
next
  case actor_drain
  then show ?case using inv_drainStep by blast
qed (simp_all add: inv_CronHandler inv_setters inv_readiness inv_Demonitor CancelTimer_def dropTimer_def)

lemma new_inv: "rtInv pol B (NewRuntime (Some pol) node hooks dl rnd stack parse)"
  by (simp add: rtInv_def NewRuntime_def regInv_def nrInv_new resInv_new monInv_def newMonitorManager_def)

lemma reachable_inv:
  "rt_step\<^sup>*\<^sup>* (NewRuntime (Some pol) node hooks dl rnd stack parse) r \<Longrightarrow> rtInv pol B r"
  by (induction rule: rtranclp_induct) (auto intro: new_inv step_inv)

end

end
