(* ===== verification/SendProps.thy ===== *)
theory SendProps
  imports RuntimeSteps
begin

text \<open>
  What the send operations guarantee: the outcome of a submission on every branch, termination
  of router dispatch and its failure on a cycle, round-robin order, the classification of sends
  by PID, and the ask protocol.
\<close>

section \<open>Submission\<close>

text \<open>The documented result of a send to an actor that is not a router.\<close>

definition submitSpec :: "Runtime \<Rightarrow> string \<Rightarrow> any \<Rightarrow> SubmitResult" where
  "submitSpec r a payload =
     (case rtRegistry r a of
        None \<Rightarrow> SubmitRejectedFound
      | Some p \<Rightarrow>
         if aiStatus (instAt r p) = ActorStopped then SubmitRejectedStop
         else case rrMatch (resolveRoute (rtRouting r) a (messageTypeName payload) (messageSchemaVersion payload)) of
                routeVersionMismatch \<Rightarrow> SubmitRejectedVersionMismatch
              | routeUnsupportedType \<Rightarrow> SubmitRejectedUnsupportedType
              | _ \<Rightarrow> if mbClosed (aiMailbox (instAt r p)) then SubmitRejectedStop
                     else if Depth (aiMailbox (instAt r p)) < mbMax (aiMailbox (instAt r p)) then SubmitAccepted
                     else SubmitRejectedFull)"

lemma submitSpec_next: "submitSpec (nextMsgID r) a payload = submitSpec r a payload"
  by (simp add: submitSpec_def split: option.split routeMatch.split)

text \<open>The instances after the send: one message more in one mailbox, or nothing changed.\<close>

definition submitInsts :: "Runtime \<Rightarrow> string \<Rightarrow> any \<Rightarrow> AskRequestContext option \<Rightarrow> actorInstance list" where
  "submitInsts r a payload ctx =
     (if submitSpec r a payload = SubmitAccepted
      then let p = the (rtRegistry r a);
               m = buildMessage (rtMsgSeq r + 1) a payload ctx
           in (rtInsts r)[p := (instAt r p)\<lparr>aiMailbox := fst (Enqueue (aiMailbox (instAt r p)) m)\<rparr>]
      else rtInsts r)"

lemma rejectSubmit_frame [simp]:
  "rtInsts (fst (rejectSubmit a m pr sr r)) = rtInsts r" "saResult (snd (rejectSubmit a m pr sr r)) = sr"
  "saMessageID (snd (rejectSubmit a m pr sr r)) = m"
  "rtInsts (fst (rejectRouted a msg pr sr r)) = rtInsts r" "saResult (snd (rejectRouted a msg pr sr r)) = sr"
  "saMessageID (snd (rejectRouted a msg pr sr r)) = msgID msg"
  by (simp_all add: rejectSubmit_def rejectRouted_def)

lemma enqueueTo_spec:
  assumes "ra = enqueueTo p a msg r"
  shows "saMessageID (snd ra) = msgID msg"
    and "saResult (snd ra) = (if mbClosed (aiMailbox (instAt r p)) then SubmitRejectedStop
           else if Depth (aiMailbox (instAt r p)) < mbMax (aiMailbox (instAt r p)) then SubmitAccepted
           else SubmitRejectedFull)"
    and "rtInsts (fst ra) = (if saResult (snd ra) = SubmitAccepted
           then (rtInsts r)[p := (instAt r p)\<lparr>aiMailbox := fst (Enqueue (aiMailbox (instAt r p)) msg)\<rparr>]
           else rtInsts r)"
proof -
  let ?m = "aiMailbox (instAt r p)"
  have same: "(rtInsts r)[p := (instAt r p)\<lparr>aiMailbox := ?m\<rparr>] = rtInsts r" by simp
  consider "mbClosed ?m" | "\<not> mbClosed ?m" "\<not> Depth ?m < mbMax ?m" | "\<not> mbClosed ?m" "Depth ?m < mbMax ?m" by blast
  note cs = this
  show "saMessageID (snd ra) = msgID msg" using cs
    by cases (simp_all add: assms enqueueTo_def Enqueue_rejects Enqueue_accepts)
  show "saResult (snd ra) = (if mbClosed ?m then SubmitRejectedStop
      else if Depth ?m < mbMax ?m then SubmitAccepted else SubmitRejectedFull)" using cs
    by cases (simp_all add: assms enqueueTo_def Enqueue_rejects Enqueue_accepts)
  show "rtInsts (fst ra) = (if saResult (snd ra) = SubmitAccepted
      then (rtInsts r)[p := (instAt r p)\<lparr>aiMailbox := fst (Enqueue ?m msg)\<rparr>] else rtInsts r)" using cs
    by cases (simp_all add: assms enqueueTo_def Enqueue_rejects Enqueue_accepts updInst_def same)
qed

lemma submitToInst_spec:
  assumes "rtRegistry r a = Some p" and "aiStatus (instAt r p) \<noteq> ActorStopped"
    and "ra = submitToInst p a payload ctx (nextMsgID r)"
  shows "saMessageID (snd ra) = rtMsgSeq r + 1 \<and> saResult (snd ra) = submitSpec r a payload \<and>
     rtInsts (fst ra) = submitInsts r a payload ctx"
proof -
  let ?r = "nextMsgID r" and ?msg = "buildMessage (rtMsgSeq r + 1) a payload ctx"
  let ?match = "rrMatch (resolveRoute (rtRouting r) a (messageTypeName payload) (messageSchemaVersion payload))"
  have m: "msgTypeName ?msg = messageTypeName payload" "msgSchemaVersion ?msg = messageSchemaVersion payload"
    "msgID ?msg = rtMsgSeq r + 1" by (simp_all add: buildMessage_def)
  have e: "saMessageID (snd (enqueueTo p a ?msg r2)) = rtMsgSeq r + 1 \<and>
      saResult (snd (enqueueTo p a ?msg r2)) = submitSpec r a payload \<and>
      rtInsts (fst (enqueueTo p a ?msg r2)) = submitInsts r a payload ctx"
    if "?match \<notin> {routeVersionMismatch, routeUnsupportedType}" "rtInsts r2 = rtInsts r" for r2
    using that assms(1,2) m enqueueTo_spec [OF refl, of p a ?msg r2]
    by (cases ?match) (simp_all add: submitSpec_def submitInsts_def Let_def)
  show ?thesis
    unfolding assms(3) submitToInst_def
    using e assms(1,2) m
    by (cases ?match) (simp_all add: Let_def submitSpec_def submitInsts_def)
qed

lemma sendDirect_spec:
  assumes "ra = sendDirect a payload ctx r"
  shows "saMessageID (snd ra) = rtMsgSeq r + 1 \<and> saResult (snd ra) = submitSpec r a payload \<and>
     rtInsts (fst ra) = submitInsts r a payload ctx"
proof (cases "rtRegistry r a")
  case None
  then show ?thesis
    by (simp add: assms sendDirect_def Let_def rt_registry_get_def submitSpec_def submitInsts_def)
next
  case (Some p)
  show ?thesis
  proof (cases "aiStatus (instAt r p) = ActorStopped")
    case True
    with Some show ?thesis
      by (simp add: assms sendDirect_def Let_def rt_registry_get_def submitSpec_def submitInsts_def)
  next
    case False
    with Some submitToInst_spec [OF Some False refl, of payload ctx] show ?thesis
      by (simp add: assms sendDirect_def Let_def rt_registry_get_def)
  qed
qed

text \<open>
  Claim C4. Sending to an ID that is not configured as a router always returns, with a fresh
  message ID and exactly the documented result: nil payload, not found, stopped, rejected by the
  type rules (unsupported type or version mismatch), mailbox closed (reported as stopped), mailbox
  full, or accepted. An accepted message is appended to the mailbox of that actor and to nothing
  else; a rejected one changes no actor. The only side condition is room on the stack.
\<close>

theorem send_result_and_effect:
  assumes "rtRouters r a = None" and "0 < rtStack r"
  shows "\<exists>r' ack. DeliverLocal a payload ctx r = Some (r', ack) \<and> saMessageID ack = rtMsgSeq r + 1 \<and>
     saResult ack = (if payload = NilAny then SubmitRejectedNilPayload else submitSpec r a payload) \<and>
     rtInsts r' = (if payload = NilAny then rtInsts r else submitInsts r a payload ctx)"
proof -
  obtain n where n: "rtStack r = Suc n" using assms(2) by (cases "rtStack r") auto
  show ?thesis
  proof (cases "payload = NilAny")
    case True
    obtain r' ack where d: "rejectSubmit a (rtMsgSeq r + 1) ResultRejectedNilPayload SubmitRejectedNilPayload (nextMsgID r) = (r', ack)"
      by fastforce
    with True rejectSubmit_frame(1-3) [of a "rtMsgSeq r + 1" ResultRejectedNilPayload SubmitRejectedNilPayload "nextMsgID r"] show ?thesis
      by (simp add: DeliverLocal_def n Let_def)
  next
    case False
    obtain r' ack where d: "sendDirect a payload ctx r = (r', ack)" by (cases "sendDirect a payload ctx r")
    with sendDirect_spec [OF refl, of a payload ctx r] show ?thesis
      using assms False by (simp add: DeliverLocal_def n)
  qed
qed

theorem send_result_and_effect_witness:
  "let r = NewRuntime None '''' noHooks False (\<lambda>_. 0) 4 (\<lambda>_. None); u = UserVal \<lparr>uvType = ''T'', uvSchema = None, uvHashKey = None, uvData = 1\<rparr>
   in \<exists>r' ack. DeliverLocal ''a'' u None r = Some (r', ack) \<and> saResult ack = SubmitRejectedFound \<and> rtInsts r' = []"
proof -
  let ?r = "NewRuntime None '''' noHooks False (\<lambda>_. 0) 4 (\<lambda>_. None)"
  let ?u = "UserVal \<lparr>uvType = ''T'', uvSchema = None, uvHashKey = None, uvData = 1\<rparr>"
  have h: "rtRouters ?r ''a'' = None" "0 < rtStack ?r" by (simp_all add: NewRuntime_def)
  have s: "submitSpec ?r ''a'' ?u = SubmitRejectedFound" by (simp add: submitSpec_def NewRuntime_def)
  moreover have "submitInsts ?r ''a'' ?u None = []" using s by (simp add: submitInsts_def) (simp add: NewRuntime_def)
  ultimately show ?thesis using send_result_and_effect [OF h, of ?u None] by (auto simp: Let_def)
qed

section \<open>Routers\<close>

lemma index_in_range:
  assumes "ws \<noteq> []" and "length ws < 2 ^ LENGTH('w::len)"
  shows "unat ((x :: 'w word) mod of_nat (length ws)) < length ws"
proof -
  have u: "unat (of_nat (length ws) :: 'w word) = length ws"
    using assms(2) by (simp add: unat_of_nat)
  with assms(1) show ?thesis by (simp add: unat_mod_distrib)
qed

text \<open>The worker lists are shorter than \<open>2 ^ 32\<close>, the range of the hash.\<close>

definition routersSmall :: "(string \<rightharpoonup> routerRuntimeState) \<Rightarrow> bool" where
  "routersSmall m \<longleftrightarrow> (\<forall>k st. m k = Some st \<longrightarrow> length (rsWorkers st) < 2 ^ 32)"

lemma selected_is_worker:
  assumes "selectRoutedWorker k st payload r = (r', w, oc, rs)" and "oc = RouteSuccess"
    and "length (rsWorkers st) < 2 ^ 32"
  shows "w \<in> set (rsWorkers st)"
proof -
  have ne: "rsWorkers st \<noteq> []" using assms(1,2) by (auto simp: selectRoutedWorker_def)
  have a: "rsWorkers st ! unat ((x::u64) mod of_nat (length (rsWorkers st))) \<in> set (rsWorkers st)" for x
    using index_in_range [OF ne, where 'w = 64] assms(3) by simp
  have b: "rsWorkers st ! unat ((x::u32) mod of_nat (length (rsWorkers st))) \<in> set (rsWorkers st)" for x
    using index_in_range [OF ne, where 'w = 32] assms(3) by simp
  show ?thesis
    using assms(1,2) ne a b
    by (auto simp: selectRoutedWorker_def Let_def split: RouterStrategy.splits option.splits if_splits)
qed

text \<open>
  A rank that decreases from every router to those of its workers that are routers themselves,
  so no chain of routers runs in a circle.
\<close>

definition routersRanked :: "(string \<Rightarrow> nat) \<Rightarrow> (string \<rightharpoonup> routerRuntimeState) \<Rightarrow> bool" where
  "routersRanked rank m \<longleftrightarrow> (\<forall>k st w. m k = Some st \<longrightarrow> w \<in> set (rsWorkers st) \<longrightarrow> m w \<noteq> None \<longrightarrow> rank w < rank k)"

lemma routersSame_at:
  assumes "routersSame m m'"
  shows "m' k = Some st \<Longrightarrow> \<exists>st0. m k = Some st0 \<and> rsWorkers st0 = rsWorkers st"
    and "m' k \<noteq> None \<longleftrightarrow> m k \<noteq> None"
proof -
  have "map_option (\<lambda>s. (rsStrategy s, rsWorkers s)) (m' k) = map_option (\<lambda>s. (rsStrategy s, rsWorkers s)) (m k)"
    using assms unfolding routersSame_def by blast
  then show "m' k = Some st \<Longrightarrow> \<exists>st0. m k = Some st0 \<and> rsWorkers st0 = rsWorkers st"
    and "m' k \<noteq> None \<longleftrightarrow> m k \<noteq> None"
    by (cases "m k"; cases "m' k"; auto)+
qed

lemma routersSame_props:
  assumes "routersSame m m'"
  shows "routersRanked rank m \<Longrightarrow> routersRanked rank m'" and "routersSmall m \<Longrightarrow> routersSmall m'"
proof -
  show "routersRanked rank m'" if "routersRanked rank m"
    unfolding routersRanked_def
  proof (intro allI impI)
    fix k st w
    assume "m' k = Some st" "w \<in> set (rsWorkers st)" "m' w \<noteq> None"
    with routersSame_at [OF assms, of k] routersSame_at(2) [OF assms, of w] that
    show "rank w < rank k" unfolding routersRanked_def by force
  qed
  show "routersSmall m'" if "routersSmall m"
    using that routersSame_at(1) [OF assms] unfolding routersSmall_def by force
qed

lemma dispatch_terminates:
  assumes "rtRouters r k = Some st" and "regInv r" and "length (rsWorkers st) < 2 ^ 32"
    and "\<And>r1 w. sendRel r r1 \<Longrightarrow> w \<in> set (rsWorkers st) \<Longrightarrow> sendTo r1 w \<noteq> None"
  shows "dispatchRouted sendTo k payload st r \<noteq> None"
proof -
  obtain r1 w oc rs where s: "selectRoutedWorker k st payload (nextMsgID r) = (r1, w, oc, rs)"
    by (cases "selectRoutedWorker k st payload (nextMsgID r)")
  have "rtRouters (nextMsgID r) k = Some st" using assms(1) by simp
  from selectRoutedWorker_rel [OF this, of payload] s have r1: "sendRel r r1"
    using sendRel_trans [OF sendRel_nextMsgID] by simp
  show ?thesis
  proof (cases "oc = RouteSuccess")
    case True
    with assms(4) [OF r1 selected_is_worker [OF s True assms(3)]] s show ?thesis
      by (auto simp: dispatchRouted_def Let_def)
  qed (use s in \<open>simp add: dispatchRouted_def Let_def\<close>)
qed

lemma send_terminates:
  "regInv r \<Longrightarrow> routersRanked rank (rtRouters r) \<Longrightarrow> routersSmall (rtRouters r) \<Longrightarrow>
   (rtRouters r a \<noteq> None \<longrightarrow> rank a < n) \<Longrightarrow> 0 < n \<Longrightarrow>
   sendWithAskContext (Suc n) r a payload ctx \<noteq> None"
proof (induction n arbitrary: r a)
  case (Suc n)
  show ?case
  proof (cases "rtRouters r a")
    case None
    then show ?thesis by (simp add: Let_def)
  next
    case (Some st)
    have "dispatchRouted (\<lambda>r w. sendWithAskContext (Suc n) r w payload ctx) a payload st (nextMsgID r) \<noteq> None"
    proof (rule dispatch_terminates)
      show "rtRouters (nextMsgID r) a = Some st" using Some by simp
      show "regInv (nextMsgID r)" using regInv_sendRel [OF sendRel_nextMsgID Suc.prems(1)] .
      show "length (rsWorkers st) < 2 ^ 32" using Suc.prems(3) Some by (auto simp: routersSmall_def)
      fix r1 w
      assume "sendRel (nextMsgID r) r1" and w: "w \<in> set (rsWorkers st)"
      then have s: "sendRel r r1" using sendRel_trans [OF sendRel_nextMsgID] by blast
      note rs = routersSame_props [OF sendRelD(18) [OF s]]
      have rk: "rtRouters r1 w \<noteq> None \<longrightarrow> rank w < rank a"
        using routersSame_at(2) [OF sendRelD(18) [OF s], of w] Suc.prems(2) Some w
        unfolding routersRanked_def by blast
      show "sendWithAskContext (Suc n) r1 w payload ctx \<noteq> None"
      proof (cases "n = 0")
        case True
        with rk Suc.prems(4) Some have "rtRouters r1 w = None" by auto
        then show ?thesis by (simp add: Let_def)
      next
        case False
        show ?thesis
        proof (rule Suc.IH)
          show "regInv r1" using regInv_sendRel [OF s Suc.prems(1)] .
          show "rtRouters r1 w \<noteq> None \<longrightarrow> rank w < n" using rk Suc.prems(4) Some by auto
        qed (use rs Suc.prems False in auto)
      qed
    qed
    with Some show ?thesis
      by (auto simp: Let_def rt_registry_get_def split: option.splits simp del: sendWithAskContext.simps(2)
          intro: ssubst [OF sendWithAskContext.simps(2)])
  qed
qed simp

text \<open>
  Claim C32. A send terminates whenever the routers are not arranged in a circle: if a rank
  decreases from every router to those of its workers that are routers, and the stack admits as
  many nested dispatches as there are ranks, every send returns an acknowledgement.
\<close>

theorem router_send_terminates:
  assumes "regInv r" and "routersRanked rank (rtRouters r)" and "routersSmall (rtRouters r)"
    and "\<forall>k. rank k + 1 < rtStack r"
  shows "DeliverLocal a payload ctx r \<noteq> None"
proof -
  from assms(4) obtain n where n: "rtStack r = Suc n" "rank a < n" "0 < n"
    by (cases "rtStack r") fastforce+
  from send_terminates [OF assms(1-3) _ n(3), of a payload ctx] n(1,2) show ?thesis
    by (simp add: DeliverLocal_def)
qed

theorem router_send_terminates_witness:
  "let r = (NewRuntime None '''' noHooks False (\<lambda>_. 0) 4 (\<lambda>_. None))\<lparr>rtRouters := [''a'' \<mapsto>
         \<lparr>rsStrategy = RouterStrategyRoundRobin, rsWorkers = [''b''], rsRrNext = 0\<rparr>]\<rparr>
   in DeliverLocal ''a'' (DownMessage 0 zeroPID '''') None r \<noteq> None"
proof -
  let ?r = "(NewRuntime None '''' noHooks False (\<lambda>_. 0) 4 (\<lambda>_. None))\<lparr>rtRouters := [''a'' \<mapsto>
         \<lparr>rsStrategy = RouterStrategyRoundRobin, rsWorkers = [''b''], rsRrNext = 0\<rparr>]\<rparr>"
  have h: "regInv ?r" "routersRanked (\<lambda>_. 1) (rtRouters ?r)" "routersSmall (rtRouters ?r)"
    "\<forall>k. (\<lambda>_. 1) k + 1 < rtStack ?r"
    by (simp_all add: NewRuntime_def regInv_def routersRanked_def routersSmall_def)
  from router_send_terminates [OF h, of "''a''" "DownMessage 0 zeroPID ''''" None] show ?thesis
    by (simp add: Let_def)
qed

text \<open>
  \<open>ConfigureRouter\<close> accepts a router whose only worker is itself, and a send to it
  never returns: no number of nested dispatches is enough.
\<close>

theorem self_router_never_returns:
  "rtRouters r a = Some \<lparr>rsStrategy = RouterStrategyRoundRobin, rsWorkers = [a], rsRrNext = c\<rparr> \<Longrightarrow>
   rtRegistry r a = Some p \<Longrightarrow> aiStatus (instAt r p) \<noteq> ActorStopped \<Longrightarrow> payload \<noteq> NilAny \<Longrightarrow>
   sendWithAskContext n r a payload ctx = None"
proof (induction n arbitrary: r c)
  case (Suc n)
  let ?st = "\<lparr>rsStrategy = RouterStrategyRoundRobin, rsWorkers = [a], rsRrNext = c\<rparr>"
  let ?r2 = "nextMsgID (nextMsgID r)"
  let ?r3 = "?r2\<lparr>rtRouters := (rtRouters r)(a \<mapsto> ?st\<lparr>rsRrNext := c + 1\<rparr>)\<rparr>"
  have "sendWithAskContext n ?r3 a payload ctx = None"
    by (rule Suc.IH [where c = "c + 1"]) (use Suc.prems in simp_all)
  with Suc.prems show ?case
    by (simp add: Let_def rt_registry_get_def dispatchRouted_def selectRoutedWorker_def)
qed simp

theorem self_router_never_returns_witness:
  "\<exists>r0 r. CreateActor ''a'' NilAny (Some BrokerHandler) defaultActorConfig
       (NewRuntime None '''' noHooks False (\<lambda>_. 0) 9 (\<lambda>_. None)) = Inr r0 \<and>
     ConfigureRouter ''a'' RouterStrategyRoundRobin [''a''] r0 = Inr r \<and>
     (\<forall>n. sendWithAskContext n r ''a'' (DownMessage 0 zeroPID '''') None = None)"
proof -
  let ?n = "NewRuntime None '''' noHooks False (\<lambda>_. 0) 9 (\<lambda>_. None)"
  obtain r0 where c: "CreateActor ''a'' NilAny (Some BrokerHandler) defaultActorConfig ?n = Inr r0"
    by (simp add: CreateActor_def rt_registry_put_def NewRuntime_def)
  from CreateActor_Inr [OF c] have r0: "rtRegistry r0 ''a'' = Some 0" "aiStatus (instAt r0 0) = ActorStarting"
    by (auto simp: NewRuntime_def)
  let ?r = "r0\<lparr>rtRouters := (rtRouters r0)(''a'' \<mapsto>
      \<lparr>rsStrategy = RouterStrategyRoundRobin, rsWorkers = [''a''], rsRrNext = 0\<rparr>)\<rparr>"
  have "ConfigureRouter ''a'' RouterStrategyRoundRobin [''a''] r0 = Inr ?r"
    using r0 by (simp add: ConfigureRouter_def rt_registry_get_def)
  moreover have "sendWithAskContext n ?r ''a'' (DownMessage 0 zeroPID '''') None = None" for n
    by (rule self_router_never_returns [where c = 0 and p = 0]) (use r0 in simp_all)
  ultimately show ?thesis using c by blast
qed

text \<open>The workers that \<open>n\<close> selections of a router pick.\<close>

primrec routerPicks :: "nat \<Rightarrow> string \<Rightarrow> any \<Rightarrow> Runtime \<Rightarrow> string list" where
  "routerPicks 0 k payload r = []"
| "routerPicks (Suc n) k payload r =
     (case rtRouters r k of
        None \<Rightarrow> []
      | Some st \<Rightarrow> (case selectRoutedWorker k st payload r of (r', w, _, _) \<Rightarrow> w # routerPicks n k payload r'))"

lemma routerPicks_from:
  assumes "ws \<noteq> []" and "length ws < 2 ^ 32"
  shows "rtRouters r k = Some \<lparr>rsStrategy = RouterStrategyRoundRobin, rsWorkers = ws, rsRrNext = of_nat c\<rparr> \<Longrightarrow>
    c + n \<le> 2 ^ 64 \<Longrightarrow> routerPicks n k payload r = map (\<lambda>i. ws ! (i mod length ws)) [c..<c + n]"
proof (induction n arbitrary: r c)
  case (Suc n)
  let ?st = "\<lparr>rsStrategy = RouterStrategyRoundRobin, rsWorkers = ws, rsRrNext = of_nat c :: u64\<rparr>"
  let ?r = "r\<lparr>rtRouters := (rtRouters r)(k \<mapsto> ?st\<lparr>rsRrNext := of_nat (Suc c)\<rparr>)\<rparr>"
  have "unat (of_nat c :: u64) = c" using Suc.prems(2) by (simp add: unat_of_nat)
  moreover have "unat (of_nat (length ws) :: u64) = length ws" using assms(2) by (simp add: unat_of_nat)
  ultimately have i: "unat ((of_nat c :: u64) mod of_nat (length ws)) = c mod length ws"
    by (simp add: unat_mod_distrib)
  have s: "selectRoutedWorker k ?st payload r = (?r, ws ! (c mod length ws), RouteSuccess, '''')"
    using assms(1) i by (simp add: selectRoutedWorker_def Let_def add.commute)
  have "routerPicks n k payload ?r = map (\<lambda>i. ws ! (i mod length ws)) [Suc c..<Suc c + n]"
    by (rule Suc.IH) (use Suc.prems in simp_all)
  moreover have "[c..<c + Suc n] = c # [Suc c..<Suc c + n]" by (subst upt_conv_Cons) simp_all
  ultimately show ?case using Suc.prems(1) s by (simp del: upt_Suc of_nat_Suc)
qed simp

text \<open>
  A round-robin router configured with workers \<open>ws\<close> picks them in cyclic order: the
  \<open>i\<close>-th of up to \<open>2 ^ 64\<close> selections is worker \<open>i mod length ws\<close>.
\<close>

theorem round_robin_cyclic:
  assumes "rtRouters r k = Some \<lparr>rsStrategy = RouterStrategyRoundRobin, rsWorkers = ws, rsRrNext = 0\<rparr>"
    and "ws \<noteq> []" and "length ws < 2 ^ 32" and "n \<le> 2 ^ 64"
  shows "routerPicks n k payload r = map (\<lambda>i. ws ! (i mod length ws)) [0..<n]"
  using routerPicks_from [OF assms(2,3), of r k 0 n payload] assms(1,4) by simp

theorem round_robin_cyclic_witness:
  "let r = (NewRuntime None '''' noHooks False (\<lambda>_. 0) 4 (\<lambda>_. None))\<lparr>rtRouters := [''a'' \<mapsto>
         \<lparr>rsStrategy = RouterStrategyRoundRobin, rsWorkers = [''x'', ''y''], rsRrNext = 0\<rparr>]\<rparr>
   in routerPicks 3 ''a'' NilAny r = [''x'', ''y'', ''x'']"
proof -
  let ?r = "(NewRuntime None '''' noHooks False (\<lambda>_. 0) 4 (\<lambda>_. None))\<lparr>rtRouters := [''a'' \<mapsto>
         \<lparr>rsStrategy = RouterStrategyRoundRobin, rsWorkers = [''x'', ''y''], rsRrNext = 0\<rparr>]\<rparr>"
  have u: "[0..<3] = [0, 1, 2::nat]" by (simp add: upt_rec)
  have "routerPicks 3 ''a'' NilAny ?r = map (\<lambda>i. [''x'', ''y''] ! (i mod length [''x'', ''y''])) [0..<3]"
    by (rule round_robin_cyclic) (simp_all add: NewRuntime_def)
  then show ?thesis by (simp add: Let_def u numeral_2_eq_2)
qed

section \<open>Sends by PID\<close>

text \<open>The sends that stay on this node: not a reply to an ask, and not for another node.\<close>

definition localTarget :: "Runtime \<Rightarrow> PID \<Rightarrow> bool" where
  "localTarget r pid \<longleftrightarrow> \<not> isAskReplyNamespace (pidNamespace pid) \<and>
     (chRemoteSend (rtHooks r) = None \<or> \<not> IsRemote pid (rtNodeID r))"

lemma sendPID_local:
  "localTarget r pid \<Longrightarrow>
   sendPIDWithSender s pid payload r = sendPIDLocal s pid payload (rtMsgSeq r + 1) (nextMsgID r)"
  by (auto simp: localTarget_def sendPIDWithSender_def routeAskReply_def Let_def split: option.split)

lemma rejectPID_effect:
  "rtInsts (fst (rejectPID ev g pid payload mid oc letter code r)) = rtInsts r"
  "psaOutcome (snd (rejectPID ev g pid payload mid oc letter code r)) = oc"
  "rtDeadLetters (fst (rejectPID ev g pid payload mid oc letter code r)) =
     (case letter of None \<Rightarrow> rtDeadLetters r | Some reason \<Rightarrow> dls_emitPID (rtDeadLetters r) pid payload reason)"
  by (simp_all add: rejectPID_def Let_def split: option.split)

text \<open>The rejection of a PID that is not current, and the reason of its dead letter.\<close>

definition rejection :: "Runtime \<Rightarrow> PID \<Rightarrow> PIDDeliveryOutcome \<times> string" where
  "rejection r pid =
     (case resolver_Resolve (rtResolver r) pid of
        None \<Rightarrow> if rtRegistry r (pidActorID pid) = None then (PIDRejectedNotFound, ''actor_not_found'')
                else (PIDUnresolved, ''pid_unresolved'')
      | Some e \<Rightarrow> if reRouteState e = PIDRouteStopped then (PIDRejectedStopped, ''actor_stopped'')
                 else (PIDRejectedStaleGeneration, ''stale_generation''))"

text \<open>
  Claim C5. A send to a local PID that is not current (unknown, stopped, or of an older
  generation) never reaches a mailbox: it returns the matching rejection, changes no actor, and
  emits exactly one dead letter with the PID, the payload and the reason, which an installed
  handler receives.
\<close>

theorem not_current_pid_rejected:
  assumes "localTarget r pid" and "\<not> pidCurrent (resolver_Resolve (rtResolver r) pid) pid"
  shows "\<exists>r' ack. SendPID pid payload r = Some (r', ack) \<and> psaOutcome ack = fst (rejection r pid) \<and>
     rtInsts r' = rtInsts r \<and>
     rtDeadLetters r' = dls_emitPID (rtDeadLetters r) pid payload (snd (rejection r pid)) \<and>
     dls_Count (rtDeadLetters r') = dls_Count (rtDeadLetters r) + 1"
proof -
  have "\<exists>ev g mid code. sendPIDLocal '''' pid payload (rtMsgSeq r + 1) (nextMsgID r) =
      Some (rejectPID ev g pid payload mid (fst (rejection r pid)) (Some (snd (rejection r pid))) code (nextMsgID r))"
    using assms(2)
    by (auto simp: sendPIDLocal_def Let_def rejection_def pidCurrent_def rt_registry_get_def split: option.splits)
  then obtain ev g mid code where s: "SendPID pid payload r = Some (rejectPID ev g pid payload mid
      (fst (rejection r pid)) (Some (snd (rejection r pid))) code (nextMsgID r))"
    by (auto simp: SendPID_def sendPID_local [OF assms(1)])
  have "dls_Count (dls_emitPID d p x y) = dls_Count d + 1" for d p x y
    by (simp add: dls_emitPID_def dls_emit_def dls_Count_def Let_def)
  with s rejectPID_effect [of ev g pid payload mid "fst (rejection r pid)" "Some (snd (rejection r pid))" code "nextMsgID r"]
  show ?thesis
    by (cases "rejectPID ev g pid payload mid (fst (rejection r pid)) (Some (snd (rejection r pid))) code (nextMsgID r)")
      simp
qed

theorem not_current_pid_rejected_witness:
  "let r = NewRuntime None '''' noHooks True (\<lambda>_. 0) 4 (\<lambda>_. None); pid = \<lparr>pidNamespace = ''n'', pidActorID = ''a'', pidGeneration = 1\<rparr>
   in \<exists>r' ack. SendPID pid NilAny r = Some (r', ack) \<and> psaOutcome ack = PIDRejectedNotFound \<and>
        map dlReason (dlsDelivered (rtDeadLetters r')) = [''actor_not_found'']"
proof -
  let ?r = "NewRuntime None '''' noHooks True (\<lambda>_. 0) 4 (\<lambda>_. None)"
  let ?p = "\<lparr>pidNamespace = ''n'', pidActorID = ''a'', pidGeneration = 1\<rparr>"
  have n: "resolver_Resolve (rtResolver ?r) ?p = None"
    by (simp add: NewRuntime_def NewInMemoryPIDResolver_def resolver_defs)
  have l: "localTarget ?r ?p" "\<not> pidCurrent (resolver_Resolve (rtResolver ?r) ?p) ?p"
    unfolding n by (simp_all add: localTarget_def isAskReplyNamespace_def NewRuntime_def noHooks_def pidCurrent_def)
  have j: "rejection ?r ?p = (PIDRejectedNotFound, ''actor_not_found'')"
    unfolding rejection_def n by (simp add: NewRuntime_def)
  have d: "rtDeadLetters ?r = \<lparr>dlsHandler = True, dlsCount = 0, dlsDelivered = []\<rparr>"
    by (simp add: NewRuntime_def newDeadLetterSink_def dls_setHandler_def)
  from not_current_pid_rejected [OF l, of NilAny] j d show ?thesis
    by (auto simp: Let_def dls_emitPID_def dls_emit_def)
qed

text \<open>
  A send to a current local PID (with the gateway up where it is mediated) is delivered
  exactly when the actor accepts the message, which is then in its mailbox. Otherwise it is
  reported as stopped, also when the mailbox is merely full, and no dead letter is emitted.
\<close>

theorem current_pid_send:
  assumes "localTarget r pid" and "pidCurrent (resolver_Resolve (rtResolver r) pid) pid"
    and "resolver_GatewayMode (rtResolver r) \<noteq> GatewayRouteGatewayMediated \<or> resolver_GatewayAvailable (rtResolver r)"
    and "rtRouters r (pidActorID pid) = None" and "payload \<noteq> NilAny" and "0 < rtStack r"
  shows "\<exists>r' ack. SendPID pid payload r = Some (r', ack) \<and>
     psaOutcome ack = (if submitSpec r (pidActorID pid) payload = SubmitAccepted then PIDDelivered else PIDRejectedStopped) \<and>
     rtInsts r' = submitInsts (nextMsgID r) (pidActorID pid) payload None \<and>
     rtDeadLetters r' = rtDeadLetters r"
proof -
  let ?r = "nextMsgID r" and ?a = "pidActorID pid"
  obtain e where e: "resolver_Resolve (rtResolver r) pid = Some e" "reRouteState e \<noteq> PIDRouteStopped"
    "pidGeneration pid = reCurrentGeneration e"
    using assms(2) by (auto simp: pidCurrent_def split: option.splits)
  obtain n where n: "rtStack r = Suc n" using assms(6) by (cases "rtStack r") auto
  obtain r1 ack where s: "sendDirect ?a payload None ?r = (r1, ack)" by (cases "sendDirect ?a payload None ?r")
  have sp: "saResult ack = submitSpec r ?a payload" "rtInsts r1 = submitInsts ?r ?a payload None"
    using sendDirect_spec [OF refl, of ?a payload None ?r] s by (simp_all add: submitSpec_next)
  have d: "rtDeadLetters r1 = rtDeadLetters r"
    using s by (auto simp: sendDirect_def submitToInst_def enqueueTo_def rejectSubmit_def rejectRouted_def updInst_def
        Let_def split: option.splits if_splits routeMatch.splits prod.splits)
  have sent: "Send ?a payload ?r = Some (r1, ack)" using assms(4,5) n s by (simp add: Send_def)
  show ?thesis
  proof (cases "saResult ack = SubmitAccepted")
    case True
    with e assms(3) sp d sent show ?thesis
      by (auto simp: SendPID_def sendPID_local [OF assms(1)] sendPIDLocal_def Let_def)
  next
    case False
    let ?x = "rejectPID EventPIDRejected ?a pid payload (saMessageID ack) PIDRejectedStopped None
      (strPIDDeliveryOutcome PIDRejectedStopped) r1"
    have "SendPID pid payload r = Some ?x"
      using False e assms(3) sent by (auto simp: SendPID_def sendPID_local [OF assms(1)] sendPIDLocal_def Let_def)
    moreover have "rtInsts (fst ?x) = rtInsts r1" "psaOutcome (snd ?x) = PIDRejectedStopped"
      "rtDeadLetters (fst ?x) = rtDeadLetters r1"
      by (simp_all add: rejectPID_effect)
    ultimately show ?thesis using False sp d by (cases ?x) auto
  qed
qed

text \<open>A runtime with one actor \<open>a\<close> that keeps the last payload, addressed in namespace \<open>n\<close>.\<close>

definition exPID :: PID where
  "exPID = \<lparr>pidNamespace = ''n'', pidActorID = ''a'', pidGeneration = 1\<rparr>"

definition exHandler :: handler where
  "exHandler = UserHandler (\<lambda>s m. HandlerOk (msgPayload m))"

definition exInst :: actorInstance where
  "exInst = \<lparr>aiID = ''a'', aiStatus = ActorStarting, aiMailbox = NewMailbox 1024, aiHandler = exHandler,
     aiState = newActorState NilAny, aiInitialState = NilAny, aiRestarts = 0, aiLastDecision = DecisionOther '''',
     aiCanceled = False, aiCfg = defaultActorConfig, aiBatch = zeroBatchConfig, aiPC = PcStart\<rparr>"

definition exRuntime :: Runtime where
  "exRuntime = (NewRuntime None '''' noHooks True (\<lambda>_. 0) 4 (\<lambda>_. None))\<lparr>
     rtRegistry := [''a'' \<mapsto> 0], rtInsts := [exInst],
     rtResolver := resolver_Register NewInMemoryPIDResolver exPID, rtActorPID := [''a'' \<mapsto> exPID]\<rparr>"

lemma exRuntime_built:
  "\<exists>r. CreateActor ''a'' NilAny (Some exHandler) defaultActorConfig (NewRuntime None '''' noHooks True (\<lambda>_. 0) 4 (\<lambda>_. None)) = Inr r \<and>
     IssuePID ''n'' ''a'' r = (exRuntime, Inr exPID)"
  by (simp add: CreateActor_def rt_registry_put_def IssuePID_def rt_registry_get_def PID_Validate_def Let_def
      exRuntime_def exPID_def exInst_def NewRuntime_def defaultActorConfig_def)

lemma exRuntime_fields:
  "rtRegistry exRuntime = [''a'' \<mapsto> 0]" "rtInsts exRuntime = [exInst]" "rtRouters exRuntime = Map.empty"
  "rtStack exRuntime = 4" "rtHooks exRuntime = noHooks" "rtNodeID exRuntime = ''''"
  "rtRouting exRuntime = newTypeRoutingRegistry" "rtMonitors exRuntime = newMonitorManager"
  "rtNames exRuntime = newNamedRegistry" "rtAsk exRuntime = newAskTables" "rtMsgSeq exRuntime = 0"
  "rtActorPID exRuntime = [''a'' \<mapsto> exPID]" "rtResolver exRuntime = resolver_Register NewInMemoryPIDResolver exPID"
  by (simp_all add: exRuntime_def NewRuntime_def)

lemma exRuntime_local: "localTarget exRuntime exPID"
  by (simp add: localTarget_def isAskReplyNamespace_def exRuntime_fields noHooks_def exPID_def)

lemma exRuntime_current: "pidCurrent (resolver_Resolve (rtResolver exRuntime) exPID) exPID"
  by (simp add: exRuntime_fields pidCurrent_def resolver_defs)

lemma exRuntime_accepts: "payload \<noteq> NilAny \<Longrightarrow> submitSpec exRuntime ''a'' payload = SubmitAccepted"
  by (simp add: submitSpec_def exRuntime_fields exInst_def resolveRoute_def newTypeRoutingRegistry_def
      NewMailbox_def Depth_def)

theorem current_pid_send_witness:
  "\<exists>r' ack. SendPID exPID (DownMessage 0 zeroPID '''') exRuntime = Some (r', ack) \<and> psaOutcome ack = PIDDelivered \<and>
     rtDeadLetters r' = rtDeadLetters exRuntime"
proof -
  have h: "resolver_GatewayMode (rtResolver exRuntime) \<noteq> GatewayRouteGatewayMediated \<or>
      resolver_GatewayAvailable (rtResolver exRuntime)"
    "rtRouters exRuntime (pidActorID exPID) = None" "DownMessage 0 zeroPID '''' \<noteq> NilAny" "0 < rtStack exRuntime"
    by (simp_all add: exRuntime_fields resolver_defs NewInMemoryPIDResolver_def)
  have "pidActorID exPID = ''a''" by (simp add: exPID_def)
  with current_pid_send [OF exRuntime_local exRuntime_current h] exRuntime_accepts [OF h(3)]
  show ?thesis by auto
qed

section \<open>Policies and names\<close>

text \<open>
  Under the PID-only policy an actor cannot send to another actor by ID: the call
  returns a rejection and changes no mailbox, whatever the target.
\<close>

lemma pid_only_policy_enforced:
  assumes "rtPidPolicy r = PIDInteractionPolicyPIDOnly" and "sender \<noteq> ''''" and "sender \<noteq> target"
  shows "\<exists>r' ack. CrossActorSendByActorID sender target payload r = Some (r', ack) \<and>
     saResult ack = SubmitRejectedFound \<and> rtInsts r' = rtInsts r"
  using assms by (simp add: CrossActorSendByActorID_def Let_def)

text \<open>
  A successful registration of a name makes the name resolve to the PID the
  registration returned, which is the PID recorded for the actor and lies in the requested
  namespace (\<open>default\<close> when it is empty); sending by name is then sending to that PID.
\<close>

theorem registered_name_resolves:
  assumes reg: "RegisterName a name ns r = (r1, ack, None)"
  shows "\<exists>r2. LookupName name r1 = (r2, \<lparr>raResult = RegistryLookupHit, raName = name, raPID = raPID ack\<rparr>) \<and>
    rtActorPID r1 a = Some (raPID ack) \<and> pidNamespace (raPID ack) = (if ns = '''' then ''default'' else ns) \<and>
    SendName name payload r1 = SendPID (raPID ack) payload r2"
proof -
  let ?ns = "if ns = '''' then ''default'' else ns"
  from reg obtain p where p: "rt_registry_get r a = Some p"
    by (cases "rt_registry_get r a") (auto simp: RegisterName_def Let_def)
  obtain r0 issued where i: "(case PIDForActor r a of
      Some pid \<Rightarrow> if pidNamespace pid = ?ns then (r, Inr pid) else IssuePID ?ns a r
    | None \<Rightarrow> IssuePID ?ns a r) = (r0, issued)" by fastforce
  obtain pid where pid: "issued = Inr pid"
    using reg p i by (cases issued) (auto simp: RegisterName_def Let_def)
  have n0: "rtNames r0 = rtNames r" and a0: "rtActorPID r0 a = Some pid" and ns: "pidNamespace pid = ?ns"
    using i pid p by (auto simp: PIDForActor_def IssuePID_def Let_def split: option.splits if_splits)
  obtain nr x where g: "nr_register (rtNames r) name a pid = (nr, x)" by (cases "nr_register (rtNames r) name a pid")
  obtain e where e: "x = Inr e" using reg p i pid g n0 by (cases x) (auto simp: RegisterName_def Let_def)
  have en: "e = \<lparr>reName = name, reActorID = a, rePid = pid\<rparr>" and look: "nr_lookup nr name = Some e"
    using g e by (auto simp: nr_register_def nr_lookup_def Let_def split: option.splits)
  have r1: "rtNames r1 = nr" "rtActorPID r1 = rtActorPID r0" "raPID ack = pid"
    using reg p i pid g n0 e en by (auto simp: RegisterName_def Let_def logCall_def split: if_splits)
  show ?thesis
    using look en r1 a0 ns by (simp add: LookupName_def SendName_def)
qed

theorem registered_name_resolves_witness:
  "\<exists>r1 ack r2. RegisterName ''a'' ''svc'' ''n'' exRuntime = (r1, ack, None) \<and>
     LookupName ''svc'' r1 = (r2, \<lparr>raResult = RegistryLookupHit, raName = ''svc'', raPID = exPID\<rparr>)"
proof -
  have v: "validateRegistryName ''svc'' = None" by (simp add: nameStart_def nameChar_def)
  obtain nr where n: "nr_register newNamedRegistry ''svc'' ''a'' exPID =
      (nr, Inr \<lparr>reName = ''svc'', reActorID = ''a'', rePid = exPID\<rparr>)"
    by (simp add: nr_register_def v newNamedRegistry_def Let_def del: validateRegistryName.simps)
  have ns: "pidNamespace exPID = ''n''" by (simp add: exPID_def)
  obtain r1 ack where r: "RegisterName ''a'' ''svc'' ''n'' exRuntime = (r1, ack, None)" and "raPID ack = exPID"
    by (simp add: RegisterName_def rt_registry_get_def exRuntime_fields PIDForActor_def Let_def ns n noHooks_def)
  with registered_name_resolves [OF r] show ?thesis by metis
qed

end
