(* ===== verification/AskProps.thy ===== *)
theory AskProps
  imports SendProps
begin

text \<open>
  Properties of asks: a waiting ask takes exactly one reply, the reply reaches the caller, later
  replies are turned away, and the request IDs that keep concurrent asks apart do not repeat
  before the 64-bit counter wraps.
\<close>

section \<open>Replies\<close>

lemma replyPID_here:
  "isAskReplyNamespace (pidNamespace (replyPID node q))"
  "node = '''' \<or> pidNamespace (replyPID node q) = askReplyNamespace \<or>
     pidNamespace (replyPID node q) = askReplyNamespace @ CHR ''@'' # node"
  "pidActorID (replyPID node q) = q"
  by (simp_all add: replyPID_def isAskReplyNamespace_def askReplyNamespace_def)

text \<open>The tables after the first reply to request \<open>q\<close>.\<close>

definition answered :: "string \<Rightarrow> string \<Rightarrow> pendingAsk \<Rightarrow> any \<Rightarrow> askTables \<Rightarrow> askTables" where
  "answered node q w body t = t\<lparr>askWait := (askWait t)(q := None),
     askReply := (askReply t)(Key (replyPID node q) := None),
     askClosed := gomap_put q (paTargetActor w) (askClosed t),
     askChan := (askChan t)(q := [AskReplyEnvelope q body])\<rparr>"

lemma routeAskReply_first:
  assumes "askInv (rtNodeID r) (rtAsk r)" and "askWait (rtAsk r) q = Some w" and "askEnvelope q payload = (q, body)"
  shows "routeAskReply (replyPID (rtNodeID r) q) payload mid r =
    Some (r\<lparr>rtAsk := answered (rtNodeID r) q w body (rtAsk r)\<rparr>, \<lparr>psaOutcome = PIDDelivered, psaMessageID = mid\<rparr>)"
proof -
  have k: "askReply (rtAsk r) (Key (replyPID (rtNodeID r) q)) = Some q" and c: "askChan (rtAsk r) q = []"
    using assms(1,2) unfolding askInv_def by blast+
  then show ?thesis
    using assms(2,3) by (simp add: routeAskReply_def replyPID_here Let_def answered_def)
qed

lemma routeAskReply_closed:
  assumes "askReply (rtAsk r) (Key (replyPID (rtNodeID r) q)) = None"
  shows "\<exists>r' oc. routeAskReply (replyPID (rtNodeID r) q) payload mid r =
      Some (r', \<lparr>psaOutcome = oc, psaMessageID = mid\<rparr>) \<and>
    oc = (if map_of (askClosed (rtAsk r)) q = None then PIDRejectedNotFound else PIDRejectedStopped) \<and>
    rtAsk r' = rtAsk r \<and> rtInsts r' = rtInsts r"
  using assms by (auto simp: routeAskReply_def replyPID_here Let_def split: option.split)

lemma late_reply_dropped:
  assumes "askReply (rtAsk r) (Key (replyPID (rtNodeID r) q)) = None"
  shows "\<exists>r' ack. SendPID (replyPID (rtNodeID r) q) payload r = Some (r', ack) \<and> psaOutcome ack \<noteq> PIDDelivered \<and>
    rtAsk r' = rtAsk r \<and> rtInsts r' = rtInsts r"
proof -
  from routeAskReply_closed [of "nextMsgID r" q payload "rtMsgSeq r + 1"] assms obtain r' oc where
    "routeAskReply (replyPID (rtNodeID r) q) payload (rtMsgSeq r + 1) (nextMsgID r) =
       Some (r', \<lparr>psaOutcome = oc, psaMessageID = rtMsgSeq r + 1\<rparr>)" "oc \<noteq> PIDDelivered"
    "rtAsk r' = rtAsk r" "rtInsts r' = rtInsts r" by auto
  then show ?thesis by (simp add: SendPID_def sendPIDWithSender_def Let_def)
qed

lemma ask_reply_steps:
  assumes inv: "askInv (rtNodeID r) (rtAsk r)" and w: "askWait (rtAsk r) q = Some w"
    and e: "askEnvelope q payload = (q, body)"
  obtains r2 ack r3 where "SendPID (paReplyTo w) payload r = Some (r2, ack)" "psaOutcome ack = PIDDelivered"
    "rtInsts r2 = rtInsts r" "AskResume a w WakeReply r2 = Some (r3, Inr \<lparr>arRequestID = q, arPayload = body\<rparr>)"
    "paReplyTo w = replyPID (rtNodeID r) q" "rtNodeID r2 = rtNodeID r" "rtNodeID r3 = rtNodeID r"
    "askReply (rtAsk r2) (Key (replyPID (rtNodeID r) q)) = None" "askReply (rtAsk r3) (Key (replyPID (rtNodeID r) q)) = None"
proof -
  let ?n = "rtNodeID r"
  have p: "paReplyTo w = replyPID ?n q" "paRequestID w = q" using inv w unfolding askInv_def by blast+
  from routeAskReply_first [of "nextMsgID r" q w payload body "rtMsgSeq r + 1"] inv w e
  have "routeAskReply (replyPID ?n q) payload (rtMsgSeq r + 1) (nextMsgID r) =
      Some ((nextMsgID r)\<lparr>rtAsk := answered ?n q w body (rtAsk r)\<rparr>,
        \<lparr>psaOutcome = PIDDelivered, psaMessageID = rtMsgSeq r + 1\<rparr>)"
    by simp
  then obtain r2 ack where s: "SendPID (paReplyTo w) payload r = Some (r2, ack)" "psaOutcome ack = PIDDelivered"
    "rtInsts r2 = rtInsts r" "rtAsk r2 = answered ?n q w body (rtAsk r)" "rtNodeID r2 = ?n"
    by (auto simp: SendPID_def sendPIDWithSender_def Let_def p)
  then obtain r3 where t: "AskResume a w WakeReply r2 = Some (r3, Inr \<lparr>arRequestID = q, arPayload = body\<rparr>)"
    "rtNodeID r3 = ?n" "askReply (rtAsk r3) (Key (replyPID ?n q)) = None"
    by (auto simp: AskResume_def Let_def p answered_def completeAskRequest_def)
  have "askReply (rtAsk r2) (Key (replyPID ?n q)) = None" by (simp add: s answered_def)
  with s(1,2,3,5) t p(1) show thesis using that by blast
qed

text \<open>
  Claim C17. An ask gets exactly one reply. While request \<open>q\<close> waits, a reply sent to its reply
  address is delivered, whatever the payload (an envelope must carry the ID of this request or
  none); the waiting caller then wakes up with exactly that payload. Every further reply,
  before or after the caller wakes, is refused and changes neither the ask tables nor any actor.
\<close>

theorem ask_exactly_one_reply:
  assumes "askInv (rtNodeID r) (rtAsk r)" and "askWait (rtAsk r) q = Some w" and "askEnvelope q payload = (q, body)"
  shows "\<exists>r2 ack r3. SendPID (paReplyTo w) payload r = Some (r2, ack) \<and> psaOutcome ack = PIDDelivered \<and>
     rtInsts r2 = rtInsts r \<and>
     AskResume a w WakeReply r2 = Some (r3, Inr \<lparr>arRequestID = q, arPayload = body\<rparr>) \<and>
     (\<forall>s late. s = r2 \<or> s = r3 \<longrightarrow> (\<exists>s' ack'. SendPID (paReplyTo w) late s = Some (s', ack') \<and>
        psaOutcome ack' \<noteq> PIDDelivered \<and> rtAsk s' = rtAsk s \<and> rtInsts s' = rtInsts s))"
proof -
  from ask_reply_steps [OF assms, of a] obtain r2 ack r3 where s:
    "SendPID (paReplyTo w) payload r = Some (r2, ack)" "psaOutcome ack = PIDDelivered"
    "rtInsts r2 = rtInsts r" "AskResume a w WakeReply r2 = Some (r3, Inr \<lparr>arRequestID = q, arPayload = body\<rparr>)"
    "paReplyTo w = replyPID (rtNodeID r) q" "rtNodeID r2 = rtNodeID r" "rtNodeID r3 = rtNodeID r"
    "askReply (rtAsk r2) (Key (replyPID (rtNodeID r) q)) = None" "askReply (rtAsk r3) (Key (replyPID (rtNodeID r) q)) = None" .
  have "\<exists>s' ack'. SendPID (paReplyTo w) late x = Some (s', ack') \<and>
      psaOutcome ack' \<noteq> PIDDelivered \<and> rtAsk s' = rtAsk x \<and> rtInsts s' = rtInsts x"
    if "x = r2 \<or> x = r3" for x late
    using that late_reply_dropped [of x q late] s(5-9) by auto
  with s(1-4) show ?thesis by blast
qed

theorem ask_exactly_one_reply_witness:
  "\<exists>r w r2 ack r3. newAskRequest ''a'' exRuntime = (r, w) \<and>
     SendPID (paReplyTo w) (DownMessage 7 zeroPID '''') r = Some (r2, ack) \<and> psaOutcome ack = PIDDelivered \<and>
     AskResume ''a'' w WakeReply r2 =
       Some (r3, Inr \<lparr>arRequestID = paRequestID w, arPayload = DownMessage 7 zeroPID ''''\<rparr>)"
proof -
  obtain r w where n: "newAskRequest ''a'' exRuntime = (r, w)" by fastforce
  have inv: "askInv (rtNodeID exRuntime) (rtAsk exRuntime)" by (simp add: exRuntime_fields)
  have i: "askInv (rtNodeID r) (rtAsk r)" and w: "askWait (rtAsk r) (paRequestID w) = Some w"
    using n askInv_newRequest [OF inv refl] by (auto simp: newAskRequest_eq Let_def)
  have "askEnvelope (paRequestID w) (DownMessage 7 zeroPID '''') = (paRequestID w, DownMessage 7 zeroPID '''')"
    by (simp add: askEnvelope_def)
  from ask_exactly_one_reply [OF i w this, of "''a''"] n show ?thesis by blast
qed

section \<open>Request IDs\<close>

text \<open>The request IDs of asks in a row, to the given actors.\<close>

primrec askIDs :: "string list \<Rightarrow> Runtime \<Rightarrow> string list" where
  "askIDs [] r = []"
| "askIDs (a # as) r = (let (r', w) = newAskRequest a r in paRequestID w # askIDs as r')"

lemma askIDs_eq:
  "askIDs as r = map (\<lambda>i. ''ask-'' @ string_of_u64 (askSeq (rtAsk r) + 1 + of_nat i)) [0..<length as]"
proof (induction as arbitrary: r)
  case (Cons a as)
  obtain r' w where n: "newAskRequest a r = (r', w)" by fastforce
  then have "paRequestID w = ''ask-'' @ string_of_u64 (askSeq (rtAsk r) + 1)"
    "askSeq (rtAsk r') = askSeq (rtAsk r) + 1"
    by (auto simp: newAskRequest_eq Let_def)
  then show ?case
    by (simp add: n Cons.IH map_upt_Suc add_ac del: upt_Suc)
qed simp

text \<open>
  Request IDs keep asks apart up to the width of the counter: the IDs of asks made in a
  row are pairwise distinct if and only if there are at most \<open>2 ^ 64\<close> of them.
\<close>

theorem ask_ids_distinct: "distinct (askIDs as r) \<longleftrightarrow> length as \<le> 2 ^ 64"
proof -
  let ?k = "length as"
  have "inj_on (\<lambda>i. ''ask-'' @ string_of_u64 (s + 1 + of_nat i)) {0..<?k} \<longleftrightarrow> inj_on (of_nat :: nat \<Rightarrow> u64) {0..<?k}"
    for s :: u64
    by (auto simp: inj_on_def string_of_u64_inj)
  also have "inj_on (of_nat :: nat \<Rightarrow> u64) {0..<?k} \<longleftrightarrow> ?k \<le> 2 ^ 64"
  proof
    assume "inj_on (of_nat :: nat \<Rightarrow> u64) {0..<?k}"
    then show "?k \<le> 2 ^ 64" using card_inj_on_le [of "of_nat :: nat \<Rightarrow> u64" "{0..<?k}" UNIV] by (simp add: card_word)
  next
    assume "?k \<le> 2 ^ 64"
    then have "unat (of_nat i :: u64) = i" if "i < ?k" for i using that by (simp add: unat_of_nat)
    then show "inj_on (of_nat :: nat \<Rightarrow> u64) {0..<?k}" by (intro inj_onI) (metis atLeastLessThan_iff)
  qed
  finally show ?thesis by (simp add: askIDs_eq distinct_map)
qed

end
