(* ===== verification/ActorProps.thy ===== *)
theory ActorProps
  imports AskProps
begin

text \<open>
  Properties of the life of an actor: the invariant of all reachable runtimes, the restart bound,
  progress of the goroutine, the effect of a restart, of draining the mailbox and of \<open>Stop\<close>.
\<close>

section \<open>Reachable runtimes\<close>

text \<open>
  Claim C10. Every reachable runtime is consistent, under any supervision policy and whatever
  calls, timers, publishes and actor goroutines interleave: the registry points to the actor
  with its ID, every mailbox is sound and holds only messages for its actor, an actor whose
  goroutine waits while messages are queued has its wake-up token, the name registry, the
  resolver, the ask tables, the monitors, the routers and each broker's tables and trie are
  each in their own invariant.
\<close>

theorem runtime_invariant:
  assumes "rt_step\<^sup>*\<^sup>* (NewRuntime (Some pol) node hooks dl rnd stack parse) r"
  shows "rtInv pol (\<lambda>_. True) r"
  using anyPolicy.reachable_inv assms .

text \<open>The example actor with an arbitrary handler, created and addressed.\<close>

lemma exActor_steps:
  "\<exists>r. rt_step\<^sup>*\<^sup>* (NewRuntime (Some pol) '''' noHooks True (\<lambda>_. 0) 4 (\<lambda>_. None)) r \<and>
     rtInsts r = [exInst\<lparr>aiHandler := UserHandler h\<rparr>] \<and> rtRegistry r = [''a'' \<mapsto> 0] \<and>
     rtActorPID r = [''a'' \<mapsto> exPID] \<and> rtResolver r = resolver_Register NewInMemoryPIDResolver exPID \<and>
     rtRouters r = Map.empty \<and> rtMonitors r = newMonitorManager \<and> rtStack r = 4 \<and> rtRouting r = newTypeRoutingRegistry"
proof -
  let ?n = "NewRuntime (Some pol) '''' noHooks True (\<lambda>_. 0) 4 (\<lambda>_. None)"
  let ?r1 = "?n\<lparr>rtRegistry := [''a'' \<mapsto> 0], rtInsts := [exInst\<lparr>aiHandler := UserHandler h\<rparr>]\<rparr>"
  let ?r2 = "?r1\<lparr>rtResolver := resolver_Register NewInMemoryPIDResolver exPID, rtActorPID := [''a'' \<mapsto> exPID]\<rparr>"
  have "CreateActor ''a'' NilAny (Some (UserHandler h)) defaultActorConfig ?n = Inr ?r1"
    by (simp add: CreateActor_def rt_registry_put_def Let_def exInst_def NewRuntime_def defaultActorConfig_def)
  moreover have "IssuePID ''n'' ''a'' ?r1 = (?r2, Inr exPID)"
    by (simp add: IssuePID_def rt_registry_get_def PID_Validate_def Let_def exPID_def NewRuntime_def)
  ultimately have "rt_step\<^sup>*\<^sup>* ?n ?r2" using rt_step.create rt_step.issue_pid by (meson converse_rtranclp_into_rtranclp rtranclp.rtrancl_refl)
  then show ?thesis by (intro exI [of _ ?r2] conjI) (simp_all add: NewRuntime_def)
qed

theorem runtime_invariant_witness:
  "\<exists>r. rtInv (\<lambda>_ _ _. DecisionRestart) (\<lambda>_. True) r \<and> length (rtInsts r) = 1 \<and> rtActorPID r ''a'' = Some exPID"
proof -
  obtain r where s: "rt_step\<^sup>*\<^sup>* (NewRuntime (Some (\<lambda>_ _ _. DecisionRestart)) '''' noHooks True (\<lambda>_. 0) 4 (\<lambda>_. None)) r"
    and f: "length (rtInsts r) = 1" "rtActorPID r ''a'' = Some exPID"
    using exActor_steps [of "\<lambda>_ _ _. DecisionRestart" "\<lambda>s m. HandlerOk s"] by auto
  from runtime_invariant [OF s] f show ?thesis by blast
qed

text \<open>
  Claim C18. Under \<open>DefaultSupervisor\<close> no actor of a reachable runtime has been restarted more
  often than the configured maximum (once when the maximum is negative).
\<close>

theorem restarts_bounded:
  assumes "rt_step\<^sup>*\<^sup>* (NewRuntime (Some (Decide d)) node hooks dl rnd stack parse) r" and "i \<in> set (rtInsts r)"
  shows "0 \<le> aiRestarts i \<and> aiRestarts i \<le> effectiveMax d"
proof -
  have "rtInv (Decide d) (\<lambda>n. 0 \<le> n \<and> n \<le> effectiveMax d) r" using dflt.within.reachable_inv assms(1) .
  with assms(2) show ?thesis by (simp add: rtInv_def instInv_def)
qed

theorem restarts_bounded_witness:
  "\<exists>r :: Runtime. \<exists>i\<in>set (rtInsts r). aiRestarts i \<le> effectiveMax \<lparr>dsMaxRestarts = 2, dsOnLimit = DecisionStop\<rparr>"
proof -
  let ?d = "\<lparr>dsMaxRestarts = 2, dsOnLimit = DecisionStop\<rparr>"
  obtain r i where s: "rt_step\<^sup>*\<^sup>* (NewRuntime (Some (Decide ?d)) '''' noHooks True (\<lambda>_. 0) 4 (\<lambda>_. None)) r" and i: "i \<in> set (rtInsts r)"
    using exActor_steps [of "Decide ?d" "\<lambda>s m. HandlerOk s"] by force
  from restarts_bounded [OF s i] i show ?thesis by blast
qed


text \<open>The example actor after its start and one accepted message.\<close>

lemma exWaiting_steps:
  "\<exists>r i. rt_step\<^sup>*\<^sup>* (NewRuntime (Some pol) '''' noHooks True (\<lambda>_. 0) 4 (\<lambda>_. None)) r \<and> rtInsts r = [i] \<and>
     aiPC i = PcSelect \<and> length (mbContents (aiMailbox i)) = 1 \<and> aiHandler i = UserHandler h \<and> aiCfg i = defaultActorConfig \<and>
     aiBatch i = zeroBatchConfig \<and> rtRegistry r = [''a'' \<mapsto> 0] \<and> rtMonitors r = newMonitorManager \<and> aiStatus i = ActorRunning"
proof -
  let ?n = "NewRuntime (Some pol) '''' noHooks True (\<lambda>_. 0) 4 (\<lambda>_. None)" and ?u = "DownMessage 0 zeroPID ''''"
  let ?i = "exInst\<lparr>aiHandler := UserHandler h, aiStatus := ActorRunning, aiPC := PcSelect\<rparr>"
  obtain r1 where s1: "rt_step\<^sup>*\<^sup>* ?n r1" and f1: "rtInsts r1 = [exInst\<lparr>aiHandler := UserHandler h\<rparr>]" "rtRegistry r1 = [''a'' \<mapsto> 0]"
    "rtRouters r1 = Map.empty" "rtRouting r1 = newTypeRoutingRegistry" "rtStack r1 = 4" "rtMonitors r1 = newMonitorManager"
    using exActor_steps [of pol h] by blast
  have s2: "rt_step r1 (actorStart 0 r1)" by (rule rt_step.actor_start) (simp_all add: f1 exInst_def)
  obtain r2 where s3: "rt_step\<^sup>*\<^sup>* ?n r2" and f: "rtInsts r2 = [?i]" "rtRegistry r2 = [''a'' \<mapsto> 0]"
    "rtRouters r2 = Map.empty" "rtRouting r2 = newTypeRoutingRegistry" "rtStack r2 = 4" "rtMonitors r2 = newMonitorManager"
  proof
    show "rt_step\<^sup>*\<^sup>* ?n (actorStart 0 r1)" using s1 s2 by auto
  qed (simp_all add: actorStart_def Let_def runLifecycleHook_def exInst_def defaultActorConfig_def updInst_def f1)
  obtain r3 ack where d: "sendDirect ''a'' ?u None r2 = (r3, ack)" by (cases "sendDirect ''a'' ?u None r2")
  have "rt_step r2 r3"
    by (rule rt_step.send [where a = "''a''" and payload = ?u and ctx = None and ack = ack])
      (use f d in \<open>simp add: DeliverLocal_def numeral_eq_Suc\<close>)
  with s3 have s4: "rt_step\<^sup>*\<^sup>* ?n r3" by simp
  have "sendRel r2 r3" using sendDirect_rel [of r2 ?u "''a''" None] d by (simp add: regInv_def f exInst_def)
  then have "rtRegistry r3 = [''a'' \<mapsto> 0]" "rtMonitors r3 = newMonitorManager" by (simp_all add: sendRelD f)
  moreover have "submitSpec r2 ''a'' ?u = SubmitAccepted"
    by (simp add: submitSpec_def f exInst_def resolveRoute_def newTypeRoutingRegistry_def NewMailbox_def Depth_def)
  then have "rtInsts r3 = [?i\<lparr>aiMailbox := fst (Enqueue (NewMailbox 1024) (buildMessage (rtMsgSeq r2 + 1) ''a'' ?u None))\<rparr>]"
    using sendDirect_spec [OF refl, of "''a''" ?u None r2] d by (simp add: submitInsts_def f exInst_def)
  ultimately show ?thesis using s4
    by (intro exI conjI) (assumption | simp add: exInst_def NewMailbox_def Enqueue_def Depth_def mbContents_def)+
qed

section \<open>One message\<close>

text \<open>A start hook that succeeds whenever it runs, or none.\<close>

definition hookOk :: "actorInstance \<Rightarrow> bool" where
  "hookOk i \<longleftrightarrow> (\<forall>h n. acStartHook (aiCfg i) = Some h \<longrightarrow> hookFailure (h n) = None)"

text \<open>The instance after a restart, as supervision leaves it.\<close>

definition restarted :: "actorInstance \<Rightarrow> actorInstance" where
  "restarted i = i\<lparr>aiLastDecision := DecisionRestart, aiStatus := ActorRunning, aiRestarts := aiRestarts i + 1,
     aiState := newActorState (aiInitialState i)\<rparr>"

lemma processMessage_ok:
  assumes "p < length (rtInsts r)" and "aiHandler (instAt r p) = UserHandler h"
    and "h (actorState_value (aiState (instAt r p))) m = HandlerOk n"
  shows "\<exists>r'. processMessage p m r = Some r' \<and> rtPolicy r' = rtPolicy r \<and>
    rtInsts r' = (rtInsts r)[p := (instAt r p)\<lparr>aiState := actorState_apply (aiState (instAt r p)) n\<rparr>]"
  using assms by (simp add: processMessage_def runHandler_def Let_def handlerError_def updInst_def)

lemma updInst_frame [simp]:
  "rtActorPID (updInst p f r) = rtActorPID r" "rtResolver (updInst p f r) = rtResolver r"
  "rtPolicy (updInst p f r) = rtPolicy r" "rtRegistry (updInst p f r) = rtRegistry r"
  "rtInsts (updInst p f r) = (rtInsts r)[p := f (instAt r p)]"
  by (simp_all add: updInst_def)

lemma runLifecycleHook_ok:
  assumes "hookOk (instAt r p)" shows "\<exists>r'. runLifecycleHook p r = (r', False) \<and> rtInsts r' = rtInsts r \<and>
    rtPolicy r' = rtPolicy r \<and> rtActorPID r' = rtActorPID r \<and> rtResolver r' = rtResolver r"
  using assms obsOnly_hook(1) [THEN obsOnly_frame(2)] obsOnly_hook(1) [THEN obsOnly_frame(4)]
    obsOnly_hook(1) [THEN obsOnly_frame(7)] obsOnly_hook(1) [THEN obsOnly_frame(8)]
  by (cases "acStartHook (aiCfg (instAt r p))") (simp_all add: runLifecycleHook_def hookOk_def Let_def)

lemma applyDecision_restart:
  assumes "p < length (rtInsts r)" and "hookOk (instAt r p)" and "aiLastDecision (instAt r p) = DecisionRestart"
  shows "\<exists>r'. applyDecision p mid b DecisionRestart r = Some r' \<and> rtPolicy r' = rtPolicy r \<and>
    rtInsts r' = (rtInsts r)[p := restarted (instAt r p)] \<and>
    rtActorPID r' = rtActorPID (restartActor p r) \<and> rtResolver r' = rtResolver (restartActor p r)"
proof -
  let ?i = "(instAt r p)\<lparr>aiStatus := ActorRestarting, aiRestarts := aiRestarts (instAt r p) + 1,
      aiState := newActorState (aiInitialState (instAt r p))\<rparr>"
  have i: "rtInsts (restartActor p r) = (rtInsts r)[p := ?i]" "rtPolicy (restartActor p r) = rtPolicy r"
    by (simp_all add: restartActor_eq Let_def split: option.split)
  have "hookOk (instAt (restartActor p r) p)" using assms(1,2) by (simp add: i hookOk_def)
  from runLifecycleHook_ok [OF this] obtain r1 where
    r1: "runLifecycleHook p (restartActor p r) = (r1, False)" "rtInsts r1 = (rtInsts r)[p := ?i]"
      "rtPolicy r1 = rtPolicy r" "rtActorPID r1 = rtActorPID (restartActor p r)" "rtResolver r1 = rtResolver (restartActor p r)"
    using i by auto
  have "?i\<lparr>aiStatus := ActorRunning\<rparr> = restarted (instAt r p)"
    using assms(3) by (simp add: restarted_def)
  with r1 assms(1) show ?thesis
    by (simp add: applyDecision_def Let_def setStatus_def)
qed

lemma processMessage_restart:
  assumes "p < length (rtInsts r)" and "aiHandler (instAt r p) = UserHandler h"
    and "handlerError (h (actorState_value (aiState (instAt r p))) m) = Some err"
    and "rtPolicy r (aiID (instAt r p)) err (aiRestarts (instAt r p)) = DecisionRestart"
    and "hookOk (instAt r p)"
  shows "\<exists>r'. processMessage p m r = Some r' \<and> rtPolicy r' = rtPolicy r \<and>
    rtInsts r' = (rtInsts r)[p := restarted (instAt r p)] \<and>
    rtActorPID r' = rtActorPID (restartActor p r) \<and> rtResolver r' = rtResolver (restartActor p r)"
proof -
  let ?i = "instAt r p"
  let ?r = "updInst p (\<lambda>i. i\<lparr>aiLastDecision := DecisionRestart\<rparr>)
     (emitDecision EventActorFailed (aiID ?i) (msgID m) DecisionRestart (aiRestarts ?i) (strProcessingResult ResultFailed)
        ''handler_error'' (putOutcome (failedOutcome (msgID m) (aiID ?i) DecisionRestart (aiRestarts ?i) ''handler_error'') r))"
  have p: "processMessage p m r = applyDecision p (msgID m) None DecisionRestart ?r"
    using assms(2-4) by (simp add: processMessage_def runHandler_def Let_def)
  have l: "p < length (rtInsts ?r)" "hookOk (instAt ?r p)" "aiLastDecision (instAt ?r p) = DecisionRestart"
    using assms(1,5) by (simp_all add: hookOk_def)
  have e: "restarted (instAt ?r p) = restarted ?i" using assms(1) by (simp add: restarted_def)
  have "rtActorPID (restartActor p ?r) = rtActorPID (restartActor p r)"
    "rtResolver (restartActor p ?r) = rtResolver (restartActor p r)"
    using assms(1) by (simp_all add: restartActor_eq Let_def split: option.split)
  with applyDecision_restart [OF l, of "msgID m" None] e assms(1) show ?thesis
    unfolding p by auto
qed

text \<open>
  The effect of a restart: a failing message for which the policy decides to restart
  leaves the actor running with its initial state, one more restart and its mailbox preserved,
  and changes no other actor. If the actor had a PID, the recorded PID is the one with the next
  generation, it is current, and the old one is not current any more.
\<close>

theorem restart_effect:
  assumes "rtInv pol B r" and "p < length (rtInsts r)" and "i = instAt r p" and "aiHandler i = UserHandler h"
    and "handlerError (h (actorState_value (aiState i)) m) = Some err"
    and "pol (aiID i) err (aiRestarts i) = DecisionRestart" and "hookOk i"
  shows "\<exists>r' i'. processMessage p m r = Some r' \<and> rtInsts r' = (rtInsts r)[p := i'] \<and>
     aiStatus i' = ActorRunning \<and> aiRestarts i' = aiRestarts i + 1 \<and>
     actorState_value (aiState i') = aiInitialState i \<and> aiMailbox i' = aiMailbox i \<and>
     (\<forall>old. rtActorPID r (aiID i) = Some old \<and> pidCurrent (resolver_Resolve (rtResolver r) old) old \<longrightarrow>
        (\<exists>new. rtActorPID r' (aiID i) = Some new \<and> pidGeneration new = pidGeneration old + 1 \<and> Key new = Key old \<and>
          pidCurrent (resolver_Resolve (rtResolver r') new) new \<and>
          \<not> pidCurrent (resolver_Resolve (rtResolver r') old) old))"
proof -
  have pol: "rtPolicy r = pol" and rs: "resInv (rtResolver r)" using assms(1) by (simp_all add: rtInv_def)
  from processMessage_restart [of p r h m err] assms pol obtain r' where
    r': "processMessage p m r = Some r'" "rtInsts r' = (rtInsts r)[p := restarted i]"
      "rtActorPID r' = rtActorPID (restartActor p r)" "rtResolver r' = rtResolver (restartActor p r)"
    by auto
  have pid: "\<exists>new. rtActorPID r' (aiID i) = Some new \<and> pidGeneration new = pidGeneration old + 1 \<and> Key new = Key old \<and>
      pidCurrent (resolver_Resolve (rtResolver r') new) new \<and> \<not> pidCurrent (resolver_Resolve (rtResolver r') old) old"
    if old: "rtActorPID r (aiID i) = Some old" "pidCurrent (resolver_Resolve (rtResolver r) old) old" for old
  proof -
    let ?new = "bumpedPID (rtResolver r) old"
    have k: "Key ?new = Key old" using rs by (rule Key_bumpedPID)
    have g: "pidGeneration ?new = pidGeneration old + 1"
      using old(2) by (auto simp: bumpedPID_def pidCurrent_def resolver_Resolve_def split: option.splits)
    have e: "rtActorPID r' (aiID i) = Some ?new"
      "rtResolver r' = (rtResolver r)\<lparr>rsByKey := (rsByKey (rtResolver r))(Key old \<mapsto>
         \<lparr>rePID = ?new, reRouteState = PIDRouteReachable, reCurrentGeneration = pidGeneration ?new\<rparr>)\<rparr>"
      using old(1) assms(2,3) by (simp_all add: r' restartActor_eq Let_def)
    show ?thesis
      by (intro exI [of _ ?new]) (simp add: e g k pidCurrent_def resolver_Resolve_def)
  qed
  have "aiStatus (restarted i) = ActorRunning" "aiRestarts (restarted i) = aiRestarts i + 1"
    "actorState_value (aiState (restarted i)) = aiInitialState i" "aiMailbox (restarted i) = aiMailbox i"
    by (simp_all add: restarted_def actorState_value_def newActorState_def)
  with r'(1,2) pid show ?thesis by blast
qed

theorem restart_effect_witness:
  "\<exists>r r' i' new. rtActorPID r ''a'' = Some exPID \<and> processMessage 0 zeroMessage r = Some r' \<and> rtInsts r' = [i'] \<and>
     aiStatus i' = ActorRunning \<and> aiRestarts i' = 1 \<and> rtActorPID r' ''a'' = Some new \<and> pidGeneration new = 2"
proof -
  let ?h = "\<lambda>s m. HandlerErr ErrAskTimeout" and ?pol = "\<lambda>_ _ _. DecisionRestart"
  let ?i = "exInst\<lparr>aiHandler := UserHandler ?h\<rparr>"
  obtain r where s: "rt_step\<^sup>*\<^sup>* (NewRuntime (Some ?pol) '''' noHooks True (\<lambda>_. 0) 4 (\<lambda>_. None)) r"
    and f: "rtInsts r = [?i]" "rtActorPID r = [''a'' \<mapsto> exPID]" "rtResolver r = resolver_Register NewInMemoryPIDResolver exPID"
    using exActor_steps [of ?pol ?h] by blast
  have v: "rtInv ?pol (\<lambda>_. True) r" using anyPolicy.reachable_inv s .
  have c: "pidCurrent (resolver_Resolve (rtResolver r) exPID) exPID"
    using exRuntime_current by (simp add: f exRuntime_fields)
  from restart_effect [OF v, of 0 ?i ?h zeroMessage ErrAskTimeout] obtain r' i' new where
    "processMessage 0 zeroMessage r = Some r'" "rtInsts r' = [i']" "aiStatus i' = ActorRunning" "aiRestarts i' = 1"
    "rtActorPID r' ''a'' = Some new" "pidGeneration new = pidGeneration exPID + 1"
    using c by (auto simp: f handlerError_def hookOk_def exInst_def defaultActorConfig_def)
  moreover have "pidGeneration exPID = 1" by (simp add: exPID_def)
  ultimately show ?thesis using f(2) by (intro exI [of _ r] exI [of _ r'] exI [of _ i'] exI [of _ new]) simp
qed

section \<open>Draining the mailbox\<close>

text \<open>
  The reference: handle the messages in order, starting again from the initial state after each
  failure, and count the failures.
\<close>

fun runMessages :: "(any \<Rightarrow> Message \<Rightarrow> handlerResult) \<Rightarrow> any \<Rightarrow> Message list \<Rightarrow> any \<times> int \<Rightarrow> any \<times> int" where
  "runMessages h init [] sn = sn"
| "runMessages h init (m # ms) (s, n) =
     runMessages h init ms (case h s m of HandlerOk s' \<Rightarrow> (s', n) | _ \<Rightarrow> (init, n + 1))"

text \<open>The hypotheses of draining, on the instance.\<close>

definition drains :: "(any \<Rightarrow> Message \<Rightarrow> handlerResult) \<Rightarrow> actorInstance \<Rightarrow> bool" where
  "drains h i \<longleftrightarrow> mbInv (aiMailbox i) \<and> aiHandler i = UserHandler h \<and>
     \<not> (bcEnabled (aiBatch i) \<and> bcMaxSize (aiBatch i) > 1) \<and> hookOk i \<and> aiPC i = PcDrain"

lemma drainStep_message:
  assumes p: "p < length (rtInsts r)" and d: "drains h (instAt r p)" and c: "mbContents (aiMailbox (instAt r p)) = m # ms"
    and pol: "\<And>e n. rtPolicy r (aiID (instAt r p)) e n = DecisionRestart"
  shows "\<exists>r'. drainStep p r = Some r' \<and> rtInsts r' = (rtInsts r)[p := instAt r' p] \<and> rtPolicy r' = rtPolicy r \<and> drains h (instAt r' p) \<and>
     aiID (instAt r' p) = aiID (instAt r p) \<and> aiInitialState (instAt r' p) = aiInitialState (instAt r p) \<and> mbContents (aiMailbox (instAt r' p)) = ms \<and>
     (handlerError (h (actorState_value (aiState (instAt r p))) m) \<noteq> None \<longrightarrow> aiStatus (instAt r' p) = ActorRunning) \<and>
     (actorState_value (aiState (instAt r' p)), aiRestarts (instAt r' p)) = runMessages h (aiInitialState (instAt r p)) [m]
        (actorState_value (aiState (instAt r p)), aiRestarts (instAt r p))"
proof -
  let ?i = "instAt r p"
  let ?mb = "fst (Dequeue (aiMailbox ?i))"
  let ?r = "updInst p (\<lambda>i. i\<lparr>aiMailbox := ?mb\<rparr>) r"
  have q: "mbContents ?mb = ms" "snd (Dequeue (aiMailbox ?i)) = Some m" "mbInv ?mb"
    using Dequeue_contents_Cons [OF _ c] Dequeue_inv d by (auto simp: drains_def)
  have s: "drainStep p r = processMessage p m ?r"
    using d q(2) by (cases "Dequeue (aiMailbox ?i)") (auto simp: drainStep_def drains_def Let_def)
  let ?s = "actorState_value (aiState ?i)"
  show ?thesis
  proof (cases "handlerError (h ?s m)")
    case None
    then obtain n where n: "h ?s m = HandlerOk n" by (auto simp: handlerError_def split: handlerResult.splits)
    with processMessage_ok [of p ?r h m n] p d q show ?thesis
      unfolding s by (auto simp: drains_def hookOk_def actorState_value_def actorState_apply_def handlerError_def)
  next
    case (Some e)
    have "runMessages h (aiInitialState ?i) [m] (?s, aiRestarts ?i) = (aiInitialState ?i, aiRestarts ?i + 1)"
      using Some by (auto simp: handlerError_def split: handlerResult.splits)
    with processMessage_restart [of p ?r h m e] p d q pol Some show ?thesis
      unfolding s by (auto simp: drains_def hookOk_def actorState_value_def newActorState_def restarted_def)
  qed
qed





section \<open>Stopping\<close>

text \<open>The runtime when \<open>Stop\<close> starts to clean up: the actor is marked, cancelled and closed.\<close>

definition stopMarked :: "nat \<Rightarrow> string \<Rightarrow> Runtime \<Rightarrow> Runtime" where
  "stopMarked p a r = updInst p (\<lambda>i. i\<lparr>aiCanceled := True, aiMailbox := Close (aiMailbox i)\<rparr>)
     (stopResolver a (setStatus p ActorStopped (runLifecycleStopHookWithTimeout p (setStatus p ActorStopping r))))"

lemma stopHook_frame [simp]:
  "rtInsts (runLifecycleStopHookWithTimeout p r) = rtInsts r" "rtResolver (runLifecycleStopHookWithTimeout p r) = rtResolver r"
  "rtNames (runLifecycleStopHookWithTimeout p r) = rtNames r" "rtMonitors (runLifecycleStopHookWithTimeout p r) = rtMonitors r"
  "rtActorPID (runLifecycleStopHookWithTimeout p r) = rtActorPID r" "rtRegistry (runLifecycleStopHookWithTimeout p r) = rtRegistry r"
  "rtStack (runLifecycleStopHookWithTimeout p r) = rtStack r"
  using obsOnly_hook(1) [THEN obsOnly_frame(2)] obsOnly_hook(1) [THEN obsOnly_frame(7)] obsOnly_hook(1) [THEN obsOnly_frame(3)]
    obsOnly_hook(1) [THEN obsOnly_frame(20)] obsOnly_hook(1) [THEN obsOnly_frame(8)] obsOnly_hook(1) [THEN obsOnly_frame(1)]
    obsOnly_hook(1) [THEN obsOnly_frame(22)]
  by (simp_all add: runLifecycleStopHookWithTimeout_def Let_def split: option.split stopHookResult.split)

lemma stopPolicy: "rtPolicy (runLifecycleStopHookWithTimeout p r) = rtPolicy r"
  using obsOnly_hook(1) [THEN obsOnly_frame(4)]
  by (simp add: runLifecycleStopHookWithTimeout_def Let_def split: option.split stopHookResult.split)

lemma stopMarked_fields:
  assumes "p < length (rtInsts r)"
  shows "rtInsts (stopMarked p a r) = (rtInsts r)[p := (instAt r p)\<lparr>aiStatus := ActorStopped, aiCanceled := True,
           aiMailbox := Close (aiMailbox (instAt r p))\<rparr>]"
    "rtNames (stopMarked p a r) = rtNames r" "rtMonitors (stopMarked p a r) = rtMonitors r"
    "rtRegistry (stopMarked p a r) = rtRegistry r" "rtActorPID (stopMarked p a r) = rtActorPID r"
    "rtStack (stopMarked p a r) = rtStack r"
    "rtResolver (stopMarked p a r) = (case rtActorPID r a of None \<Rightarrow> rtResolver r
       | Some pid \<Rightarrow> resolver_SetState (rtResolver r) pid PIDRouteStopped)"
  using assms
  by (simp_all add: stopMarked_def stopResolver_def setStatus_def updInst_def split: option.split)

lemma stopHook_node [simp]: "rtNodeID (runLifecycleStopHookWithTimeout p r) = rtNodeID r"
  using obsOnly_hook(1) [THEN obsOnly_frame(15)]
  by (simp add: runLifecycleStopHookWithTimeout_def Let_def split: option.split stopHookResult.split)

lemma stopMarked_node: "rtNodeID (stopMarked p a r) = rtNodeID r"
  by (simp add: stopMarked_def stopResolver_def setStatus_def updInst_def split: option.split)

lemma stopTail_rel:
  assumes "stopTail p a (setStatus p ActorStopping r) = Some r'" and "regInv r" and p: "rtRegistry r a = Some p"
  shows "p < length (rtInsts r)" and "sendRel ((stopMarked p a r)\<lparr>rtNames := fst (nr_unregisterByActor (rtNames r) a),
        rtMonitors := fst (mm_drain (rtMonitors r) a)\<rparr>) r'" and "regInv (stopMarked p a r)"
proof -
  show l: "p < length (rtInsts r)" using assms(2) p by (auto simp: regInv_def)
  show m: "regInv (stopMarked p a r)"
    using assms(2) l unfolding regInv_def stopMarked_fields [OF l]
    by (metis (no_types, lifting) actorInstance.select_convs(1) actorInstance.surjective actorInstance.update_convs(2,3,9)
        length_list_update nth_list_update)
  have "cleanupRegistryForActor a RegistryUnregisterLifecycleTerm (stopMarked p a r) = Some r'"
    using assms(1) by (simp add: stopTail_def Let_def stopMarked_def)
  with m show "sendRel ((stopMarked p a r)\<lparr>rtNames := fst (nr_unregisterByActor (rtNames r) a),
        rtMonitors := fst (mm_drain (rtMonitors r) a)\<rparr>) r'"
    using cleanup_rel stopMarked_fields(2,3) [OF l] by metis
qed

lemma Stop_stopped:
  assumes "Stop a r = Some (r', StopStopped)" and "regInv r"
  obtains p where "rtRegistry r a = Some p" "p < length (rtInsts r)"
    "sendRel ((stopMarked p a r)\<lparr>rtNames := fst (nr_unregisterByActor (rtNames r) a),
        rtMonitors := fst (mm_drain (rtMonitors r) a)\<rparr>) r'"
proof -
  obtain p where p: "rtRegistry r a = Some p" and s: "stopTail p a (setStatus p ActorStopping r) = Some r'"
    using assms(1) by (auto simp: Stop_def rt_registry_get_def split: option.splits if_splits)
  show ?thesis using that [OF p] stopTail_rel [OF s assms(2) p] by blast
qed

text \<open>
  Claim C20. What \<open>Stop\<close> leaves behind: in the runtime in which it returns after stopping an actor,
  the status of the actor is stopped, exactly its names are freed, its monitors are drained, its
  PID is not current, a second \<open>Stop\<close> changes nothing, and a send to it, also when it was configured
  as a router, is rejected without touching any actor: as a nil payload when the payload is nil, as
  stopped otherwise. The runtime before is any that satisfies the runtime invariant and has room on
  its stack. Nothing is said about later steps of the actor's goroutine.
\<close>

theorem stop_effect:
  assumes v: "rtInv pol B r" and s: "Stop a r = Some (r', StopStopped)" and "0 < rtStack r"
  shows "Status r' a = ActorStopped \<and> Stop a r' = Some (r', StopAlready) \<and>
     nr_lookup (rtNames r') = nrSpec (nr_lookup (rtNames r)) (NrUnregisterByActor a) \<and>
     mmByTarget (rtMonitors r') a = None \<and>
     (\<forall>pid. rtActorPID r a = Some pid \<longrightarrow> \<not> pidCurrent (resolver_Resolve (rtResolver r') pid) pid) \<and>
     (\<forall>payload ctx. \<exists>r2 ack. DeliverLocal a payload ctx r' = Some (r2, ack) \<and> rtInsts r2 = rtInsts r' \<and>
        saResult ack = (if payload = NilAny then SubmitRejectedNilPayload else SubmitRejectedStop))"
proof -
  from v have reg: "regInv r" and nr: "nrInv (rtNames r)" by (simp_all add: rtInv_def)
  from Stop_stopped [OF s reg] obtain p where p: "rtRegistry r a = Some p" "p < length (rtInsts r)" and
    rel: "sendRel ((stopMarked p a r)\<lparr>rtNames := fst (nr_unregisterByActor (rtNames r) a),
        rtMonitors := fst (mm_drain (rtMonitors r) a)\<rparr>) r'" by metis
  note f = stopMarked_fields [OF p(2)]
  have st: "rtRegistry r' a = Some p" "aiStatus (instAt r' p) = ActorStopped"
    using sendRelD(1) [OF rel] instGrow_fields [OF sendRelD(17) [OF rel, of p]] p f by simp_all
  have sends: "\<exists>r2 ack. DeliverLocal a payload ctx r' = Some (r2, ack) \<and> rtInsts r2 = rtInsts r' \<and>
      saResult ack = (if payload = NilAny then SubmitRejectedNilPayload else SubmitRejectedStop)" for payload ctx
  proof -
    obtain n where n: "rtStack r' = Suc n" using assms(3) sendRelD(15) [OF rel] f by (cases "rtStack r") auto
    let ?j = "\<lambda>pr sr. rejectSubmit a (rtMsgSeq r' + 1) pr sr (nextMsgID r')"
    let ?x = "if payload = NilAny then ?j ResultRejectedNilPayload SubmitRejectedNilPayload else ?j ResultRejectedStop SubmitRejectedStop"
    have "DeliverLocal a payload ctx r' = Some ?x"
      using n st by (cases "rtRouters r' a") (auto simp: DeliverLocal_def sendDirect_def Let_def rt_registry_get_def)
    moreover have "rtInsts (fst ?x) = rtInsts r'" "saResult (snd ?x) = (if payload = NilAny then SubmitRejectedNilPayload else SubmitRejectedStop)"
      by simp_all
    ultimately show ?thesis by (metis (no_types, lifting) prod.collapse)
  qed
  have "nr_lookup (rtNames r') = nrSpec (nr_lookup (rtNames r)) (NrUnregisterByActor a)"
    using sendRelD(2) [OF rel] names.look_unregA [OF nr, of a] by simp
  moreover have "mmByTarget (rtMonitors r') a = None"
    using sendRelD(13) [OF rel] by (simp add: mm_drain_def Let_def)
  moreover have "\<not> pidCurrent (resolver_Resolve (rtResolver r') pid) pid" if "rtActorPID r a = Some pid" for pid
    using that sendRelD(5) [OF rel] f(7)
    by (simp add: pidCurrent_def resolver_defs Let_def split: option.split)
  ultimately show ?thesis
    using st sends by (simp add: Status_def rt_registry_get_def Stop_def)
qed

lemma Stop_no_monitors:
  assumes "rtRegistry r a = Some p" and "aiStatus (instAt r p) \<noteq> ActorStopped" and "rtMonitors r = newMonitorManager"
    and "p < length (rtInsts r)"
  shows "\<exists>r'. Stop a r = Some (r', StopStopped)"
proof -
  have "rtMonitors (stopMarked p a r) = newMonitorManager" using assms(3,4) by (simp add: stopMarked_fields)
  then have "\<exists>r'. cleanupRegistryForActor a RegistryUnregisterLifecycleTerm (stopMarked p a r) = Some r'"
    using obsOnly_frame(20) [OF obsOnly_emitUnregistered]
    by (simp add: cleanupRegistryForActor_def notifyMonitors_def mm_drain_def newMonitorManager_def sliceAt_def Let_def
        split: prod.split)
  then show ?thesis
    using assms(1,2) by (auto simp: Stop_def rt_registry_get_def Status_def stopTail_def Let_def stopMarked_def)
qed

theorem stop_effect_witness:
  "\<exists>r r'. rtActorPID r ''a'' = Some exPID \<and> Stop ''a'' r = Some (r', StopStopped) \<and> Status r' ''a'' = ActorStopped \<and>
     \<not> pidCurrent (resolver_Resolve (rtResolver r') exPID) exPID"
proof -
  let ?pol = "\<lambda>_ _ _. DecisionStop"
  obtain r where s: "rt_step\<^sup>*\<^sup>* (NewRuntime (Some ?pol) '''' noHooks True (\<lambda>_. 0) 4 (\<lambda>_. None)) r"
    and f: "rtInsts r = [exInst\<lparr>aiHandler := UserHandler (\<lambda>s m. HandlerOk s)\<rparr>]" "rtRegistry r = [''a'' \<mapsto> 0]"
      "rtActorPID r = [''a'' \<mapsto> exPID]" "rtMonitors r = newMonitorManager" "rtStack r = 4"
    using exActor_steps [of ?pol "\<lambda>s m. HandlerOk s"] by blast
  have v: "rtInv ?pol (\<lambda>_. True) r" using anyPolicy.reachable_inv s .
  obtain r' where r': "Stop ''a'' r = Some (r', StopStopped)"
    using Stop_no_monitors [of r "''a''" 0] by (auto simp: f exInst_def)
  from stop_effect [OF v r'] have "Status r' ''a'' = ActorStopped" "\<not> pidCurrent (resolver_Resolve (rtResolver r') exPID) exPID"
    by (simp_all add: f)
  moreover have "rtActorPID r ''a'' = Some exPID" by (simp add: f)
  ultimately show ?thesis using r' by blast
qed

text \<open>
  Claim C33. \<open>Stop\<close> does not end the work of an actor whose goroutine is inside its inner loop:
  the messages still queued are handled after \<open>Stop\<close> has returned, and a failure then takes the
  actor from stopped back to running when the policy decides to restart.
\<close>

theorem stopped_actor_revived:
  assumes v: "rtInv pol B r" and s: "Stop a r = Some (r', StopStopped)" and p: "rtRegistry r a = Some p"
    and d: "drains h (instAt r p)" and c: "mbContents (aiMailbox (instAt r p)) = m # ms"
    and fails: "handlerError (h (actorState_value (aiState (instAt r p))) m) \<noteq> None"
    and restart: "\<And>e n. pol a e n = DecisionRestart"
  shows "aiStatus (instAt r' p) = ActorStopped \<and>
     (\<exists>r2. drainStep p r' = Some r2 \<and> aiStatus (instAt r2 p) = ActorRunning \<and>
        mbContents (aiMailbox (instAt r2 p)) = ms)"
proof -
  from v have reg: "regInv r" and pol: "rtPolicy r = pol" by (simp_all add: rtInv_def)
  from Stop_stopped [OF s reg] p have l: "p < length (rtInsts r)" and
    rel: "sendRel ((stopMarked p a r)\<lparr>rtNames := fst (nr_unregisterByActor (rtNames r) a),
        rtMonitors := fst (mm_drain (rtMonitors r) a)\<rparr>) r'" by (metis option.inject)+
  let ?i = "(instAt r p)\<lparr>aiStatus := ActorStopped, aiCanceled := True, aiMailbox := Close (aiMailbox (instAt r p))\<rparr>"
  have g: "instGrow ?i (instAt r' p)" and l': "p < length (rtInsts r')"
    using sendRelD(16) [OF rel] sendRelD(17) [OF rel, of p] l by (simp_all add: stopMarked_fields)
  note gf = instGrow_fields [OF g]
  have mb: "mbContents (aiMailbox (instAt r' p)) = m # ms" "mbInv (aiMailbox (instAt r' p))"
    using gf(12) c d unfolding mbGrow_def by (auto simp: drains_def)
  have d': "drains h (instAt r' p)" using d gf(1-11) mb by (simp add: drains_def hookOk_def)
  have id: "aiID (instAt r' p) = a" using gf(1) reg p by (simp add: regInv_def)
  have "rtPolicy r' = pol" using sendRelD(3) [OF rel] pol by (simp add: stopMarked_def stopResolver_def setStatus_def
      stopPolicy split: option.split)
  with drainStep_message [OF l' d' mb(1)] restart id obtain r2 where "drainStep p r' = Some r2"
    "mbContents (aiMailbox (instAt r2 p)) = ms" "aiStatus (instAt r2 p) = ActorRunning"
    using fails gf(4) by auto
  with gf(2) show ?thesis by simp
qed

theorem stopped_actor_revived_witness:
  "\<exists>r r' r2. Stop ''a'' r = Some (r', StopStopped) \<and> aiStatus (instAt r' 0) = ActorStopped \<and>
     drainStep 0 r' = Some r2 \<and> aiStatus (instAt r2 0) = ActorRunning"
proof -
  let ?pol = "\<lambda>_ _ _. DecisionRestart" and ?h = "\<lambda>s m. HandlerPanic ''boom''"
  obtain r0 i where s: "rt_step\<^sup>*\<^sup>* (NewRuntime (Some ?pol) '''' noHooks True (\<lambda>_. 0) 4 (\<lambda>_. None)) r0"
    and f0: "rtInsts r0 = [i]" "aiPC i = PcSelect" "length (mbContents (aiMailbox i)) = 1" "aiHandler i = UserHandler ?h"
      "aiCfg i = defaultActorConfig" "aiBatch i = zeroBatchConfig" "rtRegistry r0 = [''a'' \<mapsto> 0]"
      "rtMonitors r0 = newMonitorManager" "aiStatus i = ActorRunning"
    using exWaiting_steps [of ?pol ?h] by blast
  have "rtInv ?pol (\<lambda>_. True) r0" using anyPolicy.reachable_inv s .
  then have v: "rtInv ?pol (\<lambda>_. True) (actorNotified 0 r0)"
    using f0 by (intro anyPolicy.inv_actorNotified) simp_all
  let ?r = "actorNotified 0 r0"
  have f: "rtInsts ?r = [i\<lparr>aiMailbox := (aiMailbox i)\<lparr>mbNotify := False\<rparr>, aiPC := PcDrain\<rparr>]" "rtRegistry ?r = [''a'' \<mapsto> 0]"
    "rtMonitors ?r = newMonitorManager" by (simp_all add: actorNotified_def updInst_def f0)
  obtain m where "mbContents (aiMailbox i) = [m]" using f0(3) by (metis One_nat_def length_0_conv length_Suc_conv)
  then have m: "mbContents (aiMailbox (instAt ?r 0)) = [m]" by (simp add: f mbContents_def)
  have d: "drains ?h (instAt ?r 0)"
    using v f0 by (simp add: f drains_def hookOk_def defaultActorConfig_def zeroBatchConfig_def rtInv_def instInv_def)
  obtain r' where r': "Stop ''a'' ?r = Some (r', StopStopped)"
    using Stop_no_monitors [of ?r "''a''" 0] by (auto simp: f f0 Status_def rt_registry_get_def)
  have p: "rtRegistry ?r ''a'' = Some 0" by (simp add: f)
  from stopped_actor_revived [OF v r' p d m] r' show ?thesis by (auto simp: handlerError_def)
qed

text \<open>
  Issuing a PID again for an actor resets its generation: whatever happened before,
  the PID of generation 1 is current afterwards, so PIDs that restarts had made stale are
  accepted again.
\<close>

theorem reissue_revalidates_stale:
  assumes "rtRegistry r a = Some p" and "a \<noteq> ''''" and "ns \<noteq> ''''"
  shows "\<exists>r'. IssuePID ns a r = (r', Inr \<lparr>pidNamespace = ns, pidActorID = a, pidGeneration = 1\<rparr>) \<and>
     pidCurrent (resolver_Resolve (rtResolver r') \<lparr>pidNamespace = ns, pidActorID = a, pidGeneration = 1\<rparr>)
       \<lparr>pidNamespace = ns, pidActorID = a, pidGeneration = 1\<rparr>"
  using assms by (simp add: IssuePID_def rt_registry_get_def PID_Validate_def Let_def resolver_defs pidCurrent_def)

theorem reissue_revalidates_stale_witness:
  "\<exists>r'. IssuePID ''n'' ''a'' exRuntime = (r', Inr exPID) \<and> pidCurrent (resolver_Resolve (rtResolver r') exPID) exPID"
  using reissue_revalidates_stale [of exRuntime "''a''" 0 "''n''"] by (simp add: exRuntime_fields exPID_def)

section \<open>What leaves an actor alone\<close>

definition actorKept :: "string \<Rightarrow> Runtime \<Rightarrow> Runtime \<Rightarrow> bool" where
  "actorKept a r r' \<longleftrightarrow> regInv r' \<and> rtRegistry r' a = rtRegistry r a \<and> rtNodeID r' = rtNodeID r \<and>
     (\<forall>p. rtRegistry r a = Some p \<longrightarrow> instGrow (instAt r p) (instAt r' p))"

lemma actorKept_refl [simp]: "regInv r \<Longrightarrow> actorKept a r r"
  by (simp add: actorKept_def)

lemma actorKept_trans: "actorKept a r r' \<Longrightarrow> actorKept a r' r'' \<Longrightarrow> actorKept a r r''"
  by (auto simp: actorKept_def intro: instGrow_trans)

lemma actorKept_sendRel: "sendRel r r' \<Longrightarrow> regInv r \<Longrightarrow> actorKept a r r'"
  using sendRelD(1,10,16) [of r r'] sendRelD(17) [of r r'] regInv_sendRel [of r r'] by (auto simp: actorKept_def regInv_def)

lemma regInv_distinct: "regInv r \<Longrightarrow> rtRegistry r a = Some p \<Longrightarrow> rtRegistry r b = Some p \<Longrightarrow> a = b"
  by (auto simp: regInv_def)

lemma stopTail_kept:
  assumes "stopTail p b (setStatus p ActorStopping r) = Some r'" and "regInv r" and "rtRegistry r b = Some p" and "b \<noteq> a"
  shows "actorKept a r r'"
proof -
  let ?r = "(stopMarked p b r)\<lparr>rtNames := fst (nr_unregisterByActor (rtNames r) b), rtMonitors := fst (mm_drain (rtMonitors r) b)\<rparr>"
  note s = stopTail_rel [OF assms(1-3)]
  have "q \<noteq> p" if "rtRegistry r a = Some q" for q using that assms(2-4) regInv_distinct by blast
  with s(3) have "actorKept a r ?r"
    by (auto simp: actorKept_def regInv_def stopMarked_fields [OF s(1)] stopMarked_node)
  moreover have "regInv ?r" using s(3) by (simp add: regInv_def)
  ultimately show ?thesis using actorKept_trans actorKept_sendRel [OF s(2)] by blast
qed

lemma Stop_kept: "Stop b r = Some (r', x) \<Longrightarrow> regInv r \<Longrightarrow> b \<noteq> a \<Longrightarrow> actorKept a r r'"
  using stopTail_kept by (auto simp: Stop_def rt_registry_get_def split: option.splits if_splits)

lemma StopAndCapture_kept: "StopAndCapture b r = Some (r', x) \<Longrightarrow> regInv r \<Longrightarrow> b \<noteq> a \<Longrightarrow> actorKept a r r'"
  using stopTail_kept by (auto simp: StopAndCapture_def rt_registry_get_def Let_def split: option.splits if_splits)

lemma RemoveActor_kept: "RemoveActor b r = Inr r' \<Longrightarrow> regInv r \<Longrightarrow> b \<noteq> a \<Longrightarrow> actorKept a r r'"
  by (auto simp: RemoveActor_def rt_registry_get_def rt_registry_remove_def Let_def actorKept_def regInv_def split: option.splits if_splits)

lemma CreateActor_kept: "CreateActor b st h cfg r = Inr r' \<Longrightarrow> regInv r \<Longrightarrow> b \<noteq> a \<Longrightarrow> actorKept a r r'"
  by (drule CreateActor_Inr) (auto simp: actorKept_def regInv_def nth_append less_Suc_eq split: if_splits)

lemma IssuePID_kept: "IssuePID ns b r = (r', x) \<Longrightarrow> regInv r \<Longrightarrow> actorKept a r r'"
  by (auto simp: IssuePID_def Let_def actorKept_def regInv_def split: option.splits)

lemma Status_kept: "actorKept a r r' \<Longrightarrow> Status r' a = Status r a"
  by (auto simp: Status_def actorKept_def rt_registry_get_def instGrow_fields split: option.split)

lemma Stop_status:
  assumes "Stop a r = Some (r', x)" "regInv r"
  shows "Status r' a = ActorStopped"
proof (cases "rtRegistry r a = None \<or> Status r a = ActorStopped")
  case True
  with assms(1) show ?thesis by (auto simp: Stop_def Status_def rt_registry_get_def split: option.splits if_splits)
next
  case False
  with assms(1) have "Stop a r = Some (r', StopStopped)" by (auto simp: Stop_def rt_registry_get_def split: option.splits if_splits)
  then obtain p where p: "rtRegistry r a = Some p" "p < length (rtInsts r)" and
    rel: "sendRel ((stopMarked p a r)\<lparr>rtNames := fst (nr_unregisterByActor (rtNames r) a),
        rtMonitors := fst (mm_drain (rtMonitors r) a)\<rparr>) r'" using assms(2) by (rule Stop_stopped)
  have "rtRegistry r' a = Some p" "aiStatus (instAt r' p) = ActorStopped"
    using sendRelD(1) [OF rel] instGrow_fields(2) [OF sendRelD(17) [OF rel, of p]] p stopMarked_fields [OF p(2)] by simp_all
  then show ?thesis by (simp add: Status_def rt_registry_get_def)
qed

lemma CreateActor_status: "CreateActor a st h cfg r = Inr r' \<Longrightarrow> Status r' a = ActorStarting"
  by (drule CreateActor_Inr) (auto simp: Status_def rt_registry_get_def)

end
