(* ===== verification/CronProps.thy ===== *)
theory CronProps
  imports ActorProps "HOL-Library.Multiset"
begin

text \<open>
  What the cron timer actor guarantees: its tables refine a plain list of subscriptions, a
  goroutine that can still fire belongs to a listed subscription, a handoff moves all
  subscriptions; and how references are reused after a handoff.
\<close>

section \<open>Commands on the tables\<close>

text \<open>What a subscription is to its users.\<close>

type_synonym cronView = "CronRef \<times> PID \<times> cronSchedule \<times> any \<times> string"

definition cronView :: "cronSubscription \<Rightarrow> cronView" where
  "cronView s = (cuRef s, cuSubscriber s, cuSchedule s, cuPayload s, cuTag s)"

definition viewRef :: "cronView \<Rightarrow> string" where
  "viewRef v = crID (fst v)"

definition viewActor :: "cronView \<Rightarrow> string" where
  "viewActor v = crActorID (fst v)"

text \<open>The reference: a counter and the list of subscriptions.\<close>

fun cronSpec :: "(string \<Rightarrow> cronSchedule option) \<Rightarrow> string \<Rightarrow> Message \<Rightarrow> nat \<times> cronView list \<Rightarrow> nat \<times> cronView list" where
  "cronSpec parse k msg (n, live) =
     (case msgPayload msg of
        CronSubscribeCommand q s payload tag \<Rightarrow>
          (case parse s of
             Some sched \<Rightarrow>
               if IsAsk msg
               then (Suc n, live @ [(\<lparr>crID = cronRefID k (of_nat (Suc n)), crSchedule = s, crActorID = pidActorID q\<rparr>, q, sched, payload, tag)])
               else (n, live)
           | None \<Rightarrow> (n, live))
      | CronUnsubscribeCommand q i \<Rightarrow> (n, if IsAsk msg then filter (\<lambda>v. viewRef v \<noteq> i) live else live)
      | CronUnsubscribeAllCommand q \<Rightarrow> (n, if IsAsk msg then filter (\<lambda>v. viewActor v \<noteq> pidActorID q) live else live)
      | DownMessage ref target reason \<Rightarrow> (n, filter (\<lambda>v. viewActor v \<noteq> pidActorID target) live)
      | _ \<Rightarrow> (n, live))"

declare cronSpec.simps [simp del]

text \<open>The tables after a command; \<open>mon\<close> is the reference of the monitor a subscription gets.\<close>

definition removeIfKnown :: "string \<Rightarrow> cronBrokerService \<Rightarrow> cronBrokerService" where
  "removeIfKnown i cs = (case map_of (cbSubs cs) i of None \<Rightarrow> cs | Some sub \<Rightarrow> cronRemove i sub cs)"

definition cronNext :: "(string \<Rightarrow> cronSchedule option) \<Rightarrow> u64 \<Rightarrow> Message \<Rightarrow> cronBrokerService \<Rightarrow> cronBrokerService" where
  "cronNext parse mon msg cs =
     (case msgPayload msg of
        CronSubscribeCommand q s payload tag \<Rightarrow>
          (case parse s of
             Some sched \<Rightarrow>
               if IsAsk msg
               then cronAdd \<lparr>cuRef = \<lparr>crID = cronRefID (cbCronID cs) (cbSeq cs + 1), crSchedule = s, crActorID = pidActorID q\<rparr>,
                      cuSubscriber = q, cuActorID = pidActorID q, cuSchedule = sched, cuPayload = payload, cuTag = tag,
                      cuMonitorRef = mon, cuCancel = 0\<rparr> (cs\<lparr>cbSeq := cbSeq cs + 1\<rparr>)
               else cs
           | None \<Rightarrow> cs)
      | CronUnsubscribeCommand q i \<Rightarrow> if IsAsk msg then removeIfKnown i cs else cs
      | CronUnsubscribeAllCommand q \<Rightarrow> if IsAsk msg then fold removeIfKnown (cronRefsOf cs (pidActorID q)) cs else cs
      | DownMessage ref target reason \<Rightarrow> cron_handleDown (pidActorID target) cs
      | _ \<Rightarrow> cs)"

lemma putCron_fields [simp]:
  "ctServices (rtCron (putCron k cs r)) = (ctServices (rtCron r))(k \<mapsto> cs)" "ctParse (rtCron (putCron k cs r)) = ctParse (rtCron r)"
  "rtMonitors (putCron k cs r) = rtMonitors r" "rtRouters (putCron k cs r) = rtRouters r" "rtStack (putCron k cs r) = rtStack r" "regInv (putCron k cs r) = regInv r" "rtNodeID (putCron k cs r) = rtNodeID r"
  by (simp_all add: putCron_def regInv_def)

lemma Demonitor_fields [simp]: "rtCron (Demonitor ref r) = rtCron r" "regInv (Demonitor ref r) = regInv r"
  by (simp_all add: Demonitor_def regInv_def)

lemma Monitor_fields:
  "Monitor w t r = (r', ref) \<Longrightarrow> rtCron r' = rtCron r \<and> regInv r' = regInv r \<and> rtNodeID r' = rtNodeID r \<and> ref = mmSeq (rtMonitors r) + 1"
  by (auto simp: Monitor_def mm_add_def Let_def regInv_def)

lemma cron_replyAsk_keeps: "regInv r \<Longrightarrow> cron_replyAsk q p ack r = Some r' \<Longrightarrow> rtCron r' = rtCron r \<and> regInv r'"
  using SendPID_rel sendRel_cron regInv_sendRel by (fastforce simp: cron_replyAsk_def)

lemma removeKnown_eq:
  "fst (removeKnown i x) = removeIfKnown i (fst x)" "rtCron (snd (removeKnown i x)) = rtCron (snd x)"
  "regInv (snd (removeKnown i x)) = regInv (snd x)"
  by (auto simp: removeKnown_def removeIfKnown_def removeLocked_def case_prod_beta split: option.split)

lemma removeKnown_fold:
  "fst (fold removeKnown ids x) = fold removeIfKnown ids (fst x)" "rtCron (snd (fold removeKnown ids x)) = rtCron (snd x)"
  "regInv (snd (fold removeKnown ids x)) = regInv (snd x)"
  by (induction ids arbitrary: x) (simp_all add: removeKnown_eq)

lemma removeIfKnown_id: "cbCronID (removeIfKnown i cs) = cbCronID cs" "cbCronID (fold removeIfKnown ids cs) = cbCronID cs"
proof -
  show "cbCronID (removeIfKnown i cs) = cbCronID cs" for i cs by (simp add: removeIfKnown_def split: option.split)
  then show "cbCronID (fold removeIfKnown ids cs) = cbCronID cs" by (induction ids arbitrary: cs) simp_all
qed

text \<open>The handler runs exactly this table step, whatever it sends.\<close>

lemma cronCommand_next:
  assumes inv: "regInv r" and k: "ctServices (rtCron r) k = Some cs" "cbCronID cs = k" and c: "cronCommand cs msg r = Some r'"
  shows "regInv r' \<and> ctParse (rtCron r') = ctParse (rtCron r) \<and>
    ctServices (rtCron r') = (ctServices (rtCron r))(k \<mapsto> cronNext (ctParse (rtCron r)) (mmSeq (rtMonitors r) + 1) msg cs)"
proof -
  have same: "(ctServices (rtCron r))(k \<mapsto> cs) = ctServices (rtCron r)" using k(1) by (simp add: fun_upd_idem)
  note keep = cron_replyAsk_keeps [OF inv]
  have put: "rtCron r2 = rtCron (putCron k' cs' r1) \<and> regInv r2"
    if "cron_replyAsk q p ack (putCron k' cs' r1) = Some r2" "regInv r1" for q p ack k' cs' r1 r2
    using cron_replyAsk_keeps [OF _ that(1)] that(2) by simp
  show ?thesis
  proof (cases "msgPayload msg")
    case (CronSubscribeCommand q s payload tag)
    with c have h: "cron_handleSubscribe cs msg q s payload tag r = Some r'" by (simp add: cronCommand_def)
    show ?thesis
    proof (cases "IsAsk msg \<and> ctParse (rtCron r) s \<noteq> None")
      case True
      then obtain sched where sched: "ctParse (rtCron r) s = Some sched" by blast
      obtain r1 m where m: "Monitor \<lparr>pidNamespace = pidNamespace q, pidActorID = k, pidGeneration = 1\<rparr> q r = (r1, m)"
        by (cases "Monitor \<lparr>pidNamespace = pidNamespace q, pidActorID = k, pidGeneration = 1\<rparr> q r")
      note mf = Monitor_fields [OF m]
      from h True sched m k(2) mf show ?thesis
        using inv
        by (auto simp: cron_handleSubscribe_def cronSubscriber_def Let_def cronNext_def CronSubscribeCommand dest!: put)
    next
      case False
      with h keep same inv show ?thesis
        by (auto simp: cron_handleSubscribe_def cronNext_def CronSubscribeCommand split: if_splits option.splits)
    qed
  next
    case (CronUnsubscribeCommand q i)
    with c k(2) keep same inv show ?thesis
      by (auto simp: cronCommand_def cron_handleUnsubscribe_def removeLocked_def cronNext_def removeIfKnown_def
          split: if_splits option.splits dest!: put)
  next
    case (CronUnsubscribeAllCommand q)
    with c k(2) keep same inv show ?thesis
      by (auto simp: cronCommand_def cron_handleUnsubscribeAll_def cronNext_def case_prod_beta removeKnown_fold removeIfKnown_id
          split: if_splits dest!: put)
  next
    case (CronListCommand q)
    with c keep same inv show ?thesis
      by (auto simp: cronCommand_def cron_handleList_def cronNext_def split: if_splits)
  next
    case (DownMessage ref target reason)
    with c k(2) inv show ?thesis by (auto simp: cronCommand_def cronNext_def)
  qed (use c keep same inv in \<open>auto simp: cronCommand_def cronNext_def split: option.splits\<close>)
qed

section \<open>The tables are a list of subscriptions\<close>

text \<open>
  The table by reference ID holds exactly these subscriptions, each under its own ID: a statement
  about the map, not about the order of its entries.
\<close>

definition cronHolds :: "cronBrokerService \<Rightarrow> cronView set \<Rightarrow> bool" where
  "cronHolds cs V \<longleftrightarrow> (\<forall>i v. map_option cronView (map_of (cbSubs cs) i) = Some v \<longleftrightarrow> v \<in> V \<and> viewRef v = i)"

definition cronCore :: "string \<Rightarrow> nat \<Rightarrow> cronView list \<Rightarrow> cronBrokerService \<Rightarrow> bool" where
  "cronCore k n live cs \<longleftrightarrow> cronInv cs \<and> cbCronID cs = k \<and> cbSeq cs = of_nat n \<and> map (\<lambda>(i, s). cronView s) (cbSubs cs) = live \<and>
     (\<forall>i\<in>fst ` set (cbSubs cs). \<exists>m\<le>n. i = cronRefID k (of_nat m)) \<and>
     (\<forall>j\<in>set (cbJobs cs). \<not> cjCanceled j \<longrightarrow> map_of (cbSubs cs) (crID (cuRef (cjSub j))) = Some (cjSub j))"

lemma cronCoreI:
  assumes "cronInv cs" "cbCronID cs = k" "cbSeq cs = of_nat n" "map (\<lambda>(i, s). cronView s) (cbSubs cs) = live"
    and "\<And>i. i \<in> fst ` set (cbSubs cs) \<Longrightarrow> \<exists>m\<le>n. i = cronRefID k (of_nat m)"
    and "\<And>j. j \<in> set (cbJobs cs) \<Longrightarrow> \<not> cjCanceled j \<Longrightarrow> map_of (cbSubs cs) (crID (cuRef (cjSub j))) = Some (cjSub j)"
  shows "cronCore k n live cs"
  unfolding cronCore_def using assms by blast

definition cronIndexed :: "cronBrokerService \<Rightarrow> bool" where
  "cronIndexed cs \<longleftrightarrow> (\<forall>a. \<forall>i\<in>set (cronRefsOf cs a). \<exists>s. map_of (cbSubs cs) i = Some s \<and> cuActorID s = a)"

lemma gomap_put_fresh: "map_of m k = None \<Longrightarrow> gomap_put k v m = m @ [(k, v)]"
  by (induction m) (auto split: if_splits)

lemma gomap_del_filter: "gomap_del k m = filter (\<lambda>(i, v). i \<noteq> k) m"
  by (induction m) auto

lemma cronCore_inv: "cronCore k n live cs \<Longrightarrow> cronInv cs"
  by (simp add: cronCore_def)

lemma cronView_sub:
  assumes i: "cronInv cs" and "(i, s) \<in> set (cbSubs cs)"
  shows "map_of (cbSubs cs) i = Some s" "viewRef (cronView s) = i" "viewActor (cronView s) = cuActorID s"
proof -
  show m: "map_of (cbSubs cs) i = Some s" using gomap_mem_iff [OF cronInvD(1) [OF i]] assms(2) by blast
  show "viewRef (cronView s) = i" "viewActor (cronView s) = cuActorID s"
    using cronInvD(2) [OF i m] by (simp_all add: viewRef_def viewActor_def cronView_def)
qed

lemma cronHolds_subs:
  assumes inv: "cronInv cs" and live: "map (\<lambda>(i, s). cronView s) (cbSubs cs) = live"
  shows "cronHolds cs (set live)" "distinct (map viewRef live)"
proof -
  have "map_option cronView (map_of (cbSubs cs) i) = Some v \<longleftrightarrow> v \<in> set live \<and> viewRef v = i" for i v
  proof
    assume "map_option cronView (map_of (cbSubs cs) i) = Some v"
    then obtain s where s: "map_of (cbSubs cs) i = Some s" "v = cronView s" by auto
    with map_of_SomeD [OF s(1)] cronView_sub(2) [OF inv] show "v \<in> set live \<and> viewRef v = i" unfolding live [symmetric] by force
  next
    assume v: "v \<in> set live \<and> viewRef v = i"
    then obtain j s where s: "(j, s) \<in> set (cbSubs cs)" "v = cronView s" unfolding live [symmetric] by auto
    with cronView_sub(1,2) [OF inv s(1)] v show "map_option cronView (map_of (cbSubs cs) i) = Some v" by simp
  qed
  then show "cronHolds cs (set live)" by (simp add: cronHolds_def)
  have "map viewRef live = map fst (cbSubs cs)" unfolding live [symmetric] using cronView_sub(2) [OF inv] by auto
  then show "distinct (map viewRef live)" using cronInvD(1) [OF inv] by (simp add: gomap_ok_def)
qed

lemma cronCore_live_del:
  assumes "cronCore k n live cs"
  shows "map (\<lambda>(i, s). cronView s) (gomap_del i (cbSubs cs)) = filter (\<lambda>v. viewRef v \<noteq> i) live"
proof -
  have "live = map (\<lambda>(i, s). cronView s) (cbSubs cs)" using assms by (simp add: cronCore_def)
  moreover have "filter (\<lambda>(j, s). j \<noteq> i) (cbSubs cs) = filter (\<lambda>x. viewRef (cronView (snd x)) \<noteq> i) (cbSubs cs)"
    using cronView_sub(2) [OF cronCore_inv [OF assms]] by (intro filter_cong) auto
  ultimately show ?thesis by (simp add: gomap_del_filter filter_map comp_def case_prod_beta)
qed

lemma cronCore_delete:
  assumes c: "cronCore k n live cs" and s: "map_of (cbSubs cs) i = Some sub" and inv: "cronInv cs'"
    and f: "cbSubs cs' = gomap_del i (cbSubs cs)" "cbJobs cs' = cbJobs (cronCancel sub cs)" "cbCronID cs' = cbCronID cs" "cbSeq cs' = cbSeq cs"
  shows "cronCore k n (filter (\<lambda>v. viewRef v \<noteq> i) live) cs'"
proof (rule cronCoreI)
  fix j assume j: "j \<in> set (cbJobs cs')" "\<not> cjCanceled j"
  have "j \<in> set (cbJobs (cronCancel sub cs))" using j(1) f(2) by simp
  then have j1: "j \<in> set (cbJobs cs) \<and> cjID j \<noteq> cuCancel sub"
  proof (rule cronCancel_jobs)
    fix j0 assume "j0 \<in> set (cbJobs cs)" and e: "\<not> cjCanceled j \<Longrightarrow> j = j0 \<and> cjID j \<noteq> cuCancel sub"
    with e [OF j(2)] show ?thesis by blast
  qed
  from c j(2) j1 have m: "map_of (cbSubs cs) (crID (cuRef (cjSub j))) = Some (cjSub j)" by (simp add: cronCore_def)
  moreover have "cuCancel (cjSub j) = cjID j" using cronInvD(6) [of cs j] c j1 by (simp add: cronCore_def)
  ultimately have "crID (cuRef (cjSub j)) \<noteq> i" using s j1 by auto
  with m f(1) show "map_of (cbSubs cs') (crID (cuRef (cjSub j))) = Some (cjSub j)" by simp
next
  fix x assume "x \<in> fst ` set (cbSubs cs')"
  then have "x \<in> fst ` set (cbSubs cs)" unfolding f(1) gomap_del_filter by auto
  with c show "\<exists>m\<le>n. x = cronRefID k (of_nat m)" unfolding cronCore_def by blast
next
  show "map (\<lambda>(i, s). cronView s) (cbSubs cs') = filter (\<lambda>v. viewRef v \<noteq> i) live"
    using cronCore_live_del [OF c, of i] f(1) by simp
qed (use inv c f in \<open>simp_all add: cronCore_def\<close>)

lemma cronCore_missing: "cronCore k n live cs \<Longrightarrow> map_of (cbSubs cs) i = None \<Longrightarrow> filter (\<lambda>v. viewRef v \<noteq> i) live = live"
  using cronCore_live_del [of k n live cs i] by (simp add: cronCore_def delete_idem map_of_eq_None_iff)

lemma removeIfKnown_core:
  assumes "cronCore k n live cs"
  shows "cronCore k n (filter (\<lambda>v. viewRef v \<noteq> i) live) (removeIfKnown i cs)"
proof (cases "map_of (cbSubs cs) i")
  case None
  with assms cronCore_missing show ?thesis by (simp add: removeIfKnown_def)
next
  case (Some sub)
  have "cronInv (cronRemove i sub cs)" using assms Some by (simp add: cronCore_def cronInv_remove)
  with cronCore_delete [OF assms Some, of "cronRemove i sub cs"] Some show ?thesis by (simp add: removeIfKnown_def)
qed

lemma removeIfKnown_index:
  assumes "cronIndexed cs"
  shows "cronIndexed (removeIfKnown i cs)"
proof (cases "map_of (cbSubs cs) i")
  case (Some sub)
  with assms show ?thesis by (auto simp: cronIndexed_def removeIfKnown_def split: if_splits) force+
qed (use assms in \<open>simp add: removeIfKnown_def\<close>)

lemma cronDownOne_core:
  assumes "cronCore k n live cs"
  shows "cronCore k n (filter (\<lambda>v. viewRef v \<noteq> i) live) (cronDownOne i cs)"
proof (cases "map_of (cbSubs cs) i")
  case None
  with assms cronCore_missing show ?thesis by (simp add: cronDownOne_def)
next
  case (Some sub)
  have "cronInv (cronDownOne i cs)" using assms by (simp add: cronCore_def cronInv_downOne)
  moreover have "cbJobs (cronDownOne i cs) = cbJobs (cronCancel sub cs)" using Some by (simp add: cronDownOne_def)
  ultimately show ?thesis using cronCore_delete [OF assms Some, of "cronDownOne i cs"] by simp
qed

lemma core_fold:
  assumes "\<And>i live cs. cronCore k n live cs \<Longrightarrow> cronCore k n (filter (\<lambda>v. viewRef v \<noteq> i) live) (f i cs)" and "cronCore k n live cs"
  shows "cronCore k n (filter (\<lambda>v. viewRef v \<notin> set ids) live) (fold f ids cs)"
  using assms(2)
proof (induction ids arbitrary: live cs)
  case (Cons i ids)
  from Cons.IH [OF assms(1) [OF Cons.prems, of i]] show ?case by (simp add: conj_commute)
qed simp

lemma live_of_actor:
  assumes c: "cronCore k n live cs" and x: "cronIndexed cs"
  shows "filter (\<lambda>v. viewRef v \<notin> set (cronRefsOf cs a)) live = filter (\<lambda>v. viewActor v \<noteq> a) live"
proof (rule filter_cong [OF refl])
  fix v assume "v \<in> set live"
  with c obtain i s where v: "v = cronView s" "(i, s) \<in> set (cbSubs cs)" unfolding cronCore_def by auto
  note m = cronView_sub [OF cronCore_inv [OF c] v(2)]
  have "i \<in> set (cronRefsOf cs (cuActorID s))" using cronInvD(2) [of cs i s] c m(1) by (simp add: cronCore_def)
  then show "(viewRef v \<notin> set (cronRefsOf cs a)) = (viewActor v \<noteq> a)" using x m v(1) by (fastforce simp: cronIndexed_def)
qed

lemma cronIndexed_add:
  assumes x: "cronIndexed cs" and fresh: "map_of (cbSubs cs) (crID (cuRef sub)) = None"
  shows "cronIndexed (cronAdd sub cs)"
  using x fresh unfolding cronIndexed_def by (auto split: if_splits) fastforce

lemma cronAdd_rel:
  assumes c: "cronCore k n live cs" and x: "cronIndexed cs" and n: "Suc n < 2 ^ 64"
    and s: "cuRef sub = \<lparr>crID = cronRefID k (cbSeq cs + 1), crSchedule = sc, crActorID = cuActorID sub\<rparr>"
  shows "cronCore k (Suc n) (live @ [cronView sub]) (cronAdd sub (cs\<lparr>cbSeq := cbSeq cs + 1\<rparr>))"
    and "cronIndexed (cronAdd sub (cs\<lparr>cbSeq := cbSeq cs + 1\<rparr>))"
proof -
  let ?cs = "cs\<lparr>cbSeq := cbSeq cs + 1\<rparr>" and ?i = "cronRefID k (cbSeq cs + 1)"
  have q: "cbSeq cs + 1 = of_nat (Suc n)" using c by (simp add: cronCore_def)
  have "i \<noteq> ?i" if i: "i \<in> fst ` set (cbSubs cs)" for i
  proof
    assume "i = ?i"
    with i c obtain m where "m \<le> n" "(of_nat m :: u64) = of_nat (Suc n)" unfolding cronCore_def q by auto
    then have "unat (of_nat m :: u64) = unat (of_nat (Suc n) :: u64)" by simp
    with \<open>m \<le> n\<close> n show False by (simp add: unat_of_nat del: of_nat_Suc)
  qed
  then have fresh: "map_of (cbSubs cs) ?i = None" by (auto simp: map_of_eq_None_iff)
  have refs: "cronRefsOf ?cs = cronRefsOf cs" by (simp add: cronRefsOf_def fun_eq_iff)
  have inv: "cronInv cs" using c by (simp add: cronCore_def)
  then have i1: "cronInv ?cs" by (simp add: cronInv_def refs)
  have "cronInv (cronAdd sub ?cs)" by (rule cronInv_add [OF i1]) (simp add: s)
  moreover have "\<forall>i\<in>fst ` set (cbSubs cs). \<exists>m\<le>Suc n. i = cronRefID k (of_nat m)"
    using c unfolding cronCore_def by (meson le_SucI)
  moreover have "cronView (sub\<lparr>cuCancel := x\<rparr>) = cronView sub" for x by (simp add: cronView_def)
  ultimately show "cronCore k (Suc n) (live @ [cronView sub]) (cronAdd sub ?cs)"
    using c fresh q unfolding cronCore_def
    by (auto simp: s gomap_put_fresh map_add_def simp del: of_nat_Suc intro!: exI [of _ "Suc n"])
  have "cronIndexed ?cs" using x by (simp add: cronIndexed_def refs)
  then show "cronIndexed (cronAdd sub ?cs)" using fresh by (intro cronIndexed_add) (simp_all add: s)
qed


lemma cron_handleDown_rel:
  assumes c: "cronCore k n live cs" and x: "cronIndexed cs"
  shows "cronCore k n (filter (\<lambda>v. viewActor v \<noteq> a) live) (cron_handleDown a cs)" and "cronIndexed (cron_handleDown a cs)"
proof -
  let ?ids = "cronRefsOf cs a" and ?cs = "fold cronDownOne (cronRefsOf cs a) cs"
  have f: "cronCore k n (filter (\<lambda>v. viewRef v \<notin> set ?ids) live) ?cs"
    by (rule core_fold [OF cronDownOne_core c])
  have "cronInv (cron_handleDown a cs)" using c by (simp add: cronCore_def cronInv_down)
  moreover have "cbSubs (cron_handleDown a cs) = cbSubs ?cs" by (simp add: cron_handleDown_def Let_def)
  ultimately show "cronCore k n (filter (\<lambda>v. viewActor v \<noteq> a) live) (cron_handleDown a cs)"
    using f unfolding live_of_actor [OF c x]
    by (simp add: cronCore_def cron_handleDown_fields cronDown_fold)
  show "cronIndexed (cron_handleDown a cs)"
  proof (unfold cronIndexed_def, intro allI ballI)
    fix b i assume "i \<in> set (cronRefsOf (cron_handleDown a cs) b)"
    then have b: "b \<noteq> a" "i \<in> set (cronRefsOf cs b)" by (simp_all add: cron_handleDown_fields split: if_splits)
    with x obtain s where s: "map_of (cbSubs cs) i = Some s" "cuActorID s = b" unfolding cronIndexed_def by blast
    have "i \<notin> set ?ids"
    proof
      assume "i \<in> set ?ids"
      with x s(1) have "cuActorID s = a" unfolding cronIndexed_def by force
      with s(2) b(1) show False by simp
    qed
    with s show "\<exists>s. map_of (cbSubs (cron_handleDown a cs)) i = Some s \<and> cuActorID s = b"
      by (simp add: cron_handleDown_fields)
  qed
qed

lemma cronNext_rel:
  assumes c: "cronCore k n live cs" and x: "cronIndexed cs" and s: "cronSpec parse k msg (n, live) = (n', live')" and n: "n' < 2 ^ 64"
  shows "cronCore k n' live' (cronNext parse mon msg cs) \<and> cronIndexed (cronNext parse mon msg cs)"
proof -
  have fold_index: "cronIndexed (fold removeIfKnown ids cs)" if "cronIndexed cs" for ids cs
    using that by (induction ids arbitrary: cs) (simp_all add: removeIfKnown_index)
  show ?thesis
  proof (cases "msgPayload msg")
    case (CronSubscribeCommand q sc payload tag)
    show ?thesis
    proof (cases "parse sc")
      case (Some sched)
      let ?sub = "\<lparr>cuRef = \<lparr>crID = cronRefID (cbCronID cs) (cbSeq cs + 1), crSchedule = sc, crActorID = pidActorID q\<rparr>,
                      cuSubscriber = q, cuActorID = pidActorID q, cuSchedule = sched, cuPayload = payload, cuTag = tag,
                      cuMonitorRef = mon, cuCancel = 0\<rparr>"
      have k: "cbCronID cs = k" "cbSeq cs + 1 = of_nat (Suc n)" using c by (simp_all add: cronCore_def)
      note add = cronAdd_rel [OF c x, of ?sub sc]
      show ?thesis
        using s n add CronSubscribeCommand Some c x unfolding k
        by (auto simp: cronSpec.simps cronNext_def cronView_def k simp del: of_nat_Suc split: if_splits)
    qed (use CronSubscribeCommand s c x in \<open>simp add: cronSpec.simps cronNext_def\<close>)
  next
    case (CronUnsubscribeCommand q i)
    with s c x removeIfKnown_core [OF c] removeIfKnown_index [OF x] show ?thesis
      by (auto simp: cronSpec.simps cronNext_def split: if_splits)
  next
    case (CronUnsubscribeAllCommand q)
    have "cronCore k n (filter (\<lambda>v. viewActor v \<noteq> pidActorID q) live) (fold removeIfKnown (cronRefsOf cs (pidActorID q)) cs)"
      unfolding live_of_actor [OF c x, symmetric] by (rule core_fold [OF removeIfKnown_core c])
    with s c x fold_index [OF x] CronUnsubscribeAllCommand show ?thesis
      by (auto simp: cronSpec.simps cronNext_def split: if_splits)
  next
    case (DownMessage ref target reason)
    with s cron_handleDown_rel [OF c x] show ?thesis by (auto simp: cronSpec.simps cronNext_def)
  qed (use s c x in \<open>auto simp: cronSpec.simps cronNext_def\<close>)
qed

lemma cronCore_jobs:
  assumes "cronCore k n live cs"
  shows "cronCore k n live (dropJob i cs)" "(\<And>j. cjID (f j) = cjID j \<and> cjSub (f j) = cjSub j \<and> cjCanceled (f j) = cjCanceled j) \<Longrightarrow> cronCore k n live (updJob i f cs)"
proof -
  have "cronInv cs" using assms by (simp add: cronCore_def)
  note inv = cronInv_job [OF this]
  show "cronCore k n live (dropJob i cs)"
    using assms inv(1) [of i] unfolding cronCore_def by (simp add: dropJob_def)
  assume f: "\<And>j. cjID (f j) = cjID j \<and> cjSub (f j) = cjSub j \<and> cjCanceled (f j) = cjCanceled j"
  have "cronInv (updJob i f cs)" by (rule inv(2)) (simp add: f)
  with assms show "cronCore k n live (updJob i f cs)"
    unfolding cronCore_def by (auto simp: updJob_def f split: if_splits)
qed


section \<open>Histories of a cron timer\<close>

text \<open>
  A history of the service \<open>k\<close>, starting with an empty one: messages its handler takes, steps of its
  goroutines, and anything else the runtime does, which leaves the cron services alone. The first
  component is the reference's answer to the messages of the history. The state that the handler
  gets is not that of another instance (a handoff), or has already been looked at.
\<close>

inductive cronHistory :: "string \<Rightarrow> (string \<Rightarrow> cronSchedule option) \<Rightarrow> nat \<times> cronView list \<Rightarrow> Runtime \<Rightarrow> bool"
  for k parse where
  start: "regInv r \<Longrightarrow> ctParse (rtCron r) = parse \<Longrightarrow> ctServices (rtCron r) k = Some (newCronBrokerService k) \<Longrightarrow>
    cronHistory k parse (0, []) r"
| message: "cronHistory k parse s r \<Longrightarrow> ctServices (rtCron r) k = Some cs \<Longrightarrow>
    cbRestored cs \<or> (\<nexists>es. st = CronHandoffState es) \<Longrightarrow> cronHandler k st msg r = Some (r', res) \<Longrightarrow>
    cronHistory k parse (cronSpec parse k msg s) r'"
| loop: "cronHistory k parse s r \<Longrightarrow> ctServices (rtCron r) k = Some cs \<Longrightarrow> j \<in> set (cbJobs cs) \<Longrightarrow> cjNext j = None \<Longrightarrow>
    cronHistory k parse s (putCron k (scheduleLoop now j cs) r)"
| fires: "cronHistory k parse s r \<Longrightarrow> ctServices (rtCron r) k = Some cs \<Longrightarrow> j \<in> set (cbJobs cs) \<Longrightarrow> cjNext j = Some at \<Longrightarrow>
    scheduleFires k j r = Some r' \<Longrightarrow> cronHistory k parse s r'"
| cancelled: "cronHistory k parse s r \<Longrightarrow> ctServices (rtCron r) k = Some cs \<Longrightarrow> j \<in> set (cbJobs cs) \<Longrightarrow> cjNext j = Some at \<Longrightarrow>
    cronHistory k parse s (putCron k (scheduleDone j cs) r)"
| other: "cronHistory k parse s r \<Longrightarrow> regInv r' \<Longrightarrow> rtCron r' = rtCron r \<Longrightarrow> cronHistory k parse s r'"

definition cronRel :: "string \<Rightarrow> (string \<Rightarrow> cronSchedule option) \<Rightarrow> nat \<times> cronView list \<Rightarrow> Runtime \<Rightarrow> bool" where
  "cronRel k parse s r \<longleftrightarrow> regInv r \<and> ctParse (rtCron r) = parse \<and>
     (\<exists>cs. ctServices (rtCron r) k = Some cs \<and> cronCore k (fst s) (snd s) cs \<and> cronIndexed cs)"

lemma cronRelI:
  assumes "regInv r" "ctParse (rtCron r) = parse" "ctServices (rtCron r) k = Some cs" "cronCore k (fst s) (snd s) cs" "cronIndexed cs"
  shows "cronRel k parse s r"
  unfolding cronRel_def using assms by blast

lemma cronRel_put:
  assumes "cronRel k parse s r" and "cronCore k (fst s) (snd s) cs" "cronIndexed cs"
  shows "cronRel k parse s (putCron k cs r)"
  by (rule cronRelI [where cs = cs]) (use assms in \<open>simp_all add: cronRel_def\<close>)

lemma cronSpec_mono: "n \<le> fst (cronSpec parse k msg (n, live))"
  by (simp add: cronSpec.simps split: any.split option.split)

lemma cronCore_restored: "cronCore k n live cs \<Longrightarrow> cronCore k n live (cs\<lparr>cbRestored := b\<rparr>)" "cronIndexed (cs\<lparr>cbRestored := b\<rparr>) = cronIndexed cs"
  by (simp_all add: cronCore_def cronInv_def cronIndexed_def cronRefsOf_def)

lemma cronRestore_plain:
  assumes "cbRestored cs \<or> (\<nexists>es. st = CronHandoffState es)"
  shows "cronRestore st (cs, r) = (cs\<lparr>cbRestored := True\<rparr>, r)"
  using assms by (cases st) (auto simp: cronRestore_def)

lemma cronRel_message:
  assumes h: "cronRel k parse s r" "ctServices (rtCron r) k = Some cs" "cbRestored cs \<or> (\<nexists>es. st = CronHandoffState es)"
    and c: "cronHandler k st msg r = Some (r', res)" and n: "fst (cronSpec parse k msg s) < 2 ^ 64"
  shows "cronRel k parse (cronSpec parse k msg s) r'"
proof -
  let ?cs = "cs\<lparr>cbRestored := True\<rparr>" and ?r = "putCron k (cs\<lparr>cbRestored := True\<rparr>) r"
  from h have p: "regInv r" "ctParse (rtCron r) = parse" "cronCore k (fst s) (snd s) ?cs" "cronIndexed ?cs"
    by (auto simp: cronRel_def cronCore_restored)
  then have id: "cbCronID ?cs = k" by (simp add: cronCore_def)
  from c h(2) have c': "cronCommand ?cs msg ?r = Some r'" by (auto simp: cronHandler_def cronRestore_plain [OF h(3)])
  have q: "regInv r' \<and> ctParse (rtCron r') = ctParse (rtCron ?r) \<and>
    ctServices (rtCron r') = (ctServices (rtCron ?r))(k \<mapsto> cronNext (ctParse (rtCron ?r)) (mmSeq (rtMonitors ?r) + 1) msg ?cs)"
    by (rule cronCommand_next [OF _ _ id c']) (simp_all add: p)
  obtain n' live' where s: "cronSpec parse k msg (fst s, snd s) = (n', live')" by fastforce
  from cronNext_rel [OF p(3,4) s, of "mmSeq (rtMonitors ?r) + 1"] n s
  have "cronCore k n' live' (cronNext parse (mmSeq (rtMonitors ?r) + 1) msg ?cs) \<and> cronIndexed (cronNext parse (mmSeq (rtMonitors ?r) + 1) msg ?cs)"
    by simp
  with q p(2) s show ?thesis by (simp add: cronRel_def)
qed

lemma cronIndexed_jobs [simp]: "cronIndexed (dropJob i cs) = cronIndexed cs" "cronIndexed (updJob i f cs) = cronIndexed cs"
  by (simp_all add: cronIndexed_def dropJob_def updJob_def cronRefsOf_def)

lemma cronRel_schedule:
  assumes h: "cronRel k parse s r" "ctServices (rtCron r) k = Some cs"
  shows "cronRel k parse s (putCron k (scheduleLoop now j cs) r)" and "cronRel k parse s (putCron k (scheduleDone j cs) r)"
    and "scheduleFires k j r = Some r' \<Longrightarrow> cronRel k parse s r'"
proof -
  from h have c: "cronCore k (fst s) (snd s) cs" "cronIndexed cs" by (auto simp: cronRel_def)
  have put: "cronRel k parse s (putCron k (dropJob i cs) r)" "cronRel k parse s (putCron k (updJob i (\<lambda>j. j\<lparr>cjNext := x\<rparr>) cs) r)" for i x
    by (rule cronRel_put [OF h(1)]; simp add: cronCore_jobs [OF c(1)] c(2))+
  have same: "cronRel k parse s (putCron k cs r)" by (rule cronRel_put [OF h(1) c])
  show "cronRel k parse s (putCron k (scheduleLoop now j cs) r)" "cronRel k parse s (putCron k (scheduleDone j cs) r)"
    by (simp_all add: scheduleLoop_def scheduleDone_def put same split: option.split)
  have "cronRel k parse s r1" if "Send a m r0 = Some (r1, ack)" "cronRel k parse s r0" for a m r0 r1 ack
  proof -
    have "regInv r0" using that(2) by (simp add: cronRel_def)
    then have "sendRel r0 r1" using that(1) by (rule Send_rel)
    from sendRel_cron [OF this] regInv_sendRel [OF this] \<open>regInv r0\<close> that(2) show ?thesis by (simp add: cronRel_def)
  qed
  with put h(2) show "scheduleFires k j r = Some r' \<Longrightarrow> cronRel k parse s r'"
    by (auto simp: scheduleFires_def split: if_splits)
qed

lemma cronHistory_rel: "cronHistory k parse s r \<Longrightarrow> fst s < 2 ^ 64 \<Longrightarrow> cronRel k parse s r"
proof (induction rule: cronHistory.induct)
  case (start r)
  then show ?case
    by (intro cronRelI [where cs = "newCronBrokerService k"])
      (simp_all add: cronCore_def cronInv_new, simp_all add: newCronBrokerService_def cronIndexed_def cronRefsOf_def)
next
  case (message s r cs st msg r' res)
  have "fst s \<le> fst (cronSpec parse k msg s)" using cronSpec_mono [of "fst s" parse k msg "snd s"] by simp
  with message show ?case by (intro cronRel_message) auto
next
  case (other s r r')
  then show ?case by (simp add: cronRel_def)
qed (use cronRel_schedule in blast)+

lemma cronList_exact:
  assumes inv: "cronInv cs" and x: "cronIndexed cs" and live: "map (\<lambda>(i, s). cronView s) (cbSubs cs) = live"
  shows "distinct (cronListRefs a cs)" and "set (cronListRefs a cs) = fst ` {v \<in> set live. viewActor v = a}"
proof -
  have ids: "map_of (cbSubs cs) i = Some s \<Longrightarrow> crID (cuRef s) = i" for i s using cronInvD(2) [OF inv] by blast
  have "map crID (cronListRefs a cs) = filter (\<lambda>i. map_of (cbSubs cs) i \<noteq> None) (cronRefsOf cs a)"
    unfolding cronListRefs_def List.map_filter_def map_map by (simp, rule map_idI) (auto intro: ids)
  moreover have "distinct \<dots>" using cronInvD(4) [OF inv] by simp
  ultimately have "distinct (map crID (cronListRefs a cs))" by simp
  then show "distinct (cronListRefs a cs)" by (simp add: distinct_map)
  have "ref \<in> set (cronListRefs a cs) \<longleftrightarrow> (\<exists>i s. map_of (cbSubs cs) i = Some s \<and> cuActorID s = a \<and> cuRef s = ref)" for ref
  proof -
    have "i \<in> set (cronRefsOf cs a) \<longleftrightarrow> (\<exists>s. map_of (cbSubs cs) i = Some s \<and> cuActorID s = a)" for i
      using x cronInvD(2) [OF inv, of i] unfolding cronIndexed_def by blast
    then show ?thesis by (force simp: cronListRefs_def List.map_filter_def)
  qed
  moreover have "(\<exists>i s. map_of (cbSubs cs) i = Some s \<and> cuActorID s = a \<and> cuRef s = ref) \<longleftrightarrow> ref \<in> fst ` {v \<in> set live. viewActor v = a}" for ref
  proof -
    have "ref \<in> fst ` {v \<in> set live. viewActor v = a} \<longleftrightarrow> (\<exists>(i, s)\<in>set (cbSubs cs). viewActor (cronView s) = a \<and> fst (cronView s) = ref)"
      unfolding live [symmetric] by force
    also have "\<dots> \<longleftrightarrow> (\<exists>(i, s)\<in>set (cbSubs cs). cuActorID s = a \<and> cuRef s = ref)"
    proof (rule bex_cong [OF refl])
      fix x assume "x \<in> set (cbSubs cs)"
      then show "(case x of (i, s) \<Rightarrow> viewActor (cronView s) = a \<and> fst (cronView s) = ref) = (case x of (i, s) \<Rightarrow> cuActorID s = a \<and> cuRef s = ref)"
        using cronView_sub(3) [OF inv, of "fst x" "snd x"] by (simp add: case_prod_beta cronView_def)
    qed
    finally show ?thesis using gomap_mem_iff [OF cronInvD(1) [OF inv]] by auto
  qed
  ultimately show "set (cronListRefs a cs) = fst ` {v \<in> set live. viewActor v = a}" by blast
qed

lemma cronCore_firing:
  assumes c: "cronCore k n live cs"
  shows "distinct (map (\<lambda>j. crID (cuRef (cjSub j))) (filter (\<lambda>j. \<not> cjCanceled j) (cbJobs cs)))"
proof -
  have inv: "cronInv cs" using c by (simp add: cronCore_def)
  have "inj_on (\<lambda>j. crID (cuRef (cjSub j))) (set (filter (\<lambda>j. \<not> cjCanceled j) (cbJobs cs)))"
  proof (rule inj_onI, simp, elim conjE)
    fix i j assume h: "i \<in> set (cbJobs cs)" "\<not> cjCanceled i" "j \<in> set (cbJobs cs)" "\<not> cjCanceled j"
      "crID (cuRef (cjSub i)) = crID (cuRef (cjSub j))"
    then have "Some (cjSub i) = Some (cjSub j)" using c unfolding cronCore_def by metis
    then have "cjID i = cjID j" using cronInvD(6) [OF inv h(1)] cronInvD(6) [OF inv h(3)] by simp
    with h cronInvD(5) [OF inv] show "i = j" by (simp add: distinct_map inj_on_def)
  qed
  moreover have "distinct (cbJobs cs)" using cronInvD(5) [OF inv] by (simp add: distinct_map)
  ultimately show ?thesis by (simp add: distinct_map)
qed


section \<open>An example\<close>

definition exCronRuntime :: Runtime where
  "exCronRuntime = fst (CronHandler ''c'' (NewRuntime None '''' noHooks True (\<lambda>_. 0) 4 (\<lambda>s. if s = ''@hourly'' then Some (\<lambda>t. Some (t + 3600)) else None)))"

definition exCronMessage :: Message where
  "exCronMessage = zeroMessage\<lparr>msgPayload := CronSubscribeCommand exPID ''@hourly'' NilAny ''t'',
     msgAsk := Some \<lparr>arcRequestID = ''q'', arcReplyTo = \<lparr>pidNamespace = askReplyNamespace, pidActorID = ''q'', pidGeneration = 1\<rparr>\<rparr>\<rparr>"

definition exCronView :: "string \<Rightarrow> cronView" where
  "exCronView a = (\<lparr>crID = cronRefID ''c'' 1, crSchedule = ''@hourly'', crActorID = a\<rparr>, exPID, (\<lambda>t. Some (t + 3600)), NilAny, ''t'')"

lemma reply_total:
  assumes "rtNodeID r = ''''"
  shows "\<exists>r'. cron_replyAsk q \<lparr>pidNamespace = askReplyNamespace, pidActorID = a, pidGeneration = g\<rparr> ack r = Some r'"
proof -
  let ?p = "\<lparr>pidNamespace = askReplyNamespace, pidActorID = a, pidGeneration = g\<rparr>"
  have "\<exists>r' b. routeAskReply ?p x m (nextMsgID r) = Some (r', b)" for x m
    using assms by (auto simp: routeAskReply_def isAskReplyNamespace_def askReplyNamespace_def nextMsgID_def Let_def split: option.split prod.split)
  then obtain r' b where "routeAskReply ?p (AskReplyEnvelope q (CronCommandAckVal ack)) (rtMsgSeq (nextMsgID r)) (nextMsgID r) = Some (r', b)"
    by blast
  then show ?thesis by (simp add: cron_replyAsk_def SendPID_def sendPIDWithSender_def Let_def)
qed

lemma exCron_service:
  "regInv exCronRuntime" "rtNodeID exCronRuntime = ''''" "ctServices (rtCron exCronRuntime) ''c'' = Some (newCronBrokerService ''c'')"
  "ctParse (rtCron exCronRuntime) = (\<lambda>s. if s = ''@hourly'' then Some (\<lambda>t. Some (t + 3600)) else None)"
  by (simp_all add: exCronRuntime_def CronHandler_def defaultCronID_def NewRuntime_def putCron_def regInv_def Let_def)

lemma cronRestore_node: "rtNodeID (snd (cronRestore st x)) = rtNodeID (snd x)"
proof -
  have "rtNodeID (snd (restoreOne e x)) = rtNodeID (snd x)" for e x
  proof (cases x; cases e)
    fix cs r refID actorID schedule tag payload
    assume x: "x = (cs, r)" "e = (refID, actorID, schedule, tag, payload)"
    obtain r1 m where "Monitor \<lparr>pidNamespace = rtNodeID r, pidActorID = cbCronID cs, pidGeneration = 1\<rparr>
        \<lparr>pidNamespace = rtNodeID r, pidActorID = actorID, pidGeneration = 1\<rparr> r = (r1, m)" by fastforce
    with Monitor_fields [OF this] show ?thesis by (simp add: x restoreOne_def cronSubscriber_def split: option.split)
  qed
  then have "rtNodeID (snd (fold restoreOne es x)) = rtNodeID (snd x)" for es x by (induction es arbitrary: x) simp_all
  then show ?thesis by (cases x) (simp add: cronRestore_def restoreFromHandoff_def Let_def split: any.split)
qed

text \<open>The message subscribes at a service on a single node, whatever state the actor has.\<close>

lemma exCron_handled:
  assumes "ctServices (rtCron r) ''c'' = Some cs" "rtNodeID r = ''''"
  shows "\<exists>r' res. cronHandler ''c'' st exCronMessage r = Some (r', res)"
proof -
  obtain cs1 r1 where re: "cronRestore st (cs, r) = (cs1, r1)" by fastforce
  then have n: "rtNodeID r1 = ''''" using cronRestore_node [of st "(cs, r)"] assms(2) by simp
  obtain r2 m where mon: "Monitor \<lparr>pidNamespace = pidNamespace exPID, pidActorID = cbCronID cs1, pidGeneration = 1\<rparr> exPID (putCron ''c'' cs1 r1) = (r2, m)"
    by fastforce
  from Monitor_fields [OF mon] n have n2: "rtNodeID r2 = ''''" by simp
  have msg: "msgPayload exCronMessage = CronSubscribeCommand exPID ''@hourly'' NilAny ''t''" "IsAsk exCronMessage"
    "replyToOf exCronMessage = \<lparr>pidNamespace = askReplyNamespace, pidActorID = ''q'', pidGeneration = 1\<rparr>"
    by (simp_all add: exCronMessage_def zeroMessage_def IsAsk_def replyToOf_def AskReplyTo_def)
  have "\<exists>r'. cronCommand cs1 exCronMessage (putCron ''c'' cs1 r1) = Some r'"
  proof (cases "ctParse (rtCron (putCron ''c'' cs1 r1)) ''@hourly''")
    case None
    with n show ?thesis by (simp add: cronCommand_def msg cron_handleSubscribe_def reply_total)
  next
    case (Some sched)
    with n2 mon show ?thesis
      by (simp add: cronCommand_def msg cron_handleSubscribe_def cronSubscriber_def Let_def reply_total)
  qed
  with assms(1) re show ?thesis by (auto simp: cronHandler_def)
qed

lemma exCron_history:
  "\<exists>r. cronHistory ''c'' (\<lambda>s. if s = ''@hourly'' then Some (\<lambda>t. Some (t + 3600)) else None) (1, [exCronView ''a'']) r"
proof -
  obtain r res where r: "cronHandler ''c'' NilAny exCronMessage exCronRuntime = Some (r, res)"
    using exCron_handled [OF exCron_service(3,2)] by blast
  from cronHistory.message [OF cronHistory.start [OF exCron_service(1,4,3)] exCron_service(3) _ r]
  have "cronHistory ''c'' (\<lambda>s. if s = ''@hourly'' then Some (\<lambda>t. Some (t + 3600)) else None)
      (cronSpec (\<lambda>s. if s = ''@hourly'' then Some (\<lambda>t. Some (t + 3600)) else None) ''c'' exCronMessage (0, [])) r"
    by simp
  moreover have "cronSpec (\<lambda>s. if s = ''@hourly'' then Some (\<lambda>t. Some (t + 3600)) else None) ''c'' exCronMessage (0, []) = (1, [exCronView ''a''])"
    by (simp add: cronSpec.simps exCronMessage_def exCronView_def zeroMessage_def IsAsk_def exPID_def)
  ultimately show ?thesis by auto
qed

text \<open>
  Claim C23. A cron timer that started with empty tables and took over no handoff state: whatever
  messages its handler takes, in whatever order its goroutines run, and whatever else the runtime
  does in between that leaves the cron services alone, as long as fewer than \<open>2 ^ 64\<close> subscriptions
  were made, its table holds exactly the subscriptions the messages ask for, each under its own
  reference ID with its subscriber, schedule, payload and tag; the list of an actor has each
  reference of that actor once and no other; a goroutine that can still fire belongs to a
  subscription in the table, and no subscription has two of them.
\<close>

theorem cron_service_refines:
  assumes "cronHistory k parse (n, live) r" and "n < 2 ^ 64"
  shows "\<exists>cs. ctServices (rtCron r) k = Some cs \<and> cronHolds cs (set live) \<and> distinct (map viewRef live) \<and>
     (\<forall>a. distinct (cronListRefs a cs) \<and> set (cronListRefs a cs) = fst ` {v \<in> set live. viewActor v = a}) \<and>
     (\<forall>j\<in>set (cbJobs cs). \<not> cjCanceled j \<longrightarrow> cronView (cjSub j) \<in> set live) \<and>
     distinct (map (\<lambda>j. crID (cuRef (cjSub j))) (filter (\<lambda>j. \<not> cjCanceled j) (cbJobs cs)))"
proof -
  from cronHistory_rel [OF assms(1)] assms(2) obtain cs where
    cs: "ctServices (rtCron r) k = Some cs" "cronCore k n live cs" "cronIndexed cs" by (auto simp: cronRel_def)
  from cs(2) have live: "map (\<lambda>(i, s). cronView s) (cbSubs cs) = live" by (simp add: cronCore_def)
  have "cronView (cjSub j) \<in> set live" if "j \<in> set (cbJobs cs)" "\<not> cjCanceled j" for j
  proof -
    have "map_of (cbSubs cs) (crID (cuRef (cjSub j))) = Some (cjSub j)" using cs(2) that by (simp add: cronCore_def)
    from map_of_SomeD [OF this] show ?thesis unfolding live [symmetric] by force
  qed
  with cs(1) cronHolds_subs [OF cronCore_inv [OF cs(2)] live] cronList_exact [OF cronCore_inv [OF cs(2)] cs(3) live]
    cronCore_firing [OF cs(2)] show ?thesis by blast
qed

theorem cron_service_refines_witness:
  "\<exists>r cs. cronHistory ''c'' (\<lambda>s. if s = ''@hourly'' then Some (\<lambda>t. Some (t + 3600)) else None) (1, [exCronView ''a'']) r \<and>
     ctServices (rtCron r) ''c'' = Some cs \<and> set (cronListRefs ''a'' cs) = {fst (exCronView ''a'')}"
proof -
  obtain r where h: "cronHistory ''c'' (\<lambda>s. if s = ''@hourly'' then Some (\<lambda>t. Some (t + 3600)) else None) (1, [exCronView ''a'']) r"
    using exCron_history by blast
  from cron_service_refines [OF h] obtain cs where "ctServices (rtCron r) ''c'' = Some cs"
    "set (cronListRefs ''a'' cs) = fst ` {v \<in> set [exCronView ''a'']. viewActor v = ''a''}" by auto
  moreover have "viewActor (exCronView ''a'') = ''a''" by (simp add: exCronView_def viewActor_def)
  ultimately show ?thesis using h by auto
qed

section \<open>Handoff\<close>

text \<open>The entry of the handoff state for a subscription.\<close>

definition viewEntry :: "cronView \<Rightarrow> string \<times> string \<times> string \<times> string \<times> any" where
  "viewEntry v = (case v of (ref, q, sched, payload, tag) \<Rightarrow> (crID ref, crActorID ref, crSchedule ref, tag, payload))"

definition viewParsed :: "(string \<Rightarrow> cronSchedule option) \<Rightarrow> cronView \<Rightarrow> bool" where
  "viewParsed parse v \<longleftrightarrow> parse (crSchedule (fst v)) = Some (fst (snd (snd v)))"

text \<open>
  What becomes of a subscription that is taken over on a node: the subscriber is the actor with the
  same ID on that node, of generation one.
\<close>

definition rehomed :: "string \<Rightarrow> cronView \<Rightarrow> cronView" where
  "rehomed node v = (case v of (ref, q, rest) \<Rightarrow> (ref, \<lparr>pidNamespace = node, pidActorID = crActorID ref, pidGeneration = 1\<rparr>, rest))"

lemma rehomed_ref [simp]: "fst (rehomed node v) = fst v" "viewRef (rehomed node v) = viewRef v" "viewActor (rehomed node v) = viewActor v"
  by (simp_all add: rehomed_def viewRef_def viewActor_def split: prod.split)

lemma cronHistory_parsed: "cronHistory k parse s r \<Longrightarrow> list_all (viewParsed parse) (snd s)"
proof (induction rule: cronHistory.induct)
  case (message s r cs st msg r' res)
  obtain n live where s: "s = (n, live)" by (cases s)
  have "list_all (viewParsed parse) (filter P live)" for P using message.IH s by (auto simp: list_all_iff)
  moreover have "viewParsed parse (ref, q, sched, payload, tag) \<longleftrightarrow> parse (crSchedule ref) = Some sched" for ref q sched payload tag
    by (simp add: viewParsed_def)
  ultimately show ?case using message.IH
    by (auto simp: s cronSpec.simps split: any.split option.split)
qed simp_all

lemma capture_entries:
  assumes "cronInv cs"
  shows "captureState cs = CronHandoffState (map viewEntry (map (\<lambda>(i, s). cronView s) (cbSubs cs)))"
proof -
  have "crActorID (cuRef s) = cuActorID s" if "(i, s) \<in> set (cbSubs cs)" for i s
    using cronView_sub(3) [OF assms that] by (simp add: viewActor_def cronView_def)
  then show ?thesis by (auto simp: captureState_def viewEntry_def cronView_def)
qed

lemma restoreOne_add:
  assumes "viewParsed (ctParse (rtCron r)) v"
  obtains sub r' where "restoreOne (viewEntry v) (cs, r) = (cronAdd sub cs, r')" "cronView sub = rehomed (rtNodeID r) v" "cuActorID sub = viewActor v"
    "rtCron r' = rtCron r" "regInv r' = regInv r" "rtNodeID r' = rtNodeID r"
proof -
  obtain ref q sched payload tag where v: "v = (ref, q, sched, payload, tag)" by (cases v)
  let ?pid = "\<lparr>pidNamespace = rtNodeID r, pidActorID = crActorID ref, pidGeneration = 1\<rparr>"
  obtain r' m where m: "Monitor \<lparr>pidNamespace = rtNodeID r, pidActorID = cbCronID cs, pidGeneration = 1\<rparr> ?pid r = (r', m)" by fastforce
  note mf = Monitor_fields [OF m]
  have e: "\<lparr>crID = crID ref, crSchedule = crSchedule ref, crActorID = crActorID ref\<rparr> = ref" by simp
  have "restoreOne (viewEntry v) (cs, r) = (cronAdd \<lparr>cuRef = ref, cuSubscriber = ?pid, cuActorID = crActorID ref, cuSchedule = sched,
      cuPayload = payload, cuTag = tag, cuMonitorRef = m, cuCancel = 0\<rparr> cs, r')"
    using assms m by (simp add: v restoreOne_def viewEntry_def viewParsed_def cronSubscriber_def e)
  then show ?thesis by (rule that) (use mf in \<open>simp_all add: v cronView_def viewActor_def rehomed_def\<close>)
qed

lemma cronView_cancel [simp]: "cronView (sub\<lparr>cuCancel := i\<rparr>) = cronView sub"
  by (simp add: cronView_def)

lemma restore_views:
  assumes "list_all (viewParsed (ctParse (rtCron r))) live" "distinct (map viewRef live)"
    "\<forall>v\<in>set live. map_of (cbSubs cs) (viewRef v) = None" "cronInv cs" "cronIndexed cs"
    and "restoreFromHandoff (map viewEntry live) (cs, r) = (cs', r')"
  shows "map (\<lambda>(i, s). cronView s) (cbSubs cs') = map (\<lambda>(i, s). cronView s) (cbSubs cs) @ map (rehomed (rtNodeID r)) live \<and> cronInv cs' \<and> cronIndexed cs' \<and>
    cbSeq cs' = cbSeq cs \<and> cbCronID cs' = cbCronID cs \<and> rtCron r' = rtCron r \<and> regInv r' = regInv r \<and>
    (\<exists>js. cbJobs cs' = cbJobs cs @ js \<and> map (\<lambda>j. cronView (cjSub j)) js = map (rehomed (rtNodeID r)) live \<and> list_all (\<lambda>j. \<not> cjCanceled j) js)"
  using assms
proof (induction live arbitrary: cs r)
  case Nil
  then show ?case by (simp add: restoreFromHandoff_def)
next
  case (Cons v live)
  from Cons.prems(1) have "viewParsed (ctParse (rtCron r)) v" by simp
  from restoreOne_add [OF this, of cs] obtain sub r1 where
    one: "restoreOne (viewEntry v) (cs, r) = (cronAdd sub cs, r1)" "cronView sub = rehomed (rtNodeID r) v" "cuActorID sub = viewActor v"
      "rtCron r1 = rtCron r" "regInv r1 = regInv r" "rtNodeID r1 = rtNodeID r" by blast
  have ref: "crID (cuRef sub) = viewRef v" "crActorID (cuRef sub) = cuActorID sub"
    using arg_cong [OF one(2), of fst] one(3) by (simp_all add: viewRef_def viewActor_def cronView_def)
  have fresh: "map_of (cbSubs cs) (viewRef v) = None" using Cons.prems(3) by simp
  have inv: "cronInv (cronAdd sub cs)" by (rule cronInv_add [OF Cons.prems(4) ref(2)])
  have idx: "cronIndexed (cronAdd sub cs)" using fresh by (intro cronIndexed_add [OF Cons.prems(5)]) (simp add: ref)
  have rest: "restoreFromHandoff (map viewEntry live) (cronAdd sub cs, r1) = (cs', r')"
    using Cons.prems(6) one(1) by (simp add: restoreFromHandoff_def)
  have "\<forall>w\<in>set live. map_of (cbSubs (cronAdd sub cs)) (viewRef w) = None"
    using Cons.prems(2,3) by (simp add: ref) (metis image_eqI)
  from Cons.IH [OF _ _ this inv idx rest] Cons.prems(1,2) one(2,4-6) show ?case
    by (auto simp: ref gomap_put_fresh [OF fresh])
qed


text \<open>
  What a new instance with the same parser takes over from the state of an old one, whatever the
  order \<open>subs\<close> in which the old one visits its map.
\<close>

lemma cronRestore_capture:
  assumes h: "cronHistory k parse (n, live) r" "n < 2 ^ 64" "ctServices (rtCron r) k = Some cs" and p: "ctParse (rtCron r1) = parse"
    and o: "mset subs = mset (cbSubs cs)"
    and s: "cronRestore (captureState (cs\<lparr>cbSubs := subs\<rparr>)) (newCronBrokerService k', r1) = (cs', r2)"
  shows "mset (map (\<lambda>(i, s). cronView s) (cbSubs cs')) = mset (map (rehomed (rtNodeID r1)) live) \<and> cronInv cs' \<and> cronIndexed cs' \<and>
    cbSeq cs' = 0 \<and> cbCronID cs' = k' \<and> rtCron r2 = rtCron r1 \<and> regInv r2 = regInv r1 \<and>
    map (\<lambda>j. cronView (cjSub j)) (cbJobs cs') = map (\<lambda>(i, s). cronView s) (cbSubs cs') \<and> list_all (\<lambda>j. \<not> cjCanceled j) (cbJobs cs')"
proof -
  from cronHistory_rel [OF h(1)] h(2,3) have c: "cronCore k n live cs" by (simp add: cronRel_def)
  then have inv: "cronInv cs" and live: "map (\<lambda>(i, s). cronView s) (cbSubs cs) = live" by (simp_all add: cronCore_def)
  let ?cs = "cs\<lparr>cbSubs := subs\<rparr>"
  define views where "views = map (\<lambda>(i, s). cronView s) subs"
  have vs: "mset views = mset live" using o by (simp add: views_def flip: live)
  have keys: "mset (map fst subs) = mset (map fst (cbSubs cs))" using o by simp
  have dist: "distinct (map fst subs)" using mset_eq_imp_distinct_iff [OF keys] cronInvD(1) [OF inv] by (simp add: gomap_ok_def)
  have look: "map_of subs = map_of (cbSubs cs)"
    using dist cronInvD(1) [OF inv] mset_eq_setD [OF o] by (simp add: gomap_ok_def map_of_inject_set)
  have "cronInv ?cs" using inv dist look by (simp add: cronInv_def gomap_ok_def cronRefsOf_def)
  note cap = capture_entries [OF this]
  let ?new = "(newCronBrokerService k')\<lparr>cbRestored := True\<rparr>"
  have "restoreFromHandoff (map viewEntry views) (?new, r1) = (cs', r2)"
    using s unfolding cap by (simp add: cronRestore_def newCronBrokerService_def views_def)
  moreover have "mset (map viewRef views) = mset (map viewRef live)" using vs by simp
  then have "distinct (map viewRef views)" using mset_eq_imp_distinct_iff cronHolds_subs(2) [OF inv live] by blast
  moreover have "list_all (viewParsed (ctParse (rtCron r1))) views"
    using cronHistory_parsed [OF h(1)] p mset_eq_setD [OF vs] by (simp add: list_all_iff)
  moreover have "cronInv ?new" "cronIndexed ?new"
    by (simp_all add: cronInv_def cronIndexed_def newCronBrokerService_def cronRefsOf_def)
  moreover have "mset (map (rehomed (rtNodeID r1)) views) = mset (map (rehomed (rtNodeID r1)) live)" using vs by simp
  ultimately show ?thesis
    using restore_views [of r1 views ?new cs' r2] by (auto simp: newCronBrokerService_def)
qed

text \<open>
  Claim C24. A cron timer that started with empty tables, took over no handoff state and made fewer
  than \<open>2 ^ 64\<close> subscriptions hands them all over: the state that it captures, in whatever order it
  visits its map, given to an empty new instance whose parser is the same, makes that instance hold
  exactly these subscriptions under their reference IDs, with their schedule, payload and tag, list
  them for the same actors, and run one goroutine for each of them. The subscriber of each becomes
  the actor with the same ID on the new node, of generation one, whatever its node and generation
  were before. The state is taken to arrive as the pointer that the handler of the cron actor
  expects.
\<close>

theorem cron_handoff_roundtrip:
  assumes "cronHistory k parse (n, live) r" "n < 2 ^ 64" "ctServices (rtCron r) k = Some cs"
    and "ctParse (rtCron r1) = parse" and "mset subs = mset (cbSubs cs)"
    and "cronRestore (captureState (cs\<lparr>cbSubs := subs\<rparr>)) (newCronBrokerService k', r1) = (cs', r2)"
  shows "cronHolds cs' (rehomed (rtNodeID r1) ` set live) \<and>
    (\<forall>a. distinct (cronListRefs a cs') \<and> set (cronListRefs a cs') = fst ` {v \<in> set live. viewActor v = a}) \<and>
    set (map (\<lambda>j. cronView (cjSub j)) (cbJobs cs')) = rehomed (rtNodeID r1) ` set live \<and>
    distinct (map (\<lambda>j. crID (cuRef (cjSub j))) (cbJobs cs')) \<and> list_all (\<lambda>j. \<not> cjCanceled j) (cbJobs cs')"
proof -
  note re = cronRestore_capture [OF assms]
  define views where "views = map (\<lambda>(i, s). cronView s) (cbSubs cs')"
  have set: "set views = rehomed (rtNodeID r1) ` set live" using re [THEN conjunct1, THEN mset_eq_setD] by (simp add: views_def)
  note holds = cronHolds_subs [of cs' views, OF _ views_def [symmetric]]
  have "fst ` {v \<in> set views. viewActor v = a} = fst ` {v \<in> set live. viewActor v = a}" for a unfolding set by force
  then have refs: "distinct (cronListRefs a cs') \<and> set (cronListRefs a cs') = fst ` {v \<in> set live. viewActor v = a}" for a
    using re cronList_exact [of cs' views a] by (simp add: views_def)
  have jobs: "map (\<lambda>j. cronView (cjSub j)) (cbJobs cs') = views" using re by (simp add: views_def)
  have "map (\<lambda>j. crID (cuRef (cjSub j))) (cbJobs cs') = map viewRef views"
    unfolding jobs [symmetric] by (simp add: viewRef_def cronView_def)
  with re holds refs set jobs show ?thesis by simp
qed

theorem cron_handoff_roundtrip_witness:
  "\<exists>(r :: Runtime) cs cs' r2. ctServices (rtCron r) ''c'' = Some cs \<and> cronRestore (captureState cs) (newCronBrokerService ''c'', exCronRuntime) = (cs', r2) \<and>
     cronHolds cs' {rehomed '''' (exCronView ''a'')}"
proof -
  obtain r where h: "cronHistory ''c'' (\<lambda>s. if s = ''@hourly'' then Some (\<lambda>t. Some (t + 3600)) else None) (1, [exCronView ''a'']) r"
    using exCron_history by blast
  obtain cs where cs: "ctServices (rtCron r) ''c'' = Some cs" using cronHistory_rel [OF h] by (auto simp: cronRel_def)
  obtain cs' r2 where s: "cronRestore (captureState (cs\<lparr>cbSubs := cbSubs cs\<rparr>)) (newCronBrokerService ''c'', exCronRuntime) = (cs', r2)" by fastforce
  have "cronHolds cs' {rehomed '''' (exCronView ''a'')}"
    using cron_handoff_roundtrip [OF h _ cs exCron_service(4) refl s] by (simp add: exCron_service(2))
  with cs s show ?thesis by (intro exI conjI) simp_all
qed

text \<open>
  References are not unique across a handoff, because the new instance starts counting
  at one again: when the first subscription of the old instance is still there, the first
  subscription made at the new one replaces it in the table, while the goroutine of the replaced
  one goes on, not cancelled and out of reach of every later command.
\<close>

theorem cron_ref_reuse_after_handoff:
  assumes h: "cronHistory k parse (n, live) r" "n < 2 ^ 64" "ctServices (rtCron r) k = Some cs"
    and v: "v \<in> set live" "viewRef v = cronRefID k 1"
    and new: "regInv r1" "ctParse (rtCron r1) = parse" "ctServices (rtCron r1) k = Some (newCronBrokerService k)"
    and m: "msgPayload msg = CronSubscribeCommand q sc payload tag" "IsAsk msg" "parse sc = Some sched"
    and c: "cronHandler k (captureState cs) msg r1 = Some (r2, res)"
  shows "\<exists>cs2 j. ctServices (rtCron r2) k = Some cs2 \<and> length (cbSubs cs2) = length live \<and>
     (\<exists>s. map_of (cbSubs cs2) (cronRefID k 1) = Some s \<and>
        cronView s = (\<lparr>crID = cronRefID k 1, crSchedule = sc, crActorID = pidActorID q\<rparr>, q, sched, payload, tag)) \<and>
     j \<in> set (cbJobs cs2) \<and> \<not> cjCanceled j \<and> cronView (cjSub j) = rehomed (rtNodeID r1) v \<and> cjSub j \<notin> snd ` set (cbSubs cs2)"
proof -
  obtain cs1 r1' where s: "cronRestore (captureState cs) (newCronBrokerService k, r1) = (cs1, r1')" by fastforce
  then have "cronRestore (captureState (cs\<lparr>cbSubs := cbSubs cs\<rparr>)) (newCronBrokerService k, r1) = (cs1, r1')" by simp
  note re = cronRestore_capture [OF h new(2) refl this]
  have views: "rehomed (rtNodeID r1) v \<in> set (map (\<lambda>(i, s). cronView s) (cbSubs cs1))"
    using re [THEN conjunct1, THEN mset_eq_setD] v(1) by auto
  have cs1: "cronInv cs1" "cbSeq cs1 = 0" "cbCronID cs1 = k" "rtCron r1' = rtCron r1" "regInv r1'" using re new(1) by simp_all
  let ?r = "putCron k cs1 r1'"
  have c': "cronCommand cs1 msg ?r = Some r2" using c new(3) s by (auto simp: cronHandler_def)
  let ?mon = "mmSeq (rtMonitors ?r) + 1"
  have q: "ctServices (rtCron r2) = (ctServices (rtCron ?r))(k \<mapsto> cronNext (ctParse (rtCron ?r)) ?mon msg cs1)"
    using cronCommand_next [OF _ _ cs1(3) c'] cs1(5) by simp
  let ?sub = "\<lparr>cuRef = \<lparr>crID = cronRefID k 1, crSchedule = sc, crActorID = pidActorID q\<rparr>, cuSubscriber = q, cuActorID = pidActorID q,
      cuSchedule = sched, cuPayload = payload, cuTag = tag, cuMonitorRef = ?mon, cuCancel = 0\<rparr>"
  let ?cs2 = "cronAdd ?sub (cs1\<lparr>cbSeq := 1\<rparr>)"
  have next_eq: "cronNext (ctParse (rtCron ?r)) ?mon msg cs1 = ?cs2"
    using m new(2) cs1(2-4) by (simp add: cronNext_def)
  have "rehomed (rtNodeID r1) v \<in> set (map (\<lambda>j. cronView (cjSub j)) (cbJobs cs1))" using re views by simp
  then obtain j where j: "j \<in> set (cbJobs cs1)" "cronView (cjSub j) = rehomed (rtNodeID r1) v" by auto
  have "viewRef (cronView (cjSub j)) = cronRefID k 1" using j(2) v(2) by simp
  then have j2: "\<not> cjCanceled j" "cuCancel (cjSub j) < cbNextJob cs1" "crID (cuRef (cjSub j)) = cronRefID k 1"
    using re cronInvD(6) [OF cs1(1) j(1)] j(1) by (auto simp: list_all_iff viewRef_def cronView_def)
  from views obtain i s1 where s1: "(i, s1) \<in> set (cbSubs cs1)" "cronView s1 = rehomed (rtNodeID r1) v" by auto
  then have "map_of (cbSubs cs1) (cronRefID k 1) = Some s1" using cronView_sub(1,2) [OF cs1(1) s1(1)] v(2) by simp
  moreover have "length (cbSubs cs1) = length live" using re [THEN conjunct1, THEN mset_eq_length] by simp
  ultimately have len: "length (cbSubs ?cs2) = length live" by (simp add: gomap_length_put)
  have "cjSub j \<notin> snd ` set (cbSubs ?cs2)"
  proof
    assume "cjSub j \<in> snd ` set (cbSubs ?cs2)"
    then obtain i where i: "(i, cjSub j) \<in> set (cbSubs ?cs2)" by auto
    have "cronInv (cs1\<lparr>cbSeq := 1\<rparr>)" using cs1(1) by (simp add: cronInv_def cronRefsOf_def)
    then have "cronInv ?cs2" by (rule cronInv_add) simp
    from cronView_sub(1,2) [OF this i] v(2) j(2) have "map_of (cbSubs ?cs2) (cronRefID k 1) = Some (cjSub j)" by simp
    then have "cuCancel (cjSub j) = cbNextJob cs1" by (simp, elim subst) simp
    with j2(2) show False by simp
  qed
  with q next_eq len j j2 show ?thesis by (auto simp: cronView_def)
qed


theorem cron_ref_reuse_after_handoff_witness:
  "\<exists>(r :: Runtime) cs r2 res cs2 j. ctServices (rtCron r) ''c'' = Some cs \<and> cronHandler ''c'' (captureState cs) exCronMessage exCronRuntime = Some (r2, res) \<and>
     ctServices (rtCron r2) ''c'' = Some cs2 \<and> length (cbSubs cs2) = 1 \<and> j \<in> set (cbJobs cs2) \<and> \<not> cjCanceled j \<and>
     cjSub j \<notin> snd ` set (cbSubs cs2)"
proof -
  obtain r where h: "cronHistory ''c'' (\<lambda>s. if s = ''@hourly'' then Some (\<lambda>t. Some (t + 3600)) else None) (1, [exCronView ''a'']) r"
    using exCron_history by blast
  obtain cs where cs: "ctServices (rtCron r) ''c'' = Some cs" using cronHistory_rel [OF h] by (auto simp: cronRel_def)
  obtain r2 res where c: "cronHandler ''c'' (captureState cs) exCronMessage exCronRuntime = Some (r2, res)"
    using exCron_handled [OF exCron_service(3,2)] by blast
  have v: "exCronView ''a'' \<in> set [exCronView ''a'']" "viewRef (exCronView ''a'') = cronRefID ''c'' 1"
    by (simp_all add: exCronView_def viewRef_def)
  have m: "msgPayload exCronMessage = CronSubscribeCommand exPID ''@hourly'' NilAny ''t''" "IsAsk exCronMessage"
    by (simp_all add: exCronMessage_def zeroMessage_def IsAsk_def)
  from cron_ref_reuse_after_handoff [OF h _ cs v exCron_service(1,4,3) m _ c] obtain cs2 j where
    "ctServices (rtCron r2) ''c'' = Some cs2" "length (cbSubs cs2) = 1" "j \<in> set (cbJobs cs2)" "\<not> cjCanceled j"
    "cjSub j \<notin> snd ` set (cbSubs cs2)" by auto
  with cs c show ?thesis by blast
qed

section \<open>Stopping the actor\<close>


lemma submit_putCron [simp]: "submitSpec (putCron k cs r) a x = submitSpec r a x" "submitInsts (putCron k cs r) a x c = submitInsts r a x c"
proof -
  have f: "rtRegistry (putCron k cs r) = rtRegistry r" "instAt (putCron k cs r) = instAt r" "rtRouting (putCron k cs r) = rtRouting r"
    "rtInsts (putCron k cs r) = rtInsts r" "rtMsgSeq (putCron k cs r) = rtMsgSeq r"
    by (simp_all add: putCron_def fun_eq_iff)
  show s: "submitSpec (putCron k cs r) a x = submitSpec r a x"
    by (simp add: submitSpec_def f split: option.split routeMatch.split)
  show "submitInsts (putCron k cs r) a x c = submitInsts r a x c" by (simp add: submitInsts_def s f Let_def)
qed







end
