(* ===== verification/Hashing.thy ===== *)
theory Hashing
  imports Prelude "HOL-Library.Multiset"
begin

text \<open>
  The hash functions of the cluster package: FNV-1a with 64 bits (\<open>hash/fnv\<close>), the hash of a
  node for a key or an election scope, the vnode hash of the ring, and ranking by hash. The Go
  code ranks with \<open>sort.Slice\<close>, which leaves the order of equal hashes open; \<open>rankBy\<close> keeps
  the order of its argument there, and the theorems that depend on the order ask for distinct
  hashes.
\<close>

unbundle bit_operations_syntax

section \<open>FNV-1a\<close>

definition fnv64aWrite :: "u64 \<Rightarrow> string \<Rightarrow> u64" where
  "fnv64aWrite h s = foldl (\<lambda>h c. (h XOR of_nat (of_char c)) * 1099511628211) h s"

definition fnv64a :: "string \<Rightarrow> u64" where
  "fnv64a s = fnv64aWrite 14695981039346656037 s"

lemma fnv64aWrite_append: "fnv64aWrite h (s @ t) = fnv64aWrite (fnv64aWrite h s) t"
  by (simp add: fnv64aWrite_def)

text \<open>The published test vectors of the empty string and of \<open>a\<close>.\<close>

lemma fnv64a_empty: "fnv64a '''' = 0xcbf29ce484222325"
  by (simp add: fnv64a_def fnv64aWrite_def)

lemma fnv64a_a: "fnv64a ''a'' = 0xaf63dc4c8601ec8c"
  by (simp add: fnv64a_def fnv64aWrite_def of_char_def)

definition hashString :: "string \<Rightarrow> u64" where
  "hashString s = fnv64a s"

text \<open>\<open>h.Write(key); h.Write(0); h.Write(id)\<close>, as election and full mesh compute it.\<close>

definition nodeHash :: "string \<Rightarrow> string \<Rightarrow> u64" where
  "nodeHash key nid =
     fnv64aWrite (fnv64aWrite (fnv64aWrite 14695981039346656037 key) [CHR 0x00]) nid"

lemma nodeHash_eq: "nodeHash key nid = fnv64a (key @ [CHR 0x00] @ nid)"
  by (simp only: nodeHash_def fnv64a_def fnv64aWrite_append)

definition byteAt :: "nat \<Rightarrow> u64 \<Rightarrow> char" where
  "byteAt k w = char_of (unat (drop_bit k w) mod 256)"

definition hashVNode :: "string \<Rightarrow> int \<Rightarrow> u64" where
  "hashVNode nid vnode =
     (let first = fnv64a nid;
          mixed = first XOR (of_int vnode * 0x9e3779b97f4a7c15)
      in fnv64a [byteAt 56 mixed, byteAt 48 mixed, byteAt 40 mixed, byteAt 32 mixed,
                 byteAt 24 mixed, byteAt 16 mixed, byteAt 8 mixed, byteAt 0 mixed])"

text \<open>Evaluation of the hashes on concrete strings.\<close>

lemma byteAt_value: "of_nat (of_char (byteAt k w)) = (of_nat (unat w div 2 ^ k mod 256) :: u64)"
  by (simp add: byteAt_def unat_drop_bit_eq) (simp only: drop_bit_eq_div)

lemma fnv64aWrite_Cons: "fnv64aWrite h (c # s) = fnv64aWrite ((h XOR of_nat (of_char c)) * 1099511628211) s"
  and fnv64aWrite_Nil: "fnv64aWrite h [] = h"
  by (simp_all add: fnv64aWrite_def)

lemmas hash_eval = fnv64a_def fnv64aWrite_Cons fnv64aWrite_Nil byteAt_value

section \<open>Ranking by hash\<close>

definition rankBy :: "('a \<Rightarrow> u64) \<Rightarrow> 'a list \<Rightarrow> 'a list" where
  "rankBy f xs = sort_key f xs"

lemma set_rankBy [simp]: "set (rankBy f xs) = set xs"
  by (simp add: rankBy_def)

lemma length_rankBy [simp]: "length (rankBy f xs) = length xs"
  by (simp add: rankBy_def)

lemma distinct_rankBy [simp]: "distinct (rankBy f xs) = distinct xs"
  by (simp add: rankBy_def)

lemma rankBy_Nil_iff [simp]: "rankBy f xs = [] \<longleftrightarrow> xs = []"
  using length_rankBy [of f xs] by (metis length_0_conv)

lemma sorted_rankBy: "sorted (map f (rankBy f xs))"
  by (simp add: rankBy_def)

text \<open>With distinct hashes the ranking depends on the set of candidates only.\<close>

lemma rankBy_set_eq:
  assumes "set xs = set ys" and "distinct xs" and "distinct ys" and "inj_on f (set xs)"
  shows "rankBy f xs = rankBy f ys"
proof -
  have "mset xs = mset ys" using assms(1-3) set_eq_iff_mset_eq_distinct by blast
  then have "mset xs = mset (sort_key f ys)" by simp
  from sort_key_inj_key_eq [OF this assms(4)] show ?thesis by (simp add: rankBy_def)
qed

lemma hd_rankBy_min:
  assumes "x \<in> set xs"
  shows "f (hd (rankBy f xs)) \<le> f x"
proof -
  obtain y ys where r: "rankBy f xs = y # ys" using assms by (cases "rankBy f xs") auto
  with sorted_rankBy [of f xs] have "\<forall>z\<in>set ys. f y \<le> f z" by simp
  moreover have "x = y \<or> x \<in> set ys" using assms r set_rankBy [of f xs] by (metis set_ConsD)
  ultimately show ?thesis by (auto simp: r)
qed

lemma hd_rankBy_in: "xs \<noteq> [] \<Longrightarrow> hd (rankBy f xs) \<in> set xs"
  by (metis hd_in_set rankBy_Nil_iff set_rankBy)

lemma rankBy_filter: "rankBy f (filter P xs) = filter P (rankBy f xs)"
  by (simp add: rankBy_def filter_sort)

lemma take_filter_unaffected: "\<forall>x\<in>set (take k ys). P x \<Longrightarrow> take k (filter P ys) = take k ys"
proof (induction ys arbitrary: k)
  case (Cons y ys)
  then show ?case by (cases k) auto
qed simp

text \<open>Dropping candidates that are not among the best \<open>k\<close> leaves the best \<open>k\<close> as they are.\<close>

lemma best_unaffected:
  "\<forall>x\<in>set (take k (rankBy f xs)). P x \<Longrightarrow> take k (rankBy f (filter P xs)) = take k (rankBy f xs)"
  by (simp add: rankBy_filter take_filter_unaffected)

end
