(* ===== verification/ClusterNode.thy ===== *)
theory ClusterNode
  imports Hashing Types
begin

text \<open>
  Nodes, membership events, node matchers and placement (\<open>node.go\<close>, \<open>provider.go\<close>,
  \<open>matcher.go\<close>, \<open>placement.go\<close>). A node's join time is dropped. Tags are an association list,
  since the code ranges over them; reading a missing tag gives the empty string, as in Go.
\<close>

type_synonym NodeID = string
type_synonym tags = "(string, string) gomap"

record NodeMeta =
  nmID :: NodeID
  nmAddr :: string
  nmTags :: tags

definition tagOf :: "tags \<Rightarrow> string \<Rightarrow> string" where
  "tagOf t k = (case map_of t k of None \<Rightarrow> '''' | Some v \<Rightarrow> v)"

datatype MemberEventType = MemberJoin | MemberLeave | MemberFailed | MemberUpdated

fun strMemberEventType :: "MemberEventType \<Rightarrow> string" where
  "strMemberEventType MemberJoin = ''join''"
| "strMemberEventType MemberLeave = ''leave''"
| "strMemberEventType MemberFailed = ''failed''"
| "strMemberEventType MemberUpdated = ''updated''"

record MemberEvent =
  meType :: MemberEventType
  meMember :: NodeMeta

section \<open>\<open>strconv.Atoi\<close>\<close>

definition isDigit :: "char \<Rightarrow> bool" where
  "isDigit c \<longleftrightarrow> 48 \<le> (of_char c :: nat) \<and> (of_char c :: nat) \<le> 57"

text \<open>An optional sign, at least one digit, and a value in the range of a 64-bit integer.\<close>

definition atoi :: "string \<Rightarrow> int option" where
  "atoi s =
     (let neg = (s \<noteq> [] \<and> hd s = CHR ''-'');
          ds = (if s \<noteq> [] \<and> (hd s = CHR ''-'' \<or> hd s = CHR ''+'') then tl s else s);
          v = (if neg then - int (nat_of_string ds) else int (nat_of_string ds))
      in if ds = [] \<or> \<not> list_all isDigit ds then None
         else if v < - (2 ^ 63) \<or> v \<ge> 2 ^ 63 then None else Some v)"

definition string_of_int :: "int \<Rightarrow> string" where
  "string_of_int i = (if i < 0 then CHR ''-'' # string_of_nat (nat (- i)) else string_of_nat (nat i))"

lemma isDigit_digit_char: "d < 10 \<Longrightarrow> isDigit (digit_char d)"
  by (simp add: isDigit_def of_char_digit_char)

lemma string_of_nat_all_digits: "list_all isDigit (string_of_nat n)"
  using string_of_nat_digits [of n] isDigit_digit_char by (fastforce simp: list_all_iff)

lemma string_of_nat_nonempty [simp]: "string_of_nat n \<noteq> []"
  by (subst string_of_nat.simps) simp

lemma atoi_string_of_int:
  assumes "- (2 ^ 63) \<le> i" and "i < 2 ^ 63"
  shows "atoi (string_of_int i) = Some i"
proof (cases "i < 0")
  case True
  with assms show ?thesis
    by (simp add: atoi_def string_of_int_def string_of_nat_all_digits Let_def)
next
  case False
  have "isDigit (hd (string_of_nat (nat i)))"
    using string_of_nat_all_digits [of "nat i"] by (metis hd_in_set list_all_iff string_of_nat_nonempty)
  then have "hd (string_of_nat (nat i)) \<noteq> CHR ''-''" "hd (string_of_nat (nat i)) \<noteq> CHR ''+''"
    by (auto simp: isDigit_def)
  with False assms show ?thesis
    by (simp add: atoi_def string_of_int_def string_of_nat_all_digits Let_def)
qed

section \<open>Matchers\<close>

type_synonym NodeMatcher = "NodeMeta \<Rightarrow> bool"

fun MatchAll :: "NodeMatcher list \<Rightarrow> NodeMatcher" where
  "MatchAll [] meta = True"
| "MatchAll (m # ms) meta = (if \<not> m meta then False else MatchAll ms meta)"

fun MatchAny :: "NodeMatcher list \<Rightarrow> NodeMatcher" where
  "MatchAny [] meta = False"
| "MatchAny (m # ms) meta = (if m meta then True else MatchAny ms meta)"

definition MatchNot :: "NodeMatcher \<Rightarrow> NodeMatcher" where
  "MatchNot matcher meta = (\<not> matcher meta)"

definition TagEquals :: "string \<Rightarrow> string \<Rightarrow> NodeMatcher" where
  "TagEquals key val meta \<longleftrightarrow> tagOf (nmTags meta) key = val"

definition TagExists :: "string \<Rightarrow> NodeMatcher" where
  "TagExists key meta \<longleftrightarrow> map_of (nmTags meta) key \<noteq> None"

definition TagNotExists :: "string \<Rightarrow> NodeMatcher" where
  "TagNotExists key = MatchNot (TagExists key)"

definition TagIn :: "string \<Rightarrow> string list \<Rightarrow> NodeMatcher" where
  "TagIn key vals meta \<longleftrightarrow> tagOf (nmTags meta) key \<in> set vals"

definition TagGTE :: "string \<Rightarrow> int \<Rightarrow> NodeMatcher" where
  "TagGTE key threshold meta =
     (case atoi (tagOf (nmTags meta) key) of None \<Rightarrow> False | Some v \<Rightarrow> v \<ge> threshold)"

definition TagLTE :: "string \<Rightarrow> int \<Rightarrow> NodeMatcher" where
  "TagLTE key threshold meta =
     (case atoi (tagOf (nmTags meta) key) of None \<Rightarrow> False | Some v \<Rightarrow> v \<le> threshold)"

definition MatchAllNodes :: NodeMatcher where
  "MatchAllNodes meta = True"

text \<open>A nil matcher is \<open>None\<close>.\<close>

definition FilterNodes :: "NodeMeta list \<Rightarrow> NodeMatcher option \<Rightarrow> NodeMeta list" where
  "FilterNodes nodes matcher = (case matcher of None \<Rightarrow> nodes | Some m \<Rightarrow> filter m nodes)"

datatype RankDirection = Highest | Lowest

definition RankByTag :: "string \<Rightarrow> RankDirection \<Rightarrow> NodeMeta \<Rightarrow> int" where
  "RankByTag key direction meta =
     (case atoi (tagOf (nmTags meta) key) of
        None \<Rightarrow> 0
      | Some v \<Rightarrow> if direction = Lowest then - v else v)"

lemma MatchAll_iff: "MatchAll ms meta \<longleftrightarrow> (\<forall>m\<in>set ms. m meta)"
  by (induction ms) auto

lemma MatchAny_iff: "MatchAny ms meta \<longleftrightarrow> (\<exists>m\<in>set ms. m meta)"
  by (induction ms) auto

section \<open>Placement after a node failure\<close>

datatype PlacementAction = PlacementRestart | PlacementAbandon

record PlacementDecision =
  pdActorName :: string
  pdTargetNode :: NodeID
  pdAction :: PlacementAction

definition SimpleRestartPolicy_OnNodeFailed ::
    "NodeID \<Rightarrow> string list \<Rightarrow> NodeMeta list \<Rightarrow> PlacementDecision list" where
  "SimpleRestartPolicy_OnNodeFailed failedNode actorNames liveMembers =
     (if liveMembers = [] \<or> actorNames = [] then []
      else map (\<lambda>i. \<lparr>pdActorName = actorNames ! i,
                     pdTargetNode = nmID (liveMembers ! (i mod length liveMembers)),
                     pdAction = PlacementRestart\<rparr>) [0..<length actorNames])"

lemma OnNodeFailed_names:
  "liveMembers \<noteq> [] \<Longrightarrow>
   map pdActorName (SimpleRestartPolicy_OnNodeFailed f actorNames liveMembers) = actorNames"
  by (auto simp: SimpleRestartPolicy_OnNodeFailed_def comp_def map_nth)

lemma OnNodeFailed_targets:
  "d \<in> set (SimpleRestartPolicy_OnNodeFailed f actorNames liveMembers) \<Longrightarrow>
   pdTargetNode d \<in> nmID ` set liveMembers \<and> pdAction d = PlacementRestart"
  by (auto simp: SimpleRestartPolicy_OnNodeFailed_def split: if_splits)

end
