(* ===== verification/Topology.thy ===== *)
theory Topology
  imports ClusterNode
begin

text \<open>
  The topologies of the cluster (\<open>topology.go\<close>, \<open>topology_full.go\<close>, \<open>topology_ring.go\<close>). The
  interface \<open>Topology\<close> is the locale \<open>topology\<close>: what a message that is forwarded hop by hop
  needs of it. The full mesh is here, the hash ring in the next theory.
\<close>

section \<open>The interface\<close>

definition ids :: "NodeMeta list \<Rightarrow> NodeID list" where
  "ids members = map nmID members"

lemma ids_drop: "ids (filter (\<lambda>m. nmID m \<noteq> z) members) = filter (\<lambda>n. n \<noteq> z) (ids members)"
  by (simp add: ids_def filter_map o_def)

text \<open>
  The path of a message: every node on the way asks its own view of the membership for the next
  hop. \<open>None\<close> when a node has no route or the bound on the hops is reached.
\<close>

fun hopPath ::
    "(NodeID \<Rightarrow> NodeID \<Rightarrow> NodeMeta list \<Rightarrow> NodeID option) \<Rightarrow> (NodeID \<Rightarrow> NodeMeta list) \<Rightarrow> nat \<Rightarrow> NodeID \<Rightarrow> NodeID \<Rightarrow> NodeID list option" where
  "hopPath route view fuel cur target =
     (if cur = target then Some []
      else case fuel of
        0 \<Rightarrow> None
      | Suc k \<Rightarrow>
          (case route cur target (view cur) of
             None \<Rightarrow> None
           | Some h \<Rightarrow> map_option (Cons h) (hopPath route view k h target)))"

declare hopPath.simps [simp del]

locale topology =
  fixes shouldConnect :: "NodeID \<Rightarrow> NodeMeta list \<Rightarrow> NodeID list"
    and route :: "NodeID \<Rightarrow> NodeID \<Rightarrow> NodeMeta list \<Rightarrow> NodeID option"
    and resp :: "string \<Rightarrow> NodeMeta list \<Rightarrow> int \<Rightarrow> NodeID list"
    and wf :: "NodeID set \<Rightarrow> bool"
    and wfKey :: "string \<Rightarrow> NodeID set \<Rightarrow> bool"
    and far :: "NodeID set \<Rightarrow> NodeID \<Rightarrow> NodeID \<Rightarrow> nat"
  assumes route_closer: "set (ids members) = N \<Longrightarrow> wf N \<Longrightarrow> self \<in> N \<Longrightarrow> target \<in> N \<Longrightarrow> self \<noteq> target \<Longrightarrow>
        \<exists>h. route self target members = Some h \<and> h \<in> N \<and> h \<in> set (shouldConnect self members) \<and>
            far N h target < far N self target"
    and resp_members: "set (ids members) = N \<Longrightarrow> wfKey key N \<Longrightarrow> distinct (ids members) \<Longrightarrow>
        distinct (resp key members k) \<and> set (resp key members k) \<subseteq> N \<and>
        length (resp key members k) = min (nat (max 1 k)) (card N)"
    and resp_view: "set (ids members) = N \<Longrightarrow> set (ids members') = N \<Longrightarrow> wfKey key N \<Longrightarrow>
        distinct (ids members) \<Longrightarrow> distinct (ids members') \<Longrightarrow> resp key members k = resp key members' k"
    and resp_stable: "set (ids members) = N \<Longrightarrow> wfKey key N \<Longrightarrow> distinct (ids members) \<Longrightarrow> z \<notin> set (resp key members k) \<Longrightarrow>
        resp key (filter (\<lambda>m. nmID m \<noteq> z) members) k = resp key members k"
begin

text \<open>Forwarding reaches the target over connections that are kept open, within \<open>far\<close> hops.\<close>

lemma path_reaches:
  assumes "\<And>n. n \<in> N \<Longrightarrow> set (ids (view n)) = N" and "wf N" and "cur \<in> N" and "target \<in> N"
    and "far N cur target \<le> fuel"
  shows "\<exists>p. hopPath route view fuel cur target = Some p \<and> length p \<le> far N cur target \<and> set p \<subseteq> N \<and>
    last (cur # p) = target \<and> (\<forall>i<length p. p ! i \<in> set (shouldConnect ((cur # p) ! i) (view ((cur # p) ! i))))"
  using assms(3,5)
proof (induction fuel arbitrary: cur)
  case 0
  then have "cur = target" using route_closer [OF assms(1) assms(2) _ assms(4)] by fastforce
  then show ?case by (simp add: hopPath.simps)
next
  case (Suc k)
  show ?case
  proof (cases "cur = target")
    case False
    with route_closer [OF assms(1) assms(2) Suc.prems(1) assms(4), of cur] Suc.prems(1) obtain h where
      h: "route cur target (view cur) = Some h" "h \<in> N" "h \<in> set (shouldConnect cur (view cur))"
        "far N h target < far N cur target" by blast
    from Suc.IH [OF h(2)] h(4) Suc.prems(2) obtain p where
      p: "hopPath route view k h target = Some p" "length p \<le> far N h target" "set p \<subseteq> N" "last (h # p) = target"
        "\<forall>i<length p. p ! i \<in> set (shouldConnect ((h # p) ! i) (view ((h # p) ! i)))" by auto
    have "\<forall>i<length (h # p). (h # p) ! i \<in> set (shouldConnect ((cur # h # p) ! i) (view ((cur # h # p) ! i)))"
      using p(5) h(3) by (auto simp: nth_Cons split: nat.split)
    with False h p show ?thesis by (auto simp: hopPath.simps [of route view "Suc k"])
  qed (simp add: hopPath.simps)
qed

end

section \<open>Full mesh\<close>

definition FullMesh_ShouldConnect :: "NodeID \<Rightarrow> NodeMeta list \<Rightarrow> NodeID list" where
  "FullMesh_ShouldConnect self members = map nmID (filter (\<lambda>m. nmID m \<noteq> self) members)"

definition FullMesh_Route :: "NodeID \<Rightarrow> NodeID \<Rightarrow> NodeMeta list \<Rightarrow> NodeID option" where
  "FullMesh_Route self target members =
     (if \<exists>m\<in>set members. nmID m = target then Some target else None)"

definition FullMesh_Responsible :: "string \<Rightarrow> NodeMeta list \<Rightarrow> int \<Rightarrow> NodeID list" where
  "FullMesh_Responsible key members replication =
     (let replication = (if replication \<le> 0 then 1 else replication)
      in if members = [] then []
         else let candidates = rankBy (nodeHash key) (map nmID members);
                  replication = (if replication > int (length candidates) then int (length candidates) else replication)
              in map (\<lambda>i. candidates ! i) [0..<nat replication])"

lemma map_nth_take: "map (\<lambda>i. xs ! i) [0..<min k (length xs)] = take k xs"
  by (simp add: list_eq_iff_nth_eq)

lemma FullMesh_Responsible_eq:
  "FullMesh_Responsible key members k = take (nat (max 1 k)) (rankBy (nodeHash key) (ids members))"
proof -
  let ?c = "rankBy (nodeHash key) (map nmID members)"
  let ?r = "if k \<le> 0 then 1 else k"
  have "members = [] \<Longrightarrow> ?thesis" by (simp add: FullMesh_Responsible_def ids_def rankBy_def)
  moreover
  have "nat (if ?r > int (length ?c) then int (length ?c) else ?r) = min (nat (max 1 k)) (length ?c)"
    if "members \<noteq> []"
    using that by (cases members) (auto simp: min_def max_def)
  then have "members \<noteq> [] \<Longrightarrow> ?thesis"
    using map_nth_take [of ?c "nat (max 1 k)"] by (simp only: FullMesh_Responsible_def Let_def ids_def if_False not_False_eq_True)
  ultimately show ?thesis by blast
qed

text \<open>Consistent ranking, shared by both topologies.\<close>

lemma take_rank_members:
  assumes "set xs = N" and "distinct xs"
  shows "distinct (take k (rankBy f xs)) \<and> set (take k (rankBy f xs)) \<subseteq> N \<and> length (take k (rankBy f xs)) = min k (card N)"
  using assms set_take_subset [of k "rankBy f xs"] by (auto simp: distinct_card [symmetric] min.commute)

interpretation fullMesh: topology FullMesh_ShouldConnect FullMesh_Route FullMesh_Responsible
  "\<lambda>N. True" "\<lambda>key N. inj_on (nodeHash key) N" "\<lambda>N s t. if s = t then 0 else 1"
proof (unfold_locales, goal_cases)
  case (1 members N self target)
  then show ?case by (auto simp: FullMesh_Route_def FullMesh_ShouldConnect_def ids_def)
next
  case (2 members N key k)
  then show ?case using take_rank_members [of "ids members" N] unfolding FullMesh_Responsible_eq by blast
next
  case (3 members N members' key k)
  then show ?case by (metis FullMesh_Responsible_eq rankBy_set_eq)
next
  case (4 members N key z k)
  then show ?case by (auto simp: FullMesh_Responsible_eq ids_drop intro!: best_unaffected)
qed

end
