(* ===== verification/RingTopology.thy ===== *)
theory RingTopology
  imports Topology
begin

text \<open>
  The hash ring of \<open>topology_ring.go\<close>: ring construction, fingers, the connections a node keeps,
  the next hop and key ownership. Ring positions are natural numbers and a missing node is
  \<open>None\<close> where the code has \<open>-1\<close>. \<open>int(math.Log2(n))\<close> is the integer logarithm
  \<open>natLog2\<close>, which agrees with the floating-point computation for every ring size below
  \<open>2 ^ 48\<close>. The keys of a Go map are listed without duplicates; the order of the list plays no
  part when hashes are distinct.
\<close>

section \<open>The hash ring\<close>

record RingTopology =
  rgFanout :: int
  rgVNodes :: int

definition NewRingTopology :: "int \<Rightarrow> int \<Rightarrow> RingTopology" where
  "NewRingTopology fanout vnodes =
     \<lparr> rgFanout = (if fanout < 1 then 1 else fanout), rgVNodes = (if vnodes < 1 then 1 else vnodes) \<rparr>"

record vnodePos =
  vpHash :: u64
  vpNode :: NodeID

record ring =
  ringNodes :: "NodeID list"
  ringPositions :: "vnodePos list"
  ringNodeIndex :: "NodeID \<rightharpoonup> nat"

definition indexOf :: "ring \<Rightarrow> NodeID \<Rightarrow> nat option" where
  "indexOf rg n = ringNodeIndex rg n"

text \<open>The argument lists the keys of the Go map \<open>allNodes\<close>.\<close>

definition buildRingFromNodeSet :: "RingTopology \<Rightarrow> NodeID list \<Rightarrow> ring" where
  "buildRingFromNodeSet r allNodes =
     (let positions = rankBy vpHash
            (concat (map (\<lambda>n. map (\<lambda>v. \<lparr> vpHash = hashVNode n (int v), vpNode = n \<rparr>) [0..<nat (rgVNodes r)]) allNodes));
          nodes = rankBy (\<lambda>n. hashVNode n 0) allNodes
      in \<lparr> ringNodes = nodes, ringPositions = positions,
           ringNodeIndex = map_of (rev (zip nodes [0..<length nodes])) \<rparr>)"

definition buildRing :: "RingTopology \<Rightarrow> NodeID \<Rightarrow> NodeMeta list \<Rightarrow> ring option" where
  "buildRing r self members =
     (let allNodes = remdups (self # map nmID members)
      in if length allNodes < 2 then None else Some (buildRingFromNodeSet r allNodes))"

definition buildRingFromMembers :: "RingTopology \<Rightarrow> NodeMeta list \<Rightarrow> ring" where
  "buildRingFromMembers r members = buildRingFromNodeSet r (remdups (map nmID members))"

fun natLog2 :: "nat \<Rightarrow> nat" where
  "natLog2 n = (if n < 2 then 0 else Suc (natLog2 (n div 2)))"

declare natLog2.simps [simp del]

definition fingerStep :: "ring \<Rightarrow> nat \<Rightarrow> NodeID list \<Rightarrow> nat \<Rightarrow> NodeID list" where
  "fingerStep rg selfIdx fingers i =
     (let idx = (selfIdx + 2 ^ i) mod length (ringNodes rg);
          node = ringNodes rg ! idx
      in if node \<noteq> ringNodes rg ! selfIdx \<and> node \<notin> set fingers then fingers @ [node] else fingers)"

definition buildFingers :: "ring \<Rightarrow> nat \<Rightarrow> NodeID list" where
  "buildFingers rg selfIdx =
     (let n = length (ringNodes rg)
      in if n \<le> 2 then []
         else let numFingers = natLog2 n;
                  numFingers = (if numFingers < 1 then 1 else numFingers)
              in foldl (fingerStep rg selfIdx) [] [0..<numFingers])"

definition ringDistance :: "nat \<Rightarrow> nat \<Rightarrow> nat \<Rightarrow> nat" where
  "ringDistance a b n = (let d = int b - int a in nat (if d < 0 then d + int n else d))"

fun dedupLoop :: "NodeID list \<Rightarrow> NodeID list \<Rightarrow> NodeID list" where
  "dedupLoop [] out = out"
| "dedupLoop (n # ns) out = (if n \<notin> set out then dedupLoop ns (out @ [n]) else dedupLoop ns out)"

definition dedupNodes :: "NodeID list \<Rightarrow> NodeID list" where
  "dedupNodes nodes = dedupLoop nodes []"

text \<open>The neighbours in both directions, in the order of the loops.\<close>

definition ringNeighbours :: "RingTopology \<Rightarrow> ring \<Rightarrow> nat \<Rightarrow> NodeID list" where
  "ringNeighbours r rg selfIdx =
     (let n = length (ringNodes rg)
      in concat (map (\<lambda>i. [ringNodes rg ! ((selfIdx + i) mod n), ringNodes rg ! ((selfIdx + n - i) mod n)])
                     [1..<Suc (nat (rgFanout r))]))"

definition Ring_ShouldConnect :: "RingTopology \<Rightarrow> NodeID \<Rightarrow> NodeMeta list \<Rightarrow> NodeID list" where
  "Ring_ShouldConnect r self members =
     (case buildRing r self members of
        None \<Rightarrow> []
      | Some rg \<Rightarrow>
          if int (length (ringNodes rg)) \<le> 2 * rgFanout r + 1
          then dedupNodes (filter (\<lambda>n. n \<noteq> self) (ringNodes rg))
          else (case indexOf rg self of
                  None \<Rightarrow> []
                | Some selfIdx \<Rightarrow>
                    filter (\<lambda>n. n \<noteq> self) (remdups (ringNeighbours r rg selfIdx @ buildFingers rg selfIdx))))"

definition tryHop :: "ring \<Rightarrow> nat \<Rightarrow> NodeID \<times> nat \<Rightarrow> NodeID \<Rightarrow> NodeID \<times> nat" where
  "tryHop rg targetIdx best f =
     (case indexOf rg f of
        None \<Rightarrow> best
      | Some fIdx \<Rightarrow>
          let fToTarget = ringDistance fIdx targetIdx (length (ringNodes rg))
          in if fToTarget < snd best then (f, fToTarget) else best)"

definition Ring_Route :: "RingTopology \<Rightarrow> NodeID \<Rightarrow> NodeID \<Rightarrow> NodeMeta list \<Rightarrow> NodeID option" where
  "Ring_Route r self target members =
     (case buildRing r self members of
        None \<Rightarrow> None
      | Some rg \<Rightarrow>
          (case indexOf rg target of
             None \<Rightarrow> None
           | Some targetIdx \<Rightarrow>
               (case indexOf rg self of
                  None \<Rightarrow> None
                | Some selfIdx \<Rightarrow>
                    let n = length (ringNodes rg)
                    in if int (ringDistance selfIdx targetIdx n) \<le> rgFanout r then Some target
                       else let (bestHop, _) =
                              foldl (tryHop rg targetIdx) ('''', n) (buildFingers rg selfIdx @ ringNeighbours r rg selfIdx)
                            in if bestHop = '''' then None else Some bestHop)))"

text \<open>\<open>sort.Search\<close>: the binary search of the standard library on \<open>[i, j)\<close>.\<close>

function sortSearch :: "(nat \<Rightarrow> bool) \<Rightarrow> nat \<Rightarrow> nat \<Rightarrow> nat" where
  "sortSearch f i j =
     (if i < j
      then let h = (i + j) div 2
           in if \<not> f h then sortSearch f (h + 1) j else sortSearch f i h
      else i)"
  by pat_completeness auto
termination by (relation "measure (\<lambda>(f, i, j). j - i)") auto

declare sortSearch.simps [simp del]

fun walkRing :: "nat \<Rightarrow> vnodePos list \<Rightarrow> NodeID list \<Rightarrow> NodeID list" where
  "walkRing replication [] out = out"
| "walkRing replication (p # ps) out =
     (if length out < replication
      then if vpNode p \<notin> set out then walkRing replication ps (out @ [vpNode p]) else walkRing replication ps out
      else out)"

definition Ring_Responsible :: "RingTopology \<Rightarrow> string \<Rightarrow> NodeMeta list \<Rightarrow> int \<Rightarrow> NodeID list" where
  "Ring_Responsible r key members replication =
     (let replication = (if replication \<le> 0 then 1 else replication)
      in if members = [] then []
         else let rg = buildRingFromMembers r members;
                  ps = ringPositions rg;
                  keyHash = hashString key;
                  idx = sortSearch (\<lambda>i. vpHash (ps ! i) \<ge> keyHash) 0 (length ps);
                  idx = (if idx \<ge> length ps then 0 else idx)
              in walkRing (nat replication) (map (\<lambda>i. ps ! ((idx + i) mod length ps)) [0..<length ps]) [])"

section \<open>Arithmetic of the ring\<close>

lemma natLog2_bounds:
  "0 < n \<Longrightarrow> 2 ^ natLog2 n \<le> n \<and> n < 2 ^ Suc (natLog2 n)"
proof (induction n rule: natLog2.induct)
  case (1 n)
  show ?case
  proof (cases "n < 2")
    case True
    with 1 show ?thesis by (simp add: natLog2.simps)
  next
    case False
    with 1 have "2 ^ natLog2 (n div 2) \<le> n div 2 \<and> n div 2 < 2 ^ Suc (natLog2 (n div 2))" by simp
    with False show ?thesis by (subst (1 2) natLog2.simps) auto
  qed
qed

lemma natLog2_less: "0 < n \<Longrightarrow> n < 2 ^ k \<Longrightarrow> natLog2 n < k"
  using natLog2_bounds [of n] by (meson le_less_trans nat_power_less_imp_less zero_less_numeral)

lemma natLog2_pos: "2 \<le> n \<Longrightarrow> 1 \<le> natLog2 n"
  by (subst natLog2.simps) simp

lemma add_mod_once: "s < n \<Longrightarrow> a \<le> n \<Longrightarrow> (s + a) mod n = (if s + a < n then s + a else s + a - (n::nat))"
  by (simp add: le_mod_geq)

lemma shift_inj: "s < n \<Longrightarrow> a < n \<Longrightarrow> b < n \<Longrightarrow> (s + a) mod n = (s + b) mod n \<Longrightarrow> a = (b::nat)"
  by (simp add: add_mod_once split: if_splits)

lemma ringDistance_nat: "a < n \<Longrightarrow> ringDistance a b n = (if a \<le> b then b - a else b + n - a)"
  by (auto simp: ringDistance_def Let_def)

lemma ringDistance_less [simp]: "a < n \<Longrightarrow> b < n \<Longrightarrow> ringDistance a b n < n"
  by (simp add: ringDistance_nat) arith

lemma ringDistance_zero: "a < n \<Longrightarrow> b < n \<Longrightarrow> ringDistance a b n = 0 \<longleftrightarrow> a = b"
  by (auto simp: ringDistance_nat)

lemma ringDistance_self [simp]: "ringDistance a a n = 0"
  by (simp add: ringDistance_def)

lemma ringDistance_walk: "a < n \<Longrightarrow> b < n \<Longrightarrow> (a + ringDistance a b n) mod n = b"
  using ringDistance_less [of a n b] by (simp add: ringDistance_nat le_mod_geq)

lemma ringDistance_shift:
  assumes "a < n" and "b < n" and "k \<le> ringDistance a b n"
  shows "ringDistance ((a + k) mod n) b n = ringDistance a b n - k"
proof -
  have "k \<le> n" using assms(3) ringDistance_less [OF assms(1,2)] by linarith
  then have "(a + k) mod n = (if a + k < n then a + k else a + k - n)" using assms(1) by (rule add_mod_once [rotated])
  with assms show ?thesis by (auto simp: ringDistance_nat split: if_splits)
qed

text \<open>Bound on the hops left at clockwise distance \<open>d\<close> on a ring with \<open>k\<close> fingers per node.\<close>

definition hopBound :: "nat \<Rightarrow> nat \<Rightarrow> nat" where
  "hopBound k d =
     (if d = 0 then 0
      else if d < 2 ^ k then Suc (natLog2 d)
      else if d < 3 * 2 ^ (k - 1) then Suc k
      else Suc (Suc k))"

lemma hopBound_le: "hopBound k d \<le> k + 2"
  using natLog2_less [of d k] by (auto simp: hopBound_def)

lemma hopBound_small: "d < 2 ^ j \<Longrightarrow> j \<le> k \<Longrightarrow> hopBound k d \<le> j"
proof -
  assume a: "d < 2 ^ j" "j \<le> k"
  then have "d < 2 ^ k" by (meson less_le_trans one_le_numeral power_increasing)
  with a natLog2_less [of d j] show ?thesis by (auto simp: hopBound_def)
qed

lemma hopBound_decreases:
  assumes d: "0 < d" "d < 2 ^ Suc k" and k: "1 \<le> k"
    and step: "\<And>j. j < k \<Longrightarrow> 2 ^ j \<le> d \<Longrightarrow> d' \<le> d - 2 ^ j"
  shows "hopBound k d' < hopBound k d"
proof (cases "d < 2 ^ k")
  case True
  let ?j = "natLog2 d"
  have j: "?j < k" "2 ^ ?j \<le> d" "d < 2 ^ Suc ?j" using natLog2_less natLog2_bounds d True by auto
  with step have "d' < 2 ^ ?j" by fastforce
  from hopBound_small [OF this, of k] j d True show ?thesis by (simp add: hopBound_def)
next
  case False
  obtain i where i: "k = Suc i" using k by (cases k) auto
  with False step [of i] have d': "d' \<le> d - 2 ^ i" by simp
  show ?thesis
  proof (cases "d < 3 * 2 ^ (k - 1)")
    case True
    with d' i False have "d' < 2 ^ k" by simp
    from hopBound_small [OF this, of k] True False d show ?thesis by (simp add: hopBound_def)
  next
    case high: False
    with d' i d have "d' < 3 * 2 ^ (k - 1)" by simp
    then have "hopBound k d' \<le> Suc k" using natLog2_less [of d' k] by (auto simp: hopBound_def)
    with high False d show ?thesis by (simp add: hopBound_def)
  qed
qed

section \<open>The ring of a membership\<close>

text \<open>A node's index is the number of nodes with a smaller primary hash.\<close>

definition ringRank :: "NodeID set \<Rightarrow> NodeID \<Rightarrow> nat" where
  "ringRank N x = card {y \<in> N. hashVNode y 0 < hashVNode x 0}"

definition ringOf :: "NodeID set \<Rightarrow> ring \<Rightarrow> bool" where
  "ringOf N rg \<longleftrightarrow> distinct (ringNodes rg) \<and> set (ringNodes rg) = N \<and>
     (\<forall>i<length (ringNodes rg). indexOf rg (ringNodes rg ! i) = Some i) \<and>
     (\<forall>i<length (ringNodes rg). ringRank N (ringNodes rg ! i) = i)"

lemma index_map:
  assumes "distinct xs" and "i < length xs"
  shows "map_of (rev (zip xs [0..<length xs])) (xs ! i) = Some i"
proof (rule map_of_is_SomeI)
  show "distinct (map fst (rev (zip xs [0..<length xs])))" using assms(1) by (simp add: rev_map [symmetric])
  show "(xs ! i, i) \<in> set (rev (zip xs [0..<length xs]))" using assms(2) by (auto simp: in_set_zip)
qed

lemma sorted_rank:
  assumes "distinct xs" and "sorted (map f xs)" and "inj_on f (set xs)" and "i < length xs"
  shows "{y \<in> set xs. f y < (f (xs ! i) :: u64)} = set (take i xs)"
proof -
  have less: "f (xs ! j) < f (xs ! i) \<longleftrightarrow> j < i" if "j < length xs" for j
  proof -
    have "j < i \<Longrightarrow> f (xs ! j) \<le> f (xs ! i)" "i \<le> j \<Longrightarrow> f (xs ! i) \<le> f (xs ! j)"
      using assms(2,4) that by (auto simp: sorted_iff_nth_mono)
    moreover have "j < i \<Longrightarrow> f (xs ! j) \<noteq> f (xs ! i)"
      using assms(1,3,4) that by (metis inj_on_eq_iff nat_neq_iff nth_eq_iff_index_eq nth_mem)
    ultimately show ?thesis by fastforce
  qed
  show ?thesis
    using assms(4) less by (auto simp: in_set_conv_nth) (metis nth_take, metis less_trans)
qed

lemma ringOf_build:
  assumes "distinct xs" and "inj_on (\<lambda>n. hashVNode n 0) (set xs)"
  shows "ringOf (set xs) (buildRingFromNodeSet r xs)"
proof -
  let ?ys = "rankBy (\<lambda>n. hashVNode n 0) xs"
  have "ringRank (set xs) (?ys ! i) = i" if "i < length ?ys" for i
    using sorted_rank [of ?ys "\<lambda>n. hashVNode n 0" i] sorted_rankBy [of "\<lambda>n. hashVNode n 0" xs] assms that
    by (simp add: ringRank_def distinct_card)
  with assms index_map [of ?ys] show ?thesis
    by (simp add: ringOf_def buildRingFromNodeSet_def Let_def indexOf_def)
qed

text \<open>Two nodes at least; then every view of the membership builds a ring of it.\<close>

definition ringWf :: "NodeID set \<Rightarrow> bool" where
  "ringWf N \<longleftrightarrow> '''' \<notin> N \<and> inj_on (\<lambda>n. hashVNode n 0) N"

lemma buildRing_ringOf:
  assumes "set (ids members) = N" and "ringWf N" and "self \<in> N" and "target \<in> N" and "self \<noteq> target"
  obtains rg where "buildRing r self members = Some rg" and "ringOf N rg"
proof -
  let ?xs = "remdups (self # map nmID members)"
  have s: "set ?xs = N" using assms(1,3) by (auto simp: ids_def)
  have "card {self, target} \<le> card (set ?xs)" using assms s by (intro card_mono) auto
  then have "\<not> length ?xs < 2" using assms(5) distinct_card [of ?xs] by simp
  moreover have "ringOf N (buildRingFromNodeSet r ?xs)"
    using ringOf_build [of ?xs r] assms(2) s by (simp add: ringWf_def)
  ultimately show thesis using that by (simp add: buildRing_def Let_def)
qed

lemma ringOf_index:
  assumes "ringOf N rg" and "x \<in> N"
  shows "\<exists>i. i < length (ringNodes rg) \<and> x = ringNodes rg ! i \<and> indexOf rg x = Some i \<and> ringRank N x = i"
  using assms unfolding ringOf_def by (metis in_set_conv_nth)

lemma buildFingers_eq:
  assumes "distinct (ringNodes rg)" and "s < length (ringNodes rg)" and "2 < length (ringNodes rg)"
  shows "buildFingers rg s =
    map (\<lambda>i. ringNodes rg ! ((s + 2 ^ i) mod length (ringNodes rg))) [0..<natLog2 (length (ringNodes rg))]"
proof -
  let ?n = "length (ringNodes rg)" and ?xs = "ringNodes rg"
  have ne: "?xs \<noteq> []" using assms(3) by auto
  have lt: "2 ^ i < ?n" if "i < natLog2 ?n" for i
  proof -
    have "(2::nat) ^ i < 2 ^ natLog2 ?n" using that by simp
    also have "\<dots> \<le> ?n" using natLog2_bounds [of ?n] assms(3) by linarith
    finally show ?thesis .
  qed
  have eq: "?xs ! ((s + a) mod ?n) = ?xs ! ((s + b) mod ?n) \<longleftrightarrow> a = b" if "a < ?n" "b < ?n" for a b
    using shift_inj [OF assms(2), of a b] that ne by (subst nth_eq_iff_index_eq [OF assms(1)]) auto
  have "foldl (fingerStep rg s) [] [0..<m] = map (\<lambda>i. ?xs ! ((s + 2 ^ i) mod ?n)) [0..<m]"
    if "m \<le> natLog2 ?n" for m using that
  proof (induction m)
    case (Suc m)
    have "?xs ! ((s + 2 ^ m) mod ?n) \<noteq> ?xs ! s"
      using eq [of "2 ^ m" 0] lt [of m] Suc.prems assms(2) by fastforce
    moreover have "?xs ! ((s + 2 ^ m) mod ?n) \<noteq> ?xs ! ((s + 2 ^ i) mod ?n)" if "i < m" for i
      using eq [of "2 ^ m" "2 ^ i"] lt [of m] lt [of i] Suc.prems that by simp
    then have "?xs ! ((s + 2 ^ m) mod ?n) \<notin> set (map (\<lambda>i. ?xs ! ((s + 2 ^ i) mod ?n)) [0..<m])"
      unfolding set_map image_iff by simp
    ultimately show ?case using Suc by (simp add: fingerStep_def Let_def)
  qed simp
  from this [of "natLog2 ?n"] assms(3) natLog2_pos [of ?n] show ?thesis
    by (simp add: buildFingers_def Let_def)
qed

section \<open>Routing\<close>

lemma tryHop_best:
  assumes "foldl (tryHop rg t) best cs = (hop, d)"
  shows "(hop, d) = best \<or> hop \<in> set cs \<and> (\<exists>i. indexOf rg hop = Some i \<and> d = ringDistance i t (length (ringNodes rg)))"
    and "d \<le> snd best"
    and "\<And>c i. c \<in> set cs \<Longrightarrow> indexOf rg c = Some i \<Longrightarrow> d \<le> ringDistance i t (length (ringNodes rg))"
  using assms
proof (induction cs arbitrary: best)
  case (Cons c cs)
  { case 1
    with Cons.IH(1) [of "tryHop rg t best c"] show ?case
      by (auto simp: tryHop_def Let_def split: option.splits if_splits)
  next
    case 2
    with Cons.IH(2) [of "tryHop rg t best c"] show ?case
      by (auto simp: tryHop_def Let_def split: option.splits if_splits)
  next
    case (3 c' i)
    with Cons.IH(3) [of c' i "tryHop rg t best c"] Cons.IH(2) [of "tryHop rg t best c"] show ?case
      by (auto simp: tryHop_def Let_def split: option.splits if_splits)
  }
qed auto

definition ringFar :: "NodeID set \<Rightarrow> NodeID \<Rightarrow> NodeID \<Rightarrow> nat" where
  "ringFar N s t = hopBound (natLog2 (card N)) (ringDistance (ringRank N s) (ringRank N t) (card N))"

lemma ringFar_log: "ringFar N s t \<le> natLog2 (card N) + 2"
  unfolding ringFar_def by (rule hopBound_le)

lemma neighbours_index:
  "ringNodes rg ! ((s + i) mod length (ringNodes rg)) \<in> set (ringNeighbours r rg s)" if "1 \<le> i" and "int i \<le> rgFanout r"
  using that by (auto simp: ringNeighbours_def Let_def image_iff intro!: bexI [of _ i])

lemma candidates_in:
  assumes "distinct (ringNodes rg)" and "s < length (ringNodes rg)"
  shows "set (buildFingers rg s @ ringNeighbours r rg s) \<subseteq> set (ringNodes rg)"
proof -
  have "ringNodes rg ! (k mod length (ringNodes rg)) \<in> set (ringNodes rg)" for k
    using assms(2) by (intro nth_mem mod_less_divisor) linarith
  moreover have "buildFingers rg s = []" if "\<not> 2 < length (ringNodes rg)"
    using that by (simp add: buildFingers_def)
  ultimately show ?thesis
    using buildFingers_eq [OF assms] by (cases "2 < length (ringNodes rg)") (auto simp: ringNeighbours_def Let_def)
qed

text \<open>
  One hop on a ring: the node chosen lies on the arc to the target, at least the largest useful
  finger closer, and the node keeps a connection to it.
\<close>

lemma ring_hop:
  assumes rg: "buildRing r self members = Some rg" "ringOf N rg" and F: "1 \<le> rgFanout r" and "'''' \<notin> N"
    and s: "s < length (ringNodes rg)" "self = ringNodes rg ! s"
    and t: "t < length (ringNodes rg)" "target = ringNodes rg ! t" and "s \<noteq> t"
  defines "n \<equiv> length (ringNodes rg)"
  defines "d \<equiv> ringDistance s t n"
  shows "\<exists>i<n. Ring_Route r self target members = Some (ringNodes rg ! i) \<and> ringDistance i t n < d \<and>
     (ringNodes rg ! i \<in> set (ringNeighbours r rg s @ buildFingers rg s)) \<and>
     (\<forall>j<natLog2 n. 2 ^ j \<le> d \<longrightarrow> ringDistance i t n \<le> d - 2 ^ j)"
proof -
  note index = rg(2) [unfolded ringOf_def]
  have ix: "indexOf rg self = Some s" "indexOf rg target = Some t" using index s t by auto
  have d: "0 < d" "d < n" using ringDistance_zero [OF s(1) t(1)] \<open>s \<noteq> t\<close> s(1) t(1) by (simp_all add: d_def n_def)
  show ?thesis
  proof (cases "int d \<le> rgFanout r")
    case True
    have "ringNodes rg ! ((s + d) mod n) = target" using ringDistance_walk [OF s(1) t(1)] t by (simp add: d_def n_def)
    then have "target \<in> set (ringNeighbours r rg s)"
      using neighbours_index [of d r rg s] True d by (simp add: n_def)
    with True ix rg t d show ?thesis
      by (intro exI [of _ t]) (auto simp: Ring_Route_def Let_def d_def n_def ringDistance_zero)
  next
    case False
    obtain hop e where h: "foldl (tryHop rg t) ('''', n) (buildFingers rg s @ ringNeighbours r rg s) = (hop, e)"
      by (cases "foldl (tryHop rg t) ('''', n) (buildFingers rg s @ ringNeighbours r rg s)")
    have dist: "ringDistance ((s + k) mod n) t n = d - k" "(s + k) mod n < n" if "k \<le> d" for k
      using ringDistance_shift [OF s(1) t(1), of k] that d(2) mod_less_divisor [of n "s + k"] by (simp_all only: d_def n_def)
    have close: "e \<le> d - k"
      if "k \<le> d" and "ringNodes rg ! ((s + k) mod n) \<in> set (buildFingers rg s @ ringNeighbours r rg s)" for k
      using tryHop_best(3) [OF h that(2), of "(s + k) mod n"] dist [OF that(1)] index by (simp add: n_def)
    have "e \<le> d - 1" using close [of 1] neighbours_index [of 1 r rg s] d F by (simp add: n_def)
    moreover have "e \<le> d - 2 ^ j" if "j < natLog2 n" "2 ^ j \<le> d" for j
      using close [OF that(2)] that(1) s(1) index False d F buildFingers_eq [of rg s] by (auto simp: n_def)
    moreover from calculation d tryHop_best(1) [OF h] obtain i where
      i: "hop \<in> set (buildFingers rg s @ ringNeighbours r rg s)" "indexOf rg hop = Some i" "e = ringDistance i t n"
      by (auto simp: n_def)
    have "hop \<in> N" using candidates_in [OF _ s(1)] i(1) index by blast
    with ringOf_index [OF rg(2), of hop] i(2) have "i < n" "hop = ringNodes rg ! i" by (auto simp: n_def)
    moreover have "hop \<noteq> ''''" using \<open>hop \<in> N\<close> assms(4) by blast
    ultimately show ?thesis using i h False rg ix d
      by (intro exI [of _ i]) (auto simp: Ring_Route_def Let_def d_def n_def)
  qed
qed

text \<open>Duplicates removed, the first occurrence kept: what both loops of the file compute.\<close>

primrec firsts :: "'a list \<Rightarrow> 'a list" where
  "firsts [] = []"
| "firsts (x # xs) = x # filter (\<lambda>y. y \<noteq> x) (firsts xs)"

lemma set_firsts [simp]: "set (firsts xs) = set xs"
  by (induction xs) auto

lemma distinct_firsts [simp]: "distinct (firsts xs)"
  by (induction xs) auto

lemma firsts_filter: "firsts (filter P xs) = filter P (firsts xs)"
  by (induction xs) (auto simp: filter_filter conj_commute intro!: filter_cong)

lemma dedupLoop_eq: "dedupLoop xs out = out @ filter (\<lambda>x. x \<notin> set out) (firsts xs)"
  by (induction xs arbitrary: out) (auto simp: filter_filter intro!: filter_cong)

lemma dedupNodes_eq: "dedupNodes xs = firsts xs"
  by (simp add: dedupNodes_def dedupLoop_eq)

lemma walkRing_eq:
  "walkRing k ps out = out @ take (k - length out) (filter (\<lambda>x. x \<notin> set out) (firsts (map vpNode ps)))"
proof (induction ps arbitrary: out)
  case (Cons p ps)
  have "filter (\<lambda>x. x \<notin> set out) (filter (\<lambda>y. y \<noteq> vpNode p) (firsts (map vpNode ps))) =
      filter (\<lambda>x. x \<notin> set (out @ [vpNode p])) (firsts (map vpNode ps))"
    by (auto simp: filter_filter intro!: filter_cong)
  moreover have "vpNode p \<in> set out \<Longrightarrow> filter (\<lambda>x. x \<notin> set (out @ [vpNode p])) (firsts (map vpNode ps)) =
      filter (\<lambda>x. x \<notin> set out) (firsts (map vpNode ps))"
    by (auto intro!: filter_cong)
  moreover have "length out < k \<Longrightarrow> k - length out = Suc (k - Suc (length out))" by simp
  ultimately show ?case using Cons by simp
qed simp

lemma ring_connects:
  assumes "buildRing r self members = Some rg" "ringOf N rg" "indexOf rg self = Some s" "h \<in> N" "h \<noteq> self"
    and "h \<in> set (ringNeighbours r rg s @ buildFingers rg s)"
  shows "h \<in> set (Ring_ShouldConnect r self members)"
  using assms by (auto simp: Ring_ShouldConnect_def dedupNodes_eq ringOf_def)

lemma ring_route_closer:
  assumes "set (ids members) = N" and "ringWf N" and "self \<in> N" and "target \<in> N" and "self \<noteq> target" and "1 \<le> rgFanout r"
  shows "\<exists>h. Ring_Route r self target members = Some h \<and> h \<in> N \<and> h \<in> set (Ring_ShouldConnect r self members) \<and>
            ringFar N h target < ringFar N self target"
proof -
  from buildRing_ringOf [OF assms(1-5), of r] obtain rg where
    rg: "buildRing r self members = Some rg" "ringOf N rg" by blast
  let ?n = "length (ringNodes rg)"
  have n: "card N = ?n" using rg(2) distinct_card [of "ringNodes rg"] by (simp add: ringOf_def)
  from ringOf_index [OF rg(2) assms(3)] obtain s where s: "s < ?n" "self = ringNodes rg ! s" "indexOf rg self = Some s" "ringRank N self = s" by blast
  from ringOf_index [OF rg(2) assms(4)] obtain t where t: "t < ?n" "target = ringNodes rg ! t" "ringRank N target = t" by blast
  have "s \<noteq> t" "'''' \<notin> N" using assms(2,5) s t by (auto simp: ringWf_def)
  from ring_hop [OF rg assms(6) this(2) s(1,2) t(1,2) this(1)] obtain i where
    i: "i < ?n" "Ring_Route r self target members = Some (ringNodes rg ! i)" "ringDistance i t ?n < ringDistance s t ?n"
      "ringNodes rg ! i \<in> set (ringNeighbours r rg s @ buildFingers rg s)"
      "\<And>j. j < natLog2 ?n \<Longrightarrow> 2 ^ j \<le> ringDistance s t ?n \<Longrightarrow> ringDistance i t ?n \<le> ringDistance s t ?n - 2 ^ j" by blast
  have h: "ringNodes rg ! i \<in> N" "ringRank N (ringNodes rg ! i) = i" "ringNodes rg ! i \<noteq> self"
    using rg(2) i(1,3) s(1,2) by (auto simp: ringOf_def nth_eq_iff_index_eq)
  have "2 \<le> ?n" using s(1) t(1) \<open>s \<noteq> t\<close> by linarith
  then have k: "1 \<le> natLog2 ?n" "?n < 2 ^ Suc (natLog2 ?n)" using natLog2_pos [of ?n] natLog2_bounds [of ?n] by linarith+
  have "ringDistance s t ?n < ?n" using s(1) t(1) by simp
  with k(2) i(3) have "ringFar N (ringNodes rg ! i) target < ringFar N self target"
    unfolding ringFar_def n h(2) s(4) t(3) by (intro hopBound_decreases k(1) i(5)) auto
  with i(2) h ring_connects [OF rg s(3) h(1,3) i(4)] show ?thesis by blast
qed

section \<open>Key ownership\<close>

lemma sortSearch_correct:
  assumes "i \<le> j" and "j \<le> n" and mono: "\<And>a b. a \<le> b \<Longrightarrow> b < n \<Longrightarrow> f a \<Longrightarrow> f b"
  shows "i \<le> sortSearch f i j \<and> sortSearch f i j \<le> j \<and> (\<forall>a. i \<le> a \<and> a < sortSearch f i j \<longrightarrow> \<not> f a) \<and>
    (\<forall>a. sortSearch f i j \<le> a \<and> a < j \<longrightarrow> f a)"
  using assms(1,2)
proof (induction "j - i" arbitrary: i j rule: less_induct)
  case less
  show ?case
  proof (cases "i < j")
    case True
    let ?h = "(i + j) div 2"
    have h: "i \<le> ?h" "?h < j" using True by auto
    show ?thesis
    proof (cases "f ?h")
      case True
      have "sortSearch f i j = sortSearch f i ?h" using True \<open>i < j\<close> by (simp add: sortSearch.simps [of f i j] Let_def)
      moreover have "f a" if "?h \<le> a" "a < j" for a using mono [of ?h a] True that less.prems by simp
      moreover have "?h - i < j - i" "?h \<le> n" using h less.prems by linarith+
      note less.hyps [OF this(1) h(1) this(2)]
      moreover have "?h \<le> a \<or> a < ?h" for a by linarith
      ultimately show ?thesis using h(2) by (metis less_imp_le order_trans)
    next
      case False
      have "sortSearch f i j = sortSearch f (?h + 1) j" using False \<open>i < j\<close> by (simp add: sortSearch.simps [of f i j] Let_def)
      moreover have "\<not> f a" if "a < ?h + 1" for a using mono [of a ?h] False that h less.prems by auto
      moreover have "j - (?h + 1) < j - i" "?h + 1 \<le> j" using h by linarith+
      note less.hyps [OF this less.prems(2)]
      moreover have "?h + 1 \<le> a \<or> a < ?h + 1" for a by linarith
      moreover have "i \<le> ?h + 1" using h by linarith
      ultimately show ?thesis by (metis order_trans)
    qed
  next
    case False
    then have "sortSearch f i j = i" by (subst sortSearch.simps) simp
    with False less.prems show ?thesis by auto
  qed
qed

text \<open>The vnode positions in clockwise order from the hash of a key.\<close>

definition clockwise :: "u64 \<Rightarrow> vnodePos list \<Rightarrow> vnodePos list" where
  "clockwise k ps = filter (\<lambda>p. k \<le> vpHash p) ps @ filter (\<lambda>p. vpHash p < k) ps"

lemma filter_by_index:
  assumes "m \<le> length xs" and "\<And>i. i < m \<Longrightarrow> \<not> P (xs ! i)" and "\<And>i. m \<le> i \<Longrightarrow> i < length xs \<Longrightarrow> P (xs ! i)"
  shows "filter P xs = drop m xs" and "filter (\<lambda>x. \<not> P x) xs = take m xs"
proof -
  have "\<forall>x\<in>set (take m xs). \<not> P x" using assms(1,2) by (auto simp: in_set_conv_nth)
  moreover have "\<forall>x\<in>set (drop m xs). P x" using assms(1,3) by (auto simp: in_set_conv_nth)
  ultimately have "filter P (take m xs @ drop m xs) = drop m xs" "filter (\<lambda>x. \<not> P x) (take m xs @ drop m xs) = take m xs"
    by (simp_all del: append_take_drop_id)
  then show "filter P xs = drop m xs" "filter (\<lambda>x. \<not> P x) xs = take m xs" by simp_all
qed

lemma rotate_index: "map (\<lambda>i. xs ! ((m + i) mod length xs)) [0..<length xs] = rotate m xs"
  by (rule nth_equalityI) (simp_all add: nth_rotate)

definition vnodesOf :: "RingTopology \<Rightarrow> NodeID list \<Rightarrow> vnodePos list" where
  "vnodesOf r ns = concat (map (\<lambda>n. map (\<lambda>v. \<lparr> vpHash = hashVNode n (int v), vpNode = n \<rparr>) [0..<nat (rgVNodes r)]) ns)"

lemma vnodesOf_filter: "vnodesOf r (filter P ns) = filter (\<lambda>p. P (vpNode p)) (vnodesOf r ns)"
  by (induction ns) (auto simp: vnodesOf_def filter_map o_def)

lemma vnodesOf_product:
  "vnodesOf r ns = map (\<lambda>(n, v). \<lparr> vpHash = hashVNode n (int v), vpNode = n \<rparr>) (List.product ns [0..<nat (rgVNodes r)])"
  by (induction ns) (simp_all add: vnodesOf_def o_def)

lemma nodes_vnodesOf:
  assumes "1 \<le> rgVNodes r"
  shows "vpNode ` set (vnodesOf r ns) = set ns"
proof -
  have "vpNode ` set (vnodesOf r ns) = fst ` (set ns \<times> {0..<nat (rgVNodes r)})"
    by (simp add: vnodesOf_product image_image case_prod_beta)
  with assms show ?thesis by (auto simp: fst_image_times)
qed

text \<open>No two virtual nodes share a position.\<close>

definition vnodesDistinct :: "RingTopology \<Rightarrow> NodeID set \<Rightarrow> bool" where
  "vnodesDistinct r N \<longleftrightarrow> inj_on (\<lambda>(n, v). hashVNode n (int v)) (N \<times> {0..<nat (rgVNodes r)})"

lemma vnodesOf_inj:
  assumes "vnodesDistinct r (set ns)" and "distinct ns"
  shows "inj_on vpHash (set (vnodesOf r ns))" and "distinct (vnodesOf r ns)"
proof -
  let ?P = "List.product ns [0..<nat (rgVNodes r)]" and ?g = "\<lambda>(n, v). \<lparr> vpHash = hashVNode n (int v), vpNode = n \<rparr>"
  have "inj_on (vpHash \<circ> ?g) (set ?P)" using assms(1) by (simp add: vnodesDistinct_def o_def case_prod_unfold)
  then have "inj_on vpHash (?g ` set ?P)" and "inj_on ?g (set ?P)" by (rule inj_on_imageI, rule inj_on_imageI2)
  then show "inj_on vpHash (set (vnodesOf r ns))" and "distinct (vnodesOf r ns)"
    using assms(2) by (simp_all add: vnodesOf_product distinct_map distinct_product)
qed

lemma ringPositions_eq: "ringPositions (buildRingFromMembers r members) = rankBy vpHash (vnodesOf r (remdups (ids members)))"
  by (simp add: buildRingFromMembers_def buildRingFromNodeSet_def vnodesOf_def ids_def Let_def)

lemma clockwise_search:
  fixes k :: u64
  assumes "sorted (map vpHash ps)"
  defines "idx \<equiv> sortSearch (\<lambda>i. k \<le> vpHash (ps ! i)) 0 (length ps)"
  shows "map (\<lambda>i. ps ! (((if length ps \<le> idx then 0 else idx) + i) mod length ps)) [0..<length ps] = clockwise k ps"
proof -
  have "k \<le> vpHash (ps ! b)" if "a \<le> b" "b < length ps" "k \<le> vpHash (ps ! a)" for a b
    using order_trans [OF that(3)] sorted_nth_mono [OF assms(1) that(1)] that(1,2) by simp
  from sortSearch_correct [of 0 "length ps" "length ps" "\<lambda>i. k \<le> vpHash (ps ! i)", OF le0 order_refl this, folded idx_def]
  have idx: "idx \<le> length ps" "\<And>a. a < idx \<Longrightarrow> \<not> k \<le> vpHash (ps ! a)"
    "\<And>a. idx \<le> a \<Longrightarrow> a < length ps \<Longrightarrow> k \<le> vpHash (ps ! a)" by simp_all
  from filter_by_index [of idx ps "\<lambda>p. k \<le> vpHash p", OF idx]
  have "clockwise k ps = drop idx ps @ take idx ps" by (simp add: clockwise_def not_le)
  moreover have "rotate (if length ps \<le> idx then 0 else idx) ps = drop idx ps @ take idx ps"
    using idx(1) by (auto simp: rotate_drop_take)
  ultimately show ?thesis by (simp only: rotate_index)
qed

lemma Ring_Responsible_eq:
  "Ring_Responsible r key members k =
     take (nat (max 1 k)) (firsts (map vpNode (clockwise (hashString key) (rankBy vpHash (vnodesOf r (remdups (ids members)))))))"
proof (cases "members = []")
  case True
  then show ?thesis by (simp add: Ring_Responsible_def ids_def vnodesOf_def rankBy_def clockwise_def)
next
  case False
  have "nat (if k \<le> 0 then 1 else k) = nat (max 1 k)" by auto
  with False have "Ring_Responsible r key members k =
      walkRing (nat (max 1 k)) (clockwise (hashString key) (rankBy vpHash (vnodesOf r (remdups (ids members))))) []"
    by (simp only: Ring_Responsible_def Let_def ringPositions_eq if_False clockwise_search [OF sorted_rankBy])
  then show ?thesis by (simp add: walkRing_eq)
qed

lemma set_clockwise [simp]: "set (clockwise k ps) = set ps"
  by (auto simp: clockwise_def)

lemma ring_owners:
  assumes "1 \<le> rgVNodes r" and "set (ids members) = N"
  shows "distinct (Ring_Responsible r key members k) \<and> set (Ring_Responsible r key members k) \<subseteq> N \<and>
    length (Ring_Responsible r key members k) = min (nat (max 1 k)) (card N)"
proof -
  let ?fs = "firsts (map vpNode (clockwise (hashString key) (rankBy vpHash (vnodesOf r (remdups (ids members))))))"
  have "set ?fs = N" using nodes_vnodesOf [OF assms(1)] assms(2) by simp
  then show ?thesis using distinct_card [of ?fs] set_take_subset [of "nat (max 1 k)" ?fs]
    unfolding Ring_Responsible_eq by (simp add: min.commute)
qed

lemma ring_owners_view:
  assumes "vnodesDistinct r N" and "set (ids members) = N" and "set (ids members') = N"
  shows "Ring_Responsible r key members k = Ring_Responsible r key members' k"
proof -
  let ?f = "\<lambda>ms. vnodesOf r (remdups (ids ms))"
  have "set (?f members) = set (?f members')" using assms(2,3) by (auto simp: vnodesOf_def)
  moreover note vnodesOf_inj [of r "remdups (ids members)"] vnodesOf_inj [of r "remdups (ids members')"]
  ultimately have "rankBy vpHash (?f members) = rankBy vpHash (?f members')"
    using assms by (intro rankBy_set_eq) auto
  then show ?thesis by (simp add: Ring_Responsible_eq)
qed

lemma ring_owners_stable:
  assumes "z \<notin> set (Ring_Responsible r key members k)"
  shows "Ring_Responsible r key (filter (\<lambda>m. nmID m \<noteq> z) members) k = Ring_Responsible r key members k"
proof -
  let ?fs = "firsts (map vpNode (clockwise (hashString key) (rankBy vpHash (vnodesOf r (remdups (ids members))))))"
  have c: "map vpNode (clockwise h (filter (\<lambda>p. vpNode p \<noteq> z) ps)) = filter (\<lambda>n. n \<noteq> z) (map vpNode (clockwise h ps))" for h ps
    by (simp add: clockwise_def filter_map o_def conj_commute)
  have "Ring_Responsible r key (filter (\<lambda>m. nmID m \<noteq> z) members) k = take (nat (max 1 k)) (filter (\<lambda>n. n \<noteq> z) ?fs)"
    unfolding Ring_Responsible_eq ids_drop remdups_filter vnodesOf_filter rankBy_filter c firsts_filter ..
  also have "\<dots> = take (nat (max 1 k)) ?fs"
    using assms unfolding Ring_Responsible_eq by (intro take_filter_unaffected) blast
  finally show ?thesis unfolding Ring_Responsible_eq .
qed

lemma NewRingTopology_bounds: "1 \<le> rgFanout (NewRingTopology f v)" "1 \<le> rgVNodes (NewRingTopology f v)"
  by (simp_all add: NewRingTopology_def)

interpretation hashRing: topology "Ring_ShouldConnect (NewRingTopology f v)" "Ring_Route (NewRingTopology f v)"
  "Ring_Responsible (NewRingTopology f v)" ringWf "\<lambda>key. vnodesDistinct (NewRingTopology f v)" ringFar
  for f v
proof (unfold_locales, goal_cases)
  case 1
  then show ?case by (intro ring_route_closer NewRingTopology_bounds)
next
  case 2
  then show ?case by (intro ring_owners NewRingTopology_bounds)
next
  case 3
  then show ?case by (intro ring_owners_view)
next
  case 4
  then show ?case by (intro ring_owners_stable)
qed

section \<open>Properties\<close>

text \<open>
  Claim C8. Ring routing is logarithmic: if every node of a membership \<open>N\<close> sees exactly \<open>N\<close>
  (in any order) and no two primary hashes collide, then forwarding a message with \<open>Route\<close>
  from any member reaches any other member in at most \<open>log2 |N| + 2\<close> hops, and every hop uses a
  connection that the forwarding node keeps open (\<open>ShouldConnect\<close>).
\<close>

theorem ring_routing_logarithmic:
  assumes "\<And>n. n \<in> N \<Longrightarrow> set (ids (view n)) = N" and "ringWf N" and "cur \<in> N" and "target \<in> N"
  shows "\<exists>p. hopPath (Ring_Route (NewRingTopology f v)) view (natLog2 (card N) + 2) cur target = Some p \<and>
    length p \<le> natLog2 (card N) + 2 \<and> last (cur # p) = target \<and>
    (\<forall>i<length p. p ! i \<in> set (Ring_ShouldConnect (NewRingTopology f v) ((cur # p) ! i) (view ((cur # p) ! i))))"
proof -
  let ?k = "natLog2 (card N) + 2"
  from hashRing.path_reaches [where view = view, OF assms(1) assms(2-4) ringFar_log] obtain p where
    "hopPath (Ring_Route (NewRingTopology f v)) view ?k cur target = Some p" "length p \<le> ringFar N cur target"
    "last (cur # p) = target"
    "\<forall>i<length p. p ! i \<in> set (Ring_ShouldConnect (NewRingTopology f v) ((cur # p) ! i) (view ((cur # p) ! i)))" by blast
  with order_trans [OF _ ringFar_log, of "length p" N cur target] show ?thesis by blast
qed

definition exNodes :: "NodeID list" where
  "exNodes = [''a'', ''b'', ''c'', ''d'', ''e'']"

definition exMembers :: "NodeMeta list" where
  "exMembers = map (\<lambda>n. \<lparr> nmID = n, nmAddr = '''', nmTags = [] \<rparr>) exNodes"

lemma ids_exMembers: "ids exMembers = exNodes"
  by (simp add: ids_def exMembers_def o_def)

lemma exHashes: "distinct (map (\<lambda>n. hashVNode n 0) exNodes)"
proof -
  have "fnv64a ''a'' = 12638187200555641996" "fnv64a ''b'' = 12638190499090526629" "fnv64a ''c'' = 12638189399578898418"
    "fnv64a ''d'' = 12638183902020757363" "fnv64a ''e'' = 12638182802509129152"
    by (simp_all add: fnv64a_def fnv64aWrite_def of_char_def)
  then have "hashVNode ''a'' 0 = 2101694933553036214" "hashVNode ''b'' 0 = 6178026037009652707"
    "hashVNode ''c'' 0 = 2301415437357667653" "hashVNode ''d'' 0 = 64032557726299769" "hashVNode ''e'' 0 = 13528281543279812135"
    unfolding hashVNode_def by (simp_all, simp_all add: hash_eval)
  then show ?thesis by (simp add: exNodes_def)
qed

theorem ring_routing_logarithmic_witness:
  "\<exists>p. hopPath (Ring_Route (NewRingTopology 1 1)) (\<lambda>n. exMembers) 4 ''a'' ''d'' = Some p \<and>
    length p \<le> 4 \<and> last (''a'' # p) = ''d''"
proof -
  have wf: "ringWf (set exNodes)" using exHashes by (simp add: ringWf_def distinct_map) (simp add: exNodes_def)
  have m: "''a'' \<in> set exNodes" "''d'' \<in> set exNodes" by (simp_all add: exNodes_def)
  have k: "natLog2 (card (set exNodes)) + 2 = 4" by code_simp
  from ring_routing_logarithmic [of "set exNodes" "\<lambda>n. exMembers", OF _ wf m, of 1 1] show ?thesis
    unfolding k ids_exMembers by blast
qed

text \<open>
  The ring keeps few connections: whatever the membership, a node keeps at most twice
  the fanout plus \<open>log2 n\<close> connections open, where \<open>n\<close> counts the members and the node itself.
\<close>

theorem ring_connection_bound:
  "length (Ring_ShouldConnect (NewRingTopology f v) self members)
     \<le> 2 * nat (max 1 f) + natLog2 (card (insert self (set (ids members))))"
proof -
  let ?r = "NewRingTopology f v" and ?n = "card (insert self (set (ids members)))"
  have F: "nat (rgFanout ?r) = nat (max 1 f)" "1 \<le> rgFanout ?r" by (auto simp: NewRingTopology_def)
  show ?thesis
  proof (cases "buildRing ?r self members")
    case None
    then show ?thesis by (simp add: Ring_ShouldConnect_def)
  next
    case (Some rg)
    then have rg: "rg = buildRingFromNodeSet ?r (remdups (self # map nmID members))"
      by (auto simp: buildRing_def Let_def split: if_splits)
    have nodes: "set (ringNodes rg) = insert self (set (ids members))" "distinct (ringNodes rg)" "length (ringNodes rg) = ?n"
      by (auto simp: rg buildRingFromNodeSet_def Let_def ids_def length_remdups_card_conv insert_absorb)
    show ?thesis
    proof (cases "int (length (ringNodes rg)) \<le> 2 * rgFanout ?r + 1")
      case True
      have "distinct (filter (\<lambda>n. n \<noteq> self) (ringNodes rg))" using nodes by simp
      then have "length (dedupNodes (filter (\<lambda>n. n \<noteq> self) (ringNodes rg))) = card (insert self (set (ids members)) - {self})"
        unfolding dedupNodes_eq using nodes(1) distinct_card [of "firsts (filter (\<lambda>n. n \<noteq> self) (ringNodes rg))"]
        by (simp add: set_diff_eq Collect_conj_eq Int_commute)
      moreover have "card (insert self (set (ids members))) = Suc (card (insert self (set (ids members)) - {self}))"
        using card.insert_remove [of "set (ids members)" self] by simp
      moreover have "int ?n \<le> 2 * rgFanout ?r + 1" using True nodes(3) by simp
      then have "?n \<le> Suc (2 * nat (max 1 f))" using F by linarith
      ultimately show ?thesis using True Some by (simp add: Ring_ShouldConnect_def)
    next
      case False
      have "length (foldl (fingerStep rg i) [] [0..<m]) \<le> m" for i m
        by (induction m) (auto simp: fingerStep_def Let_def)
      moreover have "1 \<le> natLog2 ?n" using False nodes(3) F by (intro natLog2_pos) linarith
      ultimately have fingers: "length (buildFingers rg i) \<le> natLog2 ?n" for i
        using nodes(3) by (simp add: buildFingers_def Let_def)
      have neighbours: "length (ringNeighbours ?r rg i) = 2 * nat (max 1 f)" for i
        by (simp add: ringNeighbours_def Let_def length_concat o_def sum_list_triv F)
      have "length (filter (\<lambda>n. n \<noteq> self) (remdups (ringNeighbours ?r rg i @ buildFingers rg i))) \<le> 2 * nat (max 1 f) + natLog2 ?n" for i
        using length_filter_le [of "\<lambda>n. n \<noteq> self" "remdups (ringNeighbours ?r rg i @ buildFingers rg i)"]
          length_remdups_leq [of "ringNeighbours ?r rg i @ buildFingers rg i"] fingers [of i] neighbours [of i]
        by (simp only: length_append)
      with False Some show ?thesis by (cases "indexOf rg self") (simp_all add: Ring_ShouldConnect_def)
    qed
  qed
qed

text \<open>
  Claim C22. Key ownership on the ring: with distinct vnode hashes, two nodes that see the same
  members in any order name the same owners of a key; the owners are distinct members, as many
  as the replication factor asks for (at least one) or as there are members; and when a member
  that is not an owner goes, the owners stay the same.
\<close>

theorem ring_ownership:
  fixes key :: string and k :: int
  assumes "vnodesDistinct (NewRingTopology f v) N" and "set (ids members) = N" and "set (ids members') = N"
    and "distinct (ids members)" and "distinct (ids members')"
  defines "owners \<equiv> Ring_Responsible (NewRingTopology f v) key members k"
  shows "Ring_Responsible (NewRingTopology f v) key members' k = owners \<and>
    distinct owners \<and> set owners \<subseteq> N \<and> length owners = min (nat (max 1 k)) (card N) \<and>
    (\<forall>z. z \<notin> set owners \<longrightarrow>
       Ring_Responsible (NewRingTopology f v) key (filter (\<lambda>m. nmID m \<noteq> z) members) k = owners)"
  using hashRing.resp_members [OF assms(2,1,4)] hashRing.resp_view [OF assms(3,2,1,5,4)]
    hashRing.resp_stable [OF assms(2,1,4)] unfolding owners_def by blast

theorem ring_ownership_witness:
  "length (Ring_Responsible (NewRingTopology 1 1) ''key'' (rev exMembers) 2) = 2"
proof -
  let ?r = "NewRingTopology 1 1"
  have "{0..<nat (rgVNodes ?r)} = {0}" by (auto simp: NewRingTopology_def)
  with exHashes have v: "vnodesDistinct ?r (set exNodes)"
    by (auto simp: vnodesDistinct_def distinct_map inj_on_def)
  have d: "distinct exNodes" "set (ids (rev exMembers)) = set exNodes" "distinct (ids (rev exMembers))"
    by (auto simp: ids_def exMembers_def exNodes_def)
  have "card (set exNodes) = 5" by (simp add: exNodes_def)
  with ring_ownership [OF v d(2,2,3,3), of "''key''" 2] show ?thesis by simp
qed

text \<open>
  A topology built as a struct literal without \<open>VNodes\<close> has no positions at all, although the
  comment on the field says that zero means one: no node is responsible for any key.
\<close>

lemma zero_vnodes_no_owner: "rgVNodes r \<le> 0 \<Longrightarrow> Ring_Responsible r key members k = []"
proof -
  assume "rgVNodes r \<le> 0"
  then have "vnodesOf r ns = []" for ns by (simp add: vnodesOf_def)
  then show ?thesis by (simp add: Ring_Responsible_eq clockwise_def rankBy_def)
qed

end
