(* ===== verification/ClusterCore.thy ===== *)
theory ClusterCore
  imports RingTopology Pid
begin

text \<open>
  The node of a cluster (\<open>cluster.go\<close>): its peers, its connections and the dials in progress,
  membership events with the reconciliation of connections, sending with on-demand dials and
  next hops, node tags. The transport is a parameter: what \<open>Dial\<close> and \<open>Connection.Send\<close>
  answer, as functions of the number of transport calls made so far, so that every call may
  answer differently. A running \<open>dialPeer\<close> goroutine is an entry of \<open>clDials\<close> and its end a
  step of its own. Calls of \<open>Connection.Close\<close>, of \<open>Connection.Send\<close> that succeeded and of
  the membership callback are recorded in lists. Timeouts and logging are dropped.
\<close>

section \<open>Envelopes, connections and the transport\<close>

record RemotePID =
  rpNode :: NodeID
  rpNamespace :: string
  rpActorID :: string
  rpGeneration :: u64

record Envelope =
  enSenderNode :: NodeID
  enSenderActorID :: string
  enTargetNode :: NodeID
  enTargetActorID :: string
  enNamespace :: string
  enGeneration :: u64
  enTypeName :: string
  enSchemaVersion :: string
  enMessageID :: u64
  enPayload :: string
  enIsAsk :: bool
  enAskRequestID :: string
  enAskReplyTo :: "RemotePID option"

datatype transportError =
  ErrTransportClosed | ErrConnectionClosed | ErrNodeUnreachable | ErrDialFailed
| ErrHandshakeFailed | ErrSendFailed | ErrEnvelopeTooLarge

record Connection =
  connID :: nat
  connRemoteNodeID :: NodeID

record Transport =
  trDial :: "nat \<Rightarrow> string \<Rightarrow> Connection option"
  trSend :: "nat \<Rightarrow> Connection \<Rightarrow> Envelope \<Rightarrow> bool"

record Topology =
  tpShouldConnect :: "NodeID \<Rightarrow> NodeMeta list \<Rightarrow> NodeID list"
  tpRoute :: "NodeID \<Rightarrow> NodeID \<Rightarrow> NodeMeta list \<Rightarrow> NodeID option"
  tpResponsible :: "string \<Rightarrow> NodeMeta list \<Rightarrow> int \<Rightarrow> NodeID list"

definition FullMeshTopology :: Topology where
  "FullMeshTopology = \<lparr> tpShouldConnect = FullMesh_ShouldConnect, tpRoute = FullMesh_Route, tpResponsible = FullMesh_Responsible \<rparr>"

definition HashRing :: "RingTopology \<Rightarrow> Topology" where
  "HashRing r = \<lparr> tpShouldConnect = Ring_ShouldConnect r, tpRoute = Ring_Route r, tpResponsible = Ring_Responsible r \<rparr>"

section \<open>The state of a node\<close>

record Cluster =
  clSelf :: NodeMeta
  clTransport :: Transport
  clTopology :: Topology
  clOnMemberEvent :: bool
  clConns :: "(NodeID, Connection) gomap"
  clPeers :: "(NodeID, NodeMeta) gomap"
  clDialing :: "NodeID list"
  clStarted :: bool
  clDials :: "NodeMeta list"
  clCalls :: nat
  clClosed :: "Connection list"
  clSent :: "(Connection \<times> Envelope) list"
  clEvents :: "MemberEvent list"

text \<open>
  \<open>NewCluster\<close>: a missing provider, transport, or topology is \<open>None\<close>. Authentication and codec
  are configuration of the transport and of the remote sender.
\<close>

definition NewCluster :: "NodeMeta \<Rightarrow> bool \<Rightarrow> Transport option \<Rightarrow> Topology option \<Rightarrow> string + Cluster" where
  "NewCluster self hasProvider transport topo =
     (if nmID self = '''' then Inl ''cluster: Self.ID is required''
      else if nmAddr self = '''' then Inl ''cluster: Self.Addr is required''
      else if \<not> hasProvider then Inl ''cluster: Provider is required''
      else case transport of
        None \<Rightarrow> Inl ''cluster: Transport is required''
      | Some tr \<Rightarrow> Inr
          \<lparr> clSelf = self, clTransport = tr,
            clTopology = (case topo of None \<Rightarrow> FullMeshTopology | Some t \<Rightarrow> t),
            clOnMemberEvent = False, clConns = [], clPeers = [], clDialing = [], clStarted = False,
            clDials = [], clCalls = 0, clClosed = [], clSent = [], clEvents = [] \<rparr>)"

definition LocalNodeID :: "Cluster \<Rightarrow> NodeID" where
  "LocalNodeID c = nmID (clSelf c)"

definition Members :: "Cluster \<Rightarrow> NodeMeta list" where
  "Members c = map snd (clPeers c)"

definition memberListLocked :: "Cluster \<Rightarrow> NodeMeta list" where
  "memberListLocked c = clSelf c # map snd (clPeers c)"

definition IsConnected :: "Cluster \<Rightarrow> NodeID \<Rightarrow> bool" where
  "IsConnected c target \<longleftrightarrow> map_of (clConns c) target \<noteq> None"

definition closeConn :: "Connection \<Rightarrow> Cluster \<Rightarrow> Cluster" where
  "closeConn conn c = c\<lparr>clClosed := clClosed c @ [conn]\<rparr>"

section \<open>Connections\<close>

definition removeConnection :: "NodeID \<Rightarrow> Cluster \<Rightarrow> Cluster" where
  "removeConnection nid c =
     (case map_of (clConns c) nid of
        None \<Rightarrow> c
      | Some conn \<Rightarrow> (closeConn conn c)\<lparr>clConns := gomap_del nid (clConns c)\<rparr>)"

definition dialStart :: "NodeID \<Rightarrow> Cluster \<Rightarrow> Cluster" where
  "dialStart nid c =
     (if map_of (clConns c) nid = None \<and> nid \<notin> set (clDialing c)
      then case map_of (clPeers c) nid of
             None \<Rightarrow> c
           | Some meta \<Rightarrow> c\<lparr>clDialing := nid # clDialing c, clDials := clDials c @ [meta]\<rparr>
      else c)"

definition closeUndesired :: "NodeID list \<Rightarrow> Cluster \<Rightarrow> Cluster" where
  "closeUndesired desired c =
     c\<lparr>clClosed := clClosed c @ map snd (filter (\<lambda>(nid, conn). nid \<notin> set desired) (clConns c)),
       clConns := filter (\<lambda>(nid, conn). nid \<in> set desired) (clConns c)\<rparr>"

definition reconcileConnectionsLocked :: "Cluster \<Rightarrow> Cluster" where
  "reconcileConnectionsLocked c =
     (let members = memberListLocked c;
          desired = tpShouldConnect (clTopology c) (nmID (clSelf c)) members
      in closeUndesired desired (fold dialStart desired c))"

definition handleMemberEvent :: "MemberEvent \<Rightarrow> Cluster \<Rightarrow> Cluster" where
  "handleMemberEvent ev c =
     (let nid = nmID (meMember ev);
          c = (if meType ev = MemberJoin \<or> meType ev = MemberUpdated
               then c\<lparr>clPeers := gomap_put nid (meMember ev) (clPeers c)\<rparr>
               else removeConnection nid (c\<lparr>clPeers := gomap_del nid (clPeers c)\<rparr>));
          c = reconcileConnectionsLocked c
      in if clOnMemberEvent c then c\<lparr>clEvents := clEvents c @ [ev]\<rparr> else c)"

text \<open>The end of the goroutine \<open>dialPeer(meta)\<close>: the transport has answered.\<close>

definition dialPeer :: "NodeMeta \<Rightarrow> Cluster \<Rightarrow> Cluster" where
  "dialPeer meta c =
     (let res = trDial (clTransport c) (clCalls c) (nmAddr meta);
          c = c\<lparr>clCalls := Suc (clCalls c), clDials := remove1 meta (clDials c),
                clDialing := removeAll (nmID meta) (clDialing c)\<rparr>
      in case res of
           None \<Rightarrow> c
         | Some conn \<Rightarrow>
             if map_of (clConns c) (nmID meta) \<noteq> None then closeConn conn c
             else c\<lparr>clConns := gomap_put (nmID meta) conn (clConns c)\<rparr>)"

text \<open>
  \<open>ensureConnection\<close> looks at the connections again after the dial, because another goroutine
  may have connected meanwhile; \<open>ensureFinish\<close> is that second part, so that the two can be
  interleaved with other steps.
\<close>

definition ensureFinish :: "NodeID \<Rightarrow> Connection \<Rightarrow> Cluster \<Rightarrow> Cluster \<times> Connection" where
  "ensureFinish target conn c =
     (case map_of (clConns c) target of
        Some existing \<Rightarrow> (closeConn conn c, existing)
      | None \<Rightarrow> (c\<lparr>clConns := gomap_put target conn (clConns c)\<rparr>, conn))"

definition ensureConnection :: "NodeID \<Rightarrow> Cluster \<Rightarrow> Cluster \<times> Connection option" where
  "ensureConnection target c =
     (case map_of (clPeers c) target of
        None \<Rightarrow> (c, None)
      | Some meta \<Rightarrow>
          let res = trDial (clTransport c) (clCalls c) (nmAddr meta);
              c = c\<lparr>clCalls := Suc (clCalls c)\<rparr>
          in case res of
               None \<Rightarrow> (c, None)
             | Some conn \<Rightarrow> let (c, conn) = ensureFinish target conn c in (c, Some conn))"

definition OnConnectionEstablished :: "NodeID \<Rightarrow> Connection \<Rightarrow> Cluster \<Rightarrow> Cluster" where
  "OnConnectionEstablished remote conn c =
     (if map_of (clConns c) remote = None then c\<lparr>clConns := gomap_put remote conn (clConns c)\<rparr> else c)"

definition OnConnectionLost :: "NodeID \<Rightarrow> Cluster \<Rightarrow> Cluster" where
  "OnConnectionLost remote c = c"

section \<open>Sending\<close>

definition connSend :: "NodeID \<Rightarrow> Connection \<Rightarrow> Envelope \<Rightarrow> Cluster \<Rightarrow> Cluster \<times> transportError option" where
  "connSend nid conn env c =
     (let ok = trSend (clTransport c) (clCalls c) conn env;
          c = c\<lparr>clCalls := Suc (clCalls c)\<rparr>
      in if ok then (c\<lparr>clSent := clSent c @ [(conn, env)]\<rparr>, None)
         else (removeConnection nid c, Some ErrSendFailed))"

definition SendRemote :: "NodeID \<Rightarrow> Envelope \<Rightarrow> Cluster \<Rightarrow> Cluster \<times> transportError option" where
  "SendRemote target env c =
     (case map_of (clConns c) target of
        Some conn \<Rightarrow> connSend target conn env c
      | None \<Rightarrow>
          (case tpRoute (clTopology c) (nmID (clSelf c)) target (memberListLocked c) of
             None \<Rightarrow> (c, Some ErrNodeUnreachable)
           | Some nextHop \<Rightarrow>
               if nextHop = target
               then case ensureConnection target c of
                      (c, None) \<Rightarrow> (c, Some ErrNodeUnreachable)
                    | (c, Some conn) \<Rightarrow> connSend target conn env c
               else case map_of (clConns c) nextHop of
                      Some hopConn \<Rightarrow> connSend nextHop hopConn env c
                    | None \<Rightarrow>
                        (case ensureConnection nextHop c of
                           (c, None) \<Rightarrow> (c, Some ErrNodeUnreachable)
                         | (c, Some hopConn) \<Rightarrow> connSend nextHop hopConn env c)))"

section \<open>Starting, stopping, callbacks and tags\<close>

text \<open>\<open>Start\<close> with the answers of \<open>Transport.Listen\<close> and \<open>Provider.Start\<close>.\<close>

definition Cluster_Start :: "bool \<Rightarrow> bool \<Rightarrow> Cluster \<Rightarrow> Cluster \<times> string option" where
  "Cluster_Start listenOk providerOk c =
     (if clStarted c then (c, Some ''cluster: already started'')
      else let c = c\<lparr>clStarted := True\<rparr>
           in if \<not> listenOk then (c, Some ''cluster: transport listen'')
              else if \<not> providerOk then (c, Some ''cluster: provider start'')
              else (c, None))"

definition Cluster_Stop :: "Cluster \<Rightarrow> Cluster" where
  "Cluster_Stop c =
     (if \<not> clStarted c then c
      else c\<lparr>clStarted := False, clClosed := clClosed c @ map snd (clConns c)\<rparr>)"

definition SetOnMemberEvent :: "Cluster \<Rightarrow> Cluster" where
  "SetOnMemberEvent c = c\<lparr>clOnMemberEvent := True\<rparr>"

definition Self :: "Cluster \<Rightarrow> NodeMeta" where
  "Self c = clSelf c"

definition UpdateTags :: "tags \<Rightarrow> Cluster \<Rightarrow> Cluster" where
  "UpdateTags ts c =
     c\<lparr>clSelf := (clSelf c)\<lparr>nmTags := fold (\<lambda>(k, v). gomap_put k v) ts (nmTags (clSelf c))\<rparr>\<rparr>"

definition RemoveTag :: "string \<Rightarrow> Cluster \<Rightarrow> Cluster" where
  "RemoveTag key c = c\<lparr>clSelf := (clSelf c)\<lparr>nmTags := gomap_del key (nmTags (clSelf c))\<rparr>\<rparr>"

definition tagsEqual :: "tags \<Rightarrow> tags \<Rightarrow> bool" where
  "tagsEqual a b \<longleftrightarrow> length a = length b \<and> list_all (\<lambda>(k, v). tagOf b k = v) a"

definition UpdatePeerMeta :: "NodeMeta \<Rightarrow> Cluster \<Rightarrow> Cluster \<times> bool" where
  "UpdatePeerMeta meta c =
     (case map_of (clPeers c) (nmID meta) of
        None \<Rightarrow> (c, False)
      | Some existing \<Rightarrow>
          if tagsEqual (nmTags existing) (nmTags meta) then (c, False)
          else let c = c\<lparr>clPeers := gomap_put (nmID meta) meta (clPeers c)\<rparr>
               in (if clOnMemberEvent c
                   then c\<lparr>clEvents := clEvents c @ [\<lparr>meType = MemberUpdated, meMember = meta\<rparr>]\<rparr> else c, True))"

section \<open>Invariant\<close>

text \<open>
  Peers are stored under their own ID; the set \<open>dialing\<close> is exactly the set of running
  \<open>dialPeer\<close> goroutines, and no two of them dial the same node.
\<close>

definition clInv :: "Cluster \<Rightarrow> bool" where
  "clInv c \<longleftrightarrow> gomap_ok (clConns c) \<and> gomap_ok (clPeers c) \<and> (\<forall>(nid, m)\<in>set (clPeers c). nmID m = nid) \<and>
     distinct (map nmID (clDials c)) \<and> distinct (clDialing c) \<and> set (clDialing c) = nmID ` set (clDials c)"

datatype clOp =
  ClMember MemberEvent
| ClDialed nat \<comment> \<open>the running dial at this position ends\<close>
| ClSend NodeID Envelope
| ClInbound NodeID Connection
| ClLost NodeID
| ClTags tags
| ClUntag string
| ClPeerMeta NodeMeta
| ClCallback
| ClStart bool bool
| ClStop

fun clStep :: "Cluster \<Rightarrow> clOp \<Rightarrow> Cluster" where
  "clStep c (ClMember ev) = handleMemberEvent ev c"
| "clStep c (ClDialed i) = (if i < length (clDials c) then dialPeer (clDials c ! i) c else c)"
| "clStep c (ClSend target env) = fst (SendRemote target env c)"
| "clStep c (ClInbound remote conn) = OnConnectionEstablished remote conn c"
| "clStep c (ClLost remote) = OnConnectionLost remote c"
| "clStep c (ClTags ts) = UpdateTags ts c"
| "clStep c (ClUntag k) = RemoveTag k c"
| "clStep c (ClPeerMeta m) = fst (UpdatePeerMeta m c)"
| "clStep c ClCallback = SetOnMemberEvent c"
| "clStep c (ClStart l p) = fst (Cluster_Start l p c)"
| "clStep c ClStop = Cluster_Stop c"

text \<open>What sending leaves alone.\<close>

definition clSameNode :: "Cluster \<Rightarrow> Cluster \<Rightarrow> bool" where
  "clSameNode c c' \<longleftrightarrow> clSelf c' = clSelf c \<and> clPeers c' = clPeers c \<and> clTopology c' = clTopology c \<and>
     clTransport c' = clTransport c \<and> clDials c' = clDials c \<and> clDialing c' = clDialing c \<and>
     clEvents c' = clEvents c \<and> clStarted c' = clStarted c"

lemma removeConnection_same: "clSameNode c (removeConnection n c)" "gomap_ok (clConns c) \<Longrightarrow> gomap_ok (clConns (removeConnection n c))"
  "clSent (removeConnection n c) = clSent c"
  by (auto simp: removeConnection_def closeConn_def clSameNode_def split: option.split)

lemma connSend_same: "clSameNode c (fst (connSend n conn env c))" "gomap_ok (clConns c) \<Longrightarrow> gomap_ok (clConns (fst (connSend n conn env c)))"
  using removeConnection_same [where c = "c\<lparr>clCalls := Suc (clCalls c)\<rparr>" and n = n]
  by (auto simp: connSend_def Let_def clSameNode_def)

lemma ensureConnection_same: "clSameNode c (fst (ensureConnection n c))" "gomap_ok (clConns c) \<Longrightarrow> gomap_ok (clConns (fst (ensureConnection n c)))"
  "clSent (fst (ensureConnection n c)) = clSent c"
  by (auto simp: ensureConnection_def ensureFinish_def closeConn_def clSameNode_def Let_def split: option.split)

lemma clSameNode_trans: "clSameNode a b \<Longrightarrow> clSameNode b c \<Longrightarrow> clSameNode a c"
  by (simp add: clSameNode_def)

lemma SendRemote_same:
  shows "clSameNode c (fst (SendRemote t env c))"
    and "gomap_ok (clConns c) \<Longrightarrow> gomap_ok (clConns (fst (SendRemote t env c)))"
proof -
  have 1: "clSameNode c (fst (case ensureConnection n c of (c, None) \<Rightarrow> (c, Some ErrNodeUnreachable) | (c, Some conn) \<Rightarrow> connSend n conn env c))"
    and 2: "gomap_ok (clConns c) \<Longrightarrow> gomap_ok (clConns (fst (case ensureConnection n c of (c, None) \<Rightarrow> (c, Some ErrNodeUnreachable) | (c, Some conn) \<Rightarrow> connSend n conn env c)))" for n
    using ensureConnection_same [where c = c and n = n] connSend_same clSameNode_trans
    by (auto split: prod.split option.split)
  show "clSameNode c (fst (SendRemote t env c))"
    using 1 connSend_same(1) by (auto simp: SendRemote_def clSameNode_def [of c c] split: option.split)
  show "gomap_ok (clConns c) \<Longrightarrow> gomap_ok (clConns (fst (SendRemote t env c)))"
    using 2 connSend_same(2) by (auto simp: SendRemote_def split: option.split)
qed

lemma clInv_same: "clInv c \<Longrightarrow> clSameNode c c' \<Longrightarrow> gomap_ok (clConns c') \<Longrightarrow> clInv c'"
  by (auto simp: clInv_def clSameNode_def)

lemma dialStart_fields [simp]:
  "clConns (dialStart n c) = clConns c" "clPeers (dialStart n c) = clPeers c" "clSelf (dialStart n c) = clSelf c"
  "clTopology (dialStart n c) = clTopology c" "clClosed (dialStart n c) = clClosed c" "clOnMemberEvent (dialStart n c) = clOnMemberEvent c"
  by (auto simp: dialStart_def split: option.split)

lemma fold_dialStart_fields [simp]:
  "clConns (fold dialStart ns c) = clConns c" "clPeers (fold dialStart ns c) = clPeers c" "clSelf (fold dialStart ns c) = clSelf c"
  "clTopology (fold dialStart ns c) = clTopology c" "clClosed (fold dialStart ns c) = clClosed c"
  "clOnMemberEvent (fold dialStart ns c) = clOnMemberEvent c"
  by (induction ns arbitrary: c) simp_all

lemma clInv_dialStart: "clInv c \<Longrightarrow> clInv (dialStart n c)"
  by (auto simp: clInv_def dialStart_def split: option.split dest!: map_of_SomeD)

lemma clInv_fold_dialStart: "clInv c \<Longrightarrow> clInv (fold dialStart ns c)"
  by (induction ns arbitrary: c) (simp_all add: clInv_dialStart)

lemma gomap_ok_filter: "gomap_ok m \<Longrightarrow> gomap_ok (filter P m)"
  by (simp add: gomap_ok_def distinct_map_filter)

lemma clInv_reconcile: "clInv c \<Longrightarrow> clInv (reconcileConnectionsLocked c)"
  using clInv_fold_dialStart [of c "tpShouldConnect (clTopology c) (nmID (clSelf c)) (memberListLocked c)"]
  by (auto simp: clInv_def reconcileConnectionsLocked_def closeUndesired_def Let_def gomap_ok_filter)

lemma clInv_memberChange:
  assumes "clInv c"
  shows "clInv (c\<lparr>clPeers := gomap_put (nmID m) m (clPeers c)\<rparr>)"
    and "clInv (removeConnection n (c\<lparr>clPeers := gomap_del n (clPeers c)\<rparr>))"
proof -
  have "set (gomap_put (nmID m) m (clPeers c)) \<subseteq> insert (nmID m, m) (set (clPeers c))"
    using assms by (auto simp: clInv_def gomap_mem_iff split: if_splits)
  with assms show "clInv (c\<lparr>clPeers := gomap_put (nmID m) m (clPeers c)\<rparr>)" by (auto simp: clInv_def)
  have "set (gomap_del n (clPeers c)) \<subseteq> set (clPeers c)" by (auto simp: AList.delete_eq)
  with assms have "clInv (c\<lparr>clPeers := gomap_del n (clPeers c)\<rparr>)" by (auto simp: clInv_def)
  then show "clInv (removeConnection n (c\<lparr>clPeers := gomap_del n (clPeers c)\<rparr>))"
    using clInv_same removeConnection_same by (metis clInv_def)
qed

lemma clInv_event: "clInv c \<Longrightarrow> clInv (handleMemberEvent ev c)"
proof -
  assume c: "clInv c"
  have e: "clInv (x\<lparr>clEvents := es\<rparr>) = clInv x" for x es by (simp add: clInv_def)
  show ?thesis
    using clInv_memberChange [OF c] by (simp add: handleMemberEvent_def Let_def e clInv_reconcile)
qed

lemma remove1_key:
  assumes "distinct (map f xs)" and "x \<in> set xs"
  shows "f ` set (remove1 x xs) = f ` set xs - {f x}" and "distinct (map f (remove1 x xs))"
  using assms by (auto simp: set_remove1_eq distinct_map inj_on_def distinct_remove1)

lemma clInv_dialPeer:
  assumes "clInv c" and "i < length (clDials c)"
  shows "clInv (dialPeer (clDials c ! i) c)"
proof -
  let ?m = "clDials c ! i"
  let ?c = "c\<lparr>clCalls := Suc (clCalls c), clDials := remove1 ?m (clDials c), clDialing := removeAll (nmID ?m) (clDialing c)\<rparr>"
  have "?m \<in> set (clDials c)" using assms(2) by simp
  with remove1_key [of nmID "clDials c" ?m] assms(1) have "clInv ?c"
    by (auto simp: clInv_def distinct_removeAll)
  then show ?thesis by (simp add: dialPeer_def Let_def clInv_def closeConn_def split: option.split)
qed

lemma clInv_step: "clInv c \<Longrightarrow> clInv (clStep c op)"
proof (cases op)
  case (ClMember ev)
  then show "clInv c \<Longrightarrow> ?thesis" by (simp add: clInv_event)
next
  case (ClDialed i)
  then show "clInv c \<Longrightarrow> ?thesis" by (simp add: clInv_dialPeer)
next
  case (ClSend t env)
  then show "clInv c \<Longrightarrow> ?thesis" using clInv_same [OF _ SendRemote_same(1)] SendRemote_same(2) by (simp add: clInv_def)
next
  case (ClPeerMeta m)
  then show "clInv c \<Longrightarrow> ?thesis" using clInv_memberChange(1) [of c m]
    by (auto simp: UpdatePeerMeta_def Let_def clInv_def split: option.split)
qed (auto simp: OnConnectionEstablished_def OnConnectionLost_def UpdateTags_def RemoveTag_def SetOnMemberEvent_def
       Cluster_Start_def Cluster_Stop_def Let_def clInv_def)

lemma clInv_New: "NewCluster self p tr tp = Inr c \<Longrightarrow> clInv c"
  by (auto simp: NewCluster_def clInv_def split: if_splits option.splits)

lemma clInv_reachable: "NewCluster self p tr tp = Inr c \<Longrightarrow> clInv (foldl clStep c ops)"
proof -
  have "clInv c \<Longrightarrow> clInv (foldl clStep c ops)" by (induction ops arbitrary: c) (simp_all add: clInv_step)
  then show "NewCluster self p tr tp = Inr c \<Longrightarrow> clInv (foldl clStep c ops)" using clInv_New by blast
qed

section \<open>Reconciliation\<close>

lemma fold_dialStart_dialing:
  "nid \<in> set ns \<Longrightarrow> map_of (clConns c) nid = None \<Longrightarrow> map_of (clPeers c) nid \<noteq> None \<Longrightarrow> nid \<in> set (clDialing (fold dialStart ns c))"
proof -
  have mono: "set (clDialing c) \<subseteq> set (clDialing (fold dialStart ns c))" for c ns
  proof (induction ns arbitrary: c)
    case (Cons n ns)
    have "set (clDialing c) \<subseteq> set (clDialing (dialStart n c))" by (auto simp: dialStart_def split: option.split)
    with Cons show ?case by fastforce
  qed simp
  assume a: "nid \<in> set ns" "map_of (clConns c) nid = None" "map_of (clPeers c) nid \<noteq> None"
  then obtain xs ys where ns: "ns = xs @ nid # ys" by (meson split_list)
  have "nid \<in> set (clDialing (dialStart nid (fold dialStart xs c)))" using a(2,3) by (auto simp: dialStart_def)
  then show ?thesis using mono [of "dialStart nid (fold dialStart xs c)" ys] by (auto simp: ns)
qed

lemma map_of_filter_keys: "map_of (filter (\<lambda>(k, v). k \<in> A) m) = map_of m |` A"
  by (induction m) (auto simp: fun_eq_iff restrict_map_def)

lemma reconcile_effect:
  fixes c :: Cluster
  assumes "clInv c"
  defines "c' \<equiv> reconcileConnectionsLocked c"
  defines "desired \<equiv> tpShouldConnect (clTopology c) (nmID (clSelf c)) (memberListLocked c)"
  shows "map_of (clConns c') = map_of (clConns c) |` set desired"
    and "\<forall>nid\<in>set desired. map_of (clPeers c) nid \<noteq> None \<longrightarrow> IsConnected c' nid \<or> nid \<in> nmID ` set (clDials c')"
    and "set (clClosed c') = set (clClosed c) \<union> {conn. \<exists>nid. nid \<notin> set desired \<and> map_of (clConns c) nid = Some conn}"
proof -
  have c': "c' = closeUndesired desired (fold dialStart desired c)"
    by (simp add: c'_def desired_def reconcileConnectionsLocked_def Let_def)
  have ok: "gomap_ok (clConns c)" using assms(1) by (simp add: clInv_def)
  show conns: "map_of (clConns c') = map_of (clConns c) |` set desired"
    by (simp add: c' closeUndesired_def map_of_filter_keys)
  show "\<forall>nid\<in>set desired. map_of (clPeers c) nid \<noteq> None \<longrightarrow> IsConnected c' nid \<or> nid \<in> nmID ` set (clDials c')"
  proof (intro ballI impI)
    fix nid
    assume n: "nid \<in> set desired" "map_of (clPeers c) nid \<noteq> None"
    have "clInv c'" using assms(1) by (simp add: c'_def clInv_reconcile)
    then have "set (clDialing c') = nmID ` set (clDials c')" by (simp add: clInv_def)
    moreover have "map_of (clConns c) nid = None \<Longrightarrow> nid \<in> set (clDialing c')"
      using fold_dialStart_dialing [OF n(1) _ n(2)] by (simp add: c' closeUndesired_def)
    ultimately show "IsConnected c' nid \<or> nid \<in> nmID ` set (clDials c')"
      using n(1) by (auto simp: IsConnected_def conns)
  qed
  show "set (clClosed c') = set (clClosed c) \<union> {conn. \<exists>nid. nid \<notin> set desired \<and> map_of (clConns c) nid = Some conn}"
    using ok by (force simp: c' closeUndesired_def gomap_mem_iff [symmetric])
qed

lemma handleMemberEvent_reconciles:
  "\<exists>c0. clSelf c0 = clSelf c \<and> clTopology c0 = clTopology c \<and> clTransport c0 = clTransport c \<and>
     (clInv c \<longrightarrow> clInv c0) \<and> (\<forall>nid. map_of (clConns c0) nid \<in> {map_of (clConns c) nid, None}) \<and>
     (\<forall>nid conn. map_of (clConns c) nid = Some conn \<longrightarrow> map_of (clConns c0) nid = Some conn \<or> conn \<in> set (clClosed c0)) \<and>
     clPeers c0 = (if meType ev = MemberJoin \<or> meType ev = MemberUpdated then gomap_put (nmID (meMember ev)) (meMember ev) (clPeers c)
                   else gomap_del (nmID (meMember ev)) (clPeers c)) \<and>
     handleMemberEvent ev c = (reconcileConnectionsLocked c0)\<lparr>clEvents := clEvents (handleMemberEvent ev c)\<rparr>"
proof (cases "meType ev = MemberJoin \<or> meType ev = MemberUpdated")
  case True
  then show ?thesis
    by (intro exI [of _ "c\<lparr>clPeers := gomap_put (nmID (meMember ev)) (meMember ev) (clPeers c)\<rparr>"])
      (auto simp: handleMemberEvent_def Let_def clInv_memberChange)
next
  case False
  let ?c = "c\<lparr>clPeers := gomap_del (nmID (meMember ev)) (clPeers c)\<rparr>"
  have "clSelf (removeConnection n x) = clSelf x" "clTopology (removeConnection n x) = clTopology x"
    "clTransport (removeConnection n x) = clTransport x" "clPeers (removeConnection n x) = clPeers x" for n x
    using removeConnection_same(1) [of x n] by (simp_all add: clSameNode_def)
  moreover have "map_of (clConns (removeConnection n ?c)) nid = map_of (clConns c) nid \<or>
      map_of (clConns (removeConnection n ?c)) nid = None" for n nid
    by (auto simp: removeConnection_def split: option.split)
  moreover have "map_of (clConns c) nid = Some conn \<Longrightarrow> map_of (clConns (removeConnection n ?c)) nid = Some conn \<or>
      conn \<in> set (clClosed (removeConnection n ?c))" for n nid conn
    by (auto simp: removeConnection_def closeConn_def split: option.split)
  ultimately show ?thesis using False
    by (intro exI [of _ "removeConnection (nmID (meMember ev)) ?c"])
      (simp add: handleMemberEvent_def Let_def clInv_memberChange)
qed

section \<open>Properties\<close>

text \<open>
  Claim C9. Connections follow the membership: on a node in any state it can reach, handling a
  membership event leaves the node with the new peers; every remaining connection is to a node
  the topology wants and was held before; every wanted peer is connected or being dialled; every
  connection that is no longer held has been closed; and no peer is dialled twice at a time.
\<close>

theorem connections_reconciled:
  fixes ops :: "clOp list" and ev :: MemberEvent
  assumes "NewCluster self prov tr topo = Inr c0"
  defines "c \<equiv> foldl clStep c0 ops"
  defines "c' \<equiv> handleMemberEvent ev c"
  defines "desired \<equiv> tpShouldConnect (clTopology c) (LocalNodeID c) (memberListLocked c')"
  shows "map_of (clPeers c') = (if meType ev = MemberJoin \<or> meType ev = MemberUpdated
           then (map_of (clPeers c))(nmID (meMember ev) \<mapsto> meMember ev) else (map_of (clPeers c))(nmID (meMember ev) := None)) \<and>
    (\<forall>nid conn. map_of (clConns c') nid = Some conn \<longrightarrow> nid \<in> set desired \<and> map_of (clConns c) nid = Some conn) \<and>
    (\<forall>nid\<in>set desired. map_of (clPeers c') nid \<noteq> None \<longrightarrow> IsConnected c' nid \<or> nid \<in> nmID ` set (clDials c')) \<and>
    (\<forall>nid conn. map_of (clConns c) nid = Some conn \<longrightarrow> map_of (clConns c') nid = Some conn \<or> conn \<in> set (clClosed c')) \<and>
    distinct (map nmID (clDials c'))"
proof -
  have inv: "clInv c" unfolding c_def using assms(1) by (rule clInv_reachable)
  from handleMemberEvent_reconciles [of c ev] inv obtain c1 where
    c1: "clSelf c1 = clSelf c" "clTopology c1 = clTopology c" "clInv c1"
      "\<And>nid. map_of (clConns c1) nid \<in> {map_of (clConns c) nid, None}"
      "\<And>nid conn. map_of (clConns c) nid = Some conn \<Longrightarrow> map_of (clConns c1) nid = Some conn \<or> conn \<in> set (clClosed c1)"
      "clPeers c1 = (if meType ev = MemberJoin \<or> meType ev = MemberUpdated then gomap_put (nmID (meMember ev)) (meMember ev) (clPeers c)
                   else gomap_del (nmID (meMember ev)) (clPeers c))"
      "c' = (reconcileConnectionsLocked c1)\<lparr>clEvents := clEvents c'\<rparr>"
    unfolding c'_def by blast
  let ?r = "reconcileConnectionsLocked c1"
  have f: "clPeers ?r = clPeers c1" "clSelf ?r = clSelf c1"
    by (simp_all add: reconcileConnectionsLocked_def closeUndesired_def Let_def)
  have g: "clPeers c' = clPeers c1" "clConns c' = clConns ?r" "clDials c' = clDials ?r" "clClosed c' = clClosed ?r" "clSelf c' = clSelf c1"
    using f by (subst c1(7), simp)+
  have d: "desired = tpShouldConnect (clTopology c1) (nmID (clSelf c1)) (memberListLocked c1)"
    by (simp add: desired_def LocalNodeID_def memberListLocked_def g c1(1,2))
  note e = reconcile_effect [OF c1(3), folded d]
  have "distinct (map nmID (clDials ?r))" using clInv_reconcile [OF c1(3)] by (simp add: clInv_def)
  moreover have "map_of (clConns c) nid = Some conn" "nid \<in> set desired" if "map_of (clConns ?r) nid = Some conn" for nid conn
    using that c1(4) [of nid] by (auto simp: e(1) restrict_map_def split: if_splits)
  moreover have "map_of (clConns ?r) nid = Some conn \<or> conn \<in> set (clClosed ?r)" if "map_of (clConns c) nid = Some conn" for nid conn
    using c1(5) [OF that] by (auto simp: e(1,3) restrict_map_def)
  ultimately show ?thesis using e(2) by (auto simp: g c1(6) IsConnected_def)
qed

definition exTransport :: Transport where
  "exTransport = \<lparr> trDial = (\<lambda>k addr. Some \<lparr> connID = k, connRemoteNodeID = addr \<rparr>), trSend = (\<lambda>k conn env. True) \<rparr>"

definition exMeta :: "NodeID \<Rightarrow> NodeMeta" where
  "exMeta n = \<lparr> nmID = n, nmAddr = n, nmTags = [] \<rparr>"

definition exEvent :: "MemberEventType \<Rightarrow> NodeID \<Rightarrow> MemberEvent" where
  "exEvent t n = \<lparr> meType = t, meMember = exMeta n \<rparr>"

theorem connections_reconciled_witness:
  "\<exists>c0. NewCluster (exMeta ''a'') True (Some exTransport) None = Inr c0 \<and>
     (let c' = handleMemberEvent (exEvent MemberLeave ''b'') (foldl clStep c0 [ClMember (exEvent MemberJoin ''b''), ClDialed 0])
      in distinct (map nmID (clDials c')) \<and> map_of (clPeers c') ''b'' = None)"
proof -
  obtain c0 where c0: "NewCluster (exMeta ''a'') True (Some exTransport) None = Inr c0"
    by (simp add: NewCluster_def exMeta_def)
  from connections_reconciled [OF this, of "exEvent MemberLeave ''b''" "[ClMember (exEvent MemberJoin ''b''), ClDialed 0]"]
  show ?thesis using c0 by (auto simp: Let_def exEvent_def exMeta_def)
qed

text \<open>The node an envelope is handed to.\<close>

definition sendHop :: "Cluster \<Rightarrow> NodeID \<Rightarrow> NodeID option" where
  "sendHop c target =
     (if IsConnected c target then Some target
      else tpRoute (clTopology c) (LocalNodeID c) target (memberListLocked c))"

text \<open>
  Claim C16. Every branch of \<open>SendRemote\<close>. Without an error exactly one envelope leaves the node,
  over the connection it then holds to the hop; the hop is the target when there is a direct
  connection, and otherwise the next hop of the topology. With \<open>ErrSendFailed\<close> nothing left the
  node and the failed connection is closed and forgotten. With \<open>ErrNodeUnreachable\<close> nothing left
  the node, there was no direct connection, and either there is no route, or the next hop is not
  a known peer, or dialling it failed.
\<close>

theorem send_remote_outcomes:
  "case SendRemote target env c of
     (c', None) \<Rightarrow>
       \<exists>hop conn. sendHop c target = Some hop \<and> clSent c' = clSent c @ [(conn, env)] \<and> map_of (clConns c') hop = Some conn
   | (c', Some e) \<Rightarrow> clSent c' = clSent c \<and>
       (e = ErrSendFailed \<and>
          (\<exists>hop conn. sendHop c target = Some hop \<and> clClosed c' = clClosed c @ [conn] \<and> map_of (clConns c') hop = None) \<or>
        e = ErrNodeUnreachable \<and> \<not> IsConnected c target \<and> clClosed c' = clClosed c \<and> clConns c' = clConns c \<and>
          (case sendHop c target of
             None \<Rightarrow> True
           | Some hop \<Rightarrow> \<not> IsConnected c hop \<and>
               (case map_of (clPeers c) hop of None \<Rightarrow> True
                | Some meta \<Rightarrow> trDial (clTransport c) (clCalls c) (nmAddr meta) = None)))"
proof -
  have send: "case connSend n conn env c1 of
      (c', None) \<Rightarrow> clSent c' = clSent c1 @ [(conn, env)] \<and> map_of (clConns c') n = Some conn
    | (c', Some e) \<Rightarrow> clSent c' = clSent c1 \<and> e = ErrSendFailed \<and> clClosed c' = clClosed c1 @ [conn] \<and> map_of (clConns c') n = None"
    if "map_of (clConns c1) n = Some conn" for n conn c1
    using that by (simp add: connSend_def removeConnection_def closeConn_def Let_def)
  have ensure: "case ensureConnection n c of
      (c1, None) \<Rightarrow> clSent c1 = clSent c \<and> clClosed c1 = clClosed c \<and> clConns c1 = clConns c \<and>
        (case map_of (clPeers c) n of None \<Rightarrow> True | Some meta \<Rightarrow> trDial (clTransport c) (clCalls c) (nmAddr meta) = None)
    | (c1, Some conn) \<Rightarrow> clSent c1 = clSent c \<and> clClosed c1 = clClosed c \<and> map_of (clConns c1) n = Some conn"
    if "map_of (clConns c) n = None" for n
    using that by (auto simp: ensureConnection_def ensureFinish_def Let_def split: option.split)
  show ?thesis
  proof (cases "map_of (clConns c) target")
    case (Some conn)
    with send [OF Some] show ?thesis by (auto simp: SendRemote_def sendHop_def IsConnected_def split: prod.split option.split)
  next
    case direct: None
    let ?route = "tpRoute (clTopology c) (LocalNodeID c) target (memberListLocked c)"
    show ?thesis
    proof (cases ?route)
      case None
      with direct show ?thesis by (simp add: SendRemote_def sendHop_def LocalNodeID_def IsConnected_def)
    next
      case (Some hop)
      show ?thesis
      proof (cases "map_of (clConns c) hop")
        case None
        have s: "SendRemote target env c = (case ensureConnection hop c of
            (c, None) \<Rightarrow> (c, Some ErrNodeUnreachable) | (c, Some conn) \<Rightarrow> connSend hop conn env c)"
          using direct Some None by (cases "hop = target") (simp_all add: SendRemote_def LocalNodeID_def)
        obtain c1 res where e: "ensureConnection hop c = (c1, res)" by (cases "ensureConnection hop c")
        show ?thesis
        proof (cases res)
          case None
          with ensure [OF \<open>map_of (clConns c) hop = None\<close>] e s direct Some show ?thesis
            by (simp add: sendHop_def IsConnected_def \<open>map_of (clConns c) hop = None\<close>)
        next
          case (Some conn)
          with ensure [OF None] e have c1: "clSent c1 = clSent c" "clClosed c1 = clClosed c" "map_of (clConns c1) hop = Some conn" by simp_all
          from send [OF c1(3)] s e Some c1 direct \<open>?route = Some hop\<close> show ?thesis
            by (auto simp: sendHop_def IsConnected_def split: prod.split option.split)
        qed
      next
        case hopConn: (Some conn)
        with direct Some have "hop \<noteq> target" by auto
        with send [OF hopConn] direct Some hopConn show ?thesis
          by (auto simp: SendRemote_def sendHop_def LocalNodeID_def IsConnected_def split: prod.split option.split)
      qed
    qed
  qed
qed

section \<open>Tags\<close>

text \<open>
  Change detection of peer metadata is exact as long as no tag of the peer has an empty value.
\<close>

lemma tagsEqual_iff:
  assumes "gomap_ok a" and "gomap_ok b" and "'''' \<notin> snd ` set a"
  shows "tagsEqual a b \<longleftrightarrow> map_of a = map_of b"
proof
  assume t: "tagsEqual a b"
  have sub: "map_of b k = Some v" if "map_of a k = Some v" for k v
  proof -
    have "(k, v) \<in> set a" using that by (rule map_of_SomeD)
    with t assms(3) have "tagOf b k = v" "v \<noteq> ''''" by (force simp: tagsEqual_def list_all_iff)+
    then show ?thesis by (auto simp: tagOf_def split: option.splits)
  qed
  then have "dom (map_of a) \<subseteq> dom (map_of b)" by blast
  moreover have "card (dom (map_of a)) = length a" "card (dom (map_of b)) = length b"
    using assms(1,2) by (simp_all add: gomap_ok_def dom_map_of_conv_image_fst distinct_card [of "map fst a", simplified] distinct_card [of "map fst b", simplified])
  ultimately have "dom (map_of a) = dom (map_of b)"
    using t card_subset_eq [OF finite_dom_map_of] by (metis tagsEqual_def)
  moreover have "map_of a \<subseteq>\<^sub>m map_of b" using sub by (auto simp: map_le_def)
  ultimately show "map_of a = map_of b" by (metis map_le_antisym map_le_def)
next
  assume m: "map_of a = map_of b"
  have "length a = length b"
    using assms(1,2) m by (metis gomap_ok_def distinct_card dom_map_of_conv_image_fst length_map set_map)
  moreover have "tagOf b k = v" if "(k, v) \<in> set a" for k v
    using that assms(1) m by (simp add: tagOf_def gomap_mem_iff)
  ultimately show "tagsEqual a b" by (auto simp: tagsEqual_def list_all_iff)
qed

text \<open>
  Change detection misses updates that drop a tag with an empty value: when the known
  tags of a peer are one tag \<open>x\<close> with the empty string and an update brings the single tag
  \<open>y\<close> instead, \<open>UpdatePeerMeta\<close> takes the two for equal, keeps the old tags and notifies
  nobody, although its comment says that \<open>MemberUpdated\<close> is emitted when the tags changed.
\<close>

theorem peer_tag_change_missed:
  assumes "x \<noteq> y" and "map_of (clPeers c) nid = Some (\<lparr> nmID = nid, nmAddr = a, nmTags = [(x, '''')] \<rparr>)"
  shows "UpdatePeerMeta (\<lparr> nmID = nid, nmAddr = a, nmTags = [(y, v)] \<rparr>) c = (c, False) \<and> map_of [(x, '''')] \<noteq> map_of [(y, v)]"
proof
  show "UpdatePeerMeta (\<lparr> nmID = nid, nmAddr = a, nmTags = [(y, v)] \<rparr>) c = (c, False)"
    using assms by (simp add: UpdatePeerMeta_def tagsEqual_def tagOf_def)
  have "map_of [(x, '''')] x \<noteq> map_of [(y, v)] x" using assms(1) by simp
  then show "map_of [(x, '''')] \<noteq> map_of [(y, v)]" by metis
qed

theorem peer_tag_change_missed_witness:
  "\<exists>c. map_of (clPeers c) ''b'' = Some (\<lparr> nmID = ''b'', nmAddr = ''b'', nmTags = [(''draining'', '''')] \<rparr>) \<and>
     UpdatePeerMeta (\<lparr> nmID = ''b'', nmAddr = ''b'', nmTags = [(''zone'', ''1'')] \<rparr>) c = (c, False)"
proof -
  obtain c0 where "NewCluster (exMeta ''a'') True (Some exTransport) None = Inr c0"
    by (simp add: NewCluster_def exMeta_def)
  let ?c = "c0\<lparr>clPeers := [(''b'', \<lparr> nmID = ''b'', nmAddr = ''b'', nmTags = [(''draining'', '''')] \<rparr>)]\<rparr>"
  have "map_of (clPeers ?c) ''b'' = Some (\<lparr> nmID = ''b'', nmAddr = ''b'', nmTags = [(''draining'', '''')] \<rparr>)" by simp
  with peer_tag_change_missed [of "''draining''" "''zone''" ?c] show ?thesis by (intro exI [of _ ?c]) simp
qed

end
