(* ===== verification/DistRegistry.thy ===== *)
theory DistRegistry
  imports ClusterCore
begin

text \<open>
  The distributed name registry (\<open>registry_crdt.go\<close>). The replicated map underneath,
  \<open>crdt.ORMap\<close>, is a third-party package: the record \<open>ORMap\<close> holds the operations the code calls,
  over an arbitrary type of replica states. A replica also changes when updates of other replicas
  arrive; the operations below work on whatever state the replica is in.
\<close>

section \<open>The replicated map\<close>

record 'm ORMap =
  omGet :: "'m \<Rightarrow> string \<Rightarrow> PID option"
  omPut :: "'m \<Rightarrow> string \<Rightarrow> PID \<Rightarrow> 'm \<times> string option"
  omRemove :: "'m \<Rightarrow> string \<Rightarrow> 'm"
  omRange :: "'m \<Rightarrow> (string \<times> PID) list"

text \<open>
  What the package documents of a replica between merges: reads see the replica's own writes,
  \<open>Range\<close> visits every entry once.
\<close>

definition ormapOk :: "'m ORMap \<Rightarrow> bool" where
  "ormapOk om \<longleftrightarrow>
     (\<forall>m k v k'. omGet om (fst (omPut om m k v)) k' =
        (if snd (omPut om m k v) = None \<and> k' = k then Some v else omGet om m k')) \<and>
     (\<forall>m k k'. omGet om (omRemove om m k) k' = (if k' = k then None else omGet om m k')) \<and>
     (\<forall>m. distinct (map fst (omRange om m)) \<and> map_of (omRange om m) = omGet om m)"

lemma ormapOkD:
  assumes "ormapOk om"
  shows "omGet om (fst (omPut om m k v)) k' = (if snd (omPut om m k v) = None \<and> k' = k then Some v else omGet om m k')"
    and "omGet om (omRemove om m k) k' = (if k' = k then None else omGet om m k')"
    and "distinct (map fst (omRange om m))" and "map_of (omRange om m) = omGet om m"
  using assms by (simp_all add: ormapOk_def)

section \<open>Operations\<close>

definition nodeIDToReplicaID :: "NodeID \<Rightarrow> u64" where
  "nodeIDToReplicaID n = fnv64a n"

definition dr_Register :: "'m ORMap \<Rightarrow> string \<Rightarrow> PID \<Rightarrow> 'm \<Rightarrow> 'm \<times> string option" where
  "dr_Register om name pid m =
     (case omGet om m name of
        Some existing \<Rightarrow> if Key existing = Key pid then (m, None) else (m, Some ''name already registered'')
      | None \<Rightarrow> omPut om m name pid)"

definition dr_Lookup :: "'m ORMap \<Rightarrow> 'm \<Rightarrow> string \<Rightarrow> PID option" where
  "dr_Lookup om m name = omGet om m name"

definition dr_Unregister :: "'m ORMap \<Rightarrow> string \<Rightarrow> 'm \<Rightarrow> 'm \<times> PID option" where
  "dr_Unregister om name m =
     (case omGet om m name of
        None \<Rightarrow> (m, None)
      | Some pid \<Rightarrow> (omRemove om m name, Some pid))"

definition dr_NamesByNode :: "'m ORMap \<Rightarrow> NodeID \<Rightarrow> 'm \<Rightarrow> string list" where
  "dr_NamesByNode om node m = map fst (filter (\<lambda>(name, pid). pidNamespace pid = node) (omRange om m))"

definition dr_UnregisterByNode :: "'m ORMap \<Rightarrow> NodeID \<Rightarrow> 'm \<Rightarrow> 'm \<times> string list" where
  "dr_UnregisterByNode om node m =
     (let toRemove = map fst (filter (\<lambda>(key, pid). pidNamespace pid = node) (omRange om m))
      in (foldl (omRemove om) m toRemove, toRemove))"

definition dr_OnMembershipChange :: "'m ORMap \<Rightarrow> MemberEvent \<Rightarrow> 'm \<Rightarrow> 'm" where
  "dr_OnMembershipChange om event m =
     (if meType event = MemberFailed \<or> meType event = MemberLeave
      then fst (dr_UnregisterByNode om (nmID (meMember event)) m) else m)"

definition dr_AllEntries :: "'m ORMap \<Rightarrow> 'm \<Rightarrow> (string \<rightharpoonup> PID)" where
  "dr_AllEntries om m = foldl (\<lambda>out (name, pid). out(name \<mapsto> pid)) Map.empty (omRange om m)"

section \<open>Replication over the cluster (registry\_transport.go)\<close>

definition replicaIDToNodeID :: "Cluster \<Rightarrow> u64 \<Rightarrow> NodeID" where
  "replicaIDToNodeID c target =
     (case List.find (\<lambda>m. nodeIDToReplicaID (nmID m) = target) (Members c) of
        None \<Rightarrow> ''''
      | Some m \<Rightarrow> nmID m)"

definition crdtEnvelope :: "NodeID \<Rightarrow> NodeID \<Rightarrow> string \<Rightarrow> string \<Rightarrow> Envelope" where
  "crdtEnvelope localID targetNode msgType payload =
     \<lparr> enSenderNode = localID, enSenderActorID = '''', enTargetNode = targetNode, enTargetActorID = '''',
       enNamespace = '''', enGeneration = 0, enTypeName = msgType, enSchemaVersion = '''', enMessageID = 0,
       enPayload = payload, enIsAsk = False, enAskRequestID = '''', enAskReplyTo = None \<rparr>"

definition crdt_Send :: "string \<Rightarrow> u64 \<Rightarrow> string \<Rightarrow> Cluster \<Rightarrow> Cluster \<times> transportError option" where
  "crdt_Send msgType peer payload c =
     (let targetNode = replicaIDToNodeID c peer
      in if targetNode = '''' then (c, None)
         else SendRemote targetNode (crdtEnvelope (LocalNodeID c) targetNode msgType payload) c)"

text \<open>What reaches the receive callback of the replicated map: the sender's replica ID and the payload.\<close>

definition crdt_handleInbound :: "(u64 \<Rightarrow> string \<Rightarrow> 'msg option) \<Rightarrow> bool \<Rightarrow> NodeID \<Rightarrow> Envelope \<Rightarrow> 'msg option" where
  "crdt_handleInbound unmarshal hasRecvFn from env =
     (if \<not> hasRecvFn then None else unmarshal (nodeIDToReplicaID from) (enPayload env))"

definition ClusterTopology_Peers :: "Cluster \<Rightarrow> u64 list" where
  "ClusterTopology_Peers c = map (\<lambda>m. nodeIDToReplicaID (nmID m)) (Members c)"

text \<open>Replica IDs lead back to their nodes as long as the hashes of the members differ.\<close>

lemma replicaID_roundtrip:
  assumes "m \<in> set (Members c)" and "inj_on nodeIDToReplicaID (nmID ` set (Members c))"
  shows "replicaIDToNodeID c (nodeIDToReplicaID (nmID m)) = nmID m"
proof (cases "List.find (\<lambda>x. nodeIDToReplicaID (nmID x) = nodeIDToReplicaID (nmID m)) (Members c)")
  case None
  then show ?thesis using assms(1) by (auto simp: find_None_iff)
next
  case (Some x)
  then have "x \<in> set (Members c)" "nodeIDToReplicaID (nmID x) = nodeIDToReplicaID (nmID m)"
    by (auto simp: find_Some_iff)
  with Some assms show ?thesis by (auto simp: replicaIDToNodeID_def dest: inj_onD)
qed

section \<open>The registry as a map\<close>

lemma dr_Register_effect:
  assumes "ormapOk om"
  shows "dr_Lookup om (fst (dr_Register om name pid m)) n =
     (if n = name \<and> dr_Lookup om m name = None \<and> snd (dr_Register om name pid m) = None then Some pid else dr_Lookup om m n)"
  by (auto simp: dr_Register_def dr_Lookup_def ormapOkD(1) [OF assms] split: option.split)

lemma dr_Unregister_effect:
  assumes "ormapOk om"
  shows "dr_Lookup om (fst (dr_Unregister om name m)) = (dr_Lookup om m)(name := None)"
    and "snd (dr_Unregister om name m) = dr_Lookup om m name"
  by (auto simp: dr_Unregister_def dr_Lookup_def ormapOkD(2) [OF assms] fun_eq_iff split: option.split)

lemma dr_removeAll:
  "ormapOk om \<Longrightarrow> omGet om (foldl (omRemove om) m ks) k = (if k \<in> set ks then None else omGet om m k)"
  by (induction ks arbitrary: m) (auto simp: ormapOkD(2))

lemma dr_NamesByNode_set:
  "ormapOk om \<Longrightarrow> set (dr_NamesByNode om node m) = {n. \<exists>pid. dr_Lookup om m n = Some pid \<and> pidNamespace pid = node}"
  using ormapOkD(3,4) [of om m] by (force simp: dr_NamesByNode_def dr_Lookup_def map_of_eq_Some_iff [symmetric])

lemma dr_UnregisterByNode_effect:
  assumes "ormapOk om"
  shows "dr_Lookup om (fst (dr_UnregisterByNode om node m)) n =
     (case dr_Lookup om m n of None \<Rightarrow> None | Some pid \<Rightarrow> if pidNamespace pid = node then None else Some pid)"
  using dr_NamesByNode_set [OF assms, of node m]
  by (auto simp: dr_UnregisterByNode_def dr_NamesByNode_def Let_def dr_Lookup_def dr_removeAll [OF assms] split: option.split)

lemma dr_AllEntries_eq: "ormapOk om \<Longrightarrow> dr_AllEntries om m = dr_Lookup om m"
proof -
  assume ok: "ormapOk om"
  have "foldl (\<lambda>out (name, pid). out(name \<mapsto> pid)) f xs = f ++ map_of (rev xs)" for f :: "string \<rightharpoonup> PID" and xs
    by (induction xs arbitrary: f) (auto simp: map_add_def fun_eq_iff split: option.split)
  moreover have "map_of (rev (omRange om m)) k = map_of (omRange om m) k" for k
  proof (rule option.expand)
    have d: "distinct (map fst (omRange om m))" "distinct (map fst (rev (omRange om m)))"
      using ormapOkD(3) [OF ok, of m] by (simp_all add: rev_map [symmetric])
    show "(map_of (rev (omRange om m)) k = None) = (map_of (omRange om m) k = None)" by (simp add: map_of_eq_None_iff)
    show "the (map_of (rev (omRange om m)) k) = the (map_of (omRange om m) k)"
      if "map_of (rev (omRange om m)) k \<noteq> None"
      using that map_of_eq_Some_iff [OF d(1)] map_of_eq_Some_iff [OF d(2)] by (metis option.exhaust_sel set_rev)
  qed
  ultimately show ?thesis using ormapOkD(4) [OF ok, of m] by (simp add: dr_AllEntries_def dr_Lookup_def fun_eq_iff)
qed

section \<open>Properties\<close>

datatype drOp = DrRegister string PID | DrUnregister string | DrMember MemberEvent

fun drStep :: "'m ORMap \<Rightarrow> 'm \<Rightarrow> drOp \<Rightarrow> 'm" where
  "drStep om m (DrRegister name pid) = fst (dr_Register om name pid m)"
| "drStep om m (DrUnregister name) = fst (dr_Unregister om name m)"
| "drStep om m (DrMember ev) = dr_OnMembershipChange om ev m"

fun drSpec :: "(string \<rightharpoonup> PID) \<Rightarrow> drOp \<Rightarrow> (string \<rightharpoonup> PID)" where
  "drSpec f (DrRegister name pid) = (if f name = None then f(name \<mapsto> pid) else f)"
| "drSpec f (DrUnregister name) = f(name := None)"
| "drSpec f (DrMember ev) =
     (if meType ev = MemberFailed \<or> meType ev = MemberLeave
      then (\<lambda>n. case f n of Some pid \<Rightarrow> if pidNamespace pid = nmID (meMember ev) then None else Some pid | None \<Rightarrow> None)
      else f)"

lemma drSteps_spec:
  assumes "ormapOk om" and "\<And>m k v. snd (omPut om m k v) = None"
  shows "dr_Lookup om (foldl (drStep om) m ops) = foldl drSpec (dr_Lookup om m) ops"
proof (induction ops arbitrary: m)
  case (Cons op ops)
  have "dr_Lookup om (drStep om m op) = drSpec (dr_Lookup om m) op"
  proof (cases op)
    case (DrRegister name pid)
    have "snd (dr_Register om name pid m) = None" if "dr_Lookup om m name = None"
      using that assms(2) by (simp add: dr_Register_def dr_Lookup_def)
    with DrRegister show ?thesis by (auto simp: fun_eq_iff dr_Register_effect [OF assms(1)])
  next
    case (DrUnregister name)
    then show ?thesis by (simp add: dr_Unregister_effect(1) [OF assms(1)])
  next
    case (DrMember ev)
    then show ?thesis
      by (simp add: dr_OnMembershipChange_def fun_eq_iff dr_UnregisterByNode_effect [OF assms(1)] split: option.split)
  qed
  with Cons show ?case by simp
qed simp

text \<open>
  Claim C15. On one replica the distributed registry behaves like a map in which the first
  registration of a name wins: when no write of the replicated map fails, any sequence of
  registrations, removals and membership events leaves exactly the bindings this specification
  has; in particular no name of a node that has failed or left survives.
\<close>

theorem dist_registry_refines_map:
  assumes "ormapOk om" and "\<And>m k v. snd (omPut om m k v) = None"
  shows "dr_Lookup om (foldl (drStep om) m ops) = foldl drSpec (dr_Lookup om m) ops"
  using drSteps_spec [OF assms] .

definition alistORMap :: "(string, PID) gomap ORMap" where
  "alistORMap = \<lparr> omGet = map_of, omPut = (\<lambda>m k v. (gomap_put k v m, None)), omRemove = (\<lambda>m k. gomap_del k m),
     omRange = AList.clearjunk \<rparr>"

lemma alistORMap_ok: "ormapOk alistORMap"
  by (auto simp: ormapOk_def alistORMap_def distinct_clearjunk map_of_clearjunk)

theorem dist_registry_refines_map_witness:
  "dr_Lookup alistORMap (foldl (drStep alistORMap) []
      [DrRegister ''n'' zeroPID, DrRegister ''n'' (zeroPID\<lparr>pidGeneration := 9\<rparr>),
       DrMember \<lparr> meType = MemberFailed, meMember = \<lparr> nmID = ''b'', nmAddr = '''', nmTags = [] \<rparr> \<rparr>]) ''n'' = Some zeroPID"
proof -
  have "snd (omPut alistORMap m k v) = None" for m k v by (simp add: alistORMap_def)
  moreover have "dr_Lookup alistORMap [] = Map.empty" by (simp add: alistORMap_def dr_Lookup_def fun_eq_iff)
  ultimately show ?thesis by (subst dist_registry_refines_map [OF alistORMap_ok]) (simp_all add: zeroPID_def)
qed

end
