(* ===== verification/ClusterRouter.thy ===== *)
theory ClusterRouter
  imports DistRegistry SendProps "HOL-Library.Char_ord" "HOL-Library.List_Lexorder"
begin

text \<open>
  Routing over service groups (\<open>cluster_router.go\<close>). Workers join a group by an entry of a
  distributed registry of their own whose name is the group followed by the key of the worker;
  the members of a group are the entries with the group's prefix. The fields \<open>crRegistry\<close> and
  \<open>crCluster\<close> hold the current states of the objects the router points to; \<open>crCluster\<close> is
  \<open>None\<close> for a router without a cluster. The runtime is passed beside the router.
\<close>

section \<open>State\<close>

type_synonym NodeRanker = "NodeMeta \<Rightarrow> int"

record clusterRouterState =
  crsStrategy :: RouterStrategy
  crsRrNext :: u64
  crsFilter :: "NodeMatcher option"
  crsPreference :: "NodeRanker option"

record 'm ClusterRouter =
  crRegistry :: 'm
  crCluster :: "Cluster option"
  crRouters :: "string \<rightharpoonup> clusterRouterState"

definition NewClusterRouter :: "'m \<Rightarrow> Cluster option \<Rightarrow> 'm ClusterRouter" where
  "NewClusterRouter registry cluster = \<lparr>crRegistry = registry, crCluster = cluster, crRouters = Map.empty\<rparr>"

datatype RouterOption = WithWorkerFilter NodeMatcher | WithWorkerPreference NodeRanker

fun applyRouterOption :: "clusterRouterState \<Rightarrow> RouterOption \<Rightarrow> clusterRouterState" where
  "applyRouterOption s (WithWorkerFilter m) = s\<lparr>crsFilter := Some m\<rparr>"
| "applyRouterOption s (WithWorkerPreference r) = s\<lparr>crsPreference := Some r\<rparr>"

definition routerState :: "RouterStrategy \<Rightarrow> clusterRouterState" where
  "routerState strategy = \<lparr>crsStrategy = strategy, crsRrNext = 0, crsFilter = None, crsPreference = None\<rparr>"

definition Configure :: "string \<Rightarrow> RouterStrategy \<Rightarrow> RouterOption list \<Rightarrow> 'm ClusterRouter \<Rightarrow> 'm ClusterRouter" where
  "Configure serviceName strategy opts cr =
     cr\<lparr>crRouters := (crRouters cr)(serviceName \<mapsto> foldl applyRouterOption (routerState strategy) opts)\<rparr>"

section \<open>Membership of a group\<close>

definition serviceGroupPrefix :: string where
  "serviceGroupPrefix = ''svcgroup:''"

definition serviceGroupKey :: "string \<Rightarrow> PID \<Rightarrow> string" where
  "serviceGroupKey serviceName pid = serviceGroupPrefix @ serviceName @ '':'' @ Key pid"

definition cr_Join :: "'m ORMap \<Rightarrow> string \<Rightarrow> PID \<Rightarrow> 'm ClusterRouter \<Rightarrow> 'm ClusterRouter \<times> string option" where
  "cr_Join om serviceName pid cr =
     (let (m, err) = dr_Register om (serviceGroupKey serviceName pid) pid (crRegistry cr)
      in (cr\<lparr>crRegistry := m\<rparr>, err))"

definition cr_Leave :: "'m ORMap \<Rightarrow> string \<Rightarrow> PID \<Rightarrow> 'm ClusterRouter \<Rightarrow> 'm ClusterRouter" where
  "cr_Leave om serviceName pid cr =
     cr\<lparr>crRegistry := fst (dr_Unregister om (serviceGroupKey serviceName pid) (crRegistry cr))\<rparr>"

definition nodeMetaMap :: "'m ClusterRouter \<Rightarrow> (NodeID \<rightharpoonup> NodeMeta)" where
  "nodeMetaMap cr =
     (case crCluster cr of
        None \<Rightarrow> Map.empty
      | Some c \<Rightarrow> foldl (\<lambda>m member. m(nmID member \<mapsto> member)) [nmID (Self c) \<mapsto> Self c] (Members c))"

definition filterByNodeMeta :: "'m ClusterRouter \<Rightarrow> NodeMatcher \<Rightarrow> PID list \<Rightarrow> PID list" where
  "filterByNodeMeta cr matcher pids =
     filter (\<lambda>pid. case nodeMetaMap cr (pidNamespace pid) of None \<Rightarrow> False | Some meta \<Rightarrow> matcher meta) pids"

text \<open>
  \<open>sort.Slice\<close> may order workers with equal keys in any way. They are kept here in the order in
  which \<open>Range\<close> visits them, which is arbitrary.
\<close>

definition groupEntries :: "'m ORMap \<Rightarrow> string \<Rightarrow> 'm \<Rightarrow> PID list" where
  "groupEntries om serviceName m =
     (let pre = serviceGroupPrefix @ serviceName @ '':''
      in map snd (filter (\<lambda>(name, pid). length name > length pre \<and> take (length pre) name = pre) (omRange om m)))"

definition cr_Members :: "'m ORMap \<Rightarrow> string \<Rightarrow> 'm ClusterRouter \<Rightarrow> PID list" where
  "cr_Members om serviceName cr =
     (let pids = groupEntries om serviceName (crRegistry cr);
          pids = (case Option.bind (crRouters cr serviceName) crsFilter of
                    None \<Rightarrow> pids
                  | Some f \<Rightarrow> if crCluster cr \<noteq> None then filterByNodeMeta cr f pids else pids)
      in sort_key Key pids)"

section \<open>Selection\<close>

definition zeroMeta :: NodeMeta where
  "zeroMeta = \<lparr>nmID = '''', nmAddr = '''', nmTags = []\<rparr>"

definition preferenceScore :: "'m ClusterRouter \<Rightarrow> NodeRanker option \<Rightarrow> NodeRanker list \<Rightarrow> PID \<Rightarrow> int" where
  "preferenceScore cr static callPrefs pid =
     (let meta = (case nodeMetaMap cr (pidNamespace pid) of None \<Rightarrow> zeroMeta | Some meta \<Rightarrow> meta)
      in foldl (\<lambda>score rank. score + rank meta) (case static of None \<Rightarrow> 0 | Some rank \<Rightarrow> rank meta) callPrefs)"

definition applyPreferences :: "string \<Rightarrow> PID list \<Rightarrow> NodeRanker list \<Rightarrow> 'm ClusterRouter \<Rightarrow> PID list" where
  "applyPreferences serviceName pids callPrefs cr =
     (let static = Option.bind (crRouters cr serviceName) crsPreference
      in if static = None \<and> callPrefs = [] \<or> crCluster cr = None then pids
         else sort_key (\<lambda>pid. - preferenceScore cr static callPrefs pid) pids)"

text \<open>\<open>rand\<close> is the number the random source gives, which \<open>Intn\<close> reduces to the number of workers.\<close>

definition selectWorker :: "nat \<Rightarrow> string \<Rightarrow> PID list \<Rightarrow> any \<Rightarrow> 'm ClusterRouter \<Rightarrow> 'm ClusterRouter \<times> PID" where
  "selectWorker rand serviceName members payload cr =
     (let st = crRouters cr serviceName;
          strategy = (case st of None \<Rightarrow> RouterStrategyRoundRobin | Some s \<Rightarrow> crsStrategy s)
      in case strategy of
           RouterStrategyRoundRobin \<Rightarrow>
             (let s = (case st of None \<Rightarrow> routerState strategy | Some s \<Rightarrow> s);
                  counter = crsRrNext s + 1; idx = counter - 1
              in (cr\<lparr>crRouters := (crRouters cr)(serviceName \<mapsto> s\<lparr>crsRrNext := counter\<rparr>)\<rparr>,
                  members ! unat (idx mod of_nat (length members))))
         | RouterStrategyRandom \<Rightarrow> (cr, members ! (rand mod length members))
         | RouterStrategyConsistentKey \<Rightarrow>
             (cr, case payloadHashKey payload of
                    Some key \<Rightarrow> members ! unat (fnv32a key mod of_nat (length members))
                  | None \<Rightarrow> members ! 0)
         | RouterStrategyOther _ \<Rightarrow> (cr, members ! 0))"

section \<open>Sending\<close>

definition sendInternal ::
    "'m ORMap \<Rightarrow> nat \<Rightarrow> string \<Rightarrow> any \<Rightarrow> NodeRanker list \<Rightarrow> 'm ClusterRouter \<times> Runtime \<Rightarrow> (('m ClusterRouter \<times> Runtime) \<times> PIDSendAck) option" where
  "sendInternal om rand serviceName payload prefs = (\<lambda>(cr, r).
     let members = cr_Members om serviceName cr
     in if members = [] then Some ((cr, r), \<lparr>psaOutcome = PIDRejectedNotFound, psaMessageID = 0\<rparr>)
        else let (cr, selected) = selectWorker rand serviceName (applyPreferences serviceName members prefs cr) payload cr
             in map_option (\<lambda>(r, ack). ((cr, r), ack)) (SendPID selected payload r))"

definition cr_Send ::
    "'m ORMap \<Rightarrow> nat \<Rightarrow> string \<Rightarrow> any \<Rightarrow> 'm ClusterRouter \<times> Runtime \<Rightarrow> (('m ClusterRouter \<times> Runtime) \<times> PIDSendAck) option" where
  "cr_Send om rand serviceName payload = sendInternal om rand serviceName payload []"

definition cr_SendWith ::
    "'m ORMap \<Rightarrow> nat \<Rightarrow> string \<Rightarrow> any \<Rightarrow> NodeRanker list \<Rightarrow> 'm ClusterRouter \<times> Runtime \<Rightarrow> (('m ClusterRouter \<times> Runtime) \<times> PIDSendAck) option" where
  "cr_SendWith om rand serviceName payload opts = sendInternal om rand serviceName payload opts"

text \<open>\<open>Ask\<close> and \<open>AskWith\<close> up to the wait of \<open>AskPID\<close>.\<close>

definition askInternal ::
    "'m ORMap \<Rightarrow> nat \<Rightarrow> string \<Rightarrow> any \<Rightarrow> int \<Rightarrow> NodeRanker list \<Rightarrow> 'm ClusterRouter \<times> Runtime \<Rightarrow>
     (('m ClusterRouter \<times> Runtime) \<times> (error + pendingAsk)) option" where
  "askInternal om rand serviceName payload timeout prefs = (\<lambda>(cr, r).
     let members = cr_Members om serviceName cr
     in if members = [] then Some ((cr, r), Inl (ErrOther (''no workers in service group '' @ [CHR 0x22] @ serviceName @ [CHR 0x22])))
        else let (cr, selected) = selectWorker rand serviceName (applyPreferences serviceName members prefs cr) payload cr
             in map_option (\<lambda>(r, res). ((cr, r), res)) (AskPIDBegin selected payload timeout r))"

fun sendEach :: "PID list \<Rightarrow> any \<Rightarrow> Runtime \<Rightarrow> (Runtime \<times> PIDSendAck list) option" where
  "sendEach [] payload r = Some (r, [])"
| "sendEach (pid # pids) payload r =
     (case SendPID pid payload r of
        None \<Rightarrow> None
      | Some (r, ack) \<Rightarrow> map_option (\<lambda>(r, acks). (r, ack # acks)) (sendEach pids payload r))"

definition cr_Broadcast ::
    "'m ORMap \<Rightarrow> string \<Rightarrow> any \<Rightarrow> 'm ClusterRouter \<Rightarrow> Runtime \<Rightarrow> (Runtime \<times> PIDSendAck list) option" where
  "cr_Broadcast om serviceName payload cr r = sendEach (cr_Members om serviceName cr) payload r"

section \<open>Call-time preferences\<close>

definition Nearest :: "tags \<Rightarrow> NodeRanker" where
  "Nearest tags meta = foldl (\<lambda>score (k, v). if tagOf (nmTags meta) k = v then score + 1 else score) 0 tags"

definition PreferTag :: "string \<Rightarrow> RankDirection \<Rightarrow> NodeRanker" where
  "PreferTag key direction = RankByTag key direction"


section \<open>The members of a group\<close>

definition groupKey :: "string \<Rightarrow> string \<Rightarrow> string" where
  "groupKey serviceName k = serviceGroupPrefix @ serviceName @ '':'' @ k"

lemma serviceGroupKey_eq: "serviceGroupKey serviceName pid = groupKey serviceName (Key pid)"
  by (simp add: serviceGroupKey_def groupKey_def)

lemma groupKey_inj: "groupKey s k = groupKey s k' \<longleftrightarrow> k = k'"
  by (simp add: groupKey_def)

lemma groupKey_eq:
  assumes "CHR '':'' \<notin> set s" "CHR '':'' \<notin> set s'"
  shows "groupKey s k = groupKey s' k' \<longleftrightarrow> s = s' \<and> k = k'"
proof
  assume "groupKey s k = groupKey s' k'"
  then have "s @ CHR '':'' # k = s' @ CHR '':'' # k'" by (simp add: groupKey_def)
  from append_sep_inj [OF this assms] show "s = s' \<and> k = k'" .
qed simp

lemma Key_nonempty [simp]: "Key pid \<noteq> []"
  by (simp add: Key_def)

lemma groupKey_prefix:
  "length name > length (serviceGroupPrefix @ s @ '':'') \<and>
     take (length (serviceGroupPrefix @ s @ '':'')) name = serviceGroupPrefix @ s @ '':'' \<longleftrightarrow>
   (\<exists>k. k \<noteq> [] \<and> name = groupKey s k)" (is "?L \<longleftrightarrow> ?R")
proof
  assume l: ?L
  then have "name = (serviceGroupPrefix @ s @ '':'') @ drop (length (serviceGroupPrefix @ s @ '':'')) name"
    by (metis append_take_drop_id)
  then have "name = groupKey s (drop (length (serviceGroupPrefix @ s @ '':'')) name)" by (simp add: groupKey_def)
  moreover from l have "drop (length (serviceGroupPrefix @ s @ '':'')) name \<noteq> []" by simp
  ultimately show ?R by blast
qed (auto simp: groupKey_def)

text \<open>The workers of a group by key, as a replica has them.\<close>

definition workersOf :: "'m ORMap \<Rightarrow> string \<Rightarrow> 'm \<Rightarrow> (string \<rightharpoonup> PID)" where
  "workersOf om s m = (\<lambda>k. if k = [] then None else dr_Lookup om m (groupKey s k))"

definition keyedByKey :: "(string \<rightharpoonup> PID) \<Rightarrow> bool" where
  "keyedByKey g \<longleftrightarrow> (\<forall>k pid. g k = Some pid \<longrightarrow> Key pid = k)"

definition inKeyOrder :: "(string \<rightharpoonup> PID) \<Rightarrow> PID list" where
  "inKeyOrder g = map (\<lambda>k. the (g k)) (sorted_list_of_set (dom g))"

lemma range_lookup: "ormapOk om \<Longrightarrow> (n, pid) \<in> set (omRange om m) \<longleftrightarrow> dr_Lookup om m n = Some pid"
  by (metis dr_Lookup_def map_of_eq_Some_iff ormapOkD(3,4))

lemma groupEntries_set:
  assumes ok: "ormapOk om"
  shows "set (groupEntries om s m) = ran (workersOf om s m)"
proof -
  have "pid \<in> set (groupEntries om s m) \<longleftrightarrow> (\<exists>k. k \<noteq> [] \<and> (groupKey s k, pid) \<in> set (omRange om m))" for pid
    using groupKey_prefix [of s] by (auto simp: groupEntries_def Let_def image_iff)
  then show ?thesis by (auto simp: ran_def workersOf_def range_lookup [OF ok])
qed

lemma groupEntries_keys:
  assumes ok: "ormapOk om" and g: "keyedByKey (workersOf om s m)"
  shows "distinct (map Key (groupEntries om s m))"
proof -
  define es where "es = filter (\<lambda>(name, pid). length name > length (serviceGroupPrefix @ s @ '':'') \<and>
      take (length (serviceGroupPrefix @ s @ '':'')) name = serviceGroupPrefix @ s @ '':'') (omRange om m)"
  have e: "fst x = groupKey s (Key (snd x))" if "x \<in> set es" for x
  proof -
    from that groupKey_prefix [of s "fst x"] obtain k where k: "k \<noteq> []" "fst x = groupKey s k"
      by (auto simp: es_def split: prod.splits)
    from that have "x \<in> set (omRange om m)" by (simp add: es_def)
    then have "dr_Lookup om m (fst x) = Some (snd x)" using range_lookup [OF ok, of "fst x" "snd x" m] by simp
    with k g have "Key (snd x) = k" by (auto simp: keyedByKey_def workersOf_def)
    with k show ?thesis by simp
  qed
  have "distinct (map fst es)" unfolding es_def using ormapOkD(3) [OF ok] by (rule distinct_map_filter)
  moreover have "map fst es = map (groupKey s) (map (Key \<circ> snd) es)"
    unfolding map_map by (rule map_cong [OF refl]) (use e in fastforce)
  ultimately have "distinct (map (Key \<circ> snd) es)" by (metis distinct_map)
  then show ?thesis by (simp add: groupEntries_def es_def Let_def)
qed

lemma sort_key_unique:
  assumes "distinct (map f xs)" "distinct (map f ys)" "sorted (map f ys)" "set xs = set ys"
  shows "sort_key f xs = ys"
proof -
  have d: "distinct (map f (sort_key f xs))" using assms(1) by (simp add: distinct_map)
  have "map f (sort_key f xs) = map f ys"
    by (rule sorted_distinct_set_unique) (use assms d in simp_all)
  moreover have "inj_on f (set (sort_key f xs) \<union> set ys)" using d assms(4) by (simp add: distinct_map)
  ultimately show ?thesis by (rule map_inj_on)
qed

lemma groupEntries_sorted:
  assumes ok: "ormapOk om" and g: "keyedByKey (workersOf om s m)"
  shows "sort_key Key (groupEntries om s m) = inKeyOrder (workersOf om s m)"
proof (rule sort_key_unique)
  let ?g = "workersOf om s m"
  have "groupKey s ` dom ?g \<subseteq> dom (map_of (omRange om m))"
    using ormapOkD(4) [OF ok, of m] by (auto simp: workersOf_def dr_Lookup_def split: if_splits)
  then have "finite (groupKey s ` dom ?g)" using finite_dom_map_of finite_subset by blast
  then have fin: "finite (dom ?g)" by (rule finite_imageD) (simp add: inj_on_def groupKey_inj)
  have keys: "map Key (inKeyOrder ?g) = sorted_list_of_set (dom ?g)"
    using g fin by (auto simp: inKeyOrder_def keyedByKey_def intro!: map_idI)
  show "distinct (map Key (inKeyOrder ?g))" "sorted (map Key (inKeyOrder ?g))" by (simp_all add: keys)
  show "distinct (map Key (groupEntries om s m))" using groupEntries_keys [OF assms] .
  show "set (groupEntries om s m) = set (inKeyOrder ?g)"
    unfolding groupEntries_set [OF ok] using fin by (force simp: inKeyOrder_def ran_def dom_def image_iff)
qed


lemma Members_eq:
  assumes "ormapOk om" "keyedByKey (workersOf om s (crRegistry cr))"
  shows "cr_Members om s cr =
    (case Option.bind (crRouters cr s) crsFilter of
       None \<Rightarrow> inKeyOrder (workersOf om s (crRegistry cr))
     | Some f \<Rightarrow> if crCluster cr \<noteq> None then filterByNodeMeta cr f (inKeyOrder (workersOf om s (crRegistry cr)))
                else inKeyOrder (workersOf om s (crRegistry cr)))"
  by (simp add: cr_Members_def filterByNodeMeta_def filter_sort groupEntries_sorted [OF assms, symmetric] split: option.split)

section \<open>Histories of a router\<close>

datatype crOp =
  CrConfigure string RouterStrategy "RouterOption list"
| CrJoin string PID
| CrLeave string PID
| CrMember MemberEvent
| CrSelect nat string any "NodeRanker list"

fun crStep :: "'m ORMap \<Rightarrow> 'm ClusterRouter \<Rightarrow> crOp \<Rightarrow> 'm ClusterRouter" where
  "crStep om cr (CrConfigure s strategy opts) = Configure s strategy opts cr"
| "crStep om cr (CrJoin s pid) = fst (cr_Join om s pid cr)"
| "crStep om cr (CrLeave s pid) = cr_Leave om s pid cr"
| "crStep om cr (CrMember ev) = cr\<lparr>crRegistry := dr_OnMembershipChange om ev (crRegistry cr)\<rparr>"
| "crStep om cr (CrSelect rand s payload prefs) =
     fst (selectWorker rand s (applyPreferences s (cr_Members om s cr) prefs cr) payload cr)"

text \<open>The groups a history leaves: a worker is in the groups it joined and did not leave since.\<close>

fun crSpec :: "(string \<Rightarrow> string \<rightharpoonup> PID) \<Rightarrow> crOp \<Rightarrow> (string \<Rightarrow> string \<rightharpoonup> PID)" where
  "crSpec g (CrJoin s pid) = (if g s (Key pid) = None then g(s := (g s)(Key pid \<mapsto> pid)) else g)"
| "crSpec g (CrLeave s pid) = g(s := (g s)(Key pid := None))"
| "crSpec g (CrMember ev) =
     (if meType ev = MemberFailed \<or> meType ev = MemberLeave
      then (\<lambda>s k. case g s k of Some pid \<Rightarrow> if pidNamespace pid = nmID (meMember ev) then None else Some pid | None \<Rightarrow> None)
      else g)"
| "crSpec g _ = g"

fun colonFree :: "crOp \<Rightarrow> bool" where
  "colonFree (CrJoin s pid) = (CHR '':'' \<notin> set s)"
| "colonFree (CrLeave s pid) = (CHR '':'' \<notin> set s)"
| "colonFree _ = True"

fun drOf :: "crOp \<Rightarrow> drOp list" where
  "drOf (CrJoin s pid) = [DrRegister (serviceGroupKey s pid) pid]"
| "drOf (CrLeave s pid) = [DrUnregister (serviceGroupKey s pid)]"
| "drOf (CrMember ev) = [DrMember ev]"
| "drOf _ = []"

lemma selectWorker_frame [simp]:
  "crRegistry (fst (selectWorker rand s ms payload cr)) = crRegistry cr"
  "crCluster (fst (selectWorker rand s ms payload cr)) = crCluster cr"
  by (auto simp: selectWorker_def Let_def split: option.split RouterStrategy.split)

lemma crStep_registry: "crRegistry (crStep om cr op) = foldl (drStep om) (crRegistry cr) (drOf op)"
  by (cases op) (simp_all add: Configure_def cr_Join_def cr_Leave_def split: prod.splits)

definition groupsRel :: "(string \<rightharpoonup> PID) \<Rightarrow> (string \<Rightarrow> string \<rightharpoonup> PID) \<Rightarrow> bool" where
  "groupsRel f g \<longleftrightarrow> (\<forall>s k. CHR '':'' \<notin> set s \<longrightarrow> f (groupKey s k) = g s k) \<and> (\<forall>s. keyedByKey (g s))"

lemma groupsRel_step:
  assumes "groupsRel f g" "colonFree op"
  shows "groupsRel (foldl drSpec f (drOf op)) (crSpec g op)"
proof (cases op)
  case (CrJoin s pid)
  with assms show ?thesis by (auto simp: groupsRel_def serviceGroupKey_eq groupKey_eq keyedByKey_def)
next
  case (CrLeave s pid)
  with assms show ?thesis by (auto simp: groupsRel_def serviceGroupKey_eq groupKey_eq keyedByKey_def)
next
  case (CrMember ev)
  with assms(1) show ?thesis by (auto simp: groupsRel_def keyedByKey_def split: option.splits if_splits)
qed (use assms in simp_all)

lemma groupsRel_steps:
  assumes ok: "ormapOk om" "\<And>m k v. snd (omPut om m k v) = None"
  shows "groupsRel (dr_Lookup om (crRegistry cr)) g \<Longrightarrow> list_all colonFree ops \<Longrightarrow>
    groupsRel (dr_Lookup om (crRegistry (foldl (crStep om) cr ops))) (foldl crSpec g ops)"
proof (induction ops arbitrary: cr g)
  case (Cons op ops)
  have "dr_Lookup om (crRegistry (crStep om cr op)) = foldl drSpec (dr_Lookup om (crRegistry cr)) (drOf op)"
    unfolding crStep_registry by (rule drSteps_spec [OF ok])
  with groupsRel_step [OF Cons.prems(1), of op] Cons.prems(2)
  have "groupsRel (dr_Lookup om (crRegistry (crStep om cr op))) (crSpec g op)" by simp
  from Cons.IH [OF this] Cons.prems(2) show ?case by simp
qed simp

text \<open>
  Claim C27. The members of a service group are exactly the workers that joined it and neither left
  nor lost their node since, in the order of their keys and restricted to the nodes the group's
  filter accepts, whatever the history of configurations, joins, leaves, membership events and
  selections, as long as no service name in it holds a colon; the first join of a worker wins.
\<close>

theorem service_group_refines:
  assumes "ormapOk om" "\<And>m k v. snd (omPut om m k v) = None" "dr_Lookup om m = Map.empty"
    and "list_all colonFree ops" "CHR '':'' \<notin> set s"
    and cr: "cr = foldl (crStep om) (NewClusterRouter m cluster) ops" and g: "g = foldl crSpec (\<lambda>_. Map.empty) ops s"
  shows "cr_Members om s cr =
    (case Option.bind (crRouters cr s) crsFilter of
       None \<Rightarrow> inKeyOrder g
     | Some f \<Rightarrow> if crCluster cr \<noteq> None then filterByNodeMeta cr f (inKeyOrder g) else inKeyOrder g)"
proof -
  have "groupsRel (dr_Lookup om (crRegistry cr)) (foldl crSpec (\<lambda>_. Map.empty) ops)"
    unfolding cr by (rule groupsRel_steps) (use assms in \<open>simp_all add: groupsRel_def keyedByKey_def NewClusterRouter_def\<close>)
  then have g': "keyedByKey g" and at: "dr_Lookup om (crRegistry cr) (groupKey s k) = g k" for k
    using assms(5) by (auto simp: groupsRel_def g)
  have "workersOf om s (crRegistry cr) k = g k" for k
  proof (cases "k = []")
    case True
    from g' have "g [] = None" using Key_nonempty unfolding keyedByKey_def by (metis option.exhaust)
    with True show ?thesis by (simp add: workersOf_def)
  qed (simp add: workersOf_def at)
  then have eq: "workersOf om s (crRegistry cr) = g" by blast
  from Members_eq [OF assms(1), of s cr] g' show ?thesis unfolding eq by simp
qed

definition exWorker :: "string \<Rightarrow> string \<Rightarrow> PID" where
  "exWorker n a = \<lparr>pidNamespace = n, pidActorID = a, pidGeneration = 1\<rparr>"

lemma alistORMap_put: "snd (omPut alistORMap m k v) = None"
  by (simp add: alistORMap_def)

lemma alistORMap_empty: "dr_Lookup alistORMap [] = Map.empty"
  by (simp add: alistORMap_def dr_Lookup_def fun_eq_iff)

theorem service_group_refines_witness:
  "cr_Members alistORMap ''a'' (foldl (crStep alistORMap) (NewClusterRouter [] None)
     [CrJoin ''a'' (exWorker ''n2'' ''w''), CrJoin ''b'' (exWorker ''n1'' ''v''), CrJoin ''a'' (exWorker ''n1'' ''v''),
      CrJoin ''a'' (exWorker ''n3'' ''w''), CrMember \<lparr>meType = MemberFailed, meMember = exMeta ''n3''\<rparr>]) =
   [exWorker ''n1'' ''v'', exWorker ''n2'' ''w'']"
proof -
  let ?ops = "[CrJoin ''a'' (exWorker ''n2'' ''w''), CrJoin ''b'' (exWorker ''n1'' ''v''), CrJoin ''a'' (exWorker ''n1'' ''v''),
      CrJoin ''a'' (exWorker ''n3'' ''w''), CrMember \<lparr>meType = MemberFailed, meMember = exMeta ''n3''\<rparr>]"
  have "foldl crSpec (\<lambda>_. Map.empty) ?ops ''a'' = [''n2:w'' \<mapsto> exWorker ''n2'' ''w'', ''n1:v'' \<mapsto> exWorker ''n1'' ''v'']"
    by (auto simp: Key_def exWorker_def exMeta_def fun_eq_iff)
  moreover have "sorted_list_of_set {''n1:v'', ''n2:w''} = [''n1:v'', ''n2:w'']"
    by simp
  moreover have "crRouters (foldl (crStep alistORMap) (NewClusterRouter [] None) ?ops) ''a'' = None"
    by (simp add: NewClusterRouter_def cr_Join_def split: prod.split)
  ultimately show ?thesis
    using service_group_refines [OF alistORMap_ok alistORMap_put alistORMap_empty _ _ refl refl, of ?ops "''a''" None]
    by (simp add: inKeyOrder_def insert_commute)
qed


section \<open>Selection\<close>

lemma unfiltered_Members:
  assumes "ormapOk om" "keyedByKey (workersOf om s (crRegistry cr))" "crRouters cr s = Some st" "crsFilter st = None"
  shows "cr_Members om s cr = inKeyOrder (workersOf om s (crRegistry cr))"
  using Members_eq [OF assms(1,2)] assms(3,4) by simp

text \<open>
  Claim C28. Consistent-key routing without filter and preference agrees across the cluster. Let the
  replicas of the service registry on two nodes hold the same entries (whatever the order in which
  each visits them), with every worker of the service registered under its own key, as \<open>Join\<close> does,
  at least one worker and fewer than \<open>2 ^ 32\<close>; and let both nodes configure the service with the
  consistent-key strategy, no filter and no preference. Then they send a message with a given hash
  key to the same worker, a member of the group that only the key and the set of members determine.
  A filter or a preference looks at the metadata a node has of the others, which may differ, and is
  not covered.
\<close>

theorem consistent_key_agrees:
  assumes ok: "ormapOk om1" "ormapOk om2" "dr_Lookup om1 (crRegistry cr1) = dr_Lookup om2 (crRegistry cr2)"
    and keyed: "keyedByKey (workersOf om1 s (crRegistry cr1))"
    and conf: "crRouters cr1 s = Some st" "crRouters cr2 s = Some st" "crsStrategy st = RouterStrategyConsistentKey"
      "crsFilter st = None" "crsPreference st = None"
    and msg: "payloadHashKey payload = Some key"
    and ne: "workersOf om1 s (crRegistry cr1) \<noteq> Map.empty" "length (cr_Members om1 s cr1) < 2 ^ 32"
  shows "\<exists>w \<in> ran (workersOf om1 s (crRegistry cr1)). \<forall>r1 r2 n1 n2.
     sendInternal om1 n1 s payload [] (cr1, r1) = map_option (\<lambda>(r, ack). ((cr1, r), ack)) (SendPID w payload r1) \<and>
     sendInternal om2 n2 s payload [] (cr2, r2) = map_option (\<lambda>(r, ack). ((cr2, r), ack)) (SendPID w payload r2)"
proof -
  let ?g = "workersOf om1 s (crRegistry cr1)"
  have g: "workersOf om2 s (crRegistry cr2) = ?g" using ok(3) by (simp add: workersOf_def fun_eq_iff)
  have ms: "cr_Members om1 s cr1 = inKeyOrder ?g" "cr_Members om2 s cr2 = inKeyOrder ?g"
    using unfiltered_Members [OF ok(1) keyed conf(1,4)] unfiltered_Members [OF ok(2) _ conf(2,4)] keyed by (simp_all add: g)
  have set: "set (inKeyOrder ?g) = ran ?g"
    using groupEntries_set [OF ok(1), of s "crRegistry cr1"] by (simp flip: groupEntries_sorted [OF ok(1) keyed])
  then have nonempty: "inKeyOrder ?g \<noteq> []" using ne(1) by (auto simp: ran_def fun_eq_iff)
  let ?w = "inKeyOrder ?g ! unat (fnv32a key mod of_nat (length (inKeyOrder ?g)))"
  have "?w \<in> ran ?g" unfolding set [symmetric] by (rule nth_mem, rule index_in_range) (use nonempty ne(2) ms in simp_all)
  moreover have "selectWorker n s (inKeyOrder ?g) payload cr = (cr, ?w)" if "crRouters cr s = Some st" for n and cr :: "'m ClusterRouter"
    using that conf(3) msg by (simp add: selectWorker_def)
  ultimately show ?thesis
    using conf nonempty by (intro bexI [of _ ?w]) (simp_all add: sendInternal_def ms applyPreferences_def Let_def selectWorker_def msg)
qed


definition exKeyed :: any where
  "exKeyed = UserVal \<lparr>uvType = ''T'', uvSchema = None, uvHashKey = Some ''k'', uvData = 1\<rparr>"

definition exGroup :: "(string, PID) gomap" where
  "exGroup = [(''svcgroup:a:n1:v'', exWorker ''n1'' ''v''), (''svcgroup:a:n2:w'', exWorker ''n2'' ''w'')]"

definition exRouter :: "(string, PID) gomap \<Rightarrow> (string, PID) gomap ClusterRouter" where
  "exRouter m = Configure ''a'' RouterStrategyConsistentKey [] (NewClusterRouter m None)"

lemma exGroup_lookup:
  "dr_Lookup alistORMap exGroup = [''svcgroup:a:n1:v'' \<mapsto> exWorker ''n1'' ''v'', ''svcgroup:a:n2:w'' \<mapsto> exWorker ''n2'' ''w'']"
  "dr_Lookup alistORMap (rev exGroup) = dr_Lookup alistORMap exGroup"
  by (auto simp: dr_Lookup_def alistORMap_def exGroup_def)

lemma exGroup_workers:
  "workersOf alistORMap ''a'' exGroup = [''n1:v'' \<mapsto> exWorker ''n1'' ''v'', ''n2:w'' \<mapsto> exWorker ''n2'' ''w'']"
  by (auto simp: workersOf_def exGroup_lookup groupKey_def serviceGroupPrefix_def fun_eq_iff)

lemma exGroup_keyed: "keyedByKey (workersOf alistORMap ''a'' exGroup)"
  by (simp add: exGroup_workers keyedByKey_def exWorker_def Key_def)

theorem consistent_key_agrees_witness:
  "\<exists>w. \<forall>r1 r2. sendInternal alistORMap 0 ''a'' exKeyed [] (exRouter exGroup, r1) =
         map_option (\<lambda>(r, ack). ((exRouter exGroup, r), ack)) (SendPID w exKeyed r1) \<and>
       sendInternal alistORMap 7 ''a'' exKeyed [] (exRouter (rev exGroup), r2) =
         map_option (\<lambda>(r, ack). ((exRouter (rev exGroup), r), ack)) (SendPID w exKeyed r2)"
proof -
  have f: "crRegistry (exRouter m) = m" "crRouters (exRouter m) ''a'' = Some (routerState RouterStrategyConsistentKey)" for m
    by (simp_all add: exRouter_def Configure_def NewClusterRouter_def)
  have key: "payloadHashKey exKeyed = Some ''k''" by (simp add: exKeyed_def)
  have ne: "workersOf alistORMap ''a'' exGroup \<noteq> Map.empty" by (simp add: exGroup_workers)
  have len: "length (cr_Members alistORMap ''a'' (exRouter exGroup)) < 2 ^ 32"
    by (simp add: cr_Members_def groupEntries_def alistORMap_def exGroup_def f(1) serviceGroupPrefix_def f(2) routerState_def)
  from consistent_key_agrees [OF alistORMap_ok alistORMap_ok, of "exRouter exGroup" "exRouter (rev exGroup)" "''a''"
      "routerState RouterStrategyConsistentKey" exKeyed "''k''"] len
    key exGroup_keyed exGroup_lookup(2) ne
  show ?thesis by (auto simp: f routerState_def)
qed

section \<open>Round robin\<close>

text \<open>The workers that successive sends pick, each with its own call-time preferences.\<close>

fun crPicks :: "'m ORMap \<Rightarrow> nat \<Rightarrow> string \<Rightarrow> any \<Rightarrow> NodeRanker list list \<Rightarrow> 'm ClusterRouter \<Rightarrow> PID list" where
  "crPicks om rand s payload [] cr = []"
| "crPicks om rand s payload (prefs # ps) cr =
     (let (cr, w) = selectWorker rand s (applyPreferences s (cr_Members om s cr) prefs cr) payload cr
      in w # crPicks om rand s payload ps cr)"

lemma routers_frame [simp]:
  "filterByNodeMeta (cr\<lparr>crRouters := m\<rparr>) f pids = filterByNodeMeta cr f pids"
  "preferenceScore (cr\<lparr>crRouters := m\<rparr>) static prefs pid = preferenceScore cr static prefs pid"
  by (simp_all add: filterByNodeMeta_def preferenceScore_def nodeMetaMap_def)

lemma Members_counter:
  "crRouters cr s = Some st \<Longrightarrow> cr_Members om s (cr\<lparr>crRouters := (crRouters cr)(s \<mapsto> st\<lparr>crsRrNext := c\<rparr>)\<rparr>) = cr_Members om s cr"
  by (simp add: cr_Members_def Let_def split: option.split)

lemma mset_rotate_eq: "mset (rotate n xs) = mset xs"
proof -
  have "mset (rotate1 ys) = mset ys" for ys :: "'a list" by (cases ys) simp_all
  then show ?thesis by (induction n) (simp_all add: rotate_Suc)
qed

lemma crPicks_from:
  assumes ne: "ms \<noteq> []" "length ms < 2 ^ 32"
  shows "crRouters cr s = Some st \<Longrightarrow> crsStrategy st = RouterStrategyRoundRobin \<Longrightarrow> crsRrNext st = of_nat c \<Longrightarrow>
    applyPreferences s (cr_Members om s cr) prefs cr = ms \<Longrightarrow> c + n \<le> 2 ^ 64 \<Longrightarrow>
    crPicks om rand s payload (replicate n prefs) cr = map (\<lambda>i. ms ! (i mod length ms)) [c..<c + n]"
proof (induction n arbitrary: cr st c)
  case (Suc n)
  let ?cr = "cr\<lparr>crRouters := (crRouters cr)(s \<mapsto> st\<lparr>crsRrNext := of_nat (Suc c)\<rparr>)\<rparr>"
  have "unat (of_nat c :: u64) = c" using Suc.prems(5) by (simp add: unat_of_nat)
  moreover have "unat (of_nat (length ms) :: u64) = length ms" using ne(2) by (simp add: unat_of_nat)
  ultimately have "unat ((of_nat c :: u64) mod of_nat (length ms)) = c mod length ms" by (simp add: unat_mod_distrib)
  then have sel: "selectWorker rand s ms payload cr = (?cr, ms ! (c mod length ms))"
    using Suc.prems(1-3) by (simp add: selectWorker_def Let_def add.commute)
  have "applyPreferences s (cr_Members om s ?cr) prefs ?cr = ms"
    using Suc.prems(1,4)
    by (auto simp: applyPreferences_def Members_counter Let_def simp del: of_nat_Suc split: if_splits)
  then have "crPicks om rand s payload (replicate n prefs) ?cr = map (\<lambda>i. ms ! (i mod length ms)) [Suc c..<Suc c + n]"
    by (intro Suc.IH [of ?cr "st\<lparr>crsRrNext := of_nat (Suc c)\<rparr>"]) (use Suc.prems in simp_all)
  moreover have "[c..<c + Suc n] = c # [Suc c..<Suc c + n]" by (subst upt_conv_Cons) simp_all
  ultimately show ?case using Suc.prems(4) sel by (simp del: upt_Suc of_nat_Suc)
qed simp

lemma cyclic_rotate: "map (\<lambda>i. xs ! (i mod length xs)) [c..<c + length xs] = rotate c xs"
  by (rule nth_equalityI) (simp_all add: nth_rotate add.commute)

text \<open>
  Round robin is fair and deaf to preferences: while the group does not change, as many
  consecutive sends as it has members reach every member exactly once, whatever ranking the group
  was configured with and the calls pass.
\<close>

theorem round_robin_ignores_preferences:
  assumes "crRouters cr s = Some st" "crsStrategy st = RouterStrategyRoundRobin"
    and "cr_Members om s cr \<noteq> []" "length (cr_Members om s cr) < 2 ^ 32"
    and "unat (crsRrNext st) + length (cr_Members om s cr) \<le> 2 ^ 64"
  shows "mset (crPicks om rand s payload (replicate (length (cr_Members om s cr)) prefs) cr) = mset (cr_Members om s cr)"
proof -
  let ?ms = "applyPreferences s (cr_Members om s cr) prefs cr"
  have ms: "mset ?ms = mset (cr_Members om s cr)" by (simp add: applyPreferences_def Let_def)
  then have len: "length ?ms = length (cr_Members om s cr)" "?ms \<noteq> []" using assms(3) by (metis size_mset, auto)
  have "crPicks om rand s payload (replicate (length ?ms) prefs) cr =
      map (\<lambda>i. ?ms ! (i mod length ?ms)) [unat (crsRrNext st)..<unat (crsRrNext st) + length ?ms]"
    by (rule crPicks_from [of ?ms cr s st]) (use assms len in simp_all)
  then have "crPicks om rand s payload (replicate (length ?ms) prefs) cr = rotate (unat (crsRrNext st)) ?ms"
    by (simp only: cyclic_rotate)
  with ms show ?thesis by (simp add: len(1) mset_rotate_eq)
qed


theorem round_robin_ignores_preferences_witness:
  "\<exists>ms. ms = cr_Members alistORMap ''a'' (Configure ''a'' RouterStrategyRoundRobin [] (NewClusterRouter exGroup None)) \<and> length ms = 2 \<and>
     mset (crPicks alistORMap 0 ''a'' NilAny (replicate 2 [\<lambda>meta. 1]) (Configure ''a'' RouterStrategyRoundRobin [] (NewClusterRouter exGroup None))) = mset ms"
proof -
  let ?cr = "Configure ''a'' RouterStrategyRoundRobin [] (NewClusterRouter exGroup None)"
  have len: "length (cr_Members alistORMap ''a'' ?cr) = 2"
    by (simp add: cr_Members_def groupEntries_def alistORMap_def exGroup_def serviceGroupPrefix_def Configure_def NewClusterRouter_def routerState_def)
  then have ne: "cr_Members alistORMap ''a'' ?cr \<noteq> []" by auto
  have "crRouters ?cr ''a'' = Some (routerState RouterStrategyRoundRobin)" by (simp add: Configure_def)
  from round_robin_ignores_preferences [OF this _ ne, of 0 NilAny "[\<lambda>meta. 1]"] len show ?thesis by (simp add: routerState_def)
qed

section \<open>What the keys of a group do not tell\<close>

lemma distinct_singleton:
  assumes "set xs = {x}" "distinct xs"
  shows "xs = [x]"
proof -
  from assms distinct_card have "length xs = 1" by fastforce
  with assms(1) show ?thesis by (cases xs) auto
qed

lemma single_group:
  assumes "ormapOk om" "workersOf om s (crRegistry cr) = [k \<mapsto> pid]" "Key pid = k" "crRouters cr s = None"
  shows "cr_Members om s cr = [pid]"
  using Members_eq [OF assms(1), of s cr] assms(2-4) by (simp add: keyedByKey_def inKeyOrder_def)

lemma single_send:
  assumes "cr_Members om s cr = [pid]" "crRouters cr s = None"
  shows "\<exists>cr'. sendInternal om n s payload [] (cr, r) = map_option (\<lambda>(r, ack). ((cr', r), ack)) (SendPID pid payload r)"
  using assms by (intro exI [of _ "cr\<lparr>crRouters := (crRouters cr)(s \<mapsto> (routerState RouterStrategyRoundRobin)\<lparr>crsRrNext := 1\<rparr>)\<rparr>"])
    (simp add: sendInternal_def applyPreferences_def selectWorker_def routerState_def Let_def)

text \<open>
  The names of two groups can run into each other: a worker that joins the service
  \<open>s:t\<close> is also listed as a member of the service \<open>s\<close>, which it never joined, and receives the
  messages sent to \<open>s\<close>.
\<close>

theorem service_prefix_clash:
  assumes ok: "ormapOk om" "snd (omPut om m (serviceGroupKey (s @ '':'' @ t) pid) pid) = None"
    and new: "dr_Lookup om m = Map.empty" "cr_Join om (s @ '':'' @ t) pid (NewClusterRouter m None) = (cr, err)"
  shows "err = None \<and> pid \<in> set (cr_Members om s cr) \<and>
    (\<exists>cr'. sendInternal om n s payload [] (cr, r) = map_option (\<lambda>(r, ack). ((cr', r), ack)) (SendPID pid payload r))"
proof -
  let ?name = "serviceGroupKey (s @ '':'' @ t) pid"
  let ?m = "fst (omPut om m ?name pid)"
  from new ok(2) have cr: "cr = (NewClusterRouter m None)\<lparr>crRegistry := ?m\<rparr>" "err = None"
    by (auto simp: cr_Join_def dr_Register_def NewClusterRouter_def fun_eq_iff dr_Lookup_def split: prod.splits)
  have "set (omRange om ?m) = {(?name, pid)}"
    using new(1) ok(2) range_lookup [OF ok(1), of _ _ ?m]
    by (auto simp: dr_Lookup_def ormapOkD(1) [OF ok(1)] fun_eq_iff split: if_splits)
  then have "omRange om ?m = [(?name, pid)]"
    using ormapOkD(3) [OF ok(1), of ?m] by (intro distinct_singleton) (simp_all add: distinct_map)
  then have "groupEntries om s (crRegistry cr) = [pid]"
    by (simp add: groupEntries_def cr(1) serviceGroupKey_def Let_def)
  moreover have "crRouters cr s = None" by (simp add: cr NewClusterRouter_def)
  ultimately have "cr_Members om s cr = [pid]" by (simp add: cr_Members_def)
  with single_send [OF this \<open>crRouters cr s = None\<close>] cr(2) show ?thesis by simp
qed

theorem service_prefix_clash_witness:
  "\<exists>cr. cr_Join alistORMap ''a:b'' (exWorker ''n'' ''w'') (NewClusterRouter [] None) = (cr, None) \<and>
     exWorker ''n'' ''w'' \<in> set (cr_Members alistORMap ''a'' cr)"
proof -
  obtain cr err where j: "cr_Join alistORMap (''a'' @ '':'' @ ''b'') (exWorker ''n'' ''w'') (NewClusterRouter [] None) = (cr, err)"
    by fastforce
  from service_prefix_clash [OF alistORMap_ok alistORMap_put alistORMap_empty j] j show ?thesis by auto
qed

text \<open>
  A worker that was restarted cannot renew its membership: joining again with the PID of
  the new generation reports success and changes nothing, the group keeps the old PID, and what is
  sent to the group is rejected as stale.
\<close>

theorem rejoin_keeps_stale_worker:
  assumes ok: "ormapOk om" and group: "workersOf om s (crRegistry cr) = [Key old \<mapsto> old]" "crRouters cr s = None"
    and restarted: "Key new = Key old" "localTarget r old" "resolver_Resolve (rtResolver r) old = Some entry"
      "reRouteState entry \<noteq> PIDRouteStopped" "reCurrentGeneration entry \<noteq> pidGeneration old"
  shows "cr_Join om s new cr = (cr, None) \<and> cr_Members om s cr = [old] \<and>
    (\<exists>st ack. sendInternal om n s payload [] (cr, r) = Some (st, ack) \<and> psaOutcome ack = PIDRejectedStaleGeneration)"
proof -
  have "dr_Lookup om (crRegistry cr) (groupKey s (Key old)) = Some old"
    using fun_cong [OF group(1), of "Key old"] by (simp add: workersOf_def)
  then have join: "cr_Join om s new cr = (cr, None)"
    using restarted(1) by (simp add: cr_Join_def dr_Register_def dr_Lookup_def serviceGroupKey_eq)
  have ms: "cr_Members om s cr = [old]" using single_group [OF ok group(1) refl group(2)] .
  have "\<exists>r' ack. SendPID old payload r = Some (r', ack) \<and> psaOutcome ack = PIDRejectedStaleGeneration"
    using restarted(3-5) by (auto simp: SendPID_def sendPID_local [OF restarted(2)] sendPIDLocal_def rejectPID_def Let_def)
  with single_send [OF ms group(2), of n payload r] have "\<exists>st ack. sendInternal om n s payload [] (cr, r) = Some (st, ack) \<and>
      psaOutcome ack = PIDRejectedStaleGeneration" by auto
  with join ms show ?thesis by blast
qed

theorem rejoin_keeps_stale_worker_witness:
  "\<exists>st ack. sendInternal alistORMap 0 ''a'' (DownMessage 0 zeroPID '''') []
       (NewClusterRouter [(''svcgroup:a:n:a'', exPID)] None,
        exRuntime\<lparr>rtResolver := fst (resolver_BumpGeneration (rtResolver exRuntime) exPID)\<rparr>) = Some (st, ack) \<and>
     psaOutcome ack = PIDRejectedStaleGeneration"
proof -
  let ?r = "exRuntime\<lparr>rtResolver := fst (resolver_BumpGeneration (rtResolver exRuntime) exPID)\<rparr>"
  let ?cr = "NewClusterRouter [(''svcgroup:a:n:a'', exPID)] None :: (string, PID) gomap ClusterRouter"
  have e: "resolver_Resolve (rtResolver ?r) exPID =
      Some \<lparr>rePID = exPID\<lparr>pidGeneration := 2\<rparr>, reRouteState = PIDRouteReachable, reCurrentGeneration = 2\<rparr>"
    by (simp add: exRuntime_fields resolver_defs NewInMemoryPIDResolver_def exPID_def Key_def Let_def)
  have l: "localTarget ?r exPID" using exRuntime_local by (simp add: localTarget_def)
  have g: "workersOf alistORMap ''a'' (crRegistry ?cr) = [Key exPID \<mapsto> exPID]" "crRouters ?cr ''a'' = None"
    by (auto simp: workersOf_def dr_Lookup_def alistORMap_def NewClusterRouter_def exPID_def Key_def groupKey_def serviceGroupPrefix_def fun_eq_iff)
  have "Key (exPID\<lparr>pidGeneration := 2\<rparr>) = Key exPID" by simp
  from rejoin_keeps_stale_worker [OF alistORMap_ok g this l e, of 0 "DownMessage 0 zeroPID ''''"] show ?thesis by (simp add: exPID_def)
qed

end
