(* ===== verification/Remote.thy ===== *)
theory Remote
  imports ClusterCore AskProps
begin

text \<open>
  Messages between nodes: the remote sender (\<open>remote_send.go\<close>) that puts a message into an
  envelope, and the inbound dispatcher (\<open>inbound_handler.go\<close>) that forwards an envelope, hands
  it to a system handler or delivers it to the local runtime. The codec is a parameter; a codec
  that fails to encode or decode answers \<open>None\<close>. System handlers belong to other components,
  so the dispatcher records their calls. Dispatching ends in \<open>None\<close> exactly where the runtime
  overflows its stack.
\<close>

section \<open>Codec and sender\<close>

record Codec =
  cdEncode :: "any \<Rightarrow> string option"
  cdDecode :: "string \<Rightarrow> any option"

text \<open>What \<open>encoding/gob\<close> promises for a payload of a registered type.\<close>

definition codecOk :: "Codec \<Rightarrow> any \<Rightarrow> bool" where
  "codecOk cd payload \<longleftrightarrow> (\<exists>bs. cdEncode cd payload = Some bs \<and> cdDecode cd bs = Some payload)"

record GobCodec =
  gcRegistered :: "string list"
  gcGobRegister :: "string list"

definition NewGobCodec :: GobCodec where
  "NewGobCodec = \<lparr> gcRegistered = [], gcGobRegister = [] \<rparr>"

definition GobCodec_Register :: "any \<Rightarrow> GobCodec \<Rightarrow> GobCodec" where
  "GobCodec_Register v c =
     (let key = messageTypeName v
      in if key \<in> set (gcRegistered c) then c
         else c\<lparr> gcGobRegister := gcGobRegister c @ [key], gcRegistered := key # gcRegistered c \<rparr>)"

definition nodeIDFromNamespace :: "string \<Rightarrow> NodeID" where
  "nodeIDFromNamespace ns =
     (if prefix ''__ask_reply@'' ns then drop (length ''__ask_reply@'') ns else ns)"

text \<open>The envelope of \<open>Send\<close> and \<open>SendAsk\<close>; the argument tells the two apart.\<close>

definition remoteEnvelope ::
    "NodeID \<Rightarrow> string \<Rightarrow> PID \<Rightarrow> any \<Rightarrow> u64 \<Rightarrow> string \<Rightarrow> (string \<times> PID) option \<Rightarrow> Envelope" where
  "remoteEnvelope self senderActorID pid payload mid encoded ask =
     \<lparr> enSenderNode = self, enSenderActorID = senderActorID,
       enTargetNode = nodeIDFromNamespace (pidNamespace pid), enTargetActorID = pidActorID pid,
       enNamespace = pidNamespace pid, enGeneration = pidGeneration pid,
       enTypeName = messageTypeName payload, enSchemaVersion = '''', enMessageID = mid,
       enPayload = encoded, enIsAsk = (ask \<noteq> None),
       enAskRequestID = (case ask of None \<Rightarrow> '''' | Some (q, replyTo) \<Rightarrow> q),
       enAskReplyTo = (case ask of None \<Rightarrow> None
         | Some (q, replyTo) \<Rightarrow> Some \<lparr> rpNode = pidNamespace replyTo, rpNamespace = pidNamespace replyTo,
             rpActorID = pidActorID replyTo, rpGeneration = pidGeneration replyTo \<rparr>) \<rparr>"

datatype remoteError = EncodeFailed | SendError transportError

definition remoteSendWith ::
    "Codec \<Rightarrow> string \<Rightarrow> PID \<Rightarrow> any \<Rightarrow> u64 \<Rightarrow> (string \<times> PID) option \<Rightarrow> Cluster \<Rightarrow> Cluster \<times> PIDSendAck \<times> remoteError option" where
  "remoteSendWith cd senderActorID pid payload mid ask c =
     (case cdEncode cd payload of
        None \<Rightarrow> (c, \<lparr>psaOutcome = PIDRejectedNotFound, psaMessageID = mid\<rparr>, Some EncodeFailed)
      | Some encoded \<Rightarrow>
          let targetNode = nodeIDFromNamespace (pidNamespace pid);
              env = remoteEnvelope (LocalNodeID c) senderActorID pid payload mid encoded ask
          in case SendRemote targetNode env c of
               (c, Some e) \<Rightarrow> (c, \<lparr>psaOutcome = PIDUnresolved, psaMessageID = mid\<rparr>, Some (SendError e))
             | (c, None) \<Rightarrow> (c, \<lparr>psaOutcome = PIDDelivered, psaMessageID = mid\<rparr>, None))"

definition RemoteSender_Send ::
    "Codec \<Rightarrow> string \<Rightarrow> PID \<Rightarrow> any \<Rightarrow> u64 \<Rightarrow> Cluster \<Rightarrow> Cluster \<times> PIDSendAck \<times> remoteError option" where
  "RemoteSender_Send cd senderActorID pid payload mid c = remoteSendWith cd senderActorID pid payload mid None c"

definition RemoteSender_SendAsk ::
    "Codec \<Rightarrow> string \<Rightarrow> PID \<Rightarrow> any \<Rightarrow> u64 \<Rightarrow> string \<Rightarrow> PID \<Rightarrow> Cluster \<Rightarrow> Cluster \<times> PIDSendAck \<times> remoteError option" where
  "RemoteSender_SendAsk cd senderActorID pid payload mid askRequestID replyTo c =
     remoteSendWith cd senderActorID pid payload mid (Some (askRequestID, replyTo)) c"

section \<open>Dispatcher\<close>

record InboundDispatcher =
  idCodec :: Codec
  idHasCluster :: bool
  idHandlers :: "string list"
  idHandled :: "(NodeID \<times> Envelope) list"

definition NewInboundDispatcher :: "Codec \<Rightarrow> InboundDispatcher" where
  "NewInboundDispatcher cd = \<lparr> idCodec = cd, idHasCluster = False, idHandlers = [], idHandled = [] \<rparr>"

definition SetCluster :: "InboundDispatcher \<Rightarrow> InboundDispatcher" where
  "SetCluster d = d\<lparr> idHasCluster := True \<rparr>"

definition RegisterHandler :: "string \<Rightarrow> InboundDispatcher \<Rightarrow> InboundDispatcher" where
  "RegisterHandler typeName d = d\<lparr> idHandlers := List.insert typeName (idHandlers d) \<rparr>"

text \<open>A node: its dispatcher, its cluster core and its runtime.\<close>

record Node =
  ndDispatcher :: InboundDispatcher
  ndCluster :: Cluster
  ndRuntime :: Runtime

datatype dispatchError = DecodeFailed | ForwardError transportError

definition Dispatch :: "NodeID \<Rightarrow> Envelope \<Rightarrow> Node \<Rightarrow> (Node \<times> dispatchError option) option" where
  "Dispatch from env nd =
     (let d = ndDispatcher nd; r = ndRuntime nd
      in if idHasCluster d \<and> enTargetNode env \<noteq> '''' \<and> enTargetNode env \<noteq> rtNodeID r
         then let (c, err) = SendRemote (enTargetNode env) env (ndCluster nd)
              in Some (nd\<lparr> ndCluster := c \<rparr>, map_option ForwardError err)
         else if enTypeName env \<in> set (idHandlers d)
         then Some (nd\<lparr> ndDispatcher := d\<lparr> idHandled := idHandled d @ [(from, env)] \<rparr> \<rparr>, None)
         else case cdDecode (idCodec d) (enPayload env) of
                None \<Rightarrow> Some (nd, Some DecodeFailed)
              | Some payload \<Rightarrow>
                  let local = (\<lambda>ctx. map_option (\<lambda>(r, ack). (nd\<lparr> ndRuntime := r \<rparr>, None))
                                       (DeliverLocal (enTargetActorID env) payload ctx r))
                  in case (enIsAsk env, enAskReplyTo env) of
                       (True, Some rp) \<Rightarrow>
                         local (Some \<lparr> arcRequestID = enAskRequestID env,
                           arcReplyTo = \<lparr> pidNamespace = rpNamespace rp, pidActorID = rpActorID rp, pidGeneration = rpGeneration rp \<rparr> \<rparr>)
                     | _ \<Rightarrow>
                         if isAskReplyLocal (enNamespace env) (rtNodeID r)
                         then map_option (\<lambda>(r, ack). (nd\<lparr> ndRuntime := r \<rparr>, None))
                                (DeliverPID \<lparr> pidNamespace = enNamespace env, pidActorID = enTargetActorID env,
                                   pidGeneration = enGeneration env \<rparr> payload r)
                         else local None)"

text \<open>
  The journey of an envelope that has arrived at a node: as long as the dispatcher is one that
  sends it on, it goes over the connection used to the next node. The result holds the nodes
  after the journey, the node the envelope came from last and the path; \<open>None\<close> when a node
  reports an error or the bound on the hops is reached.
\<close>

definition forwards :: "Envelope \<Rightarrow> Node \<Rightarrow> bool" where
  "forwards env nd \<longleftrightarrow> idHasCluster (ndDispatcher nd) \<and> enTargetNode env \<noteq> '''' \<and> enTargetNode env \<noteq> rtNodeID (ndRuntime nd)"

fun relay ::
    "nat \<Rightarrow> (NodeID \<Rightarrow> Node) \<Rightarrow> NodeID \<Rightarrow> NodeID \<Rightarrow> Envelope \<Rightarrow> ((NodeID \<Rightarrow> Node) \<times> NodeID \<times> NodeID list) option" where
  "relay fuel net from at env =
     (if \<not> forwards env (net at) then Some (net, from, [])
      else case fuel of
        0 \<Rightarrow> None
      | Suc k \<Rightarrow>
          (case Dispatch from env (net at) of
             Some (nd, None) \<Rightarrow>
               let hop = connRemoteNodeID (fst (last (clSent (ndCluster nd))))
               in map_option (apsnd (apsnd (Cons hop))) (relay k (net(at := nd)) at hop env)
           | _ \<Rightarrow> None))"

declare relay.simps [simp del]

text \<open>
  A network in which every node of \<open>N\<close> knows the others under addresses that answer a dial,
  uses the topology, and no send fails.
\<close>

definition nodeOk :: "Topology \<Rightarrow> NodeID set \<Rightarrow> NodeID \<Rightarrow> Node \<Rightarrow> bool" where
  "nodeOk tp N n nd \<longleftrightarrow>
     (let c = ndCluster nd
      in rtNodeID (ndRuntime nd) = n \<and> idHasCluster (ndDispatcher nd) \<and> nmID (clSelf c) = n \<and> clTopology c = tp \<and>
         set (ids (memberListLocked c)) = N \<and>
         (\<forall>p\<in>N. p \<noteq> n \<longrightarrow> (\<exists>m. map_of (clPeers c) p = Some m \<and>
            (\<forall>k. \<exists>conn. trDial (clTransport c) k (nmAddr m) = Some conn \<and> connRemoteNodeID conn = p))) \<and>
         (\<forall>k conn env. trSend (clTransport c) k conn env) \<and>
         (\<forall>p conn. map_of (clConns c) p = Some conn \<longrightarrow> connRemoteNodeID conn = p))"

definition netOk :: "Topology \<Rightarrow> NodeID set \<Rightarrow> (NodeID \<Rightarrow> Node) \<Rightarrow> bool" where
  "netOk tp N net \<longleftrightarrow> (\<forall>n\<in>N. nodeOk tp N n (net n))"

lemma SendRemote_ok:
  assumes ok: "nodeOk tp N n nd" and hop: "sendHop (ndCluster nd) target = Some hop" "hop \<in> N" "hop \<noteq> n"
  shows "\<exists>c conn. SendRemote target env (ndCluster nd) = (c, None) \<and> clSent c \<noteq> [] \<and> last (clSent c) = (conn, env) \<and>
     connRemoteNodeID conn = hop \<and> nodeOk tp N n (nd\<lparr>ndCluster := c\<rparr>)"
proof -
  let ?c = "ndCluster nd"
  from ok hop(2,3) obtain m where m: "map_of (clPeers ?c) hop = Some m"
    "\<And>k. \<exists>conn. trDial (clTransport ?c) k (nmAddr m) = Some conn \<and> connRemoteNodeID conn = hop"
    by (auto simp: nodeOk_def Let_def)
  have send: "connSend hop conn env x = (x\<lparr>clCalls := Suc (clCalls x), clSent := clSent x @ [(conn, env)]\<rparr>, None)"
    if "clTransport x = clTransport ?c" for x conn using ok that by (simp add: connSend_def nodeOk_def Let_def)
  show ?thesis
  proof (cases "map_of (clConns ?c) hop")
    case (Some conn)
    then have "SendRemote target env ?c = connSend hop conn env ?c"
      using hop(1) by (cases "map_of (clConns ?c) target") (auto simp: SendRemote_def sendHop_def IsConnected_def LocalNodeID_def)
    with Some ok show ?thesis by (simp add: send) (auto simp: nodeOk_def Let_def memberListLocked_def)
  next
    case None
    then have nt: "map_of (clConns ?c) target = None" using hop(1) by (auto simp: sendHop_def IsConnected_def split: if_splits)
    from m(2) obtain conn where d: "trDial (clTransport ?c) (clCalls ?c) (nmAddr m) = Some conn" "connRemoteNodeID conn = hop" by blast
    let ?c1 = "?c\<lparr>clCalls := Suc (clCalls ?c), clConns := gomap_put hop conn (clConns ?c)\<rparr>"
    have "ensureConnection hop ?c = (?c1, Some conn)"
      using None m(1) d(1) by (simp add: ensureConnection_def ensureFinish_def Let_def)
    then have "SendRemote target env ?c = connSend hop conn env ?c1"
      using hop(1) nt None by (cases "hop = target") (auto simp: SendRemote_def sendHop_def IsConnected_def LocalNodeID_def)
    with d(2) ok show ?thesis by (simp add: send) (auto simp: nodeOk_def Let_def memberListLocked_def)
  qed
qed

lemma pid_eta: "\<lparr> pidNamespace = pidNamespace p, pidActorID = pidActorID p, pidGeneration = pidGeneration p \<rparr> = (p :: PID)"
  by simp

lemma SendRemote_sent:
  "SendRemote t env c = (c', None) \<Longrightarrow> \<exists>conn. clSent c' = clSent c @ [(conn, env)]"
proof -
  assume s: "SendRemote t env c = (c', None)"
  have "connSend n conn env x = (c', None) \<Longrightarrow> clSent c' = clSent x @ [(conn, env)]" for n conn x
    by (auto simp: connSend_def Let_def split: if_splits)
  moreover have "ensureConnection n c = (x, y) \<Longrightarrow> clSent x = clSent c" for n x y
    using ensureConnection_same(3) [of n c] by simp
  ultimately show ?thesis using s
    by (fastforce simp: SendRemote_def split: option.splits prod.splits if_splits)
qed

lemma Dispatch_forwards:
  "forwards env nd \<Longrightarrow> SendRemote (enTargetNode env) env (ndCluster nd) = (c, None) \<Longrightarrow>
     Dispatch from env nd = Some (nd\<lparr>ndCluster := c\<rparr>, None)"
  by (simp add: Dispatch_def forwards_def Let_def)

context topology
begin

lemma relay_reaches:
  assumes "netOk tp N net" and "tpRoute tp = route" and "wf N" and "at \<in> N" and "enTargetNode env \<in> N"
    and "enTargetNode env \<noteq> ''''" and "at = enTargetNode env \<or> far N at (enTargetNode env) \<le> fuel"
  shows "\<exists>net' from' p. relay fuel net from at env = Some (net', from', p) \<and> last (at # p) = enTargetNode env \<and>
    length p \<le> (if at = enTargetNode env then 0 else far N at (enTargetNode env)) \<and> set p \<subseteq> N \<and> (\<forall>n. ndRuntime (net' n) = ndRuntime (net n)) \<and>
    (\<forall>n. ndDispatcher (net' n) = ndDispatcher (net n))"
  using assms(1,4,7)
proof (induction fuel arbitrary: net "from" at)
  case (0 net "from" at)
  let ?t = "enTargetNode env"
  have ok: "nodeOk tp N at (net at)" using 0 by (simp add: netOk_def)
  then have "set (ids (memberListLocked (ndCluster (net at)))) = N" by (simp add: nodeOk_def Let_def)
  from route_closer [OF this assms(3) 0(2) assms(5)] 0(3) have "at = ?t" by fastforce
  then show ?case using ok by (auto simp: relay.simps [of 0] forwards_def nodeOk_def Let_def)
next
  case (Suc k net "from" at)
  let ?t = "enTargetNode env" and ?nd = "net at"
  have ok: "nodeOk tp N at ?nd" using Suc.prems(1,2) by (simp add: netOk_def)
  show ?case
  proof (cases "at = ?t")
    case True
    then show ?thesis using ok by (auto simp: relay.simps [of "Suc k"] forwards_def nodeOk_def Let_def)
  next
    case False
    then have f: "forwards env ?nd" using ok assms(6) by (simp add: forwards_def nodeOk_def Let_def)
    have ms: "set (ids (memberListLocked (ndCluster ?nd))) = N" "nmID (clSelf (ndCluster ?nd)) = at" "clTopology (ndCluster ?nd) = tp"
      using ok by (simp_all add: nodeOk_def Let_def)
    from route_closer [OF ms(1) assms(3) Suc.prems(2) assms(5) False] obtain h where
      h: "route at ?t (memberListLocked (ndCluster ?nd)) = Some h" "h \<in> N" "far N h ?t < far N at ?t" by blast
    define hop where "hop = (if IsConnected (ndCluster ?nd) ?t then ?t else h)"
    have hop: "sendHop (ndCluster ?nd) ?t = Some hop" "hop \<in> N" "hop \<noteq> at" "hop = ?t \<or> far N hop ?t < far N at ?t"
      using h False ms assms(2,5) by (auto simp: hop_def sendHop_def LocalNodeID_def)
    from SendRemote_ok [OF ok hop(1-3), of env] obtain c conn where
      c: "SendRemote ?t env (ndCluster ?nd) = (c, None)" "last (clSent c) = (conn, env)" "connRemoteNodeID conn = hop"
        "nodeOk tp N at (?nd\<lparr>ndCluster := c\<rparr>)" by blast
    let ?net = "net(at := ?nd\<lparr>ndCluster := c\<rparr>)"
    have "netOk tp N ?net" using Suc.prems(1) c(4) by (simp add: netOk_def)
    from Suc.IH [OF this hop(2), of at] hop(4) Suc.prems(3) False obtain net' from' p where
      r: "relay k ?net at hop env = Some (net', from', p)" "last (hop # p) = ?t" "length p \<le> (if hop = ?t then 0 else far N hop ?t)" "set p \<subseteq> N"
        "\<And>n. ndRuntime (net' n) = ndRuntime (?net n)" "\<And>n. ndDispatcher (net' n) = ndDispatcher (?net n)" by fastforce
    have "relay (Suc k) net from at env = Some (net', from', hop # p)"
      using f Dispatch_forwards [OF f c(1)] r(1) c(2,3) by (simp add: relay.simps [of "Suc k"] Let_def)
    moreover have "length (hop # p) \<le> far N at ?t" using r(3) hop(4) h(3) by (auto split: if_splits)
    ultimately show ?thesis using r hop(2) False by (auto simp: fun_upd_def)
  qed
qed

end

section \<open>Properties\<close>

text \<open>
  Claim C6. End-to-end forwarding on a ring cluster: when the nodes of \<open>N\<close> know each other, dials
  and sends succeed and no two primary hashes collide, an envelope for a node of \<open>N\<close> that
  arrives at any other node is passed on by the dispatchers, over direct connections where there
  are any, and reaches its target within \<open>log2 |N| + 2\<close> hops; no runtime on the way is touched.
\<close>

theorem envelope_reaches_target:
  assumes "netOk (HashRing (NewRingTopology f v)) N net" and "ringWf N" and "at \<in> N" and "enTargetNode env \<in> N"
  shows "\<exists>net' from' p. relay (natLog2 (card N) + 2) net from at env = Some (net', from', p) \<and>
    last (at # p) = enTargetNode env \<and> length p \<le> natLog2 (card N) + 2 \<and>
    (\<forall>n. ndRuntime (net' n) = ndRuntime (net n))"
proof -
  let ?k = "natLog2 (card N) + 2"
  have "enTargetNode env \<noteq> ''''" using assms(2,4) by (auto simp: ringWf_def)
  moreover have "tpRoute (HashRing (NewRingTopology f v)) = Ring_Route (NewRingTopology f v)" by (simp add: HashRing_def)
  ultimately obtain net' from' p where
    "relay ?k net from at env = Some (net', from', p)" "last (at # p) = enTargetNode env"
    "length p \<le> (if at = enTargetNode env then 0 else ringFar N at (enTargetNode env))"
    "\<forall>n. ndRuntime (net' n) = ndRuntime (net n)"
    using hashRing.relay_reaches [OF assms(1) _ assms(2-4), of f v ?k "from"] ringFar_log [of N at "enTargetNode env"] by blast
  with ringFar_log [of N at "enTargetNode env"] show ?thesis by (auto split: if_splits)
qed

text \<open>
  Claim C7. A remote ask comes back to its caller. Let request \<open>q\<close> wait on node A and its ask be
  sent to an actor of node B. Then the dispatcher of B delivers exactly the payload of the ask to
  that actor, with the request ID and reply address of the caller; an answer that B sends to
  this reply address is addressed to node A; and when it arrives there, the dispatcher completes
  the waiting ask with exactly that answer. The codec must give back what it encoded, and the
  payload types must not be those of system envelopes.
\<close>

theorem remote_ask_roundtrip:
  assumes codec: "codecOk cd payload" "codecOk cd answer" "askEnvelope q answer = (q, body)"
    and ask: "RemoteSender_SendAsk cd s pid payload mid q (paReplyTo w) (ndCluster A) = (cA, ackA, None)"
    and reply: "RemoteSender_Send cd s' (paReplyTo w) answer mid' (ndCluster B) = (cB, ackB, None)"
    and wait: "askInv (rtNodeID (ndRuntime A)) (rtAsk (ndRuntime A))" "askWait (rtAsk (ndRuntime A)) q = Some w" "rtNodeID (ndRuntime A) \<noteq> ''''"
    and nodes: "rtNodeID (ndRuntime B) = nodeIDFromNamespace (pidNamespace pid)"
      "idCodec (ndDispatcher A) = cd" "idCodec (ndDispatcher B) = cd"
      "messageTypeName payload \<notin> set (idHandlers (ndDispatcher B))" "messageTypeName answer \<notin> set (idHandlers (ndDispatcher A))"
  shows "\<exists>conn env conn' env' A' r.
    clSent cA = clSent (ndCluster A) @ [(conn, env)] \<and>
    Dispatch from env B =
      map_option (\<lambda>(r, ack). (B\<lparr>ndRuntime := r\<rparr>, None))
        (DeliverLocal (pidActorID pid) payload (Some \<lparr>arcRequestID = q, arcReplyTo = paReplyTo w\<rparr>) (ndRuntime B)) \<and>
    clSent cB = clSent (ndCluster B) @ [(conn', env')] \<and> enTargetNode env' = rtNodeID (ndRuntime A) \<and>
    Dispatch from' env' A = Some (A', None) \<and>
    AskResume a w WakeReply (ndRuntime A') = Some (r, Inr \<lparr>arRequestID = q, arPayload = body\<rparr>)"
proof -
  have sent: "\<exists>conn bs. clSent c' = clSent c @ [(conn, remoteEnvelope (LocalNodeID c) x p pl m bs k)] \<and> cdDecode cd bs = Some pl"
    if "remoteSendWith cd x p pl m k c = (c', ack, None)" "codecOk cd pl" for c c' x p pl m k ack
  proof -
    from that(2) obtain bs where bs: "cdEncode cd pl = Some bs" "cdDecode cd bs = Some pl" by (auto simp: codecOk_def)
    let ?t = "nodeIDFromNamespace (pidNamespace p)" and ?e = "remoteEnvelope (LocalNodeID c) x p pl m bs k"
    have "SendRemote ?t ?e c = (c', None)"
      using that(1) bs(1) by (auto simp: remoteSendWith_def Let_def split: prod.splits option.splits)
    with SendRemote_sent [of ?t ?e c] bs(2) show ?thesis by auto
  qed
  have p: "paReplyTo w = replyPID (rtNodeID (ndRuntime A)) q" using wait(1,2) unfolding askInv_def by blast
  obtain conn bs where 1: "clSent cA = clSent (ndCluster A) @ [(conn, remoteEnvelope (LocalNodeID (ndCluster A)) s pid payload mid bs (Some (q, paReplyTo w)))]"
    "cdDecode cd bs = Some payload" using sent [OF ask [unfolded RemoteSender_SendAsk_def] codec(1)] by blast
  obtain conn' bs' where 2: "clSent cB = clSent (ndCluster B) @ [(conn', remoteEnvelope (LocalNodeID (ndCluster B)) s' (paReplyTo w) answer mid' bs' None)]"
    "cdDecode cd bs' = Some answer" using sent [OF reply [unfolded RemoteSender_Send_def] codec(2)] by blast
  let ?env = "remoteEnvelope (LocalNodeID (ndCluster A)) s pid payload mid bs (Some (q, paReplyTo w))"
    and ?env' = "remoteEnvelope (LocalNodeID (ndCluster B)) s' (paReplyTo w) answer mid' bs' None"
  have B: "Dispatch from ?env B = map_option (\<lambda>(r, ack). (B\<lparr>ndRuntime := r\<rparr>, None))
        (DeliverLocal (pidActorID pid) payload (Some \<lparr>arcRequestID = q, arcReplyTo = paReplyTo w\<rparr>) (ndRuntime B))"
    using nodes 1(2) by (simp add: Dispatch_def remoteEnvelope_def Let_def pid_eta)
  have n: "nodeIDFromNamespace (pidNamespace (paReplyTo w)) = rtNodeID (ndRuntime A)"
    "isAskReplyLocal (pidNamespace (paReplyTo w)) (rtNodeID (ndRuntime A))"
    using wait(3) by (simp_all add: p replyPID_def nodeIDFromNamespace_def askReplyNamespace_def isAskReplyLocal_def)
  from ask_reply_steps [OF wait(1,2) codec(3), of a] obtain r2 ack r3 where
    3: "SendPID (paReplyTo w) answer (ndRuntime A) = Some (r2, ack)"
      "AskResume a w WakeReply r2 = Some (r3, Inr \<lparr>arRequestID = q, arPayload = body\<rparr>)" by blast
  have "Dispatch from' ?env' A = Some (A\<lparr>ndRuntime := r2\<rparr>, None)"
    using nodes n 2(2) 3(1) by (simp add: Dispatch_def remoteEnvelope_def DeliverPID_def Let_def pid_eta)
  with 1 2 3 B n show ?thesis by (fastforce simp: remoteEnvelope_def)
qed

text \<open>
  The dispatcher ignores the generation of the addressed PID: an envelope for an actor
  of this node that is no answer to an ask is delivered by actor ID, whatever its generation. A
  PID that has become stale by a restart is rejected when it is used on its own node, but
  accepted when the message comes from another node; the README says that stale PID references
  are rejected.
\<close>

theorem remote_generation_ignored:
  assumes "enTargetNode env = rtNodeID (ndRuntime nd)" and "enTypeName env \<notin> set (idHandlers (ndDispatcher nd))"
    and "cdDecode (idCodec (ndDispatcher nd)) (enPayload env) = Some payload" and "\<not> enIsAsk env"
    and "\<not> isAskReplyLocal (enNamespace env) (rtNodeID (ndRuntime nd))"
  shows "Dispatch from (env\<lparr>enGeneration := g\<rparr>) nd =
    map_option (\<lambda>(r, ack). (nd\<lparr>ndRuntime := r\<rparr>, None)) (DeliverLocal (enTargetActorID env) payload None (ndRuntime nd))"
  using assms by (simp add: Dispatch_def Let_def)

section \<open>Examples\<close>

definition exCodec :: Codec where
  "exCodec = \<lparr> cdEncode = (\<lambda>v. Some ''''), cdDecode = (\<lambda>bs. Some (DownMessage 7 zeroPID '''')) \<rparr>"

definition exCluster :: "NodeID list \<Rightarrow> NodeID \<Rightarrow> Cluster" where
  "exCluster ns n =
     \<lparr> clSelf = exMeta n, clTransport = exTransport, clTopology = HashRing (NewRingTopology 1 1), clOnMemberEvent = False,
       clConns = [], clPeers = map (\<lambda>p. (p, exMeta p)) (filter (\<lambda>p. p \<noteq> n) ns), clDialing = [], clStarted = True,
       clDials = [], clCalls = 0, clClosed = [], clSent = [], clEvents = [] \<rparr>"

definition exNode :: "NodeID list \<Rightarrow> NodeID \<Rightarrow> Node" where
  "exNode ns n = \<lparr> ndDispatcher = SetCluster (NewInboundDispatcher exCodec), ndCluster = exCluster ns n,
     ndRuntime = exRuntime\<lparr>rtNodeID := n\<rparr> \<rparr>"

lemma nodeOk_exNode: "n \<in> set ns \<Longrightarrow> nodeOk (HashRing (NewRingTopology 1 1)) (set ns) n (exNode ns n)"
  by (auto simp: nodeOk_def exNode_def exCluster_def exMeta_def exTransport_def SetCluster_def NewInboundDispatcher_def
      memberListLocked_def ids_def Let_def map_of_map_restrict restrict_map_def image_image)

theorem envelope_reaches_target_witness:
  "\<exists>env net' from' p. relay 4 (exNode exNodes) ''x'' ''a'' env = Some (net', from', p) \<and> last (''a'' # p) = ''d'' \<and> length p \<le> 4"
proof -
  let ?env = "remoteEnvelope ''x'' '''' \<lparr> pidNamespace = ''d'', pidActorID = ''actor'', pidGeneration = 1 \<rparr> NilAny 1 '''' None"
  have wf: "ringWf (set exNodes)" using exHashes by (simp add: ringWf_def distinct_map) (simp add: exNodes_def)
  have net: "netOk (HashRing (NewRingTopology 1 1)) (set exNodes) (exNode exNodes)" by (simp add: netOk_def nodeOk_exNode)
  have t: "enTargetNode ?env = ''d''" by (simp add: remoteEnvelope_def nodeIDFromNamespace_def)
  have m: "''a'' \<in> set exNodes" "enTargetNode ?env \<in> set exNodes" unfolding t by (simp_all add: exNodes_def)
  have k: "natLog2 (card (set exNodes)) + 2 = 4" by code_simp
  from envelope_reaches_target [OF net wf m, of "''x''"] show ?thesis unfolding k t by blast
qed

theorem remote_generation_ignored_witness:
  "\<exists>env. Dispatch ''b'' (env\<lparr>enGeneration := 99\<rparr>) (exNode [''a'', ''b''] ''a'') =
    map_option (\<lambda>(r, ack). ((exNode [''a'', ''b''] ''a'')\<lparr>ndRuntime := r\<rparr>, None))
      (DeliverLocal ''actor'' (DownMessage 7 zeroPID '''') None (exRuntime\<lparr>rtNodeID := ''a''\<rparr>))"
proof -
  let ?env = "remoteEnvelope ''b'' '''' \<lparr> pidNamespace = ''a'', pidActorID = ''actor'', pidGeneration = 1 \<rparr> (DownMessage 7 zeroPID '''') 1 '''' None"
  let ?nd = "exNode [''a'', ''b''] ''a''"
  have "enTargetNode ?env = rtNodeID (ndRuntime ?nd)" "enTypeName ?env \<notin> set (idHandlers (ndDispatcher ?nd))"
    "cdDecode (idCodec (ndDispatcher ?nd)) (enPayload ?env) = Some (DownMessage 7 zeroPID '''')" "\<not> enIsAsk ?env"
    "\<not> isAskReplyLocal (enNamespace ?env) (rtNodeID (ndRuntime ?nd))"
    by (simp_all add: remoteEnvelope_def nodeIDFromNamespace_def exNode_def SetCluster_def NewInboundDispatcher_def exCodec_def isAskReplyLocal_def)
  from remote_generation_ignored [OF this, of "''b''" 99] show ?thesis
    by (intro exI [of _ ?env]) (simp add: remoteEnvelope_def exNode_def)
qed

theorem remote_ask_roundtrip_witness:
  "\<exists>w (A :: Node) env' A' r. askWait (rtAsk (ndRuntime A)) (paRequestID w) = Some w \<and>
     enTargetNode env' = ''a'' \<and> Dispatch ''y'' env' A = Some (A', None) \<and>
     AskResume ''actor'' w WakeReply (ndRuntime A') = Some (r, Inr \<lparr>arRequestID = paRequestID w, arPayload = DownMessage 7 zeroPID ''''\<rparr>)"
proof -
  let ?r = "exRuntime\<lparr>rtNodeID := ''a''\<rparr>" and ?v = "DownMessage 7 zeroPID ''''"
  obtain r w where n: "newAskRequest ''actor'' ?r = (r, w)" by fastforce
  have inv: "askInv (rtNodeID ?r) (rtAsk ?r)" by (simp add: exRuntime_fields)
  have i: "askInv (rtNodeID r) (rtAsk r)" and w: "askWait (rtAsk r) (paRequestID w) = Some w" and a: "rtNodeID r = ''a''"
    using n askInv_newRequest [OF inv refl] by (auto simp: newAskRequest_eq Let_def)
  let ?q = "paRequestID w" and ?pid = "\<lparr> pidNamespace = ''b'', pidActorID = ''actor'', pidGeneration = 1 \<rparr>"
  let ?A = "(exNode [''a'', ''b''] ''a'')\<lparr>ndRuntime := r, ndCluster := (exCluster [''a'', ''b''] ''a'')\<lparr>clConns := [(''b'', \<lparr> connID = 0, connRemoteNodeID = ''b'' \<rparr>)]\<rparr>\<rparr>"
  let ?B = "(exNode [''a'', ''b''] ''b'')\<lparr>ndCluster := (exCluster [''a'', ''b''] ''b'')\<lparr>clConns := [(''a'', \<lparr> connID = 0, connRemoteNodeID = ''a'' \<rparr>)]\<rparr>\<rparr>"
  have p: "paReplyTo w = replyPID ''a'' ?q" using i w a unfolding askInv_def by metis
  have cd: "codecOk exCodec ?v" "askEnvelope ?q ?v = (?q, ?v)" by (simp_all add: codecOk_def exCodec_def askEnvelope_def)
  obtain cA ackA where s: "RemoteSender_SendAsk exCodec '''' ?pid ?v 1 ?q (paReplyTo w) (ndCluster ?A) = (cA, ackA, None)"
    by (simp add: RemoteSender_SendAsk_def remoteSendWith_def exCodec_def nodeIDFromNamespace_def SendRemote_def connSend_def exCluster_def exTransport_def Let_def)
  obtain cB ackB where t: "RemoteSender_Send exCodec ''actor'' (paReplyTo w) ?v 1 (ndCluster ?B) = (cB, ackB, None)"
    by (simp add: p replyPID_def askReplyNamespace_def RemoteSender_Send_def remoteSendWith_def exCodec_def nodeIDFromNamespace_def SendRemote_def connSend_def exCluster_def exTransport_def Let_def)
  have "askInv (rtNodeID (ndRuntime ?A)) (rtAsk (ndRuntime ?A))" "askWait (rtAsk (ndRuntime ?A)) ?q = Some w" "rtNodeID (ndRuntime ?A) \<noteq> ''''"
    "rtNodeID (ndRuntime ?B) = nodeIDFromNamespace (pidNamespace ?pid)" "idCodec (ndDispatcher ?A) = exCodec" "idCodec (ndDispatcher ?B) = exCodec"
    "messageTypeName ?v \<notin> set (idHandlers (ndDispatcher ?B))" "messageTypeName ?v \<notin> set (idHandlers (ndDispatcher ?A))"
    using i w a by (simp_all add: exNode_def nodeIDFromNamespace_def SetCluster_def NewInboundDispatcher_def)
  from remote_ask_roundtrip [OF cd(1) cd s t this, of "''x''" "''y''" "''actor''"]
  obtain env' A' r3 where "enTargetNode env' = rtNodeID (ndRuntime ?A)" "Dispatch ''y'' env' ?A = Some (A', None)"
    "AskResume ''actor'' w WakeReply (ndRuntime A') = Some (r3, Inr \<lparr>arRequestID = ?q, arPayload = ?v\<rparr>)" by blast
  moreover have "askWait (rtAsk (ndRuntime ?A)) ?q = Some w" "rtNodeID (ndRuntime ?A) = ''a''" using w a by simp_all
  ultimately show ?thesis by metis
qed

end
