(* ===== verification/DaemonSet.thy ===== *)
theory DaemonSet
  imports DistRegistry Remote ActorProps "HOL-Library.Monad_Syntax"
begin

text \<open>
  Daemon actors (\<open>daemonset.go\<close>, \<open>daemonset_replicated.go\<close>, \<open>cron_daemon.go\<close>): one actor per
  node for every registered specification whose placement the node matches. The manager's record
  holds the current states of the runtime, the cluster core and its dispatcher, which the code
  reaches through pointers. Stopping an actor may overflow the stack of the runtime, which gives
  \<open>None\<close>. The state and the handler of a replicated daemon come from the CRDT package: they are
  the function \<open>dtCreate\<close> of the replica ID and of whether there is a cluster to replicate over.
\<close>

section \<open>State\<close>

record DaemonSpec =
  dsName :: string
  dsInitialState :: any
  dsHandler :: "handler option"
  dsOptions :: actorConfig
  dsPlacement :: "NodeMatcher option"

text \<open>\<open>dtCloser\<close> tells whether there is a function that closes the replicated state.\<close>

record daemonState =
  dtSpec :: DaemonSpec
  dtRunning :: bool
  dtCreate :: "(u64 \<Rightarrow> bool \<Rightarrow> any \<times> handler) option"
  dtCloser :: bool

text \<open>\<open>dmClosed\<close> logs the daemons whose replicated state was closed.\<close>

record DaemonSetManager =
  dmRuntime :: Runtime
  dmCluster :: "Cluster option"
  dmDispatcher :: "InboundDispatcher option"
  dmCodec :: "Codec option"
  dmDaemons :: "(string, daemonState) gomap"
  dmStarted :: bool
  dmCanceled :: bool
  dmClosed :: "string list"

definition NewDaemonSetManager ::
    "Runtime \<Rightarrow> Cluster option \<Rightarrow> InboundDispatcher option \<Rightarrow> Codec option \<Rightarrow> DaemonSetManager" where
  "NewDaemonSetManager runtime cluster dispatcher codec =
     \<lparr>dmRuntime = runtime, dmCluster = cluster, dmDispatcher = dispatcher, dmCodec = codec, dmDaemons = [],
      dmStarted = False, dmCanceled = False, dmClosed = []\<rparr>"

definition setDaemon :: "string \<Rightarrow> daemonState \<Rightarrow> DaemonSetManager \<Rightarrow> DaemonSetManager" where
  "setDaemon name d dm = dm\<lparr>dmDaemons := gomap_put name d (dmDaemons dm)\<rparr>"

section \<open>Placement\<close>

definition shouldRunLocally :: "DaemonSpec \<Rightarrow> DaemonSetManager \<Rightarrow> bool" where
  "shouldRunLocally spec dm =
     (case dsPlacement spec of
        None \<Rightarrow> True
      | Some placement \<Rightarrow>
          (case dmCluster dm of
             None \<Rightarrow> placement \<lparr>nmID = rtNodeID (dmRuntime dm), nmAddr = '''', nmTags = []\<rparr>
           | Some c \<Rightarrow> placement (Self c)))"

definition daemonTopology_Peers :: "Cluster \<Rightarrow> NodeMatcher option \<Rightarrow> u64 list" where
  "daemonTopology_Peers c placement =
     map (\<lambda>m. nodeIDToReplicaID (nmID m))
       (filter (\<lambda>m. case placement of None \<Rightarrow> True | Some p \<Rightarrow> p m) (Members c))"

definition matchingNodes :: "string \<Rightarrow> DaemonSetManager \<Rightarrow> NodeID list" where
  "matchingNodes name dm =
     (case map_of (dmDaemons dm) name of
        None \<Rightarrow> []
      | Some d \<Rightarrow>
          (if shouldRunLocally (dtSpec d) dm then [rtNodeID (dmRuntime dm)] else []) @
          (case dmCluster dm of
             None \<Rightarrow> []
           | Some c \<Rightarrow> map nmID (filter (\<lambda>m. case dsPlacement (dtSpec d) of None \<Rightarrow> True | Some p \<Rightarrow> p m) (Members c))))"

section \<open>Starting and stopping\<close>

text \<open>The end of a successful start: the daemon runs and its name is registered.\<close>

definition daemonStarted :: "string \<Rightarrow> daemonState \<Rightarrow> Runtime \<Rightarrow> DaemonSetManager \<Rightarrow> DaemonSetManager" where
  "daemonStarted name d r dm =
     (let n = dsName (dtSpec d)
      in setDaemon name (d\<lparr>dtRunning := True\<rparr>) (dm\<lparr>dmRuntime := fst (RegisterName n n (rtNodeID r) r)\<rparr>))"

definition startReplicatedDaemon ::
    "string \<Rightarrow> daemonState \<Rightarrow> (u64 \<Rightarrow> bool \<Rightarrow> any \<times> handler) \<Rightarrow> DaemonSetManager \<Rightarrow> DaemonSetManager" where
  "startReplicatedDaemon name d create dm =
     (let n = dsName (dtSpec d);
          dm = (if dmCluster dm \<noteq> None
                then dm\<lparr>dmDispatcher := map_option (RegisterHandler (''__crdt_'' @ n)) (dmDispatcher dm)\<rparr> else dm);
          replicaID = nodeIDToReplicaID (rtNodeID (dmRuntime dm));
          (state, h) = create replicaID (dmCluster dm \<noteq> None)
      in case CreateActor n state (Some h) (dsOptions (dtSpec d)) (dmRuntime dm) of
           Inr r \<Rightarrow> daemonStarted name (d\<lparr>dtCloser := True\<rparr>) r dm
         | Inl _ \<Rightarrow> dm\<lparr>dmClosed := dmClosed dm @ [n]\<rparr>)"

text \<open>Running the closer of a daemon that has stopped.\<close>

definition daemonStopped :: "string \<Rightarrow> daemonState \<Rightarrow> Runtime \<Rightarrow> DaemonSetManager \<Rightarrow> DaemonSetManager" where
  "daemonStopped name d r dm =
     setDaemon name (d\<lparr>dtRunning := False, dtCloser := False\<rparr>)
       (dm\<lparr>dmRuntime := r, dmClosed := (if dtCloser d then dmClosed dm @ [name] else dmClosed dm)\<rparr>)"

definition reconcileDaemon :: "string \<Rightarrow> DaemonSetManager \<Rightarrow> DaemonSetManager option" where
  "reconcileDaemon name dm =
     (case map_of (dmDaemons dm) name of
        None \<Rightarrow> Some dm
      | Some d \<Rightarrow>
          if shouldRunLocally (dtSpec d) dm
          then if dtRunning d then Some dm
               else Some (case dtCreate d of
                      Some create \<Rightarrow> startReplicatedDaemon name d create dm
                    | None \<Rightarrow>
                        (case CreateActor (dsName (dtSpec d)) (dsInitialState (dtSpec d)) (dsHandler (dtSpec d))
                                (dsOptions (dtSpec d)) (dmRuntime dm) of
                           Inr r \<Rightarrow> daemonStarted name d r dm
                         | Inl _ \<Rightarrow> dm))
          else if dtRunning d
          then do {
                 (r, _) \<leftarrow> Stop name (fst (UnregisterName name (dmRuntime dm)));
                 Some (daemonStopped name d r dm)
               }
          else Some dm)"

definition reconcileAll :: "DaemonSetManager \<Rightarrow> DaemonSetManager option" where
  "reconcileAll dm = foldOpt reconcileDaemon (map fst (dmDaemons dm)) dm"

definition dm_Reconcile :: "DaemonSetManager \<Rightarrow> DaemonSetManager option" where
  "dm_Reconcile dm = (if dmStarted dm then reconcileAll dm else Some dm)"

definition dm_Start :: "DaemonSetManager \<Rightarrow> DaemonSetManager option" where
  "dm_Start dm = reconcileAll (dm\<lparr>dmCanceled := False, dmStarted := True\<rparr>)"

definition registerDaemon :: "daemonState \<Rightarrow> DaemonSetManager \<Rightarrow> DaemonSetManager option" where
  "registerDaemon d dm =
     (let name = dsName (dtSpec d); dm = setDaemon name d dm
      in if dmStarted dm then reconcileDaemon name dm else Some dm)"

definition dm_Register :: "DaemonSpec \<Rightarrow> DaemonSetManager \<Rightarrow> DaemonSetManager option" where
  "dm_Register spec dm = registerDaemon \<lparr>dtSpec = spec, dtRunning = False, dtCreate = None, dtCloser = False\<rparr> dm"

definition RegisterReplicated ::
    "string \<Rightarrow> (u64 \<Rightarrow> bool \<Rightarrow> any \<times> handler) \<Rightarrow> NodeMatcher option \<Rightarrow> DaemonSetManager \<Rightarrow> DaemonSetManager option" where
  "RegisterReplicated name create placement dm =
     registerDaemon \<lparr>dtSpec = \<lparr>dsName = name, dsInitialState = NilAny, dsHandler = None, dsOptions = defaultActorConfig,
        dsPlacement = placement\<rparr>, dtRunning = False, dtCreate = Some create, dtCloser = False\<rparr> dm"

definition RegisterCronDaemon :: "string \<Rightarrow> NodeMatcher option \<Rightarrow> DaemonSetManager \<Rightarrow> DaemonSetManager option" where
  "RegisterCronDaemon cronID placement dm =
     (let cronID = (if cronID = '''' then DefaultCronActorID else cronID);
          (r, h) = CronHandler cronID (dmRuntime dm)
      in dm_Register \<lparr>dsName = cronID, dsInitialState = NilAny, dsHandler = Some h,
           dsOptions = WithMailboxCapacity 65536 defaultActorConfig, dsPlacement = placement\<rparr> (dm\<lparr>dmRuntime := r\<rparr>))"

definition stopDaemon :: "string \<Rightarrow> DaemonSetManager \<Rightarrow> DaemonSetManager option" where
  "stopDaemon name dm =
     (case map_of (dmDaemons dm) name of
        None \<Rightarrow> Some dm
      | Some d \<Rightarrow> if dtRunning d
                 then map_option (\<lambda>(r, _). daemonStopped name d r dm) (Stop name (dmRuntime dm))
                 else Some dm)"

definition dm_Stop :: "DaemonSetManager \<Rightarrow> DaemonSetManager option" where
  "dm_Stop dm = foldOpt stopDaemon (map fst (dmDaemons dm)) (dm\<lparr>dmCanceled := True, dmStarted := False\<rparr>)"

definition dm_Running :: "DaemonSetManager \<Rightarrow> string list" where
  "dm_Running dm = map fst (filter (\<lambda>(name, d). dtRunning d) (dmDaemons dm))"

section \<open>Messages to daemons\<close>

definition pidOutcomeFromSubmit :: "SubmitResult \<Rightarrow> PIDDeliveryOutcome" where
  "pidOutcomeFromSubmit result = (if result = SubmitAccepted then PIDDelivered else PIDRejectedNotFound)"

definition isLocalNode :: "NodeID \<Rightarrow> DaemonSetManager \<Rightarrow> bool" where
  "isLocalNode nodeID dm \<longleftrightarrow> nodeID = rtNodeID (dmRuntime dm) \<or> dmCluster dm = None \<and> nodeID = ''''"

definition daemonEnvelope :: "NodeID \<Rightarrow> NodeID \<Rightarrow> string \<Rightarrow> any \<Rightarrow> string \<Rightarrow> Envelope" where
  "daemonEnvelope self nodeID name payload encoded =
     \<lparr> enSenderNode = self, enSenderActorID = '''', enTargetNode = nodeID, enTargetActorID = name,
       enNamespace = '''', enGeneration = 0, enTypeName = messageTypeName payload, enSchemaVersion = '''', enMessageID = 0,
       enPayload = encoded, enIsAsk = False, enAskRequestID = '''', enAskReplyTo = None \<rparr>"

definition SendTo :: "string \<Rightarrow> NodeID \<Rightarrow> any \<Rightarrow> DaemonSetManager \<Rightarrow> (DaemonSetManager \<times> PIDSendAck) option" where
  "SendTo name nodeID payload dm =
     (if isLocalNode nodeID dm
      then map_option (\<lambda>(r, ack). (dm\<lparr>dmRuntime := r\<rparr>,
             \<lparr>psaOutcome = pidOutcomeFromSubmit (saResult ack), psaMessageID = saMessageID ack\<rparr>)) (Send name payload (dmRuntime dm))
      else case (dmCluster dm, dmCodec dm) of
             (Some c, Some cd) \<Rightarrow>
               Some (case cdEncode cd payload of
                  None \<Rightarrow> (dm, \<lparr>psaOutcome = PIDRejectedNotFound, psaMessageID = 0\<rparr>)
                | Some encoded \<Rightarrow>
                    (let (c, err) = SendRemote nodeID (daemonEnvelope (LocalNodeID c) nodeID name payload encoded) c
                     in (dm\<lparr>dmCluster := Some c\<rparr>,
                         \<lparr>psaOutcome = (if err = None then PIDDelivered else PIDUnresolved), psaMessageID = 0\<rparr>)))
           | _ \<Rightarrow> Some (dm, \<lparr>psaOutcome = PIDRejectedNotFound, psaMessageID = 0\<rparr>))"

text \<open>\<open>AskTo\<close> up to the wait of the ask it makes.\<close>

definition AskTo :: "string \<Rightarrow> NodeID \<Rightarrow> any \<Rightarrow> int \<Rightarrow> DaemonSetManager \<Rightarrow> (DaemonSetManager \<times> (error + pendingAsk)) option" where
  "AskTo name nodeID payload timeout dm =
     map_option (\<lambda>(r, res). (dm\<lparr>dmRuntime := r\<rparr>, res))
       (if isLocalNode nodeID dm then AskBegin name payload timeout (dmRuntime dm)
        else AskPIDBegin \<lparr>pidNamespace = nodeID, pidActorID = name, pidGeneration = 1\<rparr> payload timeout (dmRuntime dm))"

fun sendToEach :: "string \<Rightarrow> any \<Rightarrow> NodeID list \<Rightarrow> DaemonSetManager \<Rightarrow> (DaemonSetManager \<times> PIDSendAck list) option" where
  "sendToEach name payload [] dm = Some (dm, [])"
| "sendToEach name payload (n # ns) dm = do {
     (dm, ack) \<leftarrow> SendTo name n payload dm;
     (dm, acks) \<leftarrow> sendToEach name payload ns dm;
     Some (dm, ack # acks)
   }"

definition dm_Broadcast :: "string \<Rightarrow> any \<Rightarrow> DaemonSetManager \<Rightarrow> (DaemonSetManager \<times> PIDSendAck list) option" where
  "dm_Broadcast name payload dm = sendToEach name payload (matchingNodes name dm) dm"


section \<open>The actors of the runtime under the manager's operations\<close>

definition regKept :: "Runtime \<Rightarrow> Runtime \<Rightarrow> bool" where
  "regKept r r' \<longleftrightarrow> regInv r' \<and> dom (rtRegistry r) \<subseteq> dom (rtRegistry r') \<and> rtNodeID r' = rtNodeID r"

definition sameActors :: "Runtime \<Rightarrow> Runtime \<Rightarrow> bool" where
  "sameActors r r' \<longleftrightarrow> rtRegistry r' = rtRegistry r \<and> rtInsts r' = rtInsts r \<and> rtNodeID r' = rtNodeID r"

lemma RegisterName_actors: "sameActors r (fst (RegisterName a name ns r))"
proof (cases "rt_registry_get r a")
  case (Some p)
  define m where "m = (if ns = '''' then ''default'' else ns)"
  obtain r1 issued where i: "(case PIDForActor r a of
      Some pid \<Rightarrow> if pidNamespace pid = m then (r, Inr pid) else IssuePID m a r
    | None \<Rightarrow> IssuePID m a r) = (r1, issued)" by fastforce
  have "sameActors r (fst (IssuePID m a r))"
    by (simp add: sameActors_def IssuePID_def Let_def split: option.split)
  moreover have "sameActors r r" by (simp add: sameActors_def)
  ultimately have r1: "sameActors r r1" using i by (auto split: option.splits if_splits)
  show ?thesis
  proof (cases issued)
    case (Inr pid)
    obtain nr x where g: "nr_register (rtNames r1) name a pid = (nr, x)" by (cases "nr_register (rtNames r1) name a pid")
    with Some i Inr r1 show ?thesis
      by (cases x) (simp_all add: RegisterName_def Let_def sameActors_def logCall_def flip: m_def)
  qed (use Some i r1 in \<open>simp add: RegisterName_def Let_def flip: m_def\<close>)
qed (simp add: RegisterName_def sameActors_def)

lemma UnregisterName_actors: "sameActors r (fst (UnregisterName name r))"
  by (simp add: UnregisterName_def Let_def sameActors_def logCall_def split: option.splits prod.splits)

lemma sameActors_inv: "sameActors r r' \<Longrightarrow> regInv r' = regInv r"
  by (simp add: sameActors_def regInv_def)

lemma Stop_regKept:
  assumes "Stop a r = Some (r', x)" "regInv r"
  shows "regKept r r' \<and> rtRegistry r' = rtRegistry r"
proof (cases "r' = r")
  case False
  with assms(1) obtain p where p: "rtRegistry r a = Some p" "stopTail p a (setStatus p ActorStopping r) = Some r'"
    by (auto simp: Stop_def rt_registry_get_def split: option.splits if_splits)
  note rel = stopTail_rel [OF p(2) assms(2) p(1)]
  let ?m = "(stopMarked p a r)\<lparr>rtNames := fst (nr_unregisterByActor (rtNames r) a), rtMonitors := fst (mm_drain (rtMonitors r) a)\<rparr>"
  have "regInv ?m" using rel(3) by (simp add: regInv_def)
  then have "regInv r'" using regInv_sendRel [OF rel(2)] by blast
  moreover have "rtRegistry r' = rtRegistry r" "rtNodeID r' = rtNodeID r"
    using sendRelD [OF rel(2)] stopMarked_fields(4) [OF rel(1)] stopMarked_node by simp_all
  ultimately show ?thesis by (simp add: regKept_def)
qed (use assms in \<open>simp add: regKept_def\<close>)

lemma CreateActor_actors:
  assumes "CreateActor a st h cfg r = Inr r'" "regInv r"
  shows "regInv r' \<and> rtNodeID r' = rtNodeID r \<and> dom (rtRegistry r') = insert a (dom (rtRegistry r)) \<and> rtRegistry r a = None"
  using assms by (auto simp: CreateActor_def rt_registry_put_def regInv_def nth_append less_Suc_eq split: if_splits option.splits)

section \<open>One daemon\<close>

lemma setDaemon_fields [simp]:
  "dmRuntime (setDaemon n d dm) = dmRuntime dm" "dmCluster (setDaemon n d dm) = dmCluster dm"
  "dmStarted (setDaemon n d dm) = dmStarted dm" "dmDaemons (setDaemon n d dm) = gomap_put n d (dmDaemons dm)"
  by (simp_all add: setDaemon_def)

lemma CreateActor_iff:
  "(\<exists>r'. CreateActor a st h cfg r = Inr r') \<longleftrightarrow> a \<noteq> '''' \<and> h \<noteq> None \<and> rtRegistry r a = None"
  by (auto simp: CreateActor_def rt_registry_put_def split: option.splits)

lemma daemonStarted_fields:
  assumes "CreateActor n st h cfg (dmRuntime dm) = Inr r" "regInv (dmRuntime dm)" "dsName (dtSpec d) = n"
  shows "regInv (dmRuntime (daemonStarted n d r dm)) \<and> rtNodeID (dmRuntime (daemonStarted n d r dm)) = rtNodeID (dmRuntime dm) \<and>
    dom (rtRegistry (dmRuntime (daemonStarted n d r dm))) = insert n (dom (rtRegistry (dmRuntime dm))) \<and>
    dmDaemons (daemonStarted n d r dm) = gomap_put n (d\<lparr>dtRunning := True\<rparr>) (dmDaemons dm) \<and>
    dmCluster (daemonStarted n d r dm) = dmCluster dm"
  using CreateActor_actors [OF assms(1,2)] assms(3) RegisterName_actors [of r n n "rtNodeID r"]
    sameActors_inv [OF RegisterName_actors [of r n n "rtNodeID r"]]
  by (simp add: daemonStarted_def Let_def sameActors_def)

text \<open>Whether a daemon that does not run can be started: its actor ID is free and it has a handler.\<close>

definition startable :: "daemonState \<Rightarrow> DaemonSetManager \<Rightarrow> bool" where
  "startable d dm \<longleftrightarrow> dsName (dtSpec d) \<noteq> '''' \<and> (dtCreate d \<noteq> None \<or> dsHandler (dtSpec d) \<noteq> None) \<and>
     rtRegistry (dmRuntime dm) (dsName (dtSpec d)) = None"

text \<open>What a step of the manager on one daemon leaves alone.\<close>

definition onlyDaemon :: "string \<Rightarrow> DaemonSetManager \<Rightarrow> DaemonSetManager \<Rightarrow> bool" where
  "onlyDaemon n dm dm' \<longleftrightarrow> regKept (dmRuntime dm) (dmRuntime dm') \<and> dmCluster dm' = dmCluster dm \<and> dmStarted dm' = dmStarted dm \<and>
     map fst (dmDaemons dm') = map fst (dmDaemons dm) \<and>
     (\<forall>k. k \<noteq> n \<longrightarrow> map_of (dmDaemons dm') k = map_of (dmDaemons dm) k \<and>
        (rtRegistry (dmRuntime dm') k = None \<longleftrightarrow> rtRegistry (dmRuntime dm) k = None))"

lemma onlyDaemon_same: "regInv (dmRuntime dm) \<Longrightarrow> onlyDaemon n dm dm"
  by (simp add: onlyDaemon_def regKept_def)

lemma map_fst_put: "map_of m k = Some v \<Longrightarrow> map fst (gomap_put k v' m) = map fst m"
  using update_keys [of k v' m] by (force simp: dest: map_of_SomeD)

lemma daemonStarted_only:
  assumes "CreateActor n st h cfg (dmRuntime dm) = Inr r" "regInv (dmRuntime dm)" "dsName (dtSpec d) = n" "map_of (dmDaemons dm) n = Some d0"
  shows "onlyDaemon n dm (daemonStarted n d r dm) \<and> map_of (dmDaemons (daemonStarted n d r dm)) n = Some (d\<lparr>dtRunning := True\<rparr>) \<and>
    rtRegistry (dmRuntime (daemonStarted n d r dm)) n \<noteq> None"
proof -
  note f = daemonStarted_fields [OF assms(1-3)]
  then have "rtRegistry (dmRuntime (daemonStarted n d r dm)) k = None \<longleftrightarrow> k \<noteq> n \<and> rtRegistry (dmRuntime dm) k = None" for k
    by (metis domIff insert_iff)
  moreover have "dmStarted (daemonStarted n d r dm) = dmStarted dm" by (simp add: daemonStarted_def Let_def)
  ultimately show ?thesis
    using f map_fst_put [OF assms(4)] by (auto simp: onlyDaemon_def regKept_def update_conv')
qed


definition startResult :: "daemonState \<Rightarrow> DaemonSetManager \<Rightarrow> error + Runtime" where
  "startResult d dm =
     (case dtCreate d of
        None \<Rightarrow> CreateActor (dsName (dtSpec d)) (dsInitialState (dtSpec d)) (dsHandler (dtSpec d)) (dsOptions (dtSpec d)) (dmRuntime dm)
      | Some create \<Rightarrow> case create (nodeIDToReplicaID (rtNodeID (dmRuntime dm))) (dmCluster dm \<noteq> None) of
          (state, h) \<Rightarrow> CreateActor (dsName (dtSpec d)) state (Some h) (dsOptions (dtSpec d)) (dmRuntime dm))"

lemma startResult_ok: "(\<exists>r. startResult d dm = Inr r) \<longleftrightarrow> startable d dm"
  by (auto simp: startResult_def startable_def CreateActor_iff split: option.split prod.split)

text \<open>The manager with what a start of a replicated daemon writes beside the daemon.\<close>

lemma reconcile_started:
  assumes "map_of (dmDaemons dm) n = Some d" "\<not> dtRunning d" "shouldRunLocally (dtSpec d) dm"
  obtains dm1 b where "dmRuntime dm1 = dmRuntime dm" "dmDaemons dm1 = dmDaemons dm" "dmCluster dm1 = dmCluster dm" "dmStarted dm1 = dmStarted dm"
    "reconcileDaemon n dm = Some (case startResult d dm of Inl _ \<Rightarrow> dm1 | Inr r \<Rightarrow> daemonStarted n (d\<lparr>dtCloser := b\<rparr>) r dm1)"
proof (cases "dtCreate d")
  case None
  with assms show thesis by (intro that [of dm "dtCloser d"]) (simp_all add: reconcileDaemon_def startResult_def split: sum.split)
next
  case (Some create)
  let ?n = "dsName (dtSpec d)"
  define dm0 where "dm0 = (if dmCluster dm \<noteq> None
    then dm\<lparr>dmDispatcher := map_option (RegisterHandler (''__crdt_'' @ ?n)) (dmDispatcher dm)\<rparr> else dm)"
  have f: "dmRuntime dm0 = dmRuntime dm" "dmDaemons dm0 = dmDaemons dm" "dmCluster dm0 = dmCluster dm" "dmStarted dm0 = dmStarted dm"
    by (simp_all add: dm0_def)
  have "startReplicatedDaemon n d create dm =
      (case startResult d dm of Inl _ \<Rightarrow> dm0\<lparr>dmClosed := dmClosed dm0 @ [?n]\<rparr> | Inr r \<Rightarrow> daemonStarted n (d\<lparr>dtCloser := True\<rparr>) r dm0)"
    unfolding startReplicatedDaemon_def Let_def dm0_def [symmetric] startResult_def Some by (simp add: f split: sum.split prod.split)
  then have rec: "reconcileDaemon n dm = Some
      (case startResult d dm of Inl _ \<Rightarrow> dm0\<lparr>dmClosed := dmClosed dm0 @ [?n]\<rparr> | Inr r \<Rightarrow> daemonStarted n (d\<lparr>dtCloser := True\<rparr>) r dm0)"
    using assms Some by (simp add: reconcileDaemon_def)
  show thesis
  proof (cases "startResult d dm")
    case (Inl e)
    with f rec show thesis by (intro that [of "dm0\<lparr>dmClosed := dmClosed dm0 @ [?n]\<rparr>" True]) simp_all
  next
    case (Inr r)
    with f rec show thesis by (intro that [of dm0 True]) simp_all
  qed
qed

lemma reconcile_step:
  assumes d: "map_of (dmDaemons dm) n = Some d" "dsName (dtSpec d) = n" "regInv (dmRuntime dm)"
    and step: "reconcileDaemon n dm = Some dm'"
  shows "onlyDaemon n dm dm' \<and> (\<exists>d'. map_of (dmDaemons dm') n = Some d' \<and> dtSpec d' = dtSpec d \<and> dtCreate d' = dtCreate d \<and>
    (dtRunning d' \<longleftrightarrow> shouldRunLocally (dtSpec d) dm \<and> (dtRunning d \<or> startable d dm)) \<and>
    (rtRegistry (dmRuntime dm') n = None \<longleftrightarrow>
       rtRegistry (dmRuntime dm) n = None \<and> \<not> (shouldRunLocally (dtSpec d) dm \<and> \<not> dtRunning d \<and> startable d dm)))"
proof (cases "shouldRunLocally (dtSpec d) dm")
  case run: True
  show ?thesis
  proof (cases "dtRunning d")
    case True
    with run d step show ?thesis by (simp add: reconcileDaemon_def onlyDaemon_same)
  next
    case False
    from reconcile_started [OF d(1) False run] obtain dm1 b where
      f: "dmRuntime dm1 = dmRuntime dm" "dmDaemons dm1 = dmDaemons dm" "dmCluster dm1 = dmCluster dm" "dmStarted dm1 = dmStarted dm"
      and s: "reconcileDaemon n dm = Some (case startResult d dm of Inl _ \<Rightarrow> dm1 | Inr r \<Rightarrow> daemonStarted n (d\<lparr>dtCloser := b\<rparr>) r dm1)"
      by metis
    have o: "onlyDaemon n dm x = onlyDaemon n dm1 x" for x by (simp add: onlyDaemon_def f)
    show ?thesis
    proof (cases "startResult d dm")
      case (Inl e)
      then have "\<not> startable d dm" using startResult_ok [of d dm] by auto
      with Inl s step f d False show ?thesis using onlyDaemon_same [of dm1 n] by (simp add: o)
    next
      case (Inr r)
      then have st: "startable d dm" using startResult_ok [of d dm] by auto
      from Inr d(2) obtain state h cfg where "CreateActor n state h cfg (dmRuntime dm1) = Inr r"
        by (auto simp: startResult_def f split: option.splits prod.splits)
      from daemonStarted_only [OF this, of "d\<lparr>dtCloser := b\<rparr>" d] d f Inr s step st run False show ?thesis by (simp add: o)
    qed
  qed
next
  case False
  show ?thesis
  proof (cases "dtRunning d")
    case True
    let ?r = "fst (UnregisterName n (dmRuntime dm))"
    from True False d(1) step obtain r x where s: "Stop n ?r = Some (r, x)" "dm' = daemonStopped n d r dm"
      by (auto simp: reconcileDaemon_def split: bind_splits)
    have u: "sameActors (dmRuntime dm) ?r" by (rule UnregisterName_actors)
    from Stop_regKept [OF s(1)] sameActors_inv [OF u] d(3) have "regKept ?r r" "rtRegistry r = rtRegistry ?r" by simp_all
    with u have "regKept (dmRuntime dm) r" "rtRegistry r = rtRegistry (dmRuntime dm)" by (simp_all add: regKept_def sameActors_def)
    with False s(2) d(1) map_fst_put [OF d(1)] show ?thesis
      by (simp add: daemonStopped_def onlyDaemon_def update_conv')
  next
    case stopped: False
    with False d step show ?thesis by (simp add: reconcileDaemon_def onlyDaemon_same)
  qed
qed

lemma reconcile_total:
  assumes "map_of (dmDaemons dm) n = Some d" "\<not> dtRunning d \<or> shouldRunLocally (dtSpec d) dm"
  shows "\<exists>dm'. reconcileDaemon n dm = Some dm'"
  using assms by (auto simp: reconcileDaemon_def)


section \<open>Reconciliation\<close>

definition namesOk :: "DaemonSetManager \<Rightarrow> bool" where
  "namesOk dm \<longleftrightarrow> (\<forall>n d. map_of (dmDaemons dm) n = Some d \<longrightarrow> dsName (dtSpec d) = n)"

lemma onlyDaemonD:
  assumes "onlyDaemon n dm dm'"
  shows "regInv (dmRuntime dm')" "shouldRunLocally spec dm' = shouldRunLocally spec dm"
    "k \<noteq> n \<Longrightarrow> map_of (dmDaemons dm') k = map_of (dmDaemons dm) k"
    "k \<noteq> n \<Longrightarrow> rtRegistry (dmRuntime dm') k = None \<longleftrightarrow> rtRegistry (dmRuntime dm) k = None"
  using assms by (auto simp: onlyDaemon_def regKept_def shouldRunLocally_def split: option.split)

lemma reconcile_namesOk:
  assumes "namesOk dm" "regInv (dmRuntime dm)" "reconcileDaemon n dm = Some dm'"
  shows "namesOk dm' \<and> onlyDaemon n dm dm'"
proof (cases "map_of (dmDaemons dm) n")
  case None
  with assms show ?thesis by (simp add: reconcileDaemon_def onlyDaemon_same)
next
  case (Some d)
  with assms(1) have "dsName (dtSpec d) = n" by (simp add: namesOk_def)
  from reconcile_step [OF Some this assms(2,3)] obtain d' where o: "onlyDaemon n dm dm'"
    and d': "map_of (dmDaemons dm') n = Some d'" "dtSpec d' = dtSpec d" by blast
  have "dsName (dtSpec x) = k" if "map_of (dmDaemons dm') k = Some x" for k x
    using that d' \<open>dsName (dtSpec d) = n\<close> onlyDaemonD(3) [OF o, of k] assms(1) by (cases "k = n") (auto simp: namesOk_def)
  with o show ?thesis by (simp add: namesOk_def)
qed

text \<open>What a reconciliation makes of the daemon \<open>n\<close>.\<close>

definition reconciled :: "DaemonSetManager \<Rightarrow> string \<Rightarrow> daemonState \<Rightarrow> DaemonSetManager \<Rightarrow> bool" where
  "reconciled dm n d dm' \<longleftrightarrow> (\<exists>d'. map_of (dmDaemons dm') n = Some d' \<and>
     (dtRunning d' \<longleftrightarrow> shouldRunLocally (dtSpec d) dm \<and> (dtRunning d \<or> startable d dm)) \<and>
     (rtRegistry (dmRuntime dm') n = None \<longleftrightarrow>
        rtRegistry (dmRuntime dm) n = None \<and> \<not> (shouldRunLocally (dtSpec d) dm \<and> \<not> dtRunning d \<and> startable d dm)))"

lemma reconcile_list:
  assumes "foldOpt reconcileDaemon ns dm = Some dm'" "distinct ns" "namesOk dm" "regInv (dmRuntime dm)"
  shows "(\<forall>n\<in>set ns. \<forall>d. map_of (dmDaemons dm) n = Some d \<longrightarrow> reconciled dm n d dm') \<and>
    (\<forall>n. n \<notin> set ns \<longrightarrow> map_of (dmDaemons dm') n = map_of (dmDaemons dm) n \<and>
       (rtRegistry (dmRuntime dm') n = None \<longleftrightarrow> rtRegistry (dmRuntime dm) n = None))"
  using assms
proof (induction ns arbitrary: dm)
  case (Cons n ns)
  from Cons.prems(1) obtain dm1 where s: "reconcileDaemon n dm = Some dm1" "foldOpt reconcileDaemon ns dm1 = Some dm'"
    by (auto split: option.splits)
  from reconcile_namesOk [OF Cons.prems(3,4) s(1)] have nm: "namesOk dm1" and o: "onlyDaemon n dm dm1" by blast+
  from Cons.IH [OF s(2) _ nm onlyDaemonD(1) [OF o]] Cons.prems(2)
  have ih: "\<And>k d. k \<in> set ns \<Longrightarrow> map_of (dmDaemons dm1) k = Some d \<Longrightarrow> reconciled dm1 k d dm'"
    "\<And>k. k \<notin> set ns \<Longrightarrow> map_of (dmDaemons dm') k = map_of (dmDaemons dm1) k \<and>
       (rtRegistry (dmRuntime dm') k = None \<longleftrightarrow> rtRegistry (dmRuntime dm1) k = None)" by simp_all
  have "reconciled dm k d dm'" if k: "k \<in> set (n # ns)" "map_of (dmDaemons dm) k = Some d" for k d
  proof (cases "k = n")
    case True
    with k Cons.prems(2,3) have "n \<notin> set ns" "map_of (dmDaemons dm) n = Some d" "dsName (dtSpec d) = n" by (simp_all add: namesOk_def)
    with reconcile_step [OF this(2,3) Cons.prems(4) s(1)] ih(2) [of n] True show ?thesis by (auto simp: reconciled_def)
  next
    case False
    with k Cons.prems(2,3) have m: "k \<in> set ns" "dsName (dtSpec d) = k" "map_of (dmDaemons dm1) k = Some d"
      by (simp_all add: namesOk_def onlyDaemonD(3) [OF o])
    have "startable d dm1 = startable d dm" using onlyDaemonD(4) [OF o False] m(2) by (simp add: startable_def)
    with ih(1) [OF m(1,3)] onlyDaemonD(2,4) [OF o] False show ?thesis by (simp add: reconciled_def)
  qed
  with ih(2) onlyDaemonD(3,4) [OF o] show ?case by auto
qed simp

text \<open>What a reconciliation does to the actors of the daemons.\<close>

definition statusAfter :: "DaemonSetManager \<Rightarrow> string \<Rightarrow> daemonState \<Rightarrow> ActorStatus" where
  "statusAfter dm n d =
     (if shouldRunLocally (dtSpec d) dm
      then if \<not> dtRunning d \<and> startable d dm then ActorStarting else Status (dmRuntime dm) n
      else if dtRunning d then ActorStopped else Status (dmRuntime dm) n)"

lemma Status_same: "sameActors r r' \<Longrightarrow> Status r' a = Status r a"
  by (simp add: sameActors_def Status_def rt_registry_get_def split: option.split)

lemma reconcile_status:
  assumes d: "map_of (dmDaemons dm) n = Some d" "dsName (dtSpec d) = n" "regInv (dmRuntime dm)"
    and step: "reconcileDaemon n dm = Some dm'"
  shows "Status (dmRuntime dm') n = statusAfter dm n d" "k \<noteq> n \<Longrightarrow> Status (dmRuntime dm') k = Status (dmRuntime dm) k"
proof -
  have "Status (dmRuntime dm') n = statusAfter dm n d \<and> (k \<noteq> n \<longrightarrow> Status (dmRuntime dm') k = Status (dmRuntime dm) k)"
  proof (cases "shouldRunLocally (dtSpec d) dm = dtRunning d")
    case True
    with step d(1) show ?thesis by (auto simp: reconcileDaemon_def statusAfter_def)
  next
    case False
    show ?thesis
    proof (cases "dtRunning d")
      case True
      let ?r = "fst (UnregisterName n (dmRuntime dm))"
      from True False d(1) step obtain r x where s: "Stop n ?r = Some (r, x)" "dmRuntime dm' = r"
        by (auto simp: reconcileDaemon_def daemonStopped_def split: bind_splits)
      have u: "sameActors (dmRuntime dm) ?r" by (rule UnregisterName_actors)
      then have inv: "regInv ?r" using sameActors_inv d(3) by blast
      from Stop_status [OF s(1) inv] Status_kept [OF Stop_kept [OF s(1) inv]] Status_same [OF u] True False s(2) show ?thesis
        by (simp add: statusAfter_def)
    next
      case off: False
      with False have run: "shouldRunLocally (dtSpec d) dm" by simp
      from reconcile_started [OF d(1) off run] obtain dm1 b where f: "dmRuntime dm1 = dmRuntime dm"
        and s: "reconcileDaemon n dm = Some (case startResult d dm of Inl _ \<Rightarrow> dm1 | Inr r \<Rightarrow> daemonStarted n (d\<lparr>dtCloser := b\<rparr>) r dm1)"
        by metis
      show ?thesis
      proof (cases "startResult d dm")
        case (Inl e)
        then have "\<not> startable d dm" using startResult_ok [of d dm] by auto
        with Inl s step f run off show ?thesis by (simp add: statusAfter_def)
      next
        case (Inr r)
        then have st: "startable d dm" using startResult_ok [of d dm] by auto
        from Inr d(2) obtain state h cfg where c: "CreateActor n state h cfg (dmRuntime dm) = Inr r"
          by (auto simp: startResult_def split: option.splits prod.splits)
        have "dmRuntime dm' = fst (RegisterName n n (rtNodeID r) r)" using s step Inr d(2) by (simp add: daemonStarted_def Let_def)
        with Status_same [OF RegisterName_actors] CreateActor_status [OF c] Status_kept [OF CreateActor_kept [OF c d(3)]] run off st
        show ?thesis by (simp add: statusAfter_def)
      qed
    qed
  qed
  then show "Status (dmRuntime dm') n = statusAfter dm n d" "k \<noteq> n \<Longrightarrow> Status (dmRuntime dm') k = Status (dmRuntime dm) k" by blast+
qed

lemma reconcile_list_status:
  assumes "foldOpt reconcileDaemon ns dm = Some dm'" "distinct ns" "namesOk dm" "regInv (dmRuntime dm)"
  shows "(\<forall>n\<in>set ns. \<forall>d. map_of (dmDaemons dm) n = Some d \<longrightarrow> Status (dmRuntime dm') n = statusAfter dm n d) \<and>
    (\<forall>n. n \<notin> set ns \<longrightarrow> Status (dmRuntime dm') n = Status (dmRuntime dm) n)"
  using assms
proof (induction ns arbitrary: dm)
  case (Cons n ns)
  from Cons.prems(1) obtain dm1 where s: "reconcileDaemon n dm = Some dm1" "foldOpt reconcileDaemon ns dm1 = Some dm'"
    by (auto split: option.splits)
  from reconcile_namesOk [OF Cons.prems(3,4) s(1)] have nm: "namesOk dm1" and o: "onlyDaemon n dm dm1" by blast+
  from Cons.IH [OF s(2) _ nm onlyDaemonD(1) [OF o]] Cons.prems(2)
  have ih: "\<And>k d. k \<in> set ns \<Longrightarrow> map_of (dmDaemons dm1) k = Some d \<Longrightarrow> Status (dmRuntime dm') k = statusAfter dm1 k d"
    "\<And>k. k \<notin> set ns \<Longrightarrow> Status (dmRuntime dm') k = Status (dmRuntime dm1) k" by simp_all
  have other: "Status (dmRuntime dm1) k = Status (dmRuntime dm) k" if "k \<noteq> n" for k
  proof (cases "map_of (dmDaemons dm) n")
    case (Some d)
    with Cons.prems(3) have "dsName (dtSpec d) = n" by (simp add: namesOk_def)
    from reconcile_status(2) [OF Some this Cons.prems(4) s(1) that] show ?thesis .
  qed (use s(1) in \<open>simp add: reconcileDaemon_def\<close>)
  have "Status (dmRuntime dm') k = statusAfter dm k d" if k: "k \<in> set (n # ns)" "map_of (dmDaemons dm) k = Some d" for k d
  proof (cases "k = n")
    case True
    with k Cons.prems(2,3) have "n \<notin> set ns" "map_of (dmDaemons dm) n = Some d" "dsName (dtSpec d) = n" by (simp_all add: namesOk_def)
    with reconcile_status(1) [OF this(2,3) Cons.prems(4) s(1)] ih(2) [of n] True show ?thesis by simp
  next
    case False
    with k Cons.prems(2,3) have m: "k \<in> set ns" "dsName (dtSpec d) = k" "map_of (dmDaemons dm1) k = Some d"
      by (simp_all add: namesOk_def onlyDaemonD(3) [OF o])
    have "startable d dm1 = startable d dm" using onlyDaemonD(4) [OF o False] m(2) by (simp add: startable_def)
    with ih(1) [OF m(1,3)] onlyDaemonD(2) [OF o] other [OF False] show ?thesis by (simp add: statusAfter_def)
  qed
  with ih(2) other show ?case by auto
qed simp

lemma running_iff: "gomap_ok (dmDaemons dm) \<Longrightarrow> n \<in> set (dm_Running dm) \<longleftrightarrow> (\<exists>d. map_of (dmDaemons dm) n = Some d \<and> dtRunning d)"
  by (force simp: dm_Running_def gomap_ok_def dest: map_of_SomeD)

lemma reconcile_keys:
  assumes "foldOpt reconcileDaemon ns dm = Some dm'" "namesOk dm" "regInv (dmRuntime dm)"
  shows "map fst (dmDaemons dm') = map fst (dmDaemons dm) \<and> namesOk dm' \<and> regInv (dmRuntime dm')"
proof -
  let ?P = "\<lambda>x. map fst (dmDaemons x) = map fst (dmDaemons dm) \<and> namesOk x \<and> regInv (dmRuntime x)"
  have "?P dm'"
  proof (rule foldOpt_inv [OF assms(1), of ?P])
    fix n x x' assume x: "?P x" "reconcileDaemon n x = Some x'"
    from reconcile_namesOk [of x n x'] x have "namesOk x' \<and> onlyDaemon n x x'" by blast
    with x(1) show "?P x'" by (simp add: onlyDaemon_def regKept_def)
  qed (use assms in simp)
  then show ?thesis by blast
qed

lemma reconcile_list_total:
  assumes "distinct ns" "namesOk dm" "regInv (dmRuntime dm)"
    and "\<forall>n\<in>set ns. \<forall>d. map_of (dmDaemons dm) n = Some d \<longrightarrow> dtRunning d \<longrightarrow> shouldRunLocally (dtSpec d) dm"
  shows "\<exists>dm'. foldOpt reconcileDaemon ns dm = Some dm'"
  using assms
proof (induction ns arbitrary: dm)
  case (Cons n ns)
  obtain dm1 where s: "reconcileDaemon n dm = Some dm1"
    using Cons.prems(4) reconcile_total [of dm n] by (cases "map_of (dmDaemons dm) n") (auto simp: reconcileDaemon_def)
  from reconcile_namesOk [OF Cons.prems(2,3) s] have nm: "namesOk dm1" and o: "onlyDaemon n dm dm1" by blast+
  have "\<forall>k\<in>set ns. \<forall>d. map_of (dmDaemons dm1) k = Some d \<longrightarrow> dtRunning d \<longrightarrow> shouldRunLocally (dtSpec d) dm1"
  proof (intro ballI allI impI)
    fix k d assume k: "k \<in> set ns" "map_of (dmDaemons dm1) k = Some d" "dtRunning d"
    with Cons.prems(1) have "k \<noteq> n" by auto
    with k Cons.prems(4) onlyDaemonD(2,3) [OF o] show "shouldRunLocally (dtSpec d) dm1" by simp
  qed
  with Cons.IH [OF _ nm onlyDaemonD(1) [OF o]] Cons.prems(1) s show ?case by simp
qed simp

text \<open>
  Claim C29. A reconciliation of a started manager, whose table has each daemon once and under its own
  name and whose runtime's registry is consistent, leaves marked as running exactly the daemons that
  the node's metadata places on it, of those that were so before or can be started (they have a
  name and a handler, and their actor ID is free). The actors of the daemons it starts exist and
  are starting; the actors of running daemons that the placement no longer accepts are stopped;
  the actors of all other daemons keep their status. It always returns when no running daemon has to
  be stopped.
\<close>

theorem reconcile_runs_placed_daemons:
  assumes dm: "dmStarted dm" "gomap_ok (dmDaemons dm)" "namesOk dm" "regInv (dmRuntime dm)"
  shows "((\<forall>n d. map_of (dmDaemons dm) n = Some d \<longrightarrow> dtRunning d \<longrightarrow> shouldRunLocally (dtSpec d) dm) \<longrightarrow> dm_Reconcile dm \<noteq> None) \<and>
    (\<forall>dm' n d. dm_Reconcile dm = Some dm' \<longrightarrow> map_of (dmDaemons dm) n = Some d \<longrightarrow>
       (n \<in> set (dm_Running dm') \<longleftrightarrow> shouldRunLocally (dtSpec d) dm \<and> (dtRunning d \<or> startable d dm)) \<and>
       (n \<in> set (dm_Running dm') \<and> \<not> dtRunning d \<longrightarrow> rtRegistry (dmRuntime dm') n \<noteq> None) \<and>
       Status (dmRuntime dm') n =
         (if shouldRunLocally (dtSpec d) dm
          then if \<not> dtRunning d \<and> startable d dm then ActorStarting else Status (dmRuntime dm) n
          else if dtRunning d then ActorStopped else Status (dmRuntime dm) n))"
proof (intro conjI impI allI)
  let ?ns = "map fst (dmDaemons dm)"
  have dist: "distinct ?ns" using dm(2) by (simp add: gomap_ok_def)
  assume "\<forall>n d. map_of (dmDaemons dm) n = Some d \<longrightarrow> dtRunning d \<longrightarrow> shouldRunLocally (dtSpec d) dm"
  with reconcile_list_total [OF dist dm(3,4)] dm(1) show "dm_Reconcile dm \<noteq> None" by (auto simp: dm_Reconcile_def reconcileAll_def)
next
  fix dm' n d
  assume s: "dm_Reconcile dm = Some dm'" and d: "map_of (dmDaemons dm) n = Some d"
  then have s': "foldOpt reconcileDaemon (map fst (dmDaemons dm)) dm = Some dm'" using dm(1) by (simp add: dm_Reconcile_def reconcileAll_def)
  have ok: "gomap_ok (dmDaemons dm')" using reconcile_keys [OF s' dm(3,4)] dm(2) by (simp add: gomap_ok_def)
  have mem: "n \<in> set (map fst (dmDaemons dm))" using d by (force dest: map_of_SomeD)
  show "Status (dmRuntime dm') n = (if shouldRunLocally (dtSpec d) dm
      then if \<not> dtRunning d \<and> startable d dm then ActorStarting else Status (dmRuntime dm) n
      else if dtRunning d then ActorStopped else Status (dmRuntime dm) n)"
    using reconcile_list_status [OF s' _ dm(3,4), THEN conjunct1] mem d dm(2) unfolding gomap_ok_def statusAfter_def by blast
  from mem have rec: "reconciled dm n d dm'"
    using reconcile_list [OF s' _ dm(3,4), THEN conjunct1] d dm(2) unfolding gomap_ok_def by blast
  then show run: "n \<in> set (dm_Running dm') \<longleftrightarrow> shouldRunLocally (dtSpec d) dm \<and> (dtRunning d \<or> startable d dm)"
    by (auto simp: running_iff [OF ok] reconciled_def)
  assume "n \<in> set (dm_Running dm') \<and> \<not> dtRunning d"
  with run rec show "rtRegistry (dmRuntime dm') n \<noteq> None" by (auto simp: reconciled_def)
qed


definition exDaemon :: "string \<Rightarrow> NodeMatcher option \<Rightarrow> daemonState" where
  "exDaemon n placement = \<lparr>dtSpec = \<lparr>dsName = n, dsInitialState = NilAny, dsHandler = Some exHandler, dsOptions = defaultActorConfig,
     dsPlacement = placement\<rparr>, dtRunning = False, dtCreate = None, dtCloser = False\<rparr>"

definition exDaemons :: DaemonSetManager where
  "exDaemons = (NewDaemonSetManager (NewRuntime None ''n'' noHooks True (\<lambda>_. 0) 4 (\<lambda>_. None)) None None None)\<lparr>dmStarted := True,
     dmDaemons := [(''d'', exDaemon ''d'' None), (''e'', exDaemon ''e'' (Some (TagEquals ''role'' ''web'')))]\<rparr>"

lemma exDaemons_ok: "dmStarted exDaemons" "gomap_ok (dmDaemons exDaemons)" "namesOk exDaemons" "regInv (dmRuntime exDaemons)"
  "map_of (dmDaemons exDaemons) = [''d'' \<mapsto> exDaemon ''d'' None, ''e'' \<mapsto> exDaemon ''e'' (Some (TagEquals ''role'' ''web''))]"
  by (auto simp: exDaemons_def gomap_ok_def namesOk_def exDaemon_def NewDaemonSetManager_def regInv_def NewRuntime_def split: if_splits)

theorem reconcile_runs_placed_daemons_witness:
  "\<exists>dm'. dm_Reconcile exDaemons = Some dm' \<and> ''d'' \<in> set (dm_Running dm') \<and> ''e'' \<notin> set (dm_Running dm') \<and>
     rtRegistry (dmRuntime dm') ''d'' \<noteq> None"
proof -
  have off: "\<not> dtRunning (exDaemon n p)" for n p by (simp add: exDaemon_def)
  have "\<forall>n d. map_of (dmDaemons exDaemons) n = Some d \<longrightarrow> dtRunning d \<longrightarrow> shouldRunLocally (dtSpec d) exDaemons"
    using off by (auto simp: exDaemons_ok(5) split: if_splits)
  with reconcile_runs_placed_daemons [OF exDaemons_ok(1-4)] obtain dm' where s: "dm_Reconcile exDaemons = Some dm'" by blast
  have "shouldRunLocally (dtSpec (exDaemon ''d'' None)) exDaemons" "startable (exDaemon ''d'' None) exDaemons"
    "\<not> shouldRunLocally (dtSpec (exDaemon ''e'' (Some (TagEquals ''role'' ''web'')))) exDaemons"
    by (simp_all add: shouldRunLocally_def startable_def exDaemon_def exDaemons_def NewDaemonSetManager_def NewRuntime_def TagEquals_def tagOf_def)
  with reconcile_runs_placed_daemons [OF exDaemons_ok(1-4)] s off show ?thesis by (simp add: exDaemons_ok(5))
qed

section \<open>A daemon that has been stopped\<close>

datatype dmOp = DmTags tags | DmReconcile | DmStart | DmStop | DmRegister DaemonSpec

fun dmStep :: "dmOp \<Rightarrow> DaemonSetManager \<Rightarrow> DaemonSetManager option" where
  "dmStep (DmTags ts) dm = Some (dm\<lparr>dmCluster := map_option (UpdateTags ts) (dmCluster dm)\<rparr>)"
| "dmStep DmReconcile dm = dm_Reconcile dm"
| "dmStep DmStart dm = dm_Start dm"
| "dmStep DmStop dm = dm_Stop dm"
| "dmStep (DmRegister spec) dm = dm_Register spec dm"

text \<open>The daemon is known and does not run, but its actor is still in the runtime.\<close>

definition daemonDown :: "string \<Rightarrow> DaemonSetManager \<Rightarrow> bool" where
  "daemonDown n dm \<longleftrightarrow> namesOk dm \<and> regInv (dmRuntime dm) \<and> gomap_ok (dmDaemons dm) \<and> rtRegistry (dmRuntime dm) n \<noteq> None \<and>
     (\<exists>d. map_of (dmDaemons dm) n = Some d \<and> \<not> dtRunning d)"

lemma onlyDaemon_down:
  assumes "daemonDown n dm" "namesOk dm'" "onlyDaemon m dm dm'" "m \<noteq> n"
  shows "daemonDown n dm'"
  using assms onlyDaemonD [OF assms(3)] by (auto simp: daemonDown_def onlyDaemon_def gomap_ok_def)

lemma daemonDown_reconcile:
  assumes "daemonDown n dm" "reconcileDaemon m dm = Some dm'"
  shows "daemonDown n dm'"
proof -
  from assms(1) have dm: "namesOk dm" "regInv (dmRuntime dm)" by (simp_all add: daemonDown_def)
  note o = reconcile_namesOk [OF dm assms(2)]
  show ?thesis
  proof (cases "m = n")
    case True
    from assms(1) obtain d where d: "map_of (dmDaemons dm) n = Some d" "\<not> dtRunning d" "rtRegistry (dmRuntime dm) n \<noteq> None"
      by (auto simp: daemonDown_def)
    with dm(1) have n: "dsName (dtSpec d) = n" by (simp add: namesOk_def)
    with d(3) have "\<not> startable d dm" by (simp add: startable_def)
    with reconcile_step [OF d(1) n dm(2)] assms(1,2) True d(2,3) o show ?thesis
      by (auto simp: daemonDown_def onlyDaemon_def regKept_def gomap_ok_def)
  qed (use onlyDaemon_down [OF assms(1)] o in blast)
qed

lemma stopDaemon_step:
  assumes "namesOk dm" "regInv (dmRuntime dm)" "stopDaemon m dm = Some dm'"
  shows "namesOk dm' \<and> onlyDaemon m dm dm' \<and> (\<forall>d. map_of (dmDaemons dm) m = Some d \<longrightarrow> rtRegistry (dmRuntime dm) m \<noteq> None \<longrightarrow>
    rtRegistry (dmRuntime dm') m \<noteq> None \<and> (\<exists>d'. map_of (dmDaemons dm') m = Some d' \<and> \<not> dtRunning d'))"
proof (cases "\<exists>d. map_of (dmDaemons dm) m = Some d \<and> dtRunning d")
  case True
  with assms(3) obtain d r x where d: "map_of (dmDaemons dm) m = Some d" "dtRunning d"
    and r: "Stop m (dmRuntime dm) = Some (r, x)" "dm' = daemonStopped m d r dm"
    by (auto simp: stopDaemon_def)
  from Stop_regKept [OF r(1) assms(2)] have "regKept (dmRuntime dm) r" "rtRegistry r = rtRegistry (dmRuntime dm)" by simp_all
  with r(2) map_fst_put [OF d(1)] have "onlyDaemon m dm dm'" "rtRegistry (dmRuntime dm') = rtRegistry (dmRuntime dm)"
    by (simp_all add: daemonStopped_def onlyDaemon_def update_conv')
  moreover have "namesOk dm'" using assms(1) d(1) r(2) by (auto simp: namesOk_def daemonStopped_def update_conv')
  ultimately show ?thesis using r(2) by (simp add: daemonStopped_def update_conv')
next
  case False
  with assms(3) have "dm' = dm" by (auto simp: stopDaemon_def split: option.splits if_splits)
  with False assms show ?thesis by (auto simp: onlyDaemon_same)
qed

lemma daemonDown_stop:
  assumes "daemonDown n dm" "stopDaemon m dm = Some dm'"
  shows "daemonDown n dm'"
proof -
  from assms(1) have "namesOk dm" "regInv (dmRuntime dm)" by (simp_all add: daemonDown_def)
  note st = stopDaemon_step [OF this assms(2)]
  show ?thesis
  proof (cases "m = n")
    case True
    with st assms(1) show ?thesis by (auto simp: daemonDown_def onlyDaemon_def regKept_def gomap_ok_def)
  qed (use st onlyDaemon_down [OF assms(1)] in blast)
qed

lemma daemonDown_fields: "daemonDown n (dm\<lparr>dmStarted := b, dmCanceled := c\<rparr>) = daemonDown n dm" "daemonDown n (dm\<lparr>dmCluster := x\<rparr>) = daemonDown n dm"
  "daemonDown n (dm\<lparr>dmCanceled := c, dmStarted := b\<rparr>) = daemonDown n dm"
  by (simp_all add: daemonDown_def namesOk_def)

lemma daemonDown_step:
  assumes "daemonDown n dm" "dmStep op dm = Some dm'"
  shows "daemonDown n dm'"
proof (cases op)
  case DmReconcile
  with assms show ?thesis
    by (auto simp: dm_Reconcile_def reconcileAll_def split: if_splits intro: foldOpt_inv [where P = "daemonDown n"] daemonDown_reconcile)
next
  case DmStart
  with assms show ?thesis
    by (auto simp: dm_Start_def reconcileAll_def daemonDown_fields intro: foldOpt_inv [where P = "daemonDown n"] daemonDown_reconcile)
next
  case DmStop
  with assms show ?thesis
    by (auto simp: dm_Stop_def daemonDown_fields intro: foldOpt_inv [where P = "daemonDown n"] daemonDown_stop)
next
  case (DmRegister spec)
  let ?dm = "setDaemon (dsName spec) \<lparr>dtSpec = spec, dtRunning = False, dtCreate = None, dtCloser = False\<rparr> dm"
  have "daemonDown n ?dm" using assms(1) by (auto simp: daemonDown_def namesOk_def setDaemon_def update_conv')
  with assms(2) DmRegister show ?thesis
    by (auto simp: dm_Register_def registerDaemon_def Let_def split: if_splits intro: daemonDown_reconcile)
qed (use assms in \<open>auto simp: daemonDown_fields\<close>)

lemma daemonDown_steps: "foldOpt dmStep ops dm = Some dm' \<Longrightarrow> daemonDown n dm \<Longrightarrow> daemonDown n dm'"
  by (rule foldOpt_inv [where P = "daemonDown n"]) (auto intro: daemonDown_step)

text \<open>
  Claim C36. A daemon that a reconciliation has stopped never runs again on this manager: whatever
  sequence of tag changes, reconciliations, restarts of the manager and registrations follows, also
  with tags that match the placement again or with a new registration of the daemon itself, it
  stays out of the running daemons, because the stopped actor keeps its ID.
\<close>

theorem stopped_daemon_never_restarts:
  assumes dm: "dmStarted dm" "gomap_ok (dmDaemons dm)" "namesOk dm" "regInv (dmRuntime dm)"
    and d: "map_of (dmDaemons dm) n = Some d" "dtRunning d" "rtRegistry (dmRuntime dm) n \<noteq> None"
    and stopped: "\<not> shouldRunLocally (dtSpec d) dm" "dm_Reconcile dm = Some dm1" and later: "foldOpt dmStep ops dm1 = Some dm2"
  shows "n \<notin> set (dm_Running dm2)"
proof -
  from stopped(2) dm(1) have s: "foldOpt reconcileDaemon (map fst (dmDaemons dm)) dm = Some dm1" by (simp add: dm_Reconcile_def reconcileAll_def)
  have "n \<in> set (map fst (dmDaemons dm))" using d(1) by (force dest: map_of_SomeD)
  then have rec: "reconciled dm n d dm1"
    using reconcile_list [OF s _ dm(3,4), THEN conjunct1] d dm(2) unfolding gomap_ok_def by blast
  have "gomap_ok (dmDaemons dm1) \<and> namesOk dm1 \<and> regInv (dmRuntime dm1)"
    using reconcile_keys [OF s dm(3,4)] dm(2) by (simp add: gomap_ok_def)
  with rec d(3) stopped(1) have "daemonDown n dm1" by (auto simp: daemonDown_def reconciled_def)
  from daemonDown_steps [OF later this] show ?thesis by (auto simp: daemonDown_def running_iff)
qed


definition exTagged :: "Cluster \<Rightarrow> DaemonSetManager" where
  "exTagged c = (NewDaemonSetManager exRuntime (Some c) None None)\<lparr>dmStarted := True,
     dmDaemons := [(''a'', (exDaemon ''a'' (Some (TagEquals ''role'' ''web'')))\<lparr>dtRunning := True\<rparr>)]\<rparr>"

theorem stopped_daemon_never_restarts_witness:
  "\<exists>c dm1 dm2. dm_Reconcile (exTagged c) = Some dm1 \<and> foldOpt dmStep [DmTags [(''role'', ''web'')], DmReconcile] dm1 = Some dm2 \<and>
     shouldRunLocally (dtSpec (exDaemon ''a'' (Some (TagEquals ''role'' ''web'')))) dm2 \<and> ''a'' \<notin> set (dm_Running dm2)"
proof -
  obtain c where "NewCluster (exMeta ''n'') True (Some exTransport) None = Inr c" and c: "Self c = exMeta ''n''"
    by (simp add: NewCluster_def exMeta_def Self_def)
  let ?d = "(exDaemon ''a'' (Some (TagEquals ''role'' ''web'')))\<lparr>dtRunning := True\<rparr>" and ?dm = "exTagged c"
  have ok: "dmStarted ?dm" "gomap_ok (dmDaemons ?dm)" "namesOk ?dm" "regInv (dmRuntime ?dm)" "map_of (dmDaemons ?dm) ''a'' = Some ?d"
    "dtRunning ?d" "rtRegistry (dmRuntime ?dm) ''a'' \<noteq> None" "\<not> shouldRunLocally (dtSpec ?d) ?dm"
    by (simp_all add: exTagged_def gomap_ok_def namesOk_def exDaemon_def NewDaemonSetManager_def regInv_def exRuntime_fields exInst_def
        shouldRunLocally_def c exMeta_def TagEquals_def tagOf_def)
  let ?r = "fst (UnregisterName ''a'' exRuntime)"
  have r: "rtRegistry ?r = [''a'' \<mapsto> 0]" "rtInsts ?r = [exInst]" "rtMonitors ?r = newMonitorManager"
    by (simp_all add: UnregisterName_def Let_def exRuntime_fields logCall_def split: option.split prod.split)
  obtain r1 where r1: "Stop ''a'' ?r = Some (r1, StopStopped)"
    using Stop_no_monitors [of ?r "''a''" 0] r by (auto simp: exInst_def)
  then have s: "dm_Reconcile ?dm = Some (daemonStopped ''a'' ?d r1 ?dm)"
    using ok by (simp add: dm_Reconcile_def reconcileAll_def reconcileDaemon_def exTagged_def NewDaemonSetManager_def)
  let ?dm2 = "(daemonStopped ''a'' ?d r1 ?dm)\<lparr>dmCluster := Some (UpdateTags [(''role'', ''web'')] c)\<rparr>"
  have placed: "shouldRunLocally (dtSpec (exDaemon ''a'' (Some (TagEquals ''role'' ''web'')))) ?dm2"
    using c by (simp add: shouldRunLocally_def exDaemon_def UpdateTags_def Self_def TagEquals_def tagOf_def exMeta_def)
  have "rtRegistry r1 ''a'' \<noteq> None"
    using Stop_regKept [OF r1] r by (simp add: regInv_def exInst_def)
  then have "CreateActor ''a'' x h cfg r1 = Inl ErrDuplicateActorID" if "h \<noteq> None" for x h cfg
    using that by (auto simp: CreateActor_def rt_registry_put_def)
  with placed have l: "foldOpt dmStep [DmTags [(''role'', ''web'')], DmReconcile] (daemonStopped ''a'' ?d r1 ?dm) = Some ?dm2"
    by (simp add: dm_Reconcile_def reconcileAll_def reconcileDaemon_def daemonStopped_def exTagged_def NewDaemonSetManager_def exDaemon_def)
  from stopped_daemon_never_restarts [OF ok s l] s l placed show ?thesis by blast
qed

section \<open>Messages\<close>

text \<open>
  Where the nodes' views agree, messages go exactly to the nodes that run the daemon: if
  every node of a set knows the current metadata of the others and all have registered the daemon
  with the same placement, then the targets of a broadcast from any of them are the nodes whose own
  manager places the daemon on them, and the peers to which a replicated daemon sends its updates
  are these nodes except the sender.
\<close>

theorem broadcast_targets_are_runners:
  assumes mgr: "\<And>a. a \<in> N \<Longrightarrow> dmCluster (mgr a) = Some (core a) \<and> Self (core a) = meta a \<and> nmID (meta a) = a \<and>
       rtNodeID (dmRuntime (mgr a)) = a \<and> set (Members (core a)) = meta ` (N - {a}) \<and>
       map_option dtSpec (map_of (dmDaemons (mgr a)) name) = Some spec" and a: "a \<in> N"
  shows "set (matchingNodes name (mgr a)) = {b \<in> N. shouldRunLocally spec (mgr b)} \<and>
    set (daemonTopology_Peers (core a) (dsPlacement spec)) = nodeIDToReplicaID ` ({b \<in> N. shouldRunLocally spec (mgr b)} - {a})"
proof -
  let ?place = "\<lambda>m. case dsPlacement spec of None \<Rightarrow> True | Some p \<Rightarrow> p m"
  have run: "shouldRunLocally spec (mgr b) \<longleftrightarrow> ?place (meta b)" if "b \<in> N" for b
    using mgr [OF that] by (simp add: shouldRunLocally_def split: option.split)
  have id: "nmID (meta b) = b" if "b \<in> N" for b using mgr [OF that] by blast
  from mgr [OF a] obtain d where d: "map_of (dmDaemons (mgr a)) name = Some d" "dtSpec d = spec" by auto
  have peers: "{m \<in> set (Members (core a)). ?place m} = meta ` ({b \<in> N. shouldRunLocally spec (mgr b)} - {a})"
    using mgr [OF a] run by auto
  have "set (matchingNodes name (mgr a)) = (if ?place (meta a) then {a} else {}) \<union> nmID ` {m \<in> set (Members (core a)). ?place m}"
    using mgr [OF a] d run [OF a] by (simp add: matchingNodes_def)
  also have "\<dots> = {b \<in> N. shouldRunLocally spec (mgr b)}" unfolding peers using a run id by (auto simp: image_iff)
  finally show ?thesis unfolding daemonTopology_Peers_def using peers id by (auto simp: image_iff)
qed


definition exDaemonNode :: "NodeID list \<Rightarrow> NodeID \<Rightarrow> DaemonSetManager" where
  "exDaemonNode ns a = (NewDaemonSetManager (NewRuntime None a noHooks True (\<lambda>_. 0) 4 (\<lambda>_. None)) (Some (exCluster ns a)) None None)\<lparr>
     dmDaemons := [(''d'', exDaemon ''d'' (Some (\<lambda>m. nmID m \<noteq> ''x'')))]\<rparr>"

theorem broadcast_targets_are_runners_witness:
  "set (matchingNodes ''d'' (exDaemonNode [''x'', ''y'', ''z''] ''x'')) = {''y'', ''z''} \<and>
   set (matchingNodes ''d'' (exDaemonNode [''x'', ''y'', ''z''] ''y'')) = {''y'', ''z''}"
proof -
  let ?ns = "[''x'', ''y'', ''z'']" and ?spec = "dtSpec (exDaemon ''d'' (Some (\<lambda>m. nmID m \<noteq> ''x'')))"
  have "dmCluster (exDaemonNode ?ns a) = Some (exCluster ?ns a) \<and> Self (exCluster ?ns a) = exMeta a \<and> nmID (exMeta a) = a \<and>
       rtNodeID (dmRuntime (exDaemonNode ?ns a)) = a \<and> set (Members (exCluster ?ns a)) = exMeta ` (set ?ns - {a}) \<and>
       map_option dtSpec (map_of (dmDaemons (exDaemonNode ?ns a)) ''d'') = Some ?spec" if "a \<in> set ?ns" for a
    by (auto simp: exDaemonNode_def NewDaemonSetManager_def NewRuntime_def exCluster_def Self_def Members_def exMeta_def)
  note all = broadcast_targets_are_runners [of "set ?ns" "exDaemonNode ?ns" "exCluster ?ns" exMeta "''d''" ?spec, OF this]
  have "{b \<in> set ?ns. shouldRunLocally ?spec (exDaemonNode ?ns b)} = {''y'', ''z''}"
    by (auto simp: shouldRunLocally_def exDaemonNode_def NewDaemonSetManager_def exDaemon_def exCluster_def Self_def exMeta_def)
  with all [of "''x''"] all [of "''y''"] show ?thesis by simp
qed

end
