(* ===== verification/Election.thy ===== *)
theory Election
  imports ClusterNode
begin

text \<open>
  Leader election by hash ring position (\<open>election_ring.go\<close>). The member set is a list without
  repetitions in some iteration order of the Go map; a watcher is the buffer of its channel,
  which holds at most four events.
\<close>

section \<open>The leader of a member set\<close>

definition computeLeader :: "string \<Rightarrow> NodeID list \<Rightarrow> NodeID" where
  "computeLeader scope members =
     (if members = [] then '''' else hd (rankBy (nodeHash scope) members))"

definition noTies :: "string \<Rightarrow> NodeID set \<Rightarrow> bool" where
  "noTies scope ms \<longleftrightarrow> inj_on (nodeHash scope) ms"

lemma computeLeader_in: "ms \<noteq> [] \<Longrightarrow> computeLeader scope ms \<in> set ms"
  by (simp add: computeLeader_def hd_rankBy_in)

lemma computeLeader_least: "m \<in> set ms \<Longrightarrow> nodeHash scope (computeLeader scope ms) \<le> nodeHash scope m"
  by (auto simp: computeLeader_def hd_rankBy_min)

lemma computeLeader_unique:
  assumes "noTies scope (set ms)" and "l \<in> set ms" and "\<forall>m\<in>set ms. nodeHash scope l \<le> nodeHash scope m"
  shows "computeLeader scope ms = l"
proof -
  have "ms \<noteq> []" using assms(2) by auto
  then have c: "computeLeader scope ms \<in> set ms" by (rule computeLeader_in)
  with computeLeader_least [OF assms(2), of scope] assms(3)
  have "nodeHash scope (computeLeader scope ms) = nodeHash scope l" by (meson order_antisym)
  with assms(1,2) c show ?thesis by (simp add: noTies_def inj_on_def)
qed

lemma computeLeader_set_eq:
  assumes "set ms = set ms'" and "noTies scope (set ms)"
  shows "computeLeader scope ms = computeLeader scope ms'"
proof (cases "ms = []")
  case False
  then have "ms' \<noteq> []" using assms(1) by auto
  then show ?thesis
    using assms computeLeader_in [of ms' scope] computeLeader_least [of _ ms' scope]
    by (intro computeLeader_unique) auto
qed (use assms in simp)

section \<open>The election\<close>

record LeaderEvent =
  leScope :: string
  leLeader :: NodeID
  lePrevLeader :: NodeID
  leTerm :: u64

record electionScope =
  esLeader :: NodeID
  esTerm :: u64
  esWatchers :: "LeaderEvent list list"

record RingElection =
  elLocalID :: NodeID
  elMembers :: "NodeID list"
  elScopes :: "(string, electionScope) gomap"

definition NewRingElection :: "NodeID \<Rightarrow> RingElection" where
  "NewRingElection localID = \<lparr>elLocalID = localID, elMembers = [localID], elScopes = []\<rparr>"

definition computeLeaderLocked :: "RingElection \<Rightarrow> string \<Rightarrow> NodeID" where
  "computeLeaderLocked e scope = computeLeader scope (elMembers e)"

definition ensureScopeLocked :: "string \<Rightarrow> RingElection \<Rightarrow> RingElection \<times> electionScope" where
  "ensureScopeLocked scope e =
     (case map_of (elScopes e) scope of
        Some s \<Rightarrow> (e, s)
      | None \<Rightarrow>
          let s = \<lparr>esLeader = computeLeaderLocked e scope, esTerm = 1, esWatchers = []\<rparr>
          in (e\<lparr>elScopes := gomap_put scope s (elScopes e)\<rparr>, s))"

definition Leader :: "string \<Rightarrow> RingElection \<Rightarrow> RingElection \<times> NodeID \<times> bool" where
  "Leader scope e = (let (e, s) = ensureScopeLocked scope e in (e, esLeader s, esLeader s \<noteq> ''''))"

definition IsLeader :: "string \<Rightarrow> RingElection \<Rightarrow> RingElection \<times> bool" where
  "IsLeader scope e = (let (e, leader, ok) = Leader scope e in (e, ok \<and> leader = elLocalID e))"

definition Term :: "string \<Rightarrow> RingElection \<Rightarrow> u64" where
  "Term scope e = (case map_of (elScopes e) scope of None \<Rightarrow> 0 | Some s \<Rightarrow> esTerm s)"

text \<open>A non-blocking send on a channel with a buffer of four.\<close>

definition trySend :: "LeaderEvent \<Rightarrow> LeaderEvent list \<Rightarrow> LeaderEvent list" where
  "trySend ev ch = (if length ch < 4 then ch @ [ev] else ch)"

definition Watch :: "string \<Rightarrow> RingElection \<Rightarrow> RingElection" where
  "Watch scope e =
     (let (e, s) = ensureScopeLocked scope e;
          ch = (if esLeader s \<noteq> ''''
                then trySend \<lparr>leScope = scope, leLeader = esLeader s, lePrevLeader = '''', leTerm = esTerm s\<rparr> []
                else [])
      in e\<lparr>elScopes := gomap_put scope (s\<lparr>esWatchers := esWatchers s @ [ch]\<rparr>) (elScopes e)\<rparr>)"

text \<open>A consumer takes the next event of the \<open>k\<close>-th watcher of a scope.\<close>

definition takeEvent :: "string \<Rightarrow> nat \<Rightarrow> RingElection \<Rightarrow> RingElection \<times> LeaderEvent option" where
  "takeEvent scope k e =
     (case map_of (elScopes e) scope of
        None \<Rightarrow> (e, None)
      | Some s \<Rightarrow>
          if k < length (esWatchers s) then
            (case esWatchers s ! k of
               [] \<Rightarrow> (e, None)
             | ev # rest \<Rightarrow>
                 (e\<lparr>elScopes := gomap_put scope (s\<lparr>esWatchers := (esWatchers s)[k := rest]\<rparr>) (elScopes e)\<rparr>, Some ev))
          else (e, None))"

definition notifyWatchersLocked :: "LeaderEvent \<Rightarrow> electionScope \<Rightarrow> electionScope" where
  "notifyWatchersLocked ev s = s\<lparr>esWatchers := map (trySend ev) (esWatchers s)\<rparr>"

definition recomputeScope :: "NodeID list \<Rightarrow> string \<Rightarrow> electionScope \<Rightarrow> electionScope" where
  "recomputeScope members scope s =
     (let newLeader = computeLeader scope members
      in if newLeader \<noteq> esLeader s
         then let prev = esLeader s; s = s\<lparr>esLeader := newLeader, esTerm := esTerm s + 1\<rparr>
              in notifyWatchersLocked \<lparr>leScope = scope, leLeader = newLeader, lePrevLeader = prev, leTerm = esTerm s\<rparr> s
         else s)"

definition recomputeAll :: "RingElection \<Rightarrow> RingElection" where
  "recomputeAll e = e\<lparr>elScopes := map (\<lambda>(scope, s). (scope, recomputeScope (elMembers e) scope s)) (elScopes e)\<rparr>"

definition OnMembershipChange :: "MemberEvent \<Rightarrow> RingElection \<Rightarrow> RingElection" where
  "OnMembershipChange event e =
     (let nid = nmID (meMember event)
      in recomputeAll
           (case meType event of
              MemberJoin \<Rightarrow> e\<lparr>elMembers := List.insert nid (elMembers e)\<rparr>
            | MemberUpdated \<Rightarrow> e\<lparr>elMembers := List.insert nid (elMembers e)\<rparr>
            | MemberLeave \<Rightarrow> e\<lparr>elMembers := removeAll nid (elMembers e)\<rparr>
            | MemberFailed \<Rightarrow> e\<lparr>elMembers := removeAll nid (elMembers e)\<rparr>))"

definition SetMembers :: "NodeMeta list \<Rightarrow> RingElection \<Rightarrow> RingElection" where
  "SetMembers members e =
     recomputeAll (e\<lparr>elMembers := foldl (\<lambda>ms m. List.insert (nmID m) ms) [elLocalID e] members\<rparr>)"

definition memberCount :: "RingElection \<Rightarrow> int" where
  "memberCount e = int (length (elMembers e))"

definition leaderExcluding :: "RingElection \<Rightarrow> string \<Rightarrow> NodeID \<Rightarrow> NodeID" where
  "leaderExcluding e scope exclude = computeLeader scope (filter (\<lambda>i. i \<noteq> exclude) (elMembers e))"

definition LeaderAmong :: "string \<Rightarrow> NodeMatcher option \<Rightarrow> NodeMeta list \<Rightarrow> NodeID option" where
  "LeaderAmong scope matcher allMembers =
     (let candidates = FilterNodes allMembers matcher
      in if candidates = [] then None
         else Some (computeLeader scope (foldl (\<lambda>ms c. List.insert (nmID c) ms) [] candidates)))"

section \<open>Histories\<close>

datatype elOp = ElEvent MemberEvent | ElSet "NodeMeta list" | ElLeader string | ElWatch string | ElTake string nat

fun elStep :: "RingElection \<Rightarrow> elOp \<Rightarrow> RingElection" where
  "elStep e (ElEvent ev) = OnMembershipChange ev e"
| "elStep e (ElSet ms) = SetMembers ms e"
| "elStep e (ElLeader scope) = fst (Leader scope e)"
| "elStep e (ElWatch scope) = Watch scope e"
| "elStep e (ElTake scope k) = fst (takeEvent scope k e)"

text \<open>
  The invariant: the members are a set, the scopes a map, and every active scope has the leader
  of the current members.
\<close>

definition elInv :: "RingElection \<Rightarrow> bool" where
  "elInv e \<longleftrightarrow> distinct (elMembers e) \<and> gomap_ok (elScopes e) \<and>
     (\<forall>scope s. map_of (elScopes e) scope = Some s \<longrightarrow> esLeader s = computeLeader scope (elMembers e))"

lemma foldl_insert_distinct: "distinct ms \<Longrightarrow> distinct (foldl (\<lambda>ms m. List.insert (f m) ms) ms xs)"
  by (induction xs arbitrary: ms) simp_all

lemma foldl_insert_set: "set (foldl (\<lambda>ms m. List.insert (f m) ms) ms xs) = set ms \<union> f ` set xs"
  by (induction xs arbitrary: ms) auto

lemma recomputeScope_fields [simp]:
  "esLeader (recomputeScope ms scope s) = computeLeader scope ms"
  "esTerm (recomputeScope ms scope s) = esTerm s + (if computeLeader scope ms \<noteq> esLeader s then 1 else 0)"
  by (simp_all add: recomputeScope_def notifyWatchersLocked_def Let_def)

lemma recomputeAll_fields [simp]:
  "elMembers (recomputeAll e) = elMembers e" "elLocalID (recomputeAll e) = elLocalID e"
  "map_of (elScopes (recomputeAll e)) scope = map_option (recomputeScope (elMembers e) scope) (map_of (elScopes e) scope)"
proof -
  have "map_of (map (\<lambda>(k, s). (k, f k s)) xs) scope = map_option (f scope) (map_of xs scope)"
    for f :: "string \<Rightarrow> electionScope \<Rightarrow> electionScope" and xs
    by (induction xs) auto
  then show "map_of (elScopes (recomputeAll e)) scope = map_option (recomputeScope (elMembers e) scope) (map_of (elScopes e) scope)"
    by (simp add: recomputeAll_def)
qed (simp_all add: recomputeAll_def)

lemma recomputeAll_inv: "distinct (elMembers e) \<Longrightarrow> gomap_ok (elScopes e) \<Longrightarrow> elInv (recomputeAll e)"
proof -
  assume d: "distinct (elMembers e)" and g: "gomap_ok (elScopes e)"
  have "gomap_ok (elScopes (recomputeAll e))"
    using g by (simp add: recomputeAll_def gomap_ok_def comp_def case_prod_beta)
  with d show ?thesis by (auto simp: elInv_def)
qed

lemma elInv_New: "elInv (NewRingElection i)"
  by (simp add: elInv_def NewRingElection_def)

lemma elInv_ensure: "elInv e \<Longrightarrow> elInv (fst (ensureScopeLocked scope e))"
  by (auto simp: ensureScopeLocked_def elInv_def computeLeaderLocked_def Let_def split: option.split)

lemma ensure_found: "map_of (elScopes (fst (ensureScopeLocked scope e))) scope = Some (snd (ensureScopeLocked scope e))"
  by (simp add: ensureScopeLocked_def Let_def split: option.split)

lemma elInv_update:
  "elInv e \<Longrightarrow> map_of (elScopes e) scope = Some s \<Longrightarrow> esLeader s' = esLeader s \<Longrightarrow>
   elInv (e\<lparr>elScopes := gomap_put scope s' (elScopes e)\<rparr>)"
  by (simp add: elInv_def)

lemma elInv_step: "elInv e \<Longrightarrow> elInv (elStep e op)"
proof (cases op)
  case (ElEvent ev)
  assume "elInv e"
  then have "distinct (elMembers e)" "gomap_ok (elScopes e)" by (simp_all add: elInv_def)
  then show ?thesis
    by (cases "meType ev") (simp_all add: ElEvent OnMembershipChange_def Let_def recomputeAll_inv distinct_removeAll)
next
  case (ElSet ms)
  assume "elInv e"
  then have "gomap_ok (elScopes e)" by (simp add: elInv_def)
  then show ?thesis by (simp add: ElSet SetMembers_def recomputeAll_inv foldl_insert_distinct)
next
  case (ElLeader scope)
  assume "elInv e"
  then show ?thesis using elInv_ensure [of e scope] by (simp add: ElLeader Leader_def split_beta)
next
  case (ElWatch scope)
  assume "elInv e"
  then show ?thesis
    using elInv_update [OF elInv_ensure ensure_found] by (simp add: ElWatch Watch_def split_beta Let_def)
next
  case (ElTake scope k)
  assume "elInv e"
  then show ?thesis
    by (auto simp: ElTake takeEvent_def intro: elInv_update split: option.split list.split)
qed

lemma elInv_run: "elInv e \<Longrightarrow> elInv (foldl elStep e ops)"
  by (induction ops arbitrary: e) (simp_all add: elInv_step)

lemma Leader_answer:
  assumes "elInv e"
  shows "snd (Leader scope e) = (computeLeader scope (elMembers e), computeLeader scope (elMembers e) \<noteq> '''')"
proof -
  have "esLeader (snd (ensureScopeLocked scope e)) = computeLeader scope (elMembers e)"
    using assms by (auto simp: ensureScopeLocked_def elInv_def computeLeaderLocked_def Let_def split: option.split)
  then show ?thesis by (simp add: Leader_def split_beta)
qed

text \<open>
  Claim C21. Nodes that see the same members elect the same leader without exchanging a message:
  whatever histories of joins, leaves, failures, queries and watches two nodes went through, if
  their member sets are now equal (and no two members collide in the hash of the scope), both
  report the same leader for the scope, which is a member with the least hash.
\<close>

theorem leader_agreement:
  assumes "e = foldl elStep (NewRingElection a) ops" and "e' = foldl elStep (NewRingElection b) ops'"
    and "set (elMembers e) = set (elMembers e')" and "noTies scope (set (elMembers e))" and "elMembers e \<noteq> []"
  shows "fst (snd (Leader scope e)) = fst (snd (Leader scope e')) \<and>
     fst (snd (Leader scope e)) \<in> set (elMembers e) \<and>
     (\<forall>m\<in>set (elMembers e). nodeHash scope (fst (snd (Leader scope e))) \<le> nodeHash scope m)"
proof -
  have "elInv e" "elInv e'" using assms(1,2) elInv_run elInv_New by blast+
  then have l: "fst (snd (Leader scope e)) = computeLeader scope (elMembers e)"
    "fst (snd (Leader scope e')) = computeLeader scope (elMembers e')" by (simp_all add: Leader_answer)
  show ?thesis
    unfolding l using computeLeader_set_eq [OF assms(3,4)] computeLeader_in [OF assms(5)] computeLeader_least by metis
qed

text \<open>Joins and leaves of one other node.\<close>

definition joinOf :: "NodeID \<Rightarrow> MemberEvent" where
  "joinOf i = \<lparr>meType = MemberJoin, meMember = \<lparr>nmID = i, nmAddr = '''', nmTags = []\<rparr>\<rparr>"

definition failOf :: "NodeID \<Rightarrow> MemberEvent" where
  "failOf i = \<lparr>meType = MemberFailed, meMember = \<lparr>nmID = i, nmAddr = '''', nmTags = []\<rparr>\<rparr>"

lemma member_ops:
  "elMembers (OnMembershipChange (joinOf i) e) = List.insert i (elMembers e)"
  "elMembers (OnMembershipChange (failOf i) e) = removeAll i (elMembers e)"
  by (simp_all add: OnMembershipChange_def joinOf_def failOf_def Let_def)

theorem leader_agreement_witness:
  "let e = foldl elStep (NewRingElection ''a'') [ElEvent (joinOf ''b'')];
       e' = foldl elStep (NewRingElection ''b'') [ElLeader ''s'', ElEvent (joinOf ''c''), ElEvent (joinOf ''a''), ElEvent (failOf ''c'')]
   in fst (snd (Leader ''s'' e)) = fst (snd (Leader ''s'' e'))"
proof -
  let ?ops = "[ElEvent (joinOf ''b'')]"
  let ?ops' = "[ElLeader ''s'', ElEvent (joinOf ''c''), ElEvent (joinOf ''a''), ElEvent (failOf ''c'')]"
  let ?e = "foldl elStep (NewRingElection ''a'') ?ops" and ?e' = "foldl elStep (NewRingElection ''b'') ?ops'"
  have m: "elMembers ?e = [''b'', ''a'']"
    by (simp add: member_ops NewRingElection_def)
  have m': "set (elMembers ?e') = {''a'', ''b''}"
    by (simp add: member_ops Leader_def ensureScopeLocked_def NewRingElection_def Let_def)
  have "nodeHash ''s'' ''a'' \<noteq> nodeHash ''s'' ''b''"
    by (simp add: nodeHash_def fnv64aWrite_def of_char_def)
  then have n: "noTies ''s'' (set (elMembers ?e))" unfolding m by (simp add: noTies_def)
  have eq: "set (elMembers ?e) = set (elMembers ?e')" unfolding m m' by auto
  have ne: "elMembers ?e \<noteq> []" unfolding m by simp
  from leader_agreement [OF refl refl eq n ne] show ?thesis unfolding Let_def by blast
qed

section \<open>Stability and terms\<close>

text \<open>
  Membership changes disturb leadership as little as possible: when a node leaves that
  is not the leader, the leader stays; when a node joins, the leader stays or is the node that
  joined; and \<open>leaderExcluding\<close> of the leader predicts the leader after its departure.
\<close>

theorem leadership_minimal_disruption:
  assumes "elInv e" and "noTies scope (insert i (set (elMembers e)))" and "elMembers e \<noteq> []"
  shows "(computeLeader scope (elMembers e) \<noteq> i \<longrightarrow>
       fst (snd (Leader scope (OnMembershipChange (failOf i) e))) = fst (snd (Leader scope e))) \<and>
     fst (snd (Leader scope (OnMembershipChange (joinOf i) e))) \<in> {fst (snd (Leader scope e)), i} \<and>
     fst (snd (Leader scope (OnMembershipChange (failOf i) e))) = leaderExcluding e scope i"
proof -
  let ?ms = "elMembers e"
  have inv: "elInv (OnMembershipChange (joinOf i) e)" "elInv (OnMembershipChange (failOf i) e)"
    using elInv_step [OF assms(1), of "ElEvent (joinOf i)"] elInv_step [OF assms(1), of "ElEvent (failOf i)"] by simp_all
  note l = Leader_answer [OF assms(1), of scope] Leader_answer [OF inv(1), of scope] Leader_answer [OF inv(2), of scope]
  have stay: "computeLeader scope (removeAll i ?ms) = computeLeader scope ?ms" if "computeLeader scope ?ms \<noteq> i"
    using that assms(2) computeLeader_in [OF assms(3), of scope] computeLeader_least [of _ ?ms scope]
    by (intro computeLeader_unique) (auto simp: noTies_def intro: inj_on_subset)
  have join: "computeLeader scope (List.insert i ?ms) \<in> {computeLeader scope ?ms, i}"
  proof (cases "computeLeader scope (List.insert i ?ms) = i")
    case False
    have "computeLeader scope (List.insert i ?ms) \<in> set (List.insert i ?ms)"
      using assms(3) by (intro computeLeader_in) (metis in_set_insert insert_not_empty set_empty2 set_insert)
    with False have "computeLeader scope (List.insert i ?ms) \<in> set ?ms" by simp
    then have "computeLeader scope ?ms = computeLeader scope (List.insert i ?ms)"
      using assms(2) computeLeader_least [of _ "List.insert i ?ms" scope]
      by (intro computeLeader_unique) (auto simp: noTies_def intro: inj_on_subset)
    then show ?thesis by simp
  qed simp
  have "removeAll i ?ms = filter (\<lambda>x. x \<noteq> i) ?ms" by (simp add: removeAll_filter_not_eq eq_commute)
  with stay join l show ?thesis by (simp add: member_ops leaderExcluding_def)
qed

fun leaderChanges :: "NodeID \<Rightarrow> NodeID list \<Rightarrow> nat" where
  "leaderChanges l [] = 0"
| "leaderChanges l (x # xs) = (if x \<noteq> l then 1 else 0) + leaderChanges x xs"

fun leadersAfter :: "string \<Rightarrow> RingElection \<Rightarrow> MemberEvent list \<Rightarrow> NodeID list" where
  "leadersAfter scope e [] = []"
| "leadersAfter scope e (ev # evs) =
     (let e' = OnMembershipChange ev e in fst (snd (Leader scope e')) # leadersAfter scope e' evs)"

lemma OnMembershipChange_recompute:
  "\<exists>ms. OnMembershipChange ev e = recomputeAll (e\<lparr>elMembers := ms\<rparr>)"
  by (cases "meType ev") (auto simp: OnMembershipChange_def Let_def)

lemma term_step:
  assumes "elInv e" and "map_of (elScopes e) scope = Some s"
  shows "\<exists>s'. map_of (elScopes (OnMembershipChange ev e)) scope = Some s' \<and>
    esTerm s' = esTerm s + (if fst (snd (Leader scope (OnMembershipChange ev e))) \<noteq> fst (snd (Leader scope e)) then 1 else 0)"
proof -
  obtain ms where o: "OnMembershipChange ev e = recomputeAll (e\<lparr>elMembers := ms\<rparr>)" using OnMembershipChange_recompute by blast
  have inv: "elInv (OnMembershipChange ev e)" using elInv_step [OF assms(1), of "ElEvent ev"] by simp
  have "esLeader s = computeLeader scope (elMembers e)" using assms by (simp add: elInv_def)
  with assms(2) Leader_answer [OF assms(1), of scope] Leader_answer [OF inv, of scope] show ?thesis by (simp add: o)
qed

text \<open>
  The term is a fencing token: over any sequence of membership events the term of an
  active scope grows by exactly the number of leader changes, so a new leader never shares a
  term with an earlier one before the 64-bit counter wraps.
\<close>

theorem term_counts_changes:
  assumes "elInv e" and "map_of (elScopes e) scope = Some s"
  shows "Term scope (foldl (\<lambda>e ev. OnMembershipChange ev e) e evs) =
     Term scope e + of_nat (leaderChanges (fst (snd (Leader scope e))) (leadersAfter scope e evs))"
  using assms
proof (induction evs arbitrary: e s)
  case (Cons ev evs)
  from term_step [OF Cons.prems, of ev] obtain s' where
    s': "map_of (elScopes (OnMembershipChange ev e)) scope = Some s'"
      "esTerm s' = esTerm s + (if fst (snd (Leader scope (OnMembershipChange ev e))) \<noteq> fst (snd (Leader scope e)) then 1 else 0)"
    by blast
  have "elInv (OnMembershipChange ev e)" using elInv_step [OF Cons.prems(1), of "ElEvent ev"] by simp
  from Cons.IH [OF this s'(1)] s' Cons.prems(2) show ?case by (simp add: Term_def Let_def)
qed simp

theorem term_counts_changes_witness:
  "let e = fst (Leader ''s'' (NewRingElection ''a''))
   in Term ''s'' (OnMembershipChange (failOf ''a'') (OnMembershipChange (joinOf ''b'') e)) =
        1 + of_nat (leaderChanges ''a'' (leadersAfter ''s'' e [joinOf ''b'', failOf ''a'']))"
proof -
  let ?e = "fst (Leader ''s'' (NewRingElection ''a''))"
  let ?s = "\<lparr>esLeader = ''a'', esTerm = 1, esWatchers = []\<rparr>"
  have c: "computeLeader ''s'' [''a''] = ''a''" by (simp add: computeLeader_def rankBy_def)
  have inv: "elInv ?e" using elInv_step [OF elInv_New, of "''a''" "ElLeader ''s''"] by simp
  have s: "map_of (elScopes ?e) ''s'' = Some ?s"
    by (simp add: Leader_def ensureScopeLocked_def NewRingElection_def computeLeaderLocked_def c Let_def)
  have "elMembers ?e = [''a'']" by (simp add: Leader_def ensureScopeLocked_def NewRingElection_def Let_def)
  then have l: "fst (snd (Leader ''s'' ?e)) = ''a''" using Leader_answer [OF inv, of "''s''"] by (simp add: c)
  have "Term ''s'' ?e = 1" using s by (simp add: Term_def)
  with term_counts_changes [OF inv s, of "[joinOf ''b'', failOf ''a'']"] l show ?thesis by (simp add: Let_def)
qed

theorem leadership_minimal_disruption_witness:
  "let e = NewRingElection ''a''
   in fst (snd (Leader ''s'' (OnMembershipChange (joinOf ''b'') e))) \<in> {''a'', ''b''} \<and>
      fst (snd (Leader ''s'' (OnMembershipChange (failOf ''b'') e))) = ''a''"
proof -
  let ?e = "NewRingElection ''a''"
  have c: "computeLeader ''s'' [''a''] = ''a''" by (simp add: computeLeader_def rankBy_def)
  have m: "elMembers ?e = [''a'']" by (simp add: NewRingElection_def)
  have "nodeHash ''s'' ''a'' \<noteq> nodeHash ''s'' ''b''" by (simp add: nodeHash_def fnv64aWrite_def of_char_def)
  then have n: "noTies ''s'' (insert ''b'' (set (elMembers ?e)))" by (simp add: m noTies_def)
  have l: "fst (snd (Leader ''s'' ?e)) = ''a''" using Leader_answer [OF elInv_New, of "''s''" "''a''"] by (simp add: m c)
  have ne: "elMembers ?e \<noteq> []" unfolding m by simp
  have b: "computeLeader ''s'' (elMembers ?e) \<noteq> ''b''" unfolding m c by simp
  from leadership_minimal_disruption [OF elInv_New n ne] b l show ?thesis unfolding Let_def by simp
qed

end
