(* ===== verification/Providers.thy ===== *)
theory Providers
  imports ClusterCore
begin

text \<open>
  The cluster providers that keep a member table of their own: the static seed list
  (\<open>provider_fixed.go\<close>), the poller the cloud providers share (\<open>pkg/providerutil\<close>) and UDP
  multicast (\<open>pkg/multicastprovider\<close>). Each tells its cluster about changes over a bounded event
  channel; a send on a closed channel and closing it again are panics, here \<open>None\<close>. The goroutines of a provider are
  entries of a list, cut at the calls of the probe and of the discovery, whose answers are
  arguments of the steps. Network I/O, intervals and time stamps other than the one that decides
  about a silent multicast peer are dropped; \<open>Stop\<close> of the multicast provider is one step.
\<close>

section \<open>Event channels\<close>

record eventChan =
  ecCap :: nat
  ecBuf :: "MemberEvent list"
  ecClosed :: bool

definition newEventChan :: "nat \<Rightarrow> eventChan" where
  "newEventChan cap = \<lparr>ecCap = cap, ecBuf = [], ecClosed = False\<rparr>"

text \<open>A \<open>select\<close> with a send and a default case: did it send?\<close>

definition chanTrySend :: "MemberEvent \<Rightarrow> eventChan \<Rightarrow> (eventChan \<times> bool) option" where
  "chanTrySend ev ch =
     (if ecClosed ch then None
      else if length (ecBuf ch) < ecCap ch then Some (ch\<lparr>ecBuf := ecBuf ch @ [ev]\<rparr>, True)
      else Some (ch, False))"

definition chanRecv :: "eventChan \<Rightarrow> eventChan" where
  "chanRecv ch = ch\<lparr>ecBuf := tl (ecBuf ch)\<rparr>"

datatype providerError = ErrProviderAlreadyStarted | ErrProviderNotStarted

section \<open>The static seed list\<close>

record fixedPeerState =
  fpMeta :: NodeMeta
  fpAlive :: bool
  fpConsecutiveFails :: int

text \<open>
  Where the goroutine \<open>heartbeatLoop\<close> is: before a round of probes, within one with the seeds that
  are left, after the answer of a probe, waiting for its ticker, or returned.
\<close>

datatype heartbeatPC =
  HbRound
| HbSeeds NodeMeta "NodeMeta list"
| HbAnswer NodeMeta bool NodeMeta "NodeMeta list"
| HbWait
| HbDone

record heartbeat =
  hbCanceled :: bool
  hbPC :: heartbeatPC

record FixedProvider =
  fxSeeds :: "NodeMeta list"
  fxThreshold :: int
  fxSelf :: NodeMeta
  fxEventCh :: eventChan
  fxMembers :: "(NodeID, fixedPeerState) gomap"
  fxStarted :: bool
  fxLoops :: "heartbeat list" \<comment> \<open>the last one is the one that \<open>cancel\<close> ends\<close>
  fxHasProbe :: bool
  fxDropped :: u64

definition NewFixedProvider :: "NodeMeta list \<Rightarrow> int \<Rightarrow> bool \<Rightarrow> FixedProvider" where
  "NewFixedProvider seeds threshold hasProbe =
     \<lparr>fxSeeds = seeds, fxThreshold = (if threshold = 0 then 3 else threshold), fxSelf = \<lparr>nmID = '''', nmAddr = '''', nmTags = []\<rparr>,
      fxEventCh = newEventChan 1024, fxMembers = [], fxStarted = False, fxLoops = [], fxHasProbe = hasProbe, fxDropped = 0\<rparr>"

definition Fixed_emit :: "MemberEvent \<Rightarrow> FixedProvider \<Rightarrow> FixedProvider option" where
  "Fixed_emit ev p =
     map_option (\<lambda>(ch, sent). p\<lparr>fxEventCh := ch, fxDropped := (if sent then fxDropped p else fxDropped p + 1)\<rparr>)
       (chanTrySend ev (fxEventCh p))"

definition Fixed_Start :: "NodeMeta \<Rightarrow> FixedProvider \<Rightarrow> FixedProvider \<times> providerError option" where
  "Fixed_Start self p =
     (if fxStarted p then (p, Some ErrProviderAlreadyStarted)
      else (p\<lparr>fxSelf := self, fxStarted := True, fxLoops := fxLoops p @ [\<lparr>hbCanceled = False, hbPC = HbRound\<rparr>]\<rparr>, None))"

definition Fixed_Stop :: "FixedProvider \<Rightarrow> (FixedProvider \<times> providerError option) option" where
  "Fixed_Stop p =
     (if \<not> fxStarted p then Some (p, Some ErrProviderNotStarted)
      else if ecClosed (fxEventCh p) then None
      else Some (p\<lparr>fxLoops := butlast (fxLoops p) @ [(last (fxLoops p))\<lparr>hbCanceled := True\<rparr>],
              fxStarted := False, fxEventCh := (fxEventCh p)\<lparr>ecClosed := True\<rparr>\<rparr>, None))"

definition Fixed_Members :: "FixedProvider \<Rightarrow> NodeMeta list" where
  "Fixed_Members p = map (fpMeta \<circ> snd) (filter (fpAlive \<circ> snd) (fxMembers p))"

definition handleProbeSuccess :: "NodeMeta \<Rightarrow> FixedProvider \<Rightarrow> FixedProvider option" where
  "handleProbeSuccess meta p =
     (let join = \<lparr>meType = MemberJoin, meMember = meta\<rparr>
      in case map_of (fxMembers p) (nmID meta) of
           None \<Rightarrow> Fixed_emit join
             (p\<lparr>fxMembers := gomap_put (nmID meta) \<lparr>fpMeta = meta, fpAlive = True, fpConsecutiveFails = 0\<rparr> (fxMembers p)\<rparr>)
         | Some ps \<Rightarrow>
             let ps = ps\<lparr>fpConsecutiveFails := 0\<rparr>
             in if \<not> fpAlive ps
                then Fixed_emit join (p\<lparr>fxMembers := gomap_put (nmID meta) (ps\<lparr>fpAlive := True, fpMeta := meta\<rparr>) (fxMembers p)\<rparr>)
                else Some (p\<lparr>fxMembers := gomap_put (nmID meta) ps (fxMembers p)\<rparr>))"

definition handleProbeFailure :: "NodeID \<Rightarrow> FixedProvider \<Rightarrow> FixedProvider option" where
  "handleProbeFailure nid p =
     (case map_of (fxMembers p) nid of
        None \<Rightarrow> Some p
      | Some ps \<Rightarrow>
          if \<not> fpAlive ps then Some p
          else let ps = ps\<lparr>fpConsecutiveFails := fpConsecutiveFails ps + 1\<rparr>
               in if fpConsecutiveFails ps \<ge> fxThreshold p
                  then Fixed_emit \<lparr>meType = MemberFailed, meMember = fpMeta ps\<rparr>
                         (p\<lparr>fxMembers := gomap_put nid (ps\<lparr>fpAlive := False\<rparr>) (fxMembers p)\<rparr>)
                  else Some (p\<lparr>fxMembers := gomap_put nid ps (fxMembers p)\<rparr>))"

text \<open>
  One step of the goroutine at a position. In a round it takes the next seed that is not the node
  itself, unless its context has ended, and asks the probe; \<open>up\<close> is the probe's answer. At its
  \<open>select\<close> it returns when its context has ended and \<open>up\<close> is false, and starts a round otherwise.
\<close>

fun nextSeed :: "NodeMeta \<Rightarrow> NodeMeta list \<Rightarrow> NodeMeta list" where
  "nextSeed self [] = []"
| "nextSeed self (seed # seeds) = (if nmID seed = nmID self then nextSeed self seeds else seed # seeds)"

definition probeSeeds :: "bool \<Rightarrow> heartbeat \<Rightarrow> NodeMeta \<Rightarrow> NodeMeta list \<Rightarrow> FixedProvider \<Rightarrow> heartbeat \<times> FixedProvider option" where
  "probeSeeds up h self seeds p =
     (if hbCanceled h then (h\<lparr>hbPC := HbWait\<rparr>, Some p)
      else case nextSeed self seeds of
             [] \<Rightarrow> (h\<lparr>hbPC := HbWait\<rparr>, Some p)
           | seed # seeds \<Rightarrow>
               if \<not> fxHasProbe p then (h\<lparr>hbPC := HbSeeds self seeds\<rparr>, handleProbeSuccess seed p)
               else (h\<lparr>hbPC := HbAnswer seed up self seeds\<rparr>, Some p))"

definition heartbeatStep :: "nat \<Rightarrow> bool \<Rightarrow> FixedProvider \<Rightarrow> FixedProvider option" where
  "heartbeatStep i up p =
     (if i \<ge> length (fxLoops p) then Some p
      else let h = fxLoops p ! i;
               (h, p') = (case hbPC h of
                  HbRound \<Rightarrow> (h\<lparr>hbPC := HbSeeds (fxSelf p) (fxSeeds p)\<rparr>, Some p)
                | HbSeeds self seeds \<Rightarrow> probeSeeds up h self seeds p
                | HbAnswer seed ok self seeds \<Rightarrow>
                    (h\<lparr>hbPC := HbSeeds self seeds\<rparr>, if ok then handleProbeSuccess seed p else handleProbeFailure (nmID seed) p)
                | HbWait \<Rightarrow> (h\<lparr>hbPC := (if hbCanceled h \<and> \<not> up then HbDone else HbRound)\<rparr>, Some p)
                | HbDone \<Rightarrow> (h, Some p))
           in map_option (\<lambda>p. p\<lparr>fxLoops := (fxLoops p)[i := h]\<rparr>) p')"

definition HasSeeds :: "FixedProvider \<Rightarrow> bool" where
  "HasSeeds p \<longleftrightarrow> fxSeeds p \<noteq> []"

definition AddSeed :: "NodeMeta \<Rightarrow> FixedProvider \<Rightarrow> FixedProvider" where
  "AddSeed meta p = (if nmID meta \<in> nmID ` set (fxSeeds p) then p else p\<lparr>fxSeeds := fxSeeds p @ [meta]\<rparr>)"

definition AddMember :: "NodeMeta \<Rightarrow> FixedProvider \<Rightarrow> FixedProvider option" where
  "AddMember meta p =
     (if map_of (fxMembers p) (nmID meta) \<noteq> None then Some p
      else Fixed_emit \<lparr>meType = MemberJoin, meMember = meta\<rparr>
             (p\<lparr>fxMembers := gomap_put (nmID meta) \<lparr>fpMeta = meta, fpAlive = True, fpConsecutiveFails = 0\<rparr> (fxMembers p)\<rparr>))"

section \<open>The poller\<close>

record pollerPeer =
  ppMeta :: NodeMeta
  ppAlive :: bool
  ppConsecutiveMisses :: int

datatype pollPC = PlPoll | PlDiff "NodeMeta list" | PlWait | PlDone

record pollLoop =
  plCanceled :: bool
  plPC :: pollPC

record Poller =
  poThreshold :: int
  poSelf :: NodeMeta
  poEventCh :: eventChan
  poMembers :: "(NodeID, pollerPeer) gomap"
  poStarted :: bool
  poLoops :: "pollLoop list"
  poDropped :: u64

definition NewPoller :: "int \<Rightarrow> int \<Rightarrow> Poller" where
  "NewPoller threshold bufferSize =
     \<lparr>poThreshold = (if threshold \<le> 0 then 3 else threshold), poSelf = \<lparr>nmID = '''', nmAddr = '''', nmTags = []\<rparr>,
      poEventCh = newEventChan (if bufferSize \<le> 0 then 1024 else nat bufferSize), poMembers = [], poStarted = False,
      poLoops = [], poDropped = 0\<rparr>"

definition Poller_emit :: "MemberEvent \<Rightarrow> Poller \<Rightarrow> Poller option" where
  "Poller_emit ev p =
     map_option (\<lambda>(ch, sent). p\<lparr>poEventCh := ch, poDropped := (if sent then poDropped p else poDropped p + 1)\<rparr>)
       (chanTrySend ev (poEventCh p))"

definition Poller_Start :: "NodeMeta \<Rightarrow> Poller \<Rightarrow> Poller \<times> providerError option" where
  "Poller_Start self p =
     (if poStarted p then (p, Some ErrProviderAlreadyStarted)
      else (p\<lparr>poSelf := self, poStarted := True, poLoops := poLoops p @ [\<lparr>plCanceled = False, plPC = PlPoll\<rparr>]\<rparr>, None))"

definition Poller_Stop :: "Poller \<Rightarrow> (Poller \<times> providerError option) option" where
  "Poller_Stop p =
     (if \<not> poStarted p then Some (p, Some ErrProviderNotStarted)
      else if ecClosed (poEventCh p) then None
      else Some (p\<lparr>poStarted := False, poLoops := butlast (poLoops p) @ [(last (poLoops p))\<lparr>plCanceled := True\<rparr>],
              poEventCh := (poEventCh p)\<lparr>ecClosed := True\<rparr>\<rparr>, None))"

definition Poller_Members :: "Poller \<Rightarrow> NodeMeta list" where
  "Poller_Members p = map (ppMeta \<circ> snd) (filter (ppAlive \<circ> snd) (poMembers p))"

text \<open>The discovered nodes by ID, the last of several with one ID, without the node itself.\<close>

definition discoveredBy :: "NodeMeta \<Rightarrow> NodeMeta list \<Rightarrow> (NodeID, NodeMeta) gomap" where
  "discoveredBy self current = fold (\<lambda>m seen. if nmID m = nmID self then seen else gomap_put (nmID m) m seen) current []"

definition diffSeen :: "NodeID \<times> NodeMeta \<Rightarrow> Poller \<Rightarrow> Poller option" where
  "diffSeen = (\<lambda>(nid, meta) p.
     case map_of (poMembers p) nid of
       None \<Rightarrow> Poller_emit \<lparr>meType = MemberJoin, meMember = meta\<rparr>
         (p\<lparr>poMembers := gomap_put nid \<lparr>ppMeta = meta, ppAlive = True, ppConsecutiveMisses = 0\<rparr> (poMembers p)\<rparr>)
     | Some existing \<Rightarrow>
         if \<not> ppAlive existing
         then Poller_emit \<lparr>meType = MemberJoin, meMember = meta\<rparr>
                (p\<lparr>poMembers := gomap_put nid (existing\<lparr>ppMeta := meta, ppAlive := True, ppConsecutiveMisses := 0\<rparr>) (poMembers p)\<rparr>)
         else let existing = existing\<lparr>ppConsecutiveMisses := 0\<rparr>
              in if \<not> tagsEqual (nmTags (ppMeta existing)) (nmTags meta)
                 then Poller_emit \<lparr>meType = MemberUpdated, meMember = meta\<rparr>
                        (p\<lparr>poMembers := gomap_put nid (existing\<lparr>ppMeta := meta\<rparr>) (poMembers p)\<rparr>)
                 else Some (p\<lparr>poMembers := gomap_put nid existing (poMembers p)\<rparr>))"

definition diffMissing :: "(NodeID, NodeMeta) gomap \<Rightarrow> NodeID \<Rightarrow> Poller \<Rightarrow> Poller option" where
  "diffMissing seen nid p =
     (if map_of seen nid \<noteq> None then Some p
      else case map_of (poMembers p) nid of
        None \<Rightarrow> Some p
      | Some ps \<Rightarrow>
          if \<not> ppAlive ps then Some p
          else let ps = ps\<lparr>ppConsecutiveMisses := ppConsecutiveMisses ps + 1\<rparr>
               in if ppConsecutiveMisses ps \<ge> poThreshold p
                  then Poller_emit \<lparr>meType = MemberFailed, meMember = ppMeta ps\<rparr>
                         (p\<lparr>poMembers := gomap_put nid (ps\<lparr>ppAlive := False\<rparr>) (poMembers p)\<rparr>)
                  else Some (p\<lparr>poMembers := gomap_put nid ps (poMembers p)\<rparr>))"

definition diffMembers :: "NodeMeta list \<Rightarrow> Poller \<Rightarrow> Poller option" where
  "diffMembers current p =
     (let seen = discoveredBy (poSelf p) current
      in case foldOpt diffSeen seen p of
           None \<Rightarrow> None
         | Some p \<Rightarrow> foldOpt (diffMissing seen) (map fst (poMembers p)) p)"

text \<open>
  One step of the goroutine \<open>pollLoop\<close>. \<open>found\<close> is the answer of the discovery, \<open>None\<close> an error; at
  the \<open>select\<close> the loop returns when its context has ended and \<open>found\<close> is \<open>None\<close>.
\<close>

definition pollStep :: "nat \<Rightarrow> NodeMeta list option \<Rightarrow> Poller \<Rightarrow> Poller option" where
  "pollStep i found p =
     (if i \<ge> length (poLoops p) then Some p
      else let l = poLoops p ! i;
               (l, p') = (case plPC l of
                  PlPoll \<Rightarrow> (l\<lparr>plPC := (case found of None \<Rightarrow> PlWait | Some ms \<Rightarrow> PlDiff ms)\<rparr>, Some p)
                | PlDiff ms \<Rightarrow> (l\<lparr>plPC := PlWait\<rparr>, diffMembers ms p)
                | PlWait \<Rightarrow> (l\<lparr>plPC := (if plCanceled l \<and> found = None then PlDone else PlPoll)\<rparr>, Some p)
                | PlDone \<Rightarrow> (l, Some p))
           in map_option (\<lambda>p. p\<lparr>poLoops := (poLoops p)[i := l]\<rparr>) p')"

text \<open>\<open>WithProbe\<close>: what a discovery that probes its result returns.\<close>

definition WithProbe :: "NodeMeta list option \<Rightarrow> (string \<Rightarrow> bool) \<Rightarrow> NodeMeta list option" where
  "WithProbe discovered probe = map_option (filter (\<lambda>m. probe (nmAddr m))) discovered"


section \<open>Multicast\<close>

record announcement =
  anNodeID :: string
  anAddr :: string
  anTags :: tags
  anLeaving :: bool

record multicastPeer =
  mpMeta :: NodeMeta
  mpLastSeen :: int

text \<open>
  \<open>mcSent\<close> records the packets written to the group. The answers of the socket calls of \<open>Start\<close> are
  its argument.
\<close>

record MulticastProvider =
  mcDeadTimeout :: int
  mcSelf :: NodeMeta
  mcMembers :: "(NodeID, multicastPeer) gomap"
  mcEventCh :: eventChan
  mcStarted :: bool
  mcStopped :: bool \<comment> \<open>\<open>stopCh\<close> is closed\<close>
  mcSent :: "announcement list"

definition multicast_NewWithConfig :: "int \<Rightarrow> MulticastProvider" where
  "multicast_NewWithConfig deadTimeout =
     \<lparr>mcDeadTimeout = (if deadTimeout \<le> 0 then 5 * 10 ^ 9 else deadTimeout), mcSelf = \<lparr>nmID = '''', nmAddr = '''', nmTags = []\<rparr>,
      mcMembers = [], mcEventCh = newEventChan 1024, mcStarted = False, mcStopped = False, mcSent = []\<rparr>"

definition Multicast_Start :: "bool \<Rightarrow> NodeMeta \<Rightarrow> MulticastProvider \<Rightarrow> MulticastProvider \<times> providerError option option" where
  "Multicast_Start socketOk self p =
     (if mcStarted p then (p, Some (Some ErrProviderAlreadyStarted))
      else let p = p\<lparr>mcSelf := self, mcStopped := False\<rparr>
           in if \<not> socketOk then (p, Some None) else (p\<lparr>mcStarted := True\<rparr>, None))"

definition sendAnnouncement :: "bool \<Rightarrow> MulticastProvider \<Rightarrow> MulticastProvider" where
  "sendAnnouncement leaving p =
     p\<lparr>mcSent := mcSent p @ [\<lparr>anNodeID = nmID (mcSelf p), anAddr = nmAddr (mcSelf p), anTags = nmTags (mcSelf p), anLeaving = leaving\<rparr>]\<rparr>"

definition Multicast_Stop :: "MulticastProvider \<Rightarrow> (MulticastProvider \<times> providerError option) option" where
  "Multicast_Stop p =
     (if \<not> mcStarted p then Some (p, Some ErrProviderNotStarted)
      else if ecClosed (mcEventCh p) then None
      else Some ((sendAnnouncement True (p\<lparr>mcStarted := False\<rparr>))\<lparr>mcStopped := True, mcEventCh := (mcEventCh p)\<lparr>ecClosed := True\<rparr>\<rparr>, None))"

definition Multicast_Members :: "MulticastProvider \<Rightarrow> NodeMeta list" where
  "Multicast_Members p = map (mpMeta \<circ> snd) (mcMembers p)"

definition Multicast_UpdateTags :: "tags \<Rightarrow> MulticastProvider \<Rightarrow> MulticastProvider" where
  "Multicast_UpdateTags ts p = p\<lparr>mcSelf := (mcSelf p)\<lparr>nmTags := ts\<rparr>\<rparr>"

definition Multicast_emit :: "MemberEvent \<Rightarrow> MulticastProvider \<Rightarrow> MulticastProvider option" where
  "Multicast_emit ev p =
     (if mcStopped p then Some p else map_option (\<lambda>(ch, sent). p\<lparr>mcEventCh := ch\<rparr>) (chanTrySend ev (mcEventCh p)))"

definition handleAnnouncement :: "int \<Rightarrow> announcement \<Rightarrow> MulticastProvider \<Rightarrow> MulticastProvider option" where
  "handleAnnouncement now ann p =
     (let nid = anNodeID ann; meta = \<lparr>nmID = nid, nmAddr = anAddr ann, nmTags = anTags ann\<rparr>
      in if nid = nmID (mcSelf p) then Some p
         else if anLeaving ann
         then if map_of (mcMembers p) nid \<noteq> None
              then Multicast_emit \<lparr>meType = MemberLeave, meMember = meta\<rparr> (p\<lparr>mcMembers := gomap_del nid (mcMembers p)\<rparr>)
              else Some p
         else case map_of (mcMembers p) nid of
                None \<Rightarrow> Multicast_emit \<lparr>meType = MemberJoin, meMember = meta\<rparr>
                  (p\<lparr>mcMembers := gomap_put nid \<lparr>mpMeta = meta, mpLastSeen = now\<rparr> (mcMembers p)\<rparr>)
              | Some existing \<Rightarrow>
                  let existing = existing\<lparr>mpLastSeen := now\<rparr>
                  in if \<not> tagsEqual (nmTags (mpMeta existing)) (anTags ann)
                     then let existing = existing\<lparr>mpMeta := (mpMeta existing)\<lparr>nmTags := anTags ann, nmAddr := anAddr ann\<rparr>\<rparr>
                          in Multicast_emit \<lparr>meType = MemberUpdated, meMember = mpMeta existing\<rparr>
                               (p\<lparr>mcMembers := gomap_put nid existing (mcMembers p)\<rparr>)
                     else Some (p\<lparr>mcMembers := gomap_put nid existing (mcMembers p)\<rparr>))"

definition sweepOne :: "int \<Rightarrow> NodeID \<Rightarrow> MulticastProvider \<Rightarrow> MulticastProvider option" where
  "sweepOne now nid p =
     (case map_of (mcMembers p) nid of
        None \<Rightarrow> Some p
      | Some ps \<Rightarrow>
          if now - mpLastSeen ps > mcDeadTimeout p
          then Multicast_emit \<lparr>meType = MemberFailed, meMember = mpMeta ps\<rparr> (p\<lparr>mcMembers := gomap_del nid (mcMembers p)\<rparr>)
          else Some p)"

definition sweep :: "int \<Rightarrow> MulticastProvider \<Rightarrow> MulticastProvider option" where
  "sweep now p = foldOpt (sweepOne now) (map fst (mcMembers p)) p"

section \<open>What every provider promises\<close>

text \<open>The membership that an event announces.\<close>

definition applyEvent :: "MemberEvent \<Rightarrow> (NodeID \<rightharpoonup> NodeMeta) \<Rightarrow> (NodeID \<rightharpoonup> NodeMeta)" where
  "applyEvent ev m =
     (if meType ev = MemberJoin \<or> meType ev = MemberUpdated then m(nmID (meMember ev) \<mapsto> meMember ev)
      else m(nmID (meMember ev) := None))"

definition membersMap :: "NodeMeta list \<Rightarrow> (NodeID \<rightharpoonup> NodeMeta)" where
  "membersMap ms = map_of (map (\<lambda>m. (nmID m, m)) ms)"

text \<open>
  A provider and the consumer of its channel: \<open>None\<close> is a step of the consumer, which takes an
  event when there is one and handles it with \<open>on\<close>. The answer is \<open>None\<close> when the provider panics, its
  channel fills up, so that events may be lost, or it is stopped.
\<close>

fun feed :: "('op \<Rightarrow> 's \<Rightarrow> 's option) \<Rightarrow> ('s \<Rightarrow> eventChan) \<Rightarrow> (eventChan \<Rightarrow> 's \<Rightarrow> 's) \<Rightarrow> (MemberEvent \<Rightarrow> 'v \<Rightarrow> 'v) \<Rightarrow>
    'op option list \<Rightarrow> 's \<times> 'v \<Rightarrow> ('s \<times> 'v) option" where
  "feed step chan put on [] x = Some x"
| "feed step chan put on (None # ops) (s, v) =
     (case ecBuf (chan s) of
        [] \<Rightarrow> feed step chan put on ops (s, v)
      | ev # evs \<Rightarrow> feed step chan put on ops (put (chanRecv (chan s)) s, on ev v))"
| "feed step chan put on (Some op # ops) (s, v) =
     (case step op s of
        None \<Rightarrow> None
      | Some s \<Rightarrow> if length (ecBuf (chan s)) < ecCap (chan s) \<and> \<not> ecClosed (chan s) then feed step chan put on ops (s, v) else None)"

text \<open>
  The contract of a provider: what a step changes in its member list is what it puts into its
  channel, as far as that has room.
\<close>

locale membership_provider =
  fixes step :: "'op \<Rightarrow> 's \<Rightarrow> 's option" and chan :: "'s \<Rightarrow> eventChan" and put :: "eventChan \<Rightarrow> 's \<Rightarrow> 's"
    and members :: "'s \<Rightarrow> NodeMeta list" and inv :: "'s \<Rightarrow> bool"
  assumes chan_put: "chan (put ch s) = ch"
    and members_put: "members (put ch s) = members s"
    and inv_put: "inv s \<Longrightarrow> inv (put (chanRecv (chan s)) s)"
    and step_announced: "inv s \<Longrightarrow> \<not> ecClosed (chan s) \<Longrightarrow> step op s = Some s' \<Longrightarrow>
      inv s' \<and> ecCap (chan s') = ecCap (chan s) \<and>
      (\<exists>evs. membersMap (members s') = fold applyEvent evs (membersMap (members s)) \<and>
         ecBuf (chan s') = take (ecCap (chan s)) (ecBuf (chan s) @ evs))"
begin

text \<open>Events that are still in the channel complete the picture of the consumer.\<close>

lemma step_lossless:
  assumes "inv s" "\<not> ecClosed (chan s)" and "step op s = Some s'" and "length (ecBuf (chan s')) < ecCap (chan s')"
  shows "\<exists>evs. membersMap (members s') = fold applyEvent evs (membersMap (members s)) \<and> ecBuf (chan s') = ecBuf (chan s) @ evs"
proof -
  from step_announced [OF assms(1-3)] obtain evs where
    e: "membersMap (members s') = fold applyEvent evs (membersMap (members s))"
      "ecBuf (chan s') = take (ecCap (chan s)) (ecBuf (chan s) @ evs)" "ecCap (chan s') = ecCap (chan s)" by blast
  from e(2,3) assms(4) have "length (ecBuf (chan s) @ evs) \<le> ecCap (chan s)" by auto
  with e show ?thesis by (metis take_all)
qed

lemma feed_view:
  assumes "feed step chan put on ops (s, v) = Some (s', v')" and "inv s" "\<not> ecClosed (chan s)"
    and on: "\<And>ev v. view (on ev v) = applyEvent ev (view v)"
    and "membersMap (members s) = fold applyEvent (ecBuf (chan s)) (view v)"
  shows "inv s' \<and> membersMap (members s') = fold applyEvent (ecBuf (chan s')) (view v')"
  using assms(1,2,3,5)
proof (induction ops arbitrary: s v)
  case (Cons op ops)
  show ?case
  proof (cases op)
    case None
    show ?thesis
    proof (cases "ecBuf (chan s)")
      case Nil
      with Cons None show ?thesis by simp
    next
      case (Cons ev evs)
      with Cons.prems None have f: "feed step chan put on ops (put (chanRecv (chan s)) s, on ev v) = Some (s', v')" by simp
      show ?thesis
        by (rule Cons.IH [OF f inv_put [OF Cons.prems(2)]])
          (use Cons Cons.prems(3,4) in \<open>simp_all add: chan_put members_put chanRecv_def on\<close>)
    qed
  next
    case (Some o')
    with Cons.prems obtain s1 where s1: "step o' s = Some s1" "length (ecBuf (chan s1)) < ecCap (chan s1)" "\<not> ecClosed (chan s1)"
      "feed step chan put on ops (s1, v) = Some (s', v')" by (auto split: option.splits if_splits)
    from step_lossless [OF Cons.prems(2,3) s1(1,2)] obtain evs where
      "membersMap (members s1) = fold applyEvent evs (membersMap (members s))" "ecBuf (chan s1) = ecBuf (chan s) @ evs" by blast
    with Cons.IH [OF s1(4)] step_announced [OF Cons.prems(2,3) s1(1)] s1(3) Cons.prems(4) show ?thesis by simp
  qed
qed simp

end


section \<open>The providers keep the contract\<close>

definition announces :: "nat \<Rightarrow> MemberEvent list \<Rightarrow> (NodeID \<rightharpoonup> NodeMeta) \<Rightarrow> MemberEvent list \<Rightarrow> (NodeID \<rightharpoonup> NodeMeta) \<Rightarrow> bool" where
  "announces cap b m b' m' \<longleftrightarrow> (\<exists>evs. m' = fold applyEvent evs m \<and> b' = take cap (b @ evs))"

lemma announces_none: "length b \<le> cap \<Longrightarrow> announces cap b m b m"
  by (auto simp: announces_def intro: exI [of _ "[]"])

lemma take_take_append: "take n (take n xs @ ys) = take n (xs @ ys)"
  by (cases "length xs \<le> n") simp_all

lemma announces_trans: "announces cap b m b1 m1 \<Longrightarrow> announces cap b1 m1 b2 m2 \<Longrightarrow> announces cap b m b2 m2"
proof -
  assume "announces cap b m b1 m1" "announces cap b1 m1 b2 m2"
  then obtain e1 e2 where "m1 = fold applyEvent e1 m" "b1 = take cap (b @ e1)" "m2 = fold applyEvent e2 m1" "b2 = take cap (b1 @ e2)"
    by (auto simp: announces_def)
  then show ?thesis unfolding announces_def by (intro exI [of _ "e1 @ e2"]) (simp add: take_take_append del: take_append append_assoc, simp)
qed

lemma chanTrySend_announces:
  assumes "chanTrySend ev ch = Some (ch', sent)" and "length (ecBuf ch) \<le> ecCap ch"
  shows "ecCap ch' = ecCap ch \<and> ecClosed ch' = ecClosed ch \<and> length (ecBuf ch') \<le> ecCap ch \<and> ecBuf ch' = take (ecCap ch) (ecBuf ch @ [ev])"
  using assms by (auto simp: chanTrySend_def split: if_splits)

text \<open>A table of peers under their IDs, and the map of those that count as members.\<close>

definition tableOk :: "('p \<Rightarrow> NodeMeta) \<Rightarrow> (NodeID, 'p) gomap \<Rightarrow> bool" where
  "tableOk meta t \<longleftrightarrow> gomap_ok t \<and> (\<forall>n ps. map_of t n = Some ps \<longrightarrow> nmID (meta ps) = n)"

definition tableMap :: "('p \<Rightarrow> NodeMeta) \<Rightarrow> ('p \<Rightarrow> bool) \<Rightarrow> (NodeID, 'p) gomap \<Rightarrow> (NodeID \<rightharpoonup> NodeMeta)" where
  "tableMap meta alive t n = (case map_of t n of None \<Rightarrow> None | Some ps \<Rightarrow> if alive ps then Some (meta ps) else None)"

lemma membersMap_table:
  assumes "tableOk meta t"
  shows "membersMap (map (meta \<circ> snd) (filter (alive \<circ> snd) t)) = tableMap meta alive t"
proof -
  have "nmID (meta ps) = n" if "(n, ps) \<in> set t" for n ps
    using that assms gomap_mem_iff [of t n ps] by (simp add: tableOk_def)
  moreover have "distinct (map fst t)" using assms by (simp add: tableOk_def gomap_ok_def)
  ultimately show ?thesis
  proof (induction t)
    case (Cons a t)
    obtain n ps where a: "a = (n, ps)" by (cases a)
    have IH: "membersMap (map (meta \<circ> snd) (filter (alive \<circ> snd) t)) = tableMap meta alive t"
      using Cons.prems by (intro Cons.IH) auto
    have "nmID (meta ps) = n" "map_of t n = None" using Cons.prems a by (auto simp: map_of_eq_None_iff)
    then show ?case using IH by (auto simp: a membersMap_def tableMap_def fun_eq_iff comp_def)
  qed (simp add: membersMap_def tableMap_def fun_eq_iff)
qed

lemma tableOk_put: "tableOk meta t \<Longrightarrow> nmID (meta ps) = n \<Longrightarrow> tableOk meta (gomap_put n ps t)"
  and tableOk_del: "tableOk meta t \<Longrightarrow> tableOk meta (gomap_del n t)"
  by (auto simp: tableOk_def split: if_splits)

lemma tableMap_put: "tableMap meta alive (gomap_put n ps t) = (tableMap meta alive t)(n := if alive ps then Some (meta ps) else None)"
  and tableMap_del: "tableMap meta alive (gomap_del n t) = (tableMap meta alive t)(n := None)"
  by (auto simp: tableMap_def fun_eq_iff)

lemma tableMap_same: "map_of t n = Some ps \<Longrightarrow> alive ps \<Longrightarrow> (tableMap meta alive t)(n \<mapsto> meta ps) = tableMap meta alive t"
  by (auto simp: tableMap_def fun_eq_iff)

text \<open>The static seed list.\<close>

datatype fixedOp = FxStart NodeMeta | FxStop | FxBeat nat bool | FxAddSeed NodeMeta | FxAddMember NodeMeta

fun fixedStep :: "fixedOp \<Rightarrow> FixedProvider \<Rightarrow> FixedProvider option" where
  "fixedStep (FxStart self) p = Some (fst (Fixed_Start self p))"
| "fixedStep FxStop p = map_option fst (Fixed_Stop p)"
| "fixedStep (FxBeat i up) p = heartbeatStep i up p"
| "fixedStep (FxAddSeed meta) p = Some (AddSeed meta p)"
| "fixedStep (FxAddMember meta) p = AddMember meta p"

definition fixedInv :: "FixedProvider \<Rightarrow> bool" where
  "fixedInv p \<longleftrightarrow> tableOk fpMeta (fxMembers p) \<and> length (ecBuf (fxEventCh p)) \<le> ecCap (fxEventCh p)"

definition fixedTold :: "FixedProvider \<Rightarrow> FixedProvider \<Rightarrow> bool" where
  "fixedTold p p' \<longleftrightarrow> fixedInv p' \<and> ecCap (fxEventCh p') = ecCap (fxEventCh p) \<and>
     announces (ecCap (fxEventCh p)) (ecBuf (fxEventCh p)) (tableMap fpMeta fpAlive (fxMembers p))
       (ecBuf (fxEventCh p')) (tableMap fpMeta fpAlive (fxMembers p'))"

lemma fixedTold_quiet:
  "fixedInv p \<Longrightarrow> fxEventCh p' = fxEventCh p \<Longrightarrow> tableMap fpMeta fpAlive (fxMembers p') = tableMap fpMeta fpAlive (fxMembers p) \<Longrightarrow>
   tableOk fpMeta (fxMembers p') \<Longrightarrow> fixedTold p p'"
  by (simp add: fixedTold_def fixedInv_def announces_none)

lemma fixedTold_emit:
  assumes "fixedInv p" and "Fixed_emit ev (p\<lparr>fxMembers := t\<rparr>) = Some p'" and "tableOk fpMeta t"
    and "tableMap fpMeta fpAlive t = applyEvent ev (tableMap fpMeta fpAlive (fxMembers p))"
  shows "fixedTold p p'"
proof -
  from assms(2) obtain ch sent where c: "chanTrySend ev (fxEventCh p) = Some (ch, sent)" "fxEventCh p' = ch" "fxMembers p' = t"
    by (auto simp: Fixed_emit_def)
  have "length (ecBuf (fxEventCh p)) \<le> ecCap (fxEventCh p)" using assms(1) by (simp add: fixedInv_def)
  from chanTrySend_announces [OF c(1) this] show ?thesis
    using assms(3,4) c(2,3) by (auto simp: fixedTold_def fixedInv_def announces_def intro!: exI [of _ "[ev]"])
qed

lemma fixedTold_success:
  assumes "fixedInv p" and "handleProbeSuccess meta p = Some p'"
  shows "fixedTold p p'"
proof -
  have ok: "tableOk fpMeta (fxMembers p)" using assms(1) by (simp add: fixedInv_def)
  let ?join = "\<lparr>meType = MemberJoin, meMember = meta\<rparr>"
  show ?thesis
  proof (cases "map_of (fxMembers p) (nmID meta)")
    case None
    with assms(2) have "Fixed_emit ?join (p\<lparr>fxMembers := gomap_put (nmID meta) \<lparr>fpMeta = meta, fpAlive = True, fpConsecutiveFails = 0\<rparr> (fxMembers p)\<rparr>) = Some p'"
      by (simp add: handleProbeSuccess_def)
    from fixedTold_emit [OF assms(1) this] show ?thesis by (simp add: tableOk_put [OF ok] tableMap_put applyEvent_def)
  next
    case (Some ps)
    then have id: "nmID (fpMeta ps) = nmID meta" using ok by (simp add: tableOk_def)
    show ?thesis
    proof (cases "fpAlive ps")
      case True
      with assms(2) Some have p': "p' = p\<lparr>fxMembers := gomap_put (nmID meta) (ps\<lparr>fpConsecutiveFails := 0\<rparr>) (fxMembers p)\<rparr>"
        by (simp add: handleProbeSuccess_def Let_def)
      show ?thesis
        by (rule fixedTold_quiet [OF assms(1)])
          (use True id Some in \<open>simp_all add: p' tableOk_put [OF ok] tableMap_put tableMap_same\<close>)
    next
      case False
      with assms(2) Some have "Fixed_emit ?join (p\<lparr>fxMembers := gomap_put (nmID meta) (ps\<lparr>fpConsecutiveFails := 0, fpAlive := True, fpMeta := meta\<rparr>) (fxMembers p)\<rparr>) = Some p'"
        by (simp add: handleProbeSuccess_def Let_def)
      from fixedTold_emit [OF assms(1) this] show ?thesis by (simp add: tableOk_put [OF ok] tableMap_put applyEvent_def)
    qed
  qed
qed

lemma fixedTold_failure:
  assumes "fixedInv p" and "handleProbeFailure nid p = Some p'"
  shows "fixedTold p p'"
proof -
  have ok: "tableOk fpMeta (fxMembers p)" using assms(1) by (simp add: fixedInv_def)
  show ?thesis
  proof (cases "\<exists>ps. map_of (fxMembers p) nid = Some ps \<and> fpAlive ps")
    case True
    then obtain ps where ps: "map_of (fxMembers p) nid = Some ps" "fpAlive ps" by blast
    then have id: "nmID (fpMeta ps) = nid" using ok by (simp add: tableOk_def)
    let ?ps = "ps\<lparr>fpConsecutiveFails := fpConsecutiveFails ps + 1\<rparr>"
    show ?thesis
    proof (cases "fpConsecutiveFails ps + 1 \<ge> fxThreshold p")
      case True
      with assms(2) ps have "Fixed_emit \<lparr>meType = MemberFailed, meMember = fpMeta ps\<rparr> (p\<lparr>fxMembers := gomap_put nid (?ps\<lparr>fpAlive := False\<rparr>) (fxMembers p)\<rparr>) = Some p'"
        by (simp add: handleProbeFailure_def Let_def)
      from fixedTold_emit [OF assms(1) this] show ?thesis using id by (simp add: tableOk_put [OF ok] tableMap_put applyEvent_def)
    next
      case False
      with assms(2) ps have p': "p' = p\<lparr>fxMembers := gomap_put nid ?ps (fxMembers p)\<rparr>" by (simp add: handleProbeFailure_def Let_def)
      show ?thesis
        by (rule fixedTold_quiet [OF assms(1)]) (use ps id in \<open>simp_all add: p' tableOk_put [OF ok] tableMap_put tableMap_same\<close>)
    qed
  next
    case False
    with assms(2) have "p' = p" by (auto simp: handleProbeFailure_def split: option.splits)
    with fixedTold_quiet [OF assms(1)] ok show ?thesis by simp
  qed
qed


lemma fixedTold_loops: "fixedTold p (p'\<lparr>fxLoops := ls\<rparr>) = fixedTold p p'"
  by (simp add: fixedTold_def fixedInv_def)

lemma fixedTold_refl: "fixedInv p \<Longrightarrow> fixedTold p p"
  by (rule fixedTold_quiet) (simp_all add: fixedInv_def)

lemma fixedTold_beat:
  assumes "fixedInv p" and "heartbeatStep i up p = Some p'"
  shows "fixedTold p p'"
proof (cases "i < length (fxLoops p)")
  case True
  note told = fixedTold_loops fixedTold_refl [OF assms(1)] fixedTold_success [OF assms(1)] fixedTold_failure [OF assms(1)]
  show ?thesis
  proof (cases "hbPC (fxLoops p ! i)")
    case (HbSeeds self seeds)
    with assms(2) True show ?thesis
      by (auto simp: heartbeatStep_def probeSeeds_def Let_def told split: list.splits if_splits)
  next
    case (HbAnswer seed ok self seeds)
    with assms(2) True show ?thesis by (auto simp: heartbeatStep_def Let_def told split: if_splits)
  next
    case HbDone
    with assms(2) True have "p' = p" by (simp add: heartbeatStep_def Let_def)
    with told(2) show ?thesis by simp
  qed (use assms(2) True in \<open>auto simp: heartbeatStep_def Let_def told\<close>)
qed (use assms fixedTold_refl in \<open>simp add: heartbeatStep_def\<close>)

lemma fixedTold_step:
  assumes "fixedInv p" and "fixedStep op p = Some p'"
  shows "fixedTold p p'"
proof (cases op)
  case (FxStart self)
  with assms show ?thesis
    by (intro fixedTold_quiet) (auto simp: Fixed_Start_def fixedInv_def)
next
  case FxStop
  with assms show ?thesis
    by (auto simp: Fixed_Stop_def fixedTold_def fixedInv_def announces_none split: if_splits)
next
  case (FxBeat i up)
  with assms fixedTold_beat show ?thesis by simp
next
  case (FxAddSeed meta)
  with assms show ?thesis by (intro fixedTold_quiet) (auto simp: AddSeed_def fixedInv_def)
next
  case (FxAddMember meta)
  have ok: "tableOk fpMeta (fxMembers p)" using assms(1) by (simp add: fixedInv_def)
  show ?thesis
  proof (cases "map_of (fxMembers p) (nmID meta)")
    case None
    with assms(2) FxAddMember have "Fixed_emit \<lparr>meType = MemberJoin, meMember = meta\<rparr>
        (p\<lparr>fxMembers := gomap_put (nmID meta) \<lparr>fpMeta = meta, fpAlive = True, fpConsecutiveFails = 0\<rparr> (fxMembers p)\<rparr>) = Some p'"
      by (simp add: AddMember_def)
    from fixedTold_emit [OF assms(1) this] show ?thesis by (simp add: tableOk_put [OF ok] tableMap_put applyEvent_def)
  qed (use assms(2) FxAddMember fixedTold_refl [OF assms(1)] in \<open>simp add: AddMember_def\<close>)
qed

interpretation fixed: membership_provider fixedStep fxEventCh "\<lambda>ch p. p\<lparr>fxEventCh := ch\<rparr>" Fixed_Members fixedInv
proof
  fix p p' :: FixedProvider and op
  assume h: "fixedInv p" "fixedStep op p = Some p'"
  then have t: "fixedTold p p'" by (rule fixedTold_step)
  then have "tableOk fpMeta (fxMembers p)" "tableOk fpMeta (fxMembers p')" using h(1) by (simp_all add: fixedTold_def fixedInv_def)
  then show "fixedInv p' \<and> ecCap (fxEventCh p') = ecCap (fxEventCh p) \<and>
      (\<exists>evs. membersMap (Fixed_Members p') = fold applyEvent evs (membersMap (Fixed_Members p)) \<and>
         ecBuf (fxEventCh p') = take (ecCap (fxEventCh p)) (ecBuf (fxEventCh p) @ evs))"
    using t by (simp add: fixedTold_def announces_def Fixed_Members_def membersMap_table)
qed (auto simp: Fixed_Members_def fixedInv_def chanRecv_def)

text \<open>The poller.\<close>

datatype pollerOp = PoStart NodeMeta | PoStop | PoPoll nat "NodeMeta list option"

fun pollerStep :: "pollerOp \<Rightarrow> Poller \<Rightarrow> Poller option" where
  "pollerStep (PoStart self) p = Some (fst (Poller_Start self p))"
| "pollerStep PoStop p = map_option fst (Poller_Stop p)"
| "pollerStep (PoPoll i found) p = pollStep i found p"

definition pollerInv :: "Poller \<Rightarrow> bool" where
  "pollerInv p \<longleftrightarrow> tableOk ppMeta (poMembers p) \<and> length (ecBuf (poEventCh p)) \<le> ecCap (poEventCh p)"

definition pollerTold :: "Poller \<Rightarrow> Poller \<Rightarrow> bool" where
  "pollerTold p p' \<longleftrightarrow> pollerInv p' \<and> ecCap (poEventCh p') = ecCap (poEventCh p) \<and>
     announces (ecCap (poEventCh p)) (ecBuf (poEventCh p)) (tableMap ppMeta ppAlive (poMembers p))
       (ecBuf (poEventCh p')) (tableMap ppMeta ppAlive (poMembers p'))"

lemma pollerTold_quiet:
  "pollerInv p \<Longrightarrow> poEventCh p' = poEventCh p \<Longrightarrow> tableMap ppMeta ppAlive (poMembers p') = tableMap ppMeta ppAlive (poMembers p) \<Longrightarrow>
   tableOk ppMeta (poMembers p') \<Longrightarrow> pollerTold p p'"
  by (simp add: pollerTold_def pollerInv_def announces_none)

lemma pollerTold_refl: "pollerInv p \<Longrightarrow> pollerTold p p"
  by (rule pollerTold_quiet) (simp_all add: pollerInv_def)

lemma pollerTold_trans: "pollerTold p p1 \<Longrightarrow> pollerTold p1 p2 \<Longrightarrow> pollerTold p p2"
  by (auto simp: pollerTold_def elim: announces_trans)

lemma pollerTold_emit:
  assumes "pollerInv p" and "Poller_emit ev (p\<lparr>poMembers := t\<rparr>) = Some p'" and "tableOk ppMeta t"
    and "tableMap ppMeta ppAlive t = applyEvent ev (tableMap ppMeta ppAlive (poMembers p))"
  shows "pollerTold p p'"
proof -
  from assms(2) obtain ch sent where c: "chanTrySend ev (poEventCh p) = Some (ch, sent)" "poEventCh p' = ch" "poMembers p' = t"
    by (auto simp: Poller_emit_def)
  have "length (ecBuf (poEventCh p)) \<le> ecCap (poEventCh p)" using assms(1) by (simp add: pollerInv_def)
  from chanTrySend_announces [OF c(1) this] show ?thesis
    using assms(3,4) c(2,3) by (auto simp: pollerTold_def pollerInv_def announces_def intro!: exI [of _ "[ev]"])
qed

lemma pollerTold_seen:
  assumes "pollerInv p" and "diffSeen (nid, meta) p = Some p'" and id: "nmID meta = nid"
  shows "pollerTold p p'"
proof -
  have ok: "tableOk ppMeta (poMembers p)" using assms(1) by (simp add: pollerInv_def)
  note emit = pollerTold_emit [OF assms(1)] and put = tableOk_put [OF ok] tableMap_put applyEvent_def id
  show ?thesis
  proof (cases "map_of (poMembers p) nid")
    case None
    with assms(2) show ?thesis by (intro emit) (auto simp: diffSeen_def put)
  next
    case (Some old)
    then have old: "nmID (ppMeta old) = nid" using ok by (simp add: tableOk_def)
    show ?thesis
    proof (cases "ppAlive old \<and> tagsEqual (nmTags (ppMeta old)) (nmTags meta)")
      case True
      with assms(2) Some have p': "p' = p\<lparr>poMembers := gomap_put nid (old\<lparr>ppConsecutiveMisses := 0\<rparr>) (poMembers p)\<rparr>"
        by (simp add: diffSeen_def Let_def)
      show ?thesis
        by (rule pollerTold_quiet [OF assms(1)]) (use True old Some in \<open>simp_all add: p' put tableMap_same\<close>)
    next
      case False
      show ?thesis
      proof (cases "ppAlive old")
        case True
        with False assms(2) Some show ?thesis
          by (intro emit [of "\<lparr>meType = MemberUpdated, meMember = meta\<rparr>"
                "gomap_put nid (old\<lparr>ppConsecutiveMisses := 0, ppMeta := meta\<rparr>) (poMembers p)"])
            (simp_all add: diffSeen_def Let_def put)
      next
        case dead: False
        with assms(2) Some show ?thesis
          by (intro emit [of "\<lparr>meType = MemberJoin, meMember = meta\<rparr>"
                "gomap_put nid (old\<lparr>ppMeta := meta, ppAlive := True, ppConsecutiveMisses := 0\<rparr>) (poMembers p)"])
            (simp_all add: diffSeen_def Let_def put)
      qed
    qed
  qed
qed

lemma pollerTold_missing:
  assumes "pollerInv p" and "diffMissing seen nid p = Some p'"
  shows "pollerTold p p'"
proof -
  have ok: "tableOk ppMeta (poMembers p)" using assms(1) by (simp add: pollerInv_def)
  show ?thesis
  proof (cases "map_of seen nid = None \<and> (\<exists>ps. map_of (poMembers p) nid = Some ps \<and> ppAlive ps)")
    case True
    then obtain ps where ps: "map_of seen nid = None" "map_of (poMembers p) nid = Some ps" "ppAlive ps" by blast
    then have id: "nmID (ppMeta ps) = nid" using ok by (simp add: tableOk_def)
    let ?ps = "ps\<lparr>ppConsecutiveMisses := ppConsecutiveMisses ps + 1\<rparr>"
    show ?thesis
    proof (cases "ppConsecutiveMisses ps + 1 \<ge> poThreshold p")
      case True
      with assms(2) ps have "Poller_emit \<lparr>meType = MemberFailed, meMember = ppMeta ps\<rparr> (p\<lparr>poMembers := gomap_put nid (?ps\<lparr>ppAlive := False\<rparr>) (poMembers p)\<rparr>) = Some p'"
        by (simp add: diffMissing_def Let_def)
      from pollerTold_emit [OF assms(1) this] show ?thesis using id by (simp add: tableOk_put [OF ok] tableMap_put applyEvent_def)
    next
      case False
      with assms(2) ps have p': "p' = p\<lparr>poMembers := gomap_put nid ?ps (poMembers p)\<rparr>" by (simp add: diffMissing_def Let_def)
      show ?thesis
        by (rule pollerTold_quiet [OF assms(1)]) (use ps id in \<open>simp_all add: p' tableOk_put [OF ok] tableMap_put tableMap_same\<close>)
    qed
  next
    case False
    with assms(2) have "p' = p" by (auto simp: diffMissing_def split: option.splits if_splits)
    with pollerTold_refl [OF assms(1)] show ?thesis by simp
  qed
qed

lemma discoveredBy_ids: "(nid, meta) \<in> set (discoveredBy self ms) \<Longrightarrow> nmID meta = nid \<and> nid \<noteq> nmID self"
proof -
  have "\<forall>x\<in>set (fold (\<lambda>m seen. if nmID m = nmID self then seen else gomap_put (nmID m) m seen) ms acc). nmID (snd x) = fst x \<and> fst x \<noteq> nmID self"
    if "\<forall>x\<in>set acc. nmID (snd x) = fst x \<and> fst x \<noteq> nmID self" for acc
    using that
  proof (induction ms arbitrary: acc)
    case (Cons m ms)
    have "set (gomap_put (nmID m) m acc) \<subseteq> insert (nmID m, m) (set acc)" by (induction acc) auto
    with Cons.prems have "\<forall>x\<in>set (if nmID m = nmID self then acc else gomap_put (nmID m) m acc). nmID (snd x) = fst x \<and> fst x \<noteq> nmID self"
      by auto
    from Cons.IH [OF this] show ?case by (simp only: fold_simps)
  qed simp
  from this [of "[]"] show "(nid, meta) \<in> set (discoveredBy self ms) \<Longrightarrow> nmID meta = nid \<and> nid \<noteq> nmID self"
    by (auto simp: discoveredBy_def)
qed

lemma pollerTold_seen_all:
  assumes "pollerInv p" and "foldOpt diffSeen (discoveredBy self ms) p = Some p1"
  shows "pollerTold p p1"
proof (rule foldOpt_inv [OF assms(2), where P = "pollerTold p"])
  fix x q q' assume "x \<in> set (discoveredBy self ms)" "pollerTold p q" "diffSeen x q = Some q'"
  moreover from this have "nmID (snd x) = fst x" using discoveredBy_ids [of "fst x" "snd x"] by simp
  ultimately have "pollerTold q q'" using pollerTold_seen [of q "fst x" "snd x" q'] by (simp add: pollerTold_def [of p])
  with \<open>pollerTold p q\<close> show "pollerTold p q'" by (rule pollerTold_trans)
qed (rule pollerTold_refl [OF assms(1)])

lemma pollerTold_diff:
  assumes "pollerInv p" and "diffMembers ms p = Some p'"
  shows "pollerTold p p'"
proof -
  let ?seen = "discoveredBy (poSelf p) ms"
  from assms(2) obtain p1 where p1: "foldOpt diffSeen ?seen p = Some p1"
    "foldOpt (diffMissing ?seen) (map fst (poMembers p1)) p1 = Some p'" by (auto simp: diffMembers_def Let_def split: option.splits)
  have step: "pollerTold p q'" if "pollerTold p q" "pollerTold q q'" for q q' using that pollerTold_trans by blast
  have told: "pollerTold p p1" by (rule pollerTold_seen_all [OF assms(1) p1(1)])
  show ?thesis
  proof (rule foldOpt_inv [OF p1(2), where P = "pollerTold p"])
    fix x q q' assume "pollerTold p q" "diffMissing ?seen x q = Some q'"
    then show "pollerTold p q'" using step [of q q'] pollerTold_missing [of q ?seen x q'] by (simp add: pollerTold_def [of p q])
  qed (rule told)
qed

lemma pollerTold_step:
  assumes "pollerInv p" and "pollerStep op p = Some p'"
  shows "pollerTold p p'"
proof (cases op)
  case (PoStart self)
  with assms show ?thesis by (intro pollerTold_quiet) (auto simp: Poller_Start_def pollerInv_def)
next
  case PoStop
  with assms show ?thesis by (auto simp: Poller_Stop_def pollerTold_def pollerInv_def announces_none split: if_splits)
next
  case (PoPoll i found)
  have loops: "pollerTold p (q\<lparr>poLoops := ls\<rparr>) = pollerTold p q" for q ls by (simp add: pollerTold_def pollerInv_def)
  show ?thesis
  proof (cases "i < length (poLoops p)")
    case True
    with assms(2) PoPoll pollerTold_refl [OF assms(1)] pollerTold_diff [OF assms(1)] show ?thesis
      by (cases "plPC (poLoops p ! i)") (auto simp: pollStep_def Let_def loops)
  qed (use assms(2) PoPoll pollerTold_refl [OF assms(1)] in \<open>simp add: pollStep_def\<close>)
qed

interpretation poller: membership_provider pollerStep poEventCh "\<lambda>ch p. p\<lparr>poEventCh := ch\<rparr>" Poller_Members pollerInv
proof
  fix p p' :: Poller and op
  assume h: "pollerInv p" "pollerStep op p = Some p'"
  then have t: "pollerTold p p'" by (rule pollerTold_step)
  then have "tableOk ppMeta (poMembers p)" "tableOk ppMeta (poMembers p')" using h(1) by (simp_all add: pollerTold_def pollerInv_def)
  then show "pollerInv p' \<and> ecCap (poEventCh p') = ecCap (poEventCh p) \<and>
      (\<exists>evs. membersMap (Poller_Members p') = fold applyEvent evs (membersMap (Poller_Members p)) \<and>
         ecBuf (poEventCh p') = take (ecCap (poEventCh p)) (ecBuf (poEventCh p) @ evs))"
    using t by (simp add: pollerTold_def announces_def Poller_Members_def membersMap_table)
qed (auto simp: Poller_Members_def pollerInv_def chanRecv_def)


text \<open>Multicast.\<close>

datatype multicastOp =
  McStart bool NodeMeta | McStop | McPacket int announcement | McSweep int | McTags tags | McAnnounce

fun multicastStep :: "multicastOp \<Rightarrow> MulticastProvider \<Rightarrow> MulticastProvider option" where
  "multicastStep (McStart ok self) p = Some (fst (Multicast_Start ok self p))"
| "multicastStep McStop p = map_option fst (Multicast_Stop p)"
| "multicastStep (McPacket now ann) p = handleAnnouncement now ann p"
| "multicastStep (McSweep now) p = sweep now p"
| "multicastStep (McTags ts) p = Some (Multicast_UpdateTags ts p)"
| "multicastStep McAnnounce p = Some (sendAnnouncement False p)"

definition multicastInv :: "MulticastProvider \<Rightarrow> bool" where
  "multicastInv p \<longleftrightarrow> tableOk mpMeta (mcMembers p) \<and> length (ecBuf (mcEventCh p)) \<le> ecCap (mcEventCh p) \<and>
     (mcStopped p \<longrightarrow> ecClosed (mcEventCh p))"

definition multicastTold :: "MulticastProvider \<Rightarrow> MulticastProvider \<Rightarrow> bool" where
  "multicastTold p p' \<longleftrightarrow> multicastInv p' \<and> ecCap (mcEventCh p') = ecCap (mcEventCh p) \<and>
     announces (ecCap (mcEventCh p)) (ecBuf (mcEventCh p)) (tableMap mpMeta (\<lambda>_. True) (mcMembers p))
       (ecBuf (mcEventCh p')) (tableMap mpMeta (\<lambda>_. True) (mcMembers p'))"

lemma multicastTold_quiet:
  "multicastInv p \<Longrightarrow> mcEventCh p' = mcEventCh p \<Longrightarrow> mcStopped p' = mcStopped p \<Longrightarrow>
   tableMap mpMeta (\<lambda>_. True) (mcMembers p') = tableMap mpMeta (\<lambda>_. True) (mcMembers p) \<Longrightarrow>
   tableOk mpMeta (mcMembers p') \<Longrightarrow> multicastTold p p'"
  by (simp add: multicastTold_def multicastInv_def announces_none)

lemma multicastTold_trans: "multicastTold p p1 \<Longrightarrow> multicastTold p1 p2 \<Longrightarrow> multicastTold p p2"
  by (auto simp: multicastTold_def elim: announces_trans)

lemma multicastTold_emit:
  assumes "multicastInv p" "\<not> ecClosed (mcEventCh p)" and "Multicast_emit ev (p\<lparr>mcMembers := t\<rparr>) = Some p'" and "tableOk mpMeta t"
    and "tableMap mpMeta (\<lambda>_. True) t = applyEvent ev (tableMap mpMeta (\<lambda>_. True) (mcMembers p))"
  shows "multicastTold p p' \<and> \<not> ecClosed (mcEventCh p')"
proof -
  have s: "\<not> mcStopped p" "length (ecBuf (mcEventCh p)) \<le> ecCap (mcEventCh p)" using assms(1,2) by (auto simp: multicastInv_def)
  with assms(3) obtain ch sent where c: "chanTrySend ev (mcEventCh p) = Some (ch, sent)" "mcEventCh p' = ch" "mcMembers p' = t" "\<not> mcStopped p'"
    by (auto simp: Multicast_emit_def)
  from chanTrySend_announces [OF c(1) s(2)] show ?thesis
    using assms(2,4,5) c(2-4) by (auto simp: multicastTold_def multicastInv_def announces_def intro!: exI [of _ "[ev]"])
qed

lemma multicastTold_packet:
  assumes "multicastInv p" "\<not> ecClosed (mcEventCh p)" and "handleAnnouncement now ann p = Some p'"
  shows "multicastTold p p'"
proof -
  let ?n = "anNodeID ann" and ?meta = "\<lparr>nmID = anNodeID ann, nmAddr = anAddr ann, nmTags = anTags ann\<rparr>"
  have ok: "tableOk mpMeta (mcMembers p)" using assms(1) by (simp add: multicastInv_def)
  note put = tableOk_put [OF ok] tableOk_del [OF ok] tableMap_put tableMap_del applyEvent_def
  note emit = multicastTold_emit [OF assms(1,2), THEN conjunct1]
  have quiet: "multicastTold p p" using multicastTold_quiet [OF assms(1)] ok by simp
  show ?thesis
  proof (cases "?n = nmID (mcSelf p) \<or> (anLeaving ann \<and> map_of (mcMembers p) ?n = None)")
    case True
    with assms(3) quiet show ?thesis by (auto simp: handleAnnouncement_def Let_def split: if_splits)
  next
    case other: False
    show ?thesis
    proof (cases "anLeaving ann")
      case True
      with other assms(3) show ?thesis
        by (intro emit [of "\<lparr>meType = MemberLeave, meMember = ?meta\<rparr>" "gomap_del ?n (mcMembers p)"])
          (auto simp: handleAnnouncement_def Let_def put)
    next
      case alive: False
      show ?thesis
      proof (cases "map_of (mcMembers p) ?n")
        case None
        with other alive assms(3) show ?thesis
          by (intro emit [of "\<lparr>meType = MemberJoin, meMember = ?meta\<rparr>" "gomap_put ?n \<lparr>mpMeta = ?meta, mpLastSeen = now\<rparr> (mcMembers p)"])
            (auto simp: handleAnnouncement_def Let_def put)
      next
        case (Some old)
        then have old: "nmID (mpMeta old) = ?n" using ok by (simp add: tableOk_def)
        let ?new = "(mpMeta old)\<lparr>nmTags := anTags ann, nmAddr := anAddr ann\<rparr>"
        show ?thesis
        proof (cases "tagsEqual (nmTags (mpMeta old)) (anTags ann)")
          case True
          with other alive Some assms(3) have p': "p' = p\<lparr>mcMembers := gomap_put ?n (old\<lparr>mpLastSeen := now\<rparr>) (mcMembers p)\<rparr>"
            by (simp add: handleAnnouncement_def Let_def)
          show ?thesis
            by (rule multicastTold_quiet [OF assms(1)]) (use old Some in \<open>simp_all add: p' put tableMap_same\<close>)
        next
          case False
          with other alive Some old assms(3) show ?thesis
            by (intro emit [of "\<lparr>meType = MemberUpdated, meMember = ?new\<rparr>"
                  "gomap_put ?n (old\<lparr>mpLastSeen := now, mpMeta := ?new\<rparr>) (mcMembers p)"])
              (auto simp: handleAnnouncement_def Let_def put)
        qed
      qed
    qed
  qed
qed

lemma multicastTold_sweep:
  assumes "multicastInv p" "\<not> ecClosed (mcEventCh p)" and "sweep now p = Some p'"
  shows "multicastTold p p'"
proof -
  let ?P = "\<lambda>q. multicastTold p q \<and> \<not> ecClosed (mcEventCh q)"
  have start: "multicastTold p p" using multicastTold_quiet [OF assms(1)] assms(1) by (simp add: multicastInv_def)
  have "?P p'"
  proof (rule foldOpt_inv [where P = ?P, OF assms(3) [unfolded sweep_def]])
    fix n q q' assume q: "?P q" and s: "sweepOne now n q = Some q'"
    then have inv: "multicastInv q" "tableOk mpMeta (mcMembers q)" by (auto simp: multicastTold_def multicastInv_def)
    show "?P q'"
    proof (cases "map_of (mcMembers q) n")
      case (Some ps)
      then have "nmID (mpMeta ps) = n" using inv(2) by (simp add: tableOk_def)
      with s Some q inv multicastTold_trans multicastTold_emit [of q "\<lparr>meType = MemberFailed, meMember = mpMeta ps\<rparr>" "gomap_del n (mcMembers q)" q']
      show ?thesis by (auto simp: sweepOne_def tableOk_del tableMap_del applyEvent_def split: if_splits)
    qed (use s q in \<open>simp add: sweepOne_def\<close>)
  qed (use start assms(2) in simp)
  then show ?thesis ..
qed

lemma multicastTold_step:
  assumes "multicastInv p" "\<not> ecClosed (mcEventCh p)" and "multicastStep op p = Some p'"
  shows "multicastTold p p'"
proof (cases op)
  case (McPacket now ann)
  with assms multicastTold_packet show ?thesis by simp
next
  case (McSweep now)
  with assms multicastTold_sweep show ?thesis by simp
qed (use assms in \<open>auto simp: Multicast_Start_def Multicast_Stop_def Multicast_UpdateTags_def sendAnnouncement_def multicastTold_def
      multicastInv_def announces_none Let_def split: if_splits\<close>)

lemma Multicast_Members_table: "tableOk mpMeta (mcMembers p) \<Longrightarrow> membersMap (Multicast_Members p) = tableMap mpMeta (\<lambda>_. True) (mcMembers p)"
  using membersMap_table [of mpMeta "mcMembers p" "\<lambda>_. True"] by (simp add: Multicast_Members_def comp_def)

interpretation multicast: membership_provider multicastStep mcEventCh "\<lambda>ch p. p\<lparr>mcEventCh := ch\<rparr>" Multicast_Members multicastInv
proof
  fix p p' :: MulticastProvider and op
  assume h: "multicastInv p" "\<not> ecClosed (mcEventCh p)" "multicastStep op p = Some p'"
  then have t: "multicastTold p p'" by (rule multicastTold_step)
  then have "tableOk mpMeta (mcMembers p)" "tableOk mpMeta (mcMembers p')" using h(1) by (simp_all add: multicastTold_def multicastInv_def)
  then show "multicastInv p' \<and> ecCap (mcEventCh p') = ecCap (mcEventCh p) \<and>
      (\<exists>evs. membersMap (Multicast_Members p') = fold applyEvent evs (membersMap (Multicast_Members p)) \<and>
         ecBuf (mcEventCh p') = take (ecCap (mcEventCh p)) (ecBuf (mcEventCh p) @ evs))"
    using t by (simp add: multicastTold_def announces_def Multicast_Members_table)
qed (auto simp: Multicast_Members_def multicastInv_def chanRecv_def)


section \<open>Properties\<close>

lemma handleMemberEvent_peers: "map_of (clPeers (handleMemberEvent ev c)) = applyEvent ev (map_of (clPeers c))"
proof -
  have "clPeers (removeConnection n x) = clPeers x" for n x
    using removeConnection_same(1) [of x n] by (simp add: clSameNode_def)
  moreover have "clPeers (reconcileConnectionsLocked x) = clPeers x" for x
    by (simp add: reconcileConnectionsLocked_def closeUndesired_def Let_def)
  ultimately show ?thesis by (simp add: handleMemberEvent_def applyEvent_def Let_def)
qed

lemma fold_handleMemberEvent_peers: "map_of (clPeers (fold handleMemberEvent evs c)) = fold applyEvent evs (map_of (clPeers c))"
  by (induction evs arbitrary: c) (simp_all add: handleMemberEvent_peers)

lemma membersMap_Nil [simp]: "membersMap [] = Map.empty"
  by (simp add: membersMap_def)

text \<open>
  Claim C25. The cluster follows its provider, whichever it is: the static seed list, the poller or
  multicast. In every interleaving of the provider's goroutines and calls with the cluster's event
  loop, as long as the provider runs and its channel has not been full, the peers of the cluster
  are exactly the provider's members once the cluster has handled the events that are still in the
  channel.
\<close>

theorem cluster_follows_provider:
  assumes "NewCluster self prov tr topo = Inr c0"
  shows "(feed fixedStep fxEventCh (\<lambda>ch p. p\<lparr>fxEventCh := ch\<rparr>) handleMemberEvent fops (NewFixedProvider seeds ft probe, c0) = Some (fp, c) \<longrightarrow>
       map_of (clPeers (fold handleMemberEvent (ecBuf (fxEventCh fp)) c)) = membersMap (Fixed_Members fp)) \<and>
     (feed pollerStep poEventCh (\<lambda>ch p. p\<lparr>poEventCh := ch\<rparr>) handleMemberEvent pops (NewPoller pt buffer, c0) = Some (pp, c) \<longrightarrow>
       map_of (clPeers (fold handleMemberEvent (ecBuf (poEventCh pp)) c)) = membersMap (Poller_Members pp)) \<and>
     (feed multicastStep mcEventCh (\<lambda>ch p. p\<lparr>mcEventCh := ch\<rparr>) handleMemberEvent mops (multicast_NewWithConfig dead, c0) = Some (mp, c) \<longrightarrow>
       map_of (clPeers (fold handleMemberEvent (ecBuf (mcEventCh mp)) c)) = membersMap (Multicast_Members mp))"
proof -
  have c0: "clPeers c0 = []" using assms by (auto simp: NewCluster_def split: if_splits option.splits)
  have new: "fixedInv (NewFixedProvider seeds ft probe)" "pollerInv (NewPoller pt buffer)" "multicastInv (multicast_NewWithConfig dead)"
    by (simp_all add: fixedInv_def pollerInv_def multicastInv_def NewFixedProvider_def NewPoller_def multicast_NewWithConfig_def
        newEventChan_def tableOk_def)
  note on = handleMemberEvent_peers and end_ = fold_handleMemberEvent_peers
  show ?thesis
  proof (intro conjI impI)
    assume "feed fixedStep fxEventCh (\<lambda>ch p. p\<lparr>fxEventCh := ch\<rparr>) handleMemberEvent fops (NewFixedProvider seeds ft probe, c0) = Some (fp, c)"
    from fixed.feed_view [where view = "\<lambda>c. map_of (clPeers c)", OF this new(1) _ on]
    show "map_of (clPeers (fold handleMemberEvent (ecBuf (fxEventCh fp)) c)) = membersMap (Fixed_Members fp)"
      by (simp add: end_ c0 NewFixedProvider_def newEventChan_def Fixed_Members_def)
  next
    assume "feed pollerStep poEventCh (\<lambda>ch p. p\<lparr>poEventCh := ch\<rparr>) handleMemberEvent pops (NewPoller pt buffer, c0) = Some (pp, c)"
    from poller.feed_view [where view = "\<lambda>c. map_of (clPeers c)", OF this new(2) _ on]
    show "map_of (clPeers (fold handleMemberEvent (ecBuf (poEventCh pp)) c)) = membersMap (Poller_Members pp)"
      by (simp add: end_ c0 NewPoller_def newEventChan_def Poller_Members_def)
  next
    assume "feed multicastStep mcEventCh (\<lambda>ch p. p\<lparr>mcEventCh := ch\<rparr>) handleMemberEvent mops (multicast_NewWithConfig dead, c0) = Some (mp, c)"
    from multicast.feed_view [where view = "\<lambda>c. map_of (clPeers c)", OF this new(3) _ on]
    show "map_of (clPeers (fold handleMemberEvent (ecBuf (mcEventCh mp)) c)) = membersMap (Multicast_Members mp)"
      by (simp add: end_ c0 multicast_NewWithConfig_def newEventChan_def Multicast_Members_def)
  qed
qed

definition exSeeds :: "NodeMeta list" where
  "exSeeds = [exMeta ''a'', exMeta ''b'']"

lemma exFeed_fixed:
  "\<exists>p c. feed fixedStep fxEventCh (\<lambda>ch p. p\<lparr>fxEventCh := ch\<rparr>) on
       [Some (FxStart (exMeta ''a'')), Some (FxBeat 0 True), Some (FxBeat 0 True), Some (FxBeat 0 True), None] (NewFixedProvider exSeeds 0 True, c0) = Some (p, c) \<and>
     ecBuf (fxEventCh p) = [] \<and> Fixed_Members p = [exMeta ''b'']"
  by (simp add: NewFixedProvider_def newEventChan_def Fixed_Start_def heartbeatStep_def probeSeeds_def handleProbeSuccess_def Fixed_emit_def
      chanTrySend_def chanRecv_def Fixed_Members_def exSeeds_def exMeta_def Let_def)

lemma exFeed_poller:
  "\<exists>p c. feed pollerStep poEventCh (\<lambda>ch p. p\<lparr>poEventCh := ch\<rparr>) on
       [Some (PoStart (exMeta ''a'')), Some (PoPoll 0 (Some exSeeds)), Some (PoPoll 0 None), None] (NewPoller 3 0, c0) = Some (p, c) \<and>
     ecBuf (poEventCh p) = [] \<and> Poller_Members p = [exMeta ''b'']"
  by (simp add: NewPoller_def newEventChan_def Poller_Start_def pollStep_def diffMembers_def discoveredBy_def diffSeen_def diffMissing_def
      Poller_emit_def chanTrySend_def chanRecv_def Poller_Members_def exSeeds_def exMeta_def Let_def)

lemma exFeed_multicast:
  "\<exists>p c. feed multicastStep mcEventCh (\<lambda>ch p. p\<lparr>mcEventCh := ch\<rparr>) on
       [Some (McStart True (exMeta ''a'')), Some (McPacket 1 \<lparr>anNodeID = ''b'', anAddr = ''b'', anTags = [], anLeaving = False\<rparr>), None] (multicast_NewWithConfig 0, c0) = Some (p, c) \<and>
     ecBuf (mcEventCh p) = [] \<and> Multicast_Members p = [exMeta ''b'']"
  by (simp add: multicast_NewWithConfig_def newEventChan_def Multicast_Start_def handleAnnouncement_def Multicast_emit_def
      chanTrySend_def chanRecv_def Multicast_Members_def exMeta_def Let_def)

theorem cluster_follows_provider_witness:
  "\<exists>c0 fp pp mp c d e. NewCluster (exMeta ''a'') True (Some exTransport) None = Inr c0 \<and>
     feed fixedStep fxEventCh (\<lambda>ch p. p\<lparr>fxEventCh := ch\<rparr>) handleMemberEvent
       [Some (FxStart (exMeta ''a'')), Some (FxBeat 0 True), Some (FxBeat 0 True), Some (FxBeat 0 True), None] (NewFixedProvider exSeeds 0 True, c0) = Some (fp, c) \<and>
     feed pollerStep poEventCh (\<lambda>ch p. p\<lparr>poEventCh := ch\<rparr>) handleMemberEvent
       [Some (PoStart (exMeta ''a'')), Some (PoPoll 0 (Some exSeeds)), Some (PoPoll 0 None), None] (NewPoller 3 0, c0) = Some (pp, d) \<and>
     feed multicastStep mcEventCh (\<lambda>ch p. p\<lparr>mcEventCh := ch\<rparr>) handleMemberEvent
       [Some (McStart True (exMeta ''a'')), Some (McPacket 1 \<lparr>anNodeID = ''b'', anAddr = ''b'', anTags = [], anLeaving = False\<rparr>), None] (multicast_NewWithConfig 0, c0) = Some (mp, e) \<and>
     map_of (clPeers c) = [''b'' \<mapsto> exMeta ''b''] \<and> map_of (clPeers d) = [''b'' \<mapsto> exMeta ''b''] \<and> map_of (clPeers e) = [''b'' \<mapsto> exMeta ''b'']"
proof -
  obtain c0 where c0: "NewCluster (exMeta ''a'') True (Some exTransport) None = Inr c0" by (simp add: NewCluster_def exMeta_def)
  note follows = cluster_follows_provider [OF c0]
  obtain fp c where f: "feed fixedStep fxEventCh (\<lambda>ch p. p\<lparr>fxEventCh := ch\<rparr>) handleMemberEvent
       [Some (FxStart (exMeta ''a'')), Some (FxBeat 0 True), Some (FxBeat 0 True), Some (FxBeat 0 True), None] (NewFixedProvider exSeeds 0 True, c0) = Some (fp, c)"
    "ecBuf (fxEventCh fp) = []" "Fixed_Members fp = [exMeta ''b'']" using exFeed_fixed [of handleMemberEvent c0] by blast
  obtain pp d where p: "feed pollerStep poEventCh (\<lambda>ch p. p\<lparr>poEventCh := ch\<rparr>) handleMemberEvent
       [Some (PoStart (exMeta ''a'')), Some (PoPoll 0 (Some exSeeds)), Some (PoPoll 0 None), None] (NewPoller 3 0, c0) = Some (pp, d)"
    "ecBuf (poEventCh pp) = []" "Poller_Members pp = [exMeta ''b'']" using exFeed_poller [of handleMemberEvent c0] by blast
  obtain mp e where m: "feed multicastStep mcEventCh (\<lambda>ch p. p\<lparr>mcEventCh := ch\<rparr>) handleMemberEvent
       [Some (McStart True (exMeta ''a'')), Some (McPacket 1 \<lparr>anNodeID = ''b'', anAddr = ''b'', anTags = [], anLeaving = False\<rparr>), None] (multicast_NewWithConfig 0, c0) = Some (mp, e)"
    "ecBuf (mcEventCh mp) = []" "Multicast_Members mp = [exMeta ''b'']" using exFeed_multicast [of handleMemberEvent c0] by blast
  have one: "membersMap [exMeta ''b''] = [''b'' \<mapsto> exMeta ''b'']" by (simp add: membersMap_def exMeta_def)
  have "map_of (clPeers c) = [''b'' \<mapsto> exMeta ''b'']"
    using follows [THEN conjunct1, THEN mp, OF f(1)] f(2,3) one by simp
  moreover have "map_of (clPeers d) = [''b'' \<mapsto> exMeta ''b'']"
    using follows [THEN conjunct2, THEN conjunct1, THEN mp, OF p(1)] p(2,3) one by simp
  moreover have "map_of (clPeers e) = [''b'' \<mapsto> exMeta ''b'']"
    using follows [THEN conjunct2, THEN conjunct2, THEN mp, OF m(1)] m(2,3) one by simp
  ultimately show ?thesis using c0 f(1) p(1) m(1) by (intro exI conjI)
qed

text \<open>What one comparison does to a known node that the discovery does not return.\<close>

lemma diffSeen_other: "diffSeen x p = Some p' \<Longrightarrow> fst x \<noteq> n \<Longrightarrow> map_of (poMembers p') n = map_of (poMembers p) n \<and> poThreshold p' = poThreshold p \<and> poSelf p' = poSelf p"
  by (auto simp: diffSeen_def Poller_emit_def Let_def split: prod.splits option.splits if_splits)

lemma diffMissing_other: "diffMissing seen m p = Some p' \<Longrightarrow> m \<noteq> n \<Longrightarrow> map_of (poMembers p') n = map_of (poMembers p) n"
  and diffMissing_fields: "diffMissing seen m p = Some p' \<Longrightarrow> poThreshold p' = poThreshold p \<and> poSelf p' = poSelf p"
  by (auto simp: diffMissing_def Poller_emit_def Let_def split: option.splits if_splits)

definition missOnce :: "int \<Rightarrow> pollerPeer \<Rightarrow> pollerPeer" where
  "missOnce threshold ps =
     (if ppAlive ps then ps\<lparr>ppConsecutiveMisses := ppConsecutiveMisses ps + 1, ppAlive := ppConsecutiveMisses ps + 1 < threshold\<rparr> else ps)"

lemma diffMissing_self:
  "diffMissing seen n p = Some p' \<Longrightarrow> map_of seen n = None \<Longrightarrow> map_of (poMembers p) n = Some ps \<Longrightarrow>
   map_of (poMembers p') n = Some (missOnce (poThreshold p) ps)"
  by (auto simp: diffMissing_def Poller_emit_def missOnce_def Let_def split: if_splits)

lemma discoveredBy_keys: "fst ` set (discoveredBy self ms) \<subseteq> nmID ` set ms"
proof -
  have "fst ` set (fold (\<lambda>m seen. if nmID m = nmID self then seen else gomap_put (nmID m) m seen) ms acc) \<subseteq> fst ` set acc \<union> nmID ` set ms" for acc
  proof (induction ms arbitrary: acc)
    case (Cons m ms)
    have "fst ` set (if nmID m = nmID self then acc else gomap_put (nmID m) m acc) \<subseteq> insert (nmID m) (fst ` set acc)"
      by (auto simp: dom_update)
    then have "fst ` set (if nmID m = nmID self then acc else gomap_put (nmID m) m acc) \<union> nmID ` set ms \<subseteq> fst ` set acc \<union> nmID ` set (m # ms)"
      by (simp only: list.set image_insert) blast
    with Cons.IH [of "if nmID m = nmID self then acc else gomap_put (nmID m) m acc"] show ?case
      unfolding fold_simps by (rule order_trans)
  qed simp
  from this [of "[]"] show ?thesis by (simp add: discoveredBy_def)
qed

lemma diffMembers_missing:
  assumes d: "diffMembers ms p = Some p'" and inv: "pollerInv p" and n: "n \<notin> nmID ` set ms" and ps: "map_of (poMembers p) n = Some ps"
  shows "map_of (poMembers p') n = Some (missOnce (poThreshold p) ps) \<and> poThreshold p' = poThreshold p"
proof -
  let ?seen = "discoveredBy (poSelf p) ms"
  from d obtain p1 where p1: "foldOpt diffSeen ?seen p = Some p1" "foldOpt (diffMissing ?seen) (map fst (poMembers p1)) p1 = Some p'"
    by (auto simp: diffMembers_def Let_def split: option.splits)
  have unseen: "n \<notin> fst ` set ?seen" using discoveredBy_keys n by blast
  have q1: "map_of (poMembers p1) n = Some ps \<and> poThreshold p1 = poThreshold p"
  proof (rule foldOpt_inv [OF p1(1)])
    fix x q q' assume "x \<in> set ?seen" "map_of (poMembers q) n = Some ps \<and> poThreshold q = poThreshold p" "diffSeen x q = Some q'"
    then show "map_of (poMembers q') n = Some ps \<and> poThreshold q' = poThreshold p" using diffSeen_other [of x q q' n] unseen by force
  qed (simp add: ps)
  have "pollerTold p p1" by (rule pollerTold_seen_all [OF inv p1(1)])
  then have "distinct (map fst (poMembers p1))" by (simp add: pollerTold_def pollerInv_def tableOk_def gomap_ok_def)
  moreover have "n \<in> set (map fst (poMembers p1))" using q1 by (auto dest: map_of_SomeD intro: rev_image_eqI)
  ultimately obtain xs ys where xs: "map fst (poMembers p1) = xs @ n # ys" "n \<notin> set xs" "n \<notin> set ys"
    by (metis distinct.simps(2) distinct_append not_distinct_conv_prefix split_list)
  from p1(2) xs(1) obtain p2 p3 where p2: "foldOpt (diffMissing ?seen) xs p1 = Some p2" "diffMissing ?seen n p2 = Some p3"
    "foldOpt (diffMissing ?seen) ys p3 = Some p'" by (auto simp: foldOpt_append split: option.splits)
  have "map_of (poMembers p2) n = Some ps \<and> poThreshold p2 = poThreshold p"
  proof (rule foldOpt_inv [OF p2(1)])
    fix x q q' assume "x \<in> set xs" "map_of (poMembers q) n = Some ps \<and> poThreshold q = poThreshold p" "diffMissing ?seen x q = Some q'"
    then show "map_of (poMembers q') n = Some ps \<and> poThreshold q' = poThreshold p"
      using diffMissing_other [of ?seen x q q' n] diffMissing_fields [of ?seen x q q'] xs(2) by auto
  qed (rule q1)
  with diffMissing_self [OF p2(2)] diffMissing_fields [OF p2(2)] unseen
  have p3: "map_of (poMembers p3) n = Some (missOnce (poThreshold p) ps) \<and> poThreshold p3 = poThreshold p" by (simp add: map_of_eq_None_iff)
  show ?thesis
  proof (rule foldOpt_inv [OF p2(3)])
    fix x q q' assume "x \<in> set ys" "map_of (poMembers q) n = Some (missOnce (poThreshold p) ps) \<and> poThreshold q = poThreshold p"
      "diffMissing ?seen x q = Some q'"
    then show "map_of (poMembers q') n = Some (missOnce (poThreshold p) ps) \<and> poThreshold q' = poThreshold p"
      using diffMissing_other [of ?seen x q q' n] diffMissing_fields [of ?seen x q q'] xs(3) by auto
  qed (rule p3)
qed


lemma missOnce_iter:
  assumes "ppAlive ps" "ppConsecutiveMisses ps = 0" "0 < t"
  shows "ppMeta ((missOnce t ^^ k) ps) = ppMeta ps \<and> (ppAlive ((missOnce t ^^ k) ps) \<longleftrightarrow> int k < t) \<and>
    (int k < t \<longrightarrow> ppConsecutiveMisses ((missOnce t ^^ k) ps) = int k)"
  by (induction k) (use assms in \<open>auto simp: missOnce_def\<close>)

lemma diffMembers_missing_all:
  assumes "foldOpt diffMembers polls p = Some p'" "pollerInv p" "\<forall>ms\<in>set polls. n \<notin> nmID ` set ms" "map_of (poMembers p) n = Some ps"
  shows "map_of (poMembers p') n = Some ((missOnce (poThreshold p) ^^ length polls) ps) \<and> pollerInv p'"
  using assms
proof (induction polls arbitrary: p ps)
  case (Cons ms polls)
  from Cons.prems(1) obtain p1 where p1: "diffMembers ms p = Some p1" "foldOpt diffMembers polls p1 = Some p'" by (auto split: option.splits)
  note one = diffMembers_missing [OF p1(1) Cons.prems(2) _ Cons.prems(4)] pollerTold_diff [OF Cons.prems(2) p1(1)]
  with Cons.IH [OF p1(2), of "missOnce (poThreshold p) ps"] Cons.prems(3) show ?case
    by (simp add: pollerTold_def funpow_swap1)
qed simp

definition failOnce :: "int \<Rightarrow> fixedPeerState \<Rightarrow> fixedPeerState" where
  "failOnce threshold ps =
     (if fpAlive ps then ps\<lparr>fpConsecutiveFails := fpConsecutiveFails ps + 1, fpAlive := fpConsecutiveFails ps + 1 < threshold\<rparr> else ps)"

lemma failOnce_iter:
  assumes "fpAlive ps" "fpConsecutiveFails ps = 0" "0 < t"
  shows "fpMeta ((failOnce t ^^ k) ps) = fpMeta ps \<and> (fpAlive ((failOnce t ^^ k) ps) \<longleftrightarrow> int k < t) \<and>
    (int k < t \<longrightarrow> fpConsecutiveFails ((failOnce t ^^ k) ps) = int k)"
  by (induction k) (use assms in \<open>auto simp: failOnce_def\<close>)

lemma handleProbeFailure_once:
  "handleProbeFailure n p = Some p' \<Longrightarrow> map_of (fxMembers p) n = Some ps \<Longrightarrow>
   map_of (fxMembers p') n = Some (failOnce (fxThreshold p) ps) \<and> fxThreshold p' = fxThreshold p"
  by (auto simp: handleProbeFailure_def Fixed_emit_def failOnce_def Let_def split: if_splits)

lemma handleProbeFailure_all:
  assumes "foldOpt handleProbeFailure (replicate k n) p = Some p'" "fixedInv p" "map_of (fxMembers p) n = Some ps"
  shows "map_of (fxMembers p') n = Some ((failOnce (fxThreshold p) ^^ k) ps) \<and> fixedInv p'"
  using assms
proof (induction k arbitrary: p ps)
  case (Suc k)
  from Suc.prems(1) obtain p1 where p1: "handleProbeFailure n p = Some p1" "foldOpt handleProbeFailure (replicate k n) p1 = Some p'"
    by (auto split: option.splits)
  note one = handleProbeFailure_once [OF p1(1) Suc.prems(3)] fixedTold_failure [OF Suc.prems(2) p1(1)]
  with Suc.IH [OF p1(2), of "failOnce (fxThreshold p) ps"] show ?case by (simp add: fixedTold_def funpow_swap1)
qed simp

text \<open>
  Claim C26. A node is declared failed exactly at the threshold: a member of the poller that was seen
  in the last comparison is a member after further ones without it if and only if these are fewer
  than \<open>FailureThreshold\<close>, whatever other nodes come and go in them; and the same holds for a seed of
  the static list that answered its last probe and for the failed probes that follow.
\<close>

theorem failure_detected_at_threshold:
  assumes p: "pollerInv p" "map_of (poMembers p) n = Some ps" "ppAlive ps" "ppConsecutiveMisses ps = 0" "0 < poThreshold p"
    and polls: "foldOpt diffMembers polls p = Some p'" "\<forall>ms\<in>set polls. n \<notin> nmID ` set ms"
    and q: "fixedInv q" "map_of (fxMembers q) n = Some qs" "fpAlive qs" "fpConsecutiveFails qs = 0" "0 < fxThreshold q"
    and probes: "foldOpt handleProbeFailure (replicate k n) q = Some q'"
  shows "membersMap (Poller_Members p') n = (if int (length polls) < poThreshold p then Some (ppMeta ps) else None) \<and>
     membersMap (Fixed_Members q') n = (if int k < fxThreshold q then Some (fpMeta qs) else None)"
proof -
  from diffMembers_missing_all [OF polls(1) p(1) polls(2) p(2)] missOnce_iter [OF p(3-5), of "length polls"]
  have "membersMap (Poller_Members p') n = (if int (length polls) < poThreshold p then Some (ppMeta ps) else None)"
    by (simp add: Poller_Members_def membersMap_table pollerInv_def tableMap_def)
  moreover from handleProbeFailure_all [OF probes q(1,2)] failOnce_iter [OF q(3-5), of k]
  have "membersMap (Fixed_Members q') n = (if int k < fxThreshold q then Some (fpMeta qs) else None)"
    by (simp add: Fixed_Members_def membersMap_table fixedInv_def tableMap_def)
  ultimately show ?thesis ..
qed

definition exPoller :: Poller where
  "exPoller = (NewPoller 2 0)\<lparr>poSelf := exMeta ''a'', poMembers := [(''b'', \<lparr>ppMeta = exMeta ''b'', ppAlive = True, ppConsecutiveMisses = 0\<rparr>)]\<rparr>"

definition exFixed :: FixedProvider where
  "exFixed = (NewFixedProvider exSeeds 2 True)\<lparr>fxMembers := [(''b'', \<lparr>fpMeta = exMeta ''b'', fpAlive = True, fpConsecutiveFails = 0\<rparr>)]\<rparr>"

theorem failure_detected_at_threshold_witness:
  "\<exists>p' q'. foldOpt diffMembers [[], []] exPoller = Some p' \<and> membersMap (Poller_Members p') ''b'' = None \<and>
     foldOpt handleProbeFailure (replicate 1 ''b'') exFixed = Some q' \<and> membersMap (Fixed_Members q') ''b'' = Some (exMeta ''b'')"
proof -
  obtain p' where p': "foldOpt diffMembers [[], []] exPoller = Some p'"
    by (simp add: exPoller_def NewPoller_def newEventChan_def diffMembers_def discoveredBy_def diffMissing_def Poller_emit_def chanTrySend_def Let_def)
  obtain q' where q': "foldOpt handleProbeFailure (replicate 1 ''b'') exFixed = Some q'"
    by (simp add: exFixed_def NewFixedProvider_def newEventChan_def handleProbeFailure_def Let_def)
  have "pollerInv exPoller" "fixedInv exFixed"
    by (simp_all add: pollerInv_def fixedInv_def exPoller_def exFixed_def NewPoller_def NewFixedProvider_def newEventChan_def tableOk_def exMeta_def gomap_ok_def)
  from failure_detected_at_threshold [OF this(1) _ _ _ _ p' _ this(2) _ _ _ _ q'] p' q' show ?thesis
    by (simp add: exPoller_def exFixed_def NewPoller_def NewFixedProvider_def)
qed

lemma last_updated:
  assumes "i < length xs" "\<And>x. f (g x) = f x"
  shows "f ((butlast xs @ [g (last xs)]) ! i) = f (xs ! i) \<and> i < length (butlast xs @ [g (last xs)])"
proof (cases xs rule: rev_exhaust)
  case (snoc ys y)
  with assms show ?thesis by (cases "i = length ys") (simp_all add: nth_append)
qed (use assms in simp)

lemma diffSeen_closed:
  "diffSeen x p = Some p' \<Longrightarrow> ecClosed (poEventCh p) \<Longrightarrow>
   map_of (poMembers p) (fst x) \<noteq> None \<and> dom (map_of (poMembers p')) = dom (map_of (poMembers p)) \<and> ecClosed (poEventCh p')"
  by (auto simp: diffSeen_def Poller_emit_def chanTrySend_def Let_def split: prod.splits option.splits if_splits)

lemma diffSeen_all_closed:
  "foldOpt diffSeen xs p = Some p' \<Longrightarrow> ecClosed (poEventCh p) \<Longrightarrow> x \<in> set xs \<Longrightarrow> map_of (poMembers p) (fst x) \<noteq> None"
proof (induction xs arbitrary: p)
  case (Cons y xs)
  then obtain p1 where p1: "diffSeen y p = Some p1" "foldOpt diffSeen xs p1 = Some p'" by (auto split: option.splits)
  note y = diffSeen_closed [OF p1(1) Cons.prems(2)]
  show ?case
  proof (cases "x = y")
    case False
    with Cons.prems(3) have "map_of (poMembers p1) (fst x) \<noteq> None" using Cons.IH [OF p1(2)] y by simp
    then have "fst x \<in> dom (map_of (poMembers p1))" by (simp add: domIff)
    moreover from y have "dom (map_of (poMembers p1)) = dom (map_of (poMembers p))" by simp
    ultimately have "fst x \<in> dom (map_of (poMembers p))" by (simp only:)
    then show ?thesis by (simp only: domIff not_False_eq_True)
  qed (use y in simp)
qed simp

text \<open>
  Claim C39. Stopping a provider races with its own goroutine: after \<open>Stop\<close> has closed the event
  channel, a probe or a discovery that was under way and finds a new node makes the goroutine send
  on the closed channel, which panics; the context that \<open>Stop\<close> cancels is only looked at before.
\<close>

theorem provider_panics_after_stop:
  assumes f: "i < length (fxLoops p)" "hbPC (fxLoops p ! i) = HbAnswer seed True self seeds" "map_of (fxMembers p) (nmID seed) = None"
    "Fixed_Stop p = Some (p', None)"
    and q: "j < length (poLoops q)" "plPC (poLoops q ! j) = PlDiff ms" "(n, m) \<in> set (discoveredBy (poSelf q) ms)"
      "map_of (poMembers q) n = None" "Poller_Stop q = Some (q', None)"
  shows "heartbeatStep i up p' = None \<and> pollStep j found q' = None"
proof
  from f(4) have p': "p' = p\<lparr>fxLoops := butlast (fxLoops p) @ [(last (fxLoops p))\<lparr>hbCanceled := True\<rparr>],
              fxStarted := False, fxEventCh := (fxEventCh p)\<lparr>ecClosed := True\<rparr>\<rparr>"
    by (simp add: Fixed_Stop_def split: if_splits)
  have "hbPC (fxLoops p' ! i) = hbPC (fxLoops p ! i)" "i < length (fxLoops p')"
    using last_updated [OF f(1), of hbPC "\<lambda>h. h\<lparr>hbCanceled := True\<rparr>"] by (simp_all add: p')
  with f p' show "heartbeatStep i up p' = None"
    by (simp add: heartbeatStep_def handleProbeSuccess_def Fixed_emit_def chanTrySend_def Let_def)
  from q(5) have q': "q' = q\<lparr>poStarted := False, poLoops := butlast (poLoops q) @ [(last (poLoops q))\<lparr>plCanceled := True\<rparr>],
              poEventCh := (poEventCh q)\<lparr>ecClosed := True\<rparr>\<rparr>"
    by (simp add: Poller_Stop_def split: if_splits)
  have at: "plPC (poLoops q' ! j) = PlDiff ms" "j < length (poLoops q')"
    using last_updated [OF q(1), of plPC "\<lambda>h. h\<lparr>plCanceled := True\<rparr>"] q(2) by (simp_all add: q')
  have "foldOpt diffSeen (discoveredBy (poSelf q') ms) q' = None"
    using diffSeen_all_closed [of "discoveredBy (poSelf q') ms" q' _ "(n, m)"] q(3,4)
    by (cases "foldOpt diffSeen (discoveredBy (poSelf q') ms) q'") (simp_all add: q')
  with at show "pollStep j found q' = None" by (simp add: pollStep_def diffMembers_def Let_def)
qed

definition exRacing :: FixedProvider where
  "exRacing = exFixed\<lparr>fxStarted := True, fxLoops := [\<lparr>hbCanceled = False, hbPC = HbAnswer (exMeta ''c'') True (exMeta ''a'') []\<rparr>]\<rparr>"

definition exRacingPoller :: Poller where
  "exRacingPoller = exPoller\<lparr>poStarted := True, poLoops := [\<lparr>plCanceled = False, plPC = PlDiff [exMeta ''c'']\<rparr>]\<rparr>"

theorem provider_panics_after_stop_witness:
  "\<exists>p' q'. Fixed_Stop exRacing = Some (p', None) \<and> Poller_Stop exRacingPoller = Some (q', None) \<and>
     heartbeatStep 0 False p' = None \<and> pollStep 0 None q' = None"
proof -
  obtain p' q' where stop: "Fixed_Stop exRacing = Some (p', None)" "Poller_Stop exRacingPoller = Some (q', None)"
    by (simp add: exRacing_def exRacingPoller_def exFixed_def exPoller_def Fixed_Stop_def Poller_Stop_def NewFixedProvider_def NewPoller_def newEventChan_def)
  from provider_panics_after_stop [of 0 exRacing "exMeta ''c''" "exMeta ''a''" "[]" p' 0 exRacingPoller "[exMeta ''c'']" "''c''" "exMeta ''c''" q' False None] stop
  show ?thesis by (simp add: exRacing_def exRacingPoller_def exFixed_def exPoller_def NewFixedProvider_def NewPoller_def exMeta_def discoveredBy_def)
qed

end
