(* ===== verification/Gossip.thy ===== *)
theory Gossip
  imports Remote "HOL-Library.Multiset"
begin

text \<open>
  The gossip protocol and the gossip of node metadata (\<open>gossip.go\<close>, \<open>metadata_gossip.go\<close>). A
  protocol instance works on a cluster core and on a state of its client, here of any type: the
  callbacks \<open>OnProduce\<close> and \<open>OnReceive\<close> are functions on the two. A random source is a function
  that gives the number drawn at each position. What travels is encoded by the codec; the types
  that the gossip protocol and the publication adapters put on the wire are a datatype of their own.
\<close>

section \<open>What is put on the wire\<close>

record publication =
  pbTopic :: string
  pbPayload :: string \<comment> \<open>the encoded payload\<close>
  pbPublisherNode :: NodeID

datatype wire =
  WireValue any
| WireGossip string string \<comment> \<open>\<open>GossipEnvelope\<close>: protocol and payload\<close>
| WireBroadcast publication \<comment> \<open>\<open>pubsubBroadcastMsg\<close>\<close>
| WireRouted publication \<comment> \<open>\<open>pubsubRoutedMsg\<close>\<close>
| WireBatch "publication list" \<comment> \<open>\<open>[]pubsubGossipPayload\<close>\<close>

record wireCodec =
  wcEncode :: "wire \<Rightarrow> string option"
  wcDecode :: "string \<Rightarrow> wire option"

text \<open>A value the codec carries: it is encoded, and decoding the bytes gives it back.\<close>

definition carries :: "wireCodec \<Rightarrow> wire \<Rightarrow> bool" where
  "carries cd w \<longleftrightarrow> (\<exists>bs. wcEncode cd w = Some bs \<and> wcDecode cd bs = Some w)"

definition wireEnvelope :: "NodeID \<Rightarrow> NodeID \<Rightarrow> string \<Rightarrow> string \<Rightarrow> Envelope" where
  "wireEnvelope self target typeName encoded =
     \<lparr> enSenderNode = self, enSenderActorID = '''', enTargetNode = target, enTargetActorID = '''',
       enNamespace = '''', enGeneration = 0, enTypeName = typeName, enSchemaVersion = '''', enMessageID = 0,
       enPayload = encoded, enIsAsk = False, enAskRequestID = '''', enAskReplyTo = None \<rparr>"

text \<open>The loop that sends an envelope to each of a list of nodes and ignores the errors.\<close>

definition sendToNodes :: "string \<Rightarrow> string \<Rightarrow> NodeID list \<Rightarrow> Cluster \<Rightarrow> Cluster" where
  "sendToNodes typeName encoded targets c =
     fold (\<lambda>n c. fst (SendRemote n (wireEnvelope (LocalNodeID c) n typeName encoded) c)) targets c"

section \<open>Choosing peers\<close>

definition swapAt :: "nat \<Rightarrow> nat \<Rightarrow> 'a list \<Rightarrow> 'a list" where
  "swapAt i j xs = xs[i := xs ! j, j := xs ! i]"

fun shuffleFrom :: "(nat \<Rightarrow> nat) \<Rightarrow> nat \<Rightarrow> 'a list \<Rightarrow> 'a list" where
  "shuffleFrom rnd 0 xs = xs"
| "shuffleFrom rnd (Suc i) xs = shuffleFrom rnd i (swapAt (Suc i) (rnd (Suc i) mod (Suc i + 1)) xs)"

text \<open>A negative number of peers makes the code slice out of range, which panics.\<close>

definition selectRandomPeers :: "(nat \<Rightarrow> nat) \<Rightarrow> 'a list \<Rightarrow> int \<Rightarrow> 'a list option" where
  "selectRandomPeers rnd members n =
     (if int (length members) \<le> n then Some members
      else if n < 0 then None
      else Some (take (nat n) (shuffleFrom rnd (length members - 1) members)))"

section \<open>The protocol\<close>

record 's GossipProtocol =
  gpProtocol :: string
  gpFanout :: int
  gpOnProduce :: "(Cluster \<times> 's \<Rightarrow> 's \<times> string option) option"
  gpOnReceive :: "(NodeID \<Rightarrow> string \<Rightarrow> Cluster \<times> 's \<Rightarrow> Cluster \<times> 's) option"

definition NewGossipProtocol ::
    "string \<Rightarrow> int \<Rightarrow> (Cluster \<times> 's \<Rightarrow> 's \<times> string option) option \<Rightarrow>
     (NodeID \<Rightarrow> string \<Rightarrow> Cluster \<times> 's \<Rightarrow> Cluster \<times> 's) option \<Rightarrow> 's GossipProtocol" where
  "NewGossipProtocol protocol fanout onProduce onReceive =
     \<lparr>gpProtocol = protocol, gpFanout = (if fanout = 0 then 3 else fanout), gpOnProduce = onProduce, gpOnReceive = onReceive\<rparr>"

text \<open>One round of \<open>gossipLoop\<close>; \<open>None\<close> is the panic of the choice of peers.\<close>

definition doRound :: "wireCodec \<Rightarrow> (nat \<Rightarrow> nat) \<Rightarrow> 's GossipProtocol \<Rightarrow> Cluster \<times> 's \<Rightarrow> (Cluster \<times> 's) option" where
  "doRound cd rnd g = (\<lambda>(c, s).
     case gpOnProduce g of
       None \<Rightarrow> Some (c, s)
     | Some producer \<Rightarrow>
         (case producer (c, s) of
            (s, None) \<Rightarrow> Some (c, s)
          | (s, Some delta) \<Rightarrow>
              (case selectRandomPeers rnd (Members c) (gpFanout g) of
                 None \<Rightarrow> None
               | Some peers \<Rightarrow>
                   if peers = [] then Some (c, s)
                   else case wcEncode cd (WireGossip (gpProtocol g) delta) of
                          None \<Rightarrow> Some (c, s)
                        | Some encoded \<Rightarrow> Some (sendToNodes ''__gossip'' encoded (map nmID peers) c, s))))"

definition gp_HandleInbound :: "NodeID \<Rightarrow> string \<Rightarrow> string \<Rightarrow> 's GossipProtocol \<Rightarrow> Cluster \<times> 's \<Rightarrow> Cluster \<times> 's" where
  "gp_HandleInbound from protocol payload g st =
     (if protocol \<noteq> gpProtocol g then st
      else case gpOnReceive g of None \<Rightarrow> st | Some h \<Rightarrow> h from payload st)"

type_synonym 's GossipRouter = "string \<rightharpoonup> 's GossipProtocol"

definition NewGossipRouter :: "InboundDispatcher \<Rightarrow> InboundDispatcher \<times> 's GossipRouter" where
  "NewGossipRouter d = (RegisterHandler ''__gossip'' d, Map.empty)"

definition gr_Add :: "'s GossipProtocol \<Rightarrow> 's GossipRouter \<Rightarrow> 's GossipRouter" where
  "gr_Add g gr = gr(gpProtocol g \<mapsto> g)"

definition gr_handle :: "wireCodec \<Rightarrow> 's GossipRouter \<Rightarrow> NodeID \<Rightarrow> Envelope \<Rightarrow> Cluster \<times> 's \<Rightarrow> Cluster \<times> 's" where
  "gr_handle cd gr from env st =
     (case wcDecode cd (enPayload env) of
        Some (WireGossip protocol payload) \<Rightarrow>
          (case gr protocol of None \<Rightarrow> st | Some g \<Rightarrow> gp_HandleInbound from protocol payload g st)
      | _ \<Rightarrow> st)"

text \<open>\<open>RegisterGossipHandler\<close>: the handler for a single protocol.\<close>

definition gossipHandler :: "wireCodec \<Rightarrow> 's GossipProtocol \<Rightarrow> NodeID \<Rightarrow> Envelope \<Rightarrow> Cluster \<times> 's \<Rightarrow> Cluster \<times> 's" where
  "gossipHandler cd g from env st =
     (case wcDecode cd (enPayload env) of
        Some (WireGossip protocol payload) \<Rightarrow> gp_HandleInbound from protocol payload g st
      | _ \<Rightarrow> st)"

section \<open>Gossip of metadata\<close>

text \<open>The gob encoding of a node's metadata.\<close>

record metaCodec =
  mcEncode :: "NodeMeta \<Rightarrow> string option"
  mcDecode :: "string \<Rightarrow> NodeMeta option"

definition metadataGossipProtocol :: string where
  "metadataGossipProtocol = ''node_metadata''"

definition metadata_produce :: "metaCodec \<Rightarrow> Cluster \<times> 's \<Rightarrow> 's \<times> string option" where
  "metadata_produce mc = (\<lambda>(c, s). (s, mcEncode mc (Self c)))"

definition metadata_receive :: "metaCodec \<Rightarrow> NodeID \<Rightarrow> string \<Rightarrow> Cluster \<times> 's \<Rightarrow> Cluster \<times> 's" where
  "metadata_receive mc from data = (\<lambda>(c, s).
     case mcDecode mc data of None \<Rightarrow> (c, s) | Some meta \<Rightarrow> (fst (UpdatePeerMeta meta c), s))"

definition NewMetadataGossip :: "metaCodec \<Rightarrow> int \<Rightarrow> 's GossipProtocol" where
  "NewMetadataGossip mc fanout =
     NewGossipProtocol metadataGossipProtocol fanout (Some (metadata_produce mc)) (Some (metadata_receive mc))"

definition RegisterMetadataGossip :: "metaCodec \<Rightarrow> int \<Rightarrow> 's GossipRouter \<Rightarrow> 's GossipRouter" where
  "RegisterMetadataGossip mc fanout router = gr_Add (NewMetadataGossip mc fanout) router"

section \<open>The choice of peers is uniform in what it can reach\<close>

lemma mset_swapAt: "i < length xs \<Longrightarrow> j < length xs \<Longrightarrow> mset (swapAt i j xs) = mset xs"
  unfolding swapAt_def by (rule mset_swap)

lemma length_swapAt [simp]: "length (swapAt i j xs) = length xs"
  by (simp add: swapAt_def)

lemma draw_less: "rnd (Suc i) mod (Suc i + 1) < Suc i + (1 :: nat)"
  by (rule mod_less_divisor) simp

lemma mset_shuffle: "n < length xs \<or> n = 0 \<Longrightarrow> mset (shuffleFrom rnd n xs) = mset xs"
proof (induction n arbitrary: xs)
  case (Suc n)
  then have n: "Suc n < length xs" by blast
  define j where "j = rnd (Suc n) mod (Suc n + 1)"
  have "j < length xs" using draw_less [of rnd n] n unfolding j_def by linarith
  then have "mset (swapAt (Suc n) j xs) = mset xs" using n by (simp add: mset_swapAt)
  with Suc.IH [of "swapAt (Suc n) j xs"] n show ?case by (simp only: shuffleFrom.simps j_def [symmetric] length_swapAt) simp
qed simp

lemma shuffle_tail: "n < k \<Longrightarrow> k < length xs \<Longrightarrow> shuffleFrom rnd n xs ! k = xs ! k"
proof (induction n arbitrary: xs)
  case (Suc n)
  define j where "j = rnd (Suc n) mod (Suc n + 1)"
  have "j \<noteq> k" using draw_less [of rnd n] Suc.prems(1) unfolding j_def by linarith
  with Suc.prems have "swapAt (Suc n) j xs ! k = xs ! k" by (simp add: swapAt_def)
  with Suc.IH [of "swapAt (Suc n) j xs"] Suc.prems show ?case by (simp only: shuffleFrom.simps j_def [symmetric] length_swapAt)
qed simp

lemma shuffle_cong:
  assumes "\<And>i. 0 < i \<Longrightarrow> i \<le> n \<Longrightarrow> rnd i = rnd' i"
  shows "shuffleFrom rnd n xs = shuffleFrom rnd' n xs"
  using assms
proof (induction n arbitrary: xs)
  case (Suc n)
  have "rnd (Suc n) = rnd' (Suc n)" using Suc.prems by simp
  with Suc.IH Suc.prems show ?case by (simp only: shuffleFrom.simps)
qed simp

lemma length_shuffle [simp]: "length (shuffleFrom rnd n xs) = length xs"
  by (induction n arbitrary: xs) (simp_all only: shuffleFrom.simps length_swapAt)


lemma take_swapAt: "i < k \<Longrightarrow> j < k \<Longrightarrow> k \<le> length xs \<Longrightarrow> take k (swapAt i j xs) = swapAt i j (take k xs)"
  by (simp add: swapAt_def take_update_swap)

lemma drop_swapAt: "i < k \<Longrightarrow> j < k \<Longrightarrow> drop k (swapAt i j xs) = drop k xs"
  by (simp add: swapAt_def)

lemma shuffle_reaches:
  "n < length xs \<Longrightarrow> length ys = length xs \<Longrightarrow> mset (take (Suc n) ys) = mset (take (Suc n) xs) \<Longrightarrow> drop (Suc n) ys = drop (Suc n) xs \<Longrightarrow>
   \<exists>rnd. shuffleFrom rnd n xs = ys"
proof (induction n arbitrary: xs)
  case 0
  then have "take 1 ys = take 1 xs" by (cases xs; cases ys) simp_all
  with 0 have "ys = xs" by (metis One_nat_def append_take_drop_id)
  then show ?case by simp
next
  case (Suc n)
  have snoc: "take (Suc (Suc n)) zs = take (Suc n) zs @ [zs ! Suc n]" if "Suc n < length zs" for zs :: "'a list"
    using that by (rule take_Suc_conv_app_nth)
  have "ys ! Suc n \<in># mset (take (Suc (Suc n)) ys)" using Suc.prems(1,2) snoc [of ys] by simp
  then have "ys ! Suc n \<in> set (take (Suc (Suc n)) xs)" unfolding Suc.prems(3) by simp
  then obtain j where j: "j < Suc (Suc n)" "xs ! j = ys ! Suc n" using Suc.prems(1) by (auto simp: in_set_conv_nth)
  let ?xs = "swapAt (Suc n) j xs"
  have last: "?xs ! Suc n = ys ! Suc n" using j Suc.prems(1) by (cases "j = Suc n") (simp_all add: swapAt_def)
  have "mset (take (Suc (Suc n)) ?xs) = mset (take (Suc (Suc n)) xs)"
    using j(1) Suc.prems(1) by (simp add: take_swapAt mset_swapAt)
  then have "add_mset (ys ! Suc n) (mset (take (Suc n) ys)) = add_mset (ys ! Suc n) (mset (take (Suc n) ?xs))"
    using Suc.prems(1-3) snoc [of ?xs] snoc [of ys] last by simp
  then have pre: "mset (take (Suc n) ys) = mset (take (Suc n) ?xs)" by (rule add_mset_add_mset_same_iff [THEN iffD1])
  have "drop (Suc (Suc n)) ys = drop (Suc (Suc n)) ?xs" using Suc.prems(4) j(1) by (simp add: drop_swapAt)
  then have "drop (Suc n) ys = drop (Suc n) ?xs"
    using Suc.prems(1,2) last Cons_nth_drop_Suc [of "Suc n" ys] Cons_nth_drop_Suc [of "Suc n" ?xs] by simp
  with Suc.IH [of ?xs] pre Suc.prems(1,2) obtain rnd where rnd: "shuffleFrom rnd n ?xs = ys" by auto
  have "shuffleFrom (rnd(Suc n := j)) n ?xs = shuffleFrom rnd n ?xs" by (rule shuffle_cong) simp
  moreover have "(rnd(Suc n := j)) (Suc n) mod (Suc n + 1) = j" using j(1) by simp
  ultimately have "shuffleFrom (rnd(Suc n := j)) (Suc n) xs = ys" using rnd by (simp only: shuffleFrom.simps)
  then show ?case by blast
qed

lemma peers_chosen:
  assumes "0 \<le> n"
  shows "\<exists>ps. selectRandomPeers rnd ms n = Some ps \<and> length ps = min (nat n) (length ms) \<and> mset ps \<subseteq># mset ms"
proof (cases "int (length ms) \<le> n")
  case False
  let ?sh = "shuffleFrom rnd (length ms - 1) ms"
  have "mset ?sh = mset ms" using False assms by (intro mset_shuffle) linarith
  moreover have "mset (take (nat n) ?sh) \<subseteq># mset ?sh" by (metis append_take_drop_id mset_append mset_subset_eq_add_left)
  ultimately show ?thesis using False assms by (simp add: selectRandomPeers_def)
qed (use assms in \<open>simp add: selectRandomPeers_def\<close>)

text \<open>
  The peers of a gossip round are a choice without repetition: as many members as the
  fanout asks for, or all of them when there are fewer, none taken twice. The shuffle excludes
  nobody: every selection of that size, in every order, is the result of some draws.
\<close>

theorem random_peers:
  assumes "0 \<le> n"
  shows "(\<exists>ps. selectRandomPeers rnd ms n = Some ps \<and> length ps = min (nat n) (length ms) \<and> mset ps \<subseteq># mset ms) \<and>
    (\<forall>ps. n < int (length ms) \<longrightarrow> length ps = nat n \<longrightarrow> mset ps \<subseteq># mset ms \<longrightarrow> (\<exists>rnd. selectRandomPeers rnd ms n = Some ps))"
proof (intro conjI allI impI)
  show "\<exists>ps. selectRandomPeers rnd ms n = Some ps \<and> length ps = min (nat n) (length ms) \<and> mset ps \<subseteq># mset ms"
    using peers_chosen [OF assms] .
next
  fix ps assume ps: "n < int (length ms)" "length ps = nat n" "mset ps \<subseteq># mset ms"
  obtain rest where rest: "mset rest = mset ms - mset ps" using ex_mset by blast
  have all: "mset (ps @ rest) = mset ms" using rest ps(3) by simp
  then have len: "length (ps @ rest) = length ms" by (metis size_mset)
  have "Suc (length ms - 1) = length ms" using ps(1) assms by simp
  with all len ps(1) obtain rnd where "shuffleFrom rnd (length ms - 1) ms = ps @ rest"
    using shuffle_reaches [of "length ms - 1" ms "ps @ rest"] assms by auto
  with ps(1,2) assms have "selectRandomPeers rnd ms n = Some ps" by (simp add: selectRandomPeers_def)
  then show "\<exists>rnd. selectRandomPeers rnd ms n = Some ps" by blast
qed

theorem random_peers_witness:
  "(\<exists>ps. selectRandomPeers (\<lambda>i. i) [''a'', ''b'', ''c''] 2 = Some ps \<and> length ps = 2) \<and>
   (\<exists>rnd. selectRandomPeers rnd [''a'', ''b'', ''c''] 2 = Some [''c'', ''a''])"
  using random_peers [of 2 "\<lambda>i. i" "[''a'', ''b'', ''c'']"] by (auto simp: numeral_2_eq_2)


section \<open>Metadata reaches the peers\<close>

lemma tagsEqual_map:
  assumes "gomap_ok a" "gomap_ok b" "\<forall>(k, v)\<in>set a. v \<noteq> ''''" "tagsEqual a b"
  shows "map_of a = map_of b"
proof -
  have "set a \<subseteq> set b"
  proof
    fix x assume x: "x \<in> set a"
    obtain k v where kv: "x = (k, v)" by force
    from x kv assms(3,4) have "tagOf b k = v" "v \<noteq> ''''" by (auto simp: tagsEqual_def list_all_iff)
    then have "map_of b k = Some v" by (simp add: tagOf_def split: option.splits)
    with kv show "x \<in> set b" by (simp add: map_of_SomeD)
  qed
  moreover have "card (set a) = card (set b)"
    using assms(1,2,4) by (simp add: gomap_ok_def distinct_map distinct_card tagsEqual_def)
  ultimately have "set a = set b" by (simp add: card_subset_eq)
  then show ?thesis using assms(1,2) by (intro map_of_inject_set [THEN iffD2]) (simp_all add: gomap_ok_def)
qed

lemma UpdatePeerMeta_stored:
  assumes "map_of (clPeers c) (nmID meta) = Some old"
  shows "map_of (clPeers (fst (UpdatePeerMeta meta c))) (nmID meta) = Some (if tagsEqual (nmTags old) (nmTags meta) then old else meta)"
  using assms by (simp add: UpdatePeerMeta_def Let_def update_conv')

lemma metadata_handled:
  assumes "mcDecode mc data = Some meta" "wcDecode cd encoded = Some (WireGossip metadataGossipProtocol data)"
    and "router metadataGossipProtocol = Some (NewMetadataGossip mc fanout)"
  shows "gr_handle cd router from (wireEnvelope a b ''__gossip'' encoded) (c, t) = (fst (UpdatePeerMeta meta c), t)"
  using assms by (simp add: gr_handle_def wireEnvelope_def gp_HandleInbound_def NewMetadataGossip_def NewGossipProtocol_def metadata_receive_def)

text \<open>
  Claim C31. A gossip round hands the node's current metadata to its peers: the round sends one
  envelope, through the core, to each of the chosen peers, and a peer that knows the sender and
  handles that envelope has afterwards the sender's tags, provided no tag it had stored for the
  sender was empty.
\<close>

theorem metadata_gossip_updates_peers:
  assumes meta: "mcEncode mc (Self ca) = Some data" "mcDecode mc data = Some (Self ca)"
    and wire: "carries cd (WireGossip metadataGossipProtocol data)"
    and peers: "selectRandomPeers rnd (Members ca) (if fanout = 0 then 3 else fanout) = Some peers" "peers \<noteq> []"
    and b: "router = RegisterMetadataGossip mc fanout' base" "map_of (clPeers cb) (nmID (Self ca)) = Some old"
    and tags: "gomap_ok (nmTags old)" "gomap_ok (nmTags (Self ca))" "\<forall>(k, v)\<in>set (nmTags old). v \<noteq> ''''"
  shows "\<exists>encoded. doRound cd rnd (NewMetadataGossip mc fanout) (ca, s) = Some (sendToNodes ''__gossip'' encoded (map nmID peers) ca, s) \<and>
    (\<forall>n from t. \<exists>cb' m. gr_handle cd router from (wireEnvelope (LocalNodeID ca) n ''__gossip'' encoded) (cb, t) = (cb', t) \<and>
       map_of (clPeers cb') (nmID (Self ca)) = Some m \<and> map_of (nmTags m) = map_of (nmTags (Self ca)))"
proof -
  from wire obtain encoded where e: "wcEncode cd (WireGossip metadataGossipProtocol data) = Some encoded"
    "wcDecode cd encoded = Some (WireGossip metadataGossipProtocol data)" by (auto simp: carries_def)
  have round: "doRound cd rnd (NewMetadataGossip mc fanout) (ca, s) = Some (sendToNodes ''__gossip'' encoded (map nmID peers) ca, s)"
    using meta(1) peers e(1) by (simp add: doRound_def NewMetadataGossip_def NewGossipProtocol_def metadata_produce_def)
  have "router metadataGossipProtocol = Some (NewMetadataGossip mc fanout')"
    by (simp add: b(1) RegisterMetadataGossip_def gr_Add_def NewMetadataGossip_def NewGossipProtocol_def)
  note handled = metadata_handled [of mc data "Self ca" cd encoded router fanout', OF meta(2) e(2) this]
  have "\<exists>m. map_of (clPeers (fst (UpdatePeerMeta (Self ca) cb))) (nmID (Self ca)) = Some m \<and> map_of (nmTags m) = map_of (nmTags (Self ca))"
    using UpdatePeerMeta_stored [OF b(2)] tagsEqual_map [OF tags] by auto
  then show ?thesis by (intro exI [of _ encoded] conjI allI) (simp_all add: round handled)
qed

definition exWire :: wireCodec where
  "exWire = \<lparr>wcEncode = (\<lambda>w. case w of WireGossip p d \<Rightarrow> Some d | _ \<Rightarrow> None), wcDecode = (\<lambda>bs. Some (WireGossip metadataGossipProtocol bs))\<rparr>"

definition exMetaCodec :: metaCodec where
  "exMetaCodec = \<lparr>mcEncode = (\<lambda>m. Some (nmID m)), mcDecode = (\<lambda>n. Some \<lparr>nmID = n, nmAddr = n, nmTags = [(''role'', ''web'')]\<rparr>)\<rparr>"

theorem metadata_gossip_updates_peers_witness:
  "\<exists>encoded cb' m. doRound exWire (\<lambda>i. i) (NewMetadataGossip exMetaCodec 1) (UpdateTags [(''role'', ''web'')] (exCluster [''a'', ''b''] ''a''), ()) =
       Some (sendToNodes ''__gossip'' encoded [''b''] (UpdateTags [(''role'', ''web'')] (exCluster [''a'', ''b''] ''a'')), ()) \<and>
     gr_handle exWire (RegisterMetadataGossip exMetaCodec 1 Map.empty) ''a''
       (wireEnvelope ''a'' ''b'' ''__gossip'' encoded) (exCluster [''a'', ''b''] ''b'', ()) = (cb', ()) \<and>
     map_of (clPeers cb') ''a'' = Some m \<and> map_of (nmTags m) = [''role'' \<mapsto> ''web'']"
proof -
  let ?c = "UpdateTags [(''role'', ''web'')] (exCluster [''a'', ''b''] ''a'')" and ?cb = "exCluster [''a'', ''b''] ''b''"
  have self: "Self ?c = \<lparr>nmID = ''a'', nmAddr = ''a'', nmTags = [(''role'', ''web'')]\<rparr>" "Members ?c = [exMeta ''b'']" "LocalNodeID ?c = ''a''"
    by (simp_all add: UpdateTags_def exCluster_def Self_def exMeta_def Members_def LocalNodeID_def)
  have peers: "clPeers ?cb = [(''a'', exMeta ''a'')]" by (simp add: exCluster_def)
  have h: "mcEncode exMetaCodec (Self ?c) = Some ''a''" "mcDecode exMetaCodec ''a'' = Some (Self ?c)"
    "carries exWire (WireGossip metadataGossipProtocol ''a'')"
    "selectRandomPeers (\<lambda>i. i) (Members ?c) (if (1 :: int) = 0 then 3 else 1) = Some [exMeta ''b'']" "[exMeta ''b''] \<noteq> []"
    "map_of (clPeers ?cb) (nmID (Self ?c)) = Some (exMeta ''a'')" "gomap_ok (nmTags (exMeta ''a''))" "gomap_ok (nmTags (Self ?c))"
    "\<forall>(k, v)\<in>set (nmTags (exMeta ''a'')). v \<noteq> ''''"
    by (simp_all add: self peers exMetaCodec_def carries_def exWire_def selectRandomPeers_def exMeta_def gomap_ok_def)
  from metadata_gossip_updates_peers [where fanout' = 1 and base = Map.empty and s = "()", OF h(1-5) refl h(6-9)] show ?thesis
    by (fastforce simp: self exMeta_def)
qed

end
