(* ===== verification/PubSubAdapters.thy ===== *)
theory PubSubAdapters
  imports Gossip PubSub
begin

text \<open>
  The adapters that carry publications to other nodes (\<open>pubsub_adapter_direct.go\<close>,
  \<open>pubsub_adapter_gossip.go\<close>, \<open>pubsub_adapter_crdt.go\<close>). An adapter's handler, the callback that
  publishes on the local broker, is a flag and the log of its calls. The locale \<open>publication_adapter\<close>
  is what the adapters that send at once have in common; the direct and the CRDT adapter interpret
  it. The replicated map of sets under the CRDT adapter is a third-party package: the record
  \<open>DeltaMap\<close> holds the operations the code calls.
\<close>

record received =
  rvHandler :: bool
  rvCalls :: "(string \<times> any \<times> NodeID) list" \<comment> \<open>topic, payload, publisher\<close>

definition newReceived :: received where
  "newReceived = \<lparr>rvHandler = False, rvCalls = []\<rparr>"

definition SetHandler :: "received \<Rightarrow> received" where
  "SetHandler a = a\<lparr>rvHandler := True\<rparr>"

definition callHandler :: "string \<Rightarrow> any \<Rightarrow> NodeID \<Rightarrow> received \<Rightarrow> received" where
  "callHandler topic payload node a = a\<lparr>rvCalls := rvCalls a @ [(topic, payload, node)]\<rparr>"

text \<open>The inner payload of a publication, decoded and handed to the handler.\<close>

definition deliverPublication :: "wireCodec \<Rightarrow> publication \<Rightarrow> received \<Rightarrow> received" where
  "deliverPublication cd p a =
     (case wcDecode cd (pbPayload p) of
        Some (WireValue payload) \<Rightarrow> callHandler (pbTopic p) payload (pbPublisherNode p) a
      | _ \<Rightarrow> a)"

section \<open>Direct sends\<close>

definition pubsubEnvelopeType :: string where
  "pubsubEnvelopeType = ''__pubsub_broadcast''"

definition direct_Broadcast :: "wireCodec \<Rightarrow> string \<Rightarrow> any \<Rightarrow> NodeID \<Rightarrow> Cluster \<Rightarrow> Cluster \<times> string option" where
  "direct_Broadcast cd topic payload publisherNode c =
     (case wcEncode cd (WireValue payload) of
        None \<Rightarrow> (c, Some ''encode'')
      | Some payloadBytes \<Rightarrow>
          (case wcEncode cd (WireBroadcast \<lparr>pbTopic = topic, pbPayload = payloadBytes, pbPublisherNode = publisherNode\<rparr>) of
             None \<Rightarrow> (c, Some ''encode'')
           | Some encoded \<Rightarrow> (sendToNodes pubsubEnvelopeType encoded (map nmID (Members c)) c, None)))"

definition direct_HandleInbound :: "wireCodec \<Rightarrow> Envelope \<Rightarrow> received \<Rightarrow> received" where
  "direct_HandleInbound cd env a =
     (if \<not> rvHandler a then a
      else case wcDecode cd (enPayload env) of Some (WireBroadcast p) \<Rightarrow> deliverPublication cd p a | _ \<Rightarrow> a)"

definition RegisterPubSubHandler :: "InboundDispatcher \<Rightarrow> InboundDispatcher" where
  "RegisterPubSubHandler d = RegisterHandler pubsubEnvelopeType d"

section \<open>Gossip\<close>

definition pubsubGossipProtocol :: string where
  "pubsubGossipProtocol = ''pubsub_broadcast''"

definition maxPendingPubSub :: nat where
  "maxPendingPubSub = 4096"

record GossipPubSubAdapter =
  gaReceived :: received
  gaPending :: "publication list"

definition gossip_Broadcast :: "wireCodec \<Rightarrow> string \<Rightarrow> any \<Rightarrow> NodeID \<Rightarrow> GossipPubSubAdapter \<Rightarrow> GossipPubSubAdapter \<times> string option" where
  "gossip_Broadcast cd topic payload publisherNode a =
     (case wcEncode cd (WireValue payload) of
        None \<Rightarrow> (a, Some ''encode'')
      | Some encoded \<Rightarrow>
          if length (gaPending a) \<ge> maxPendingPubSub
          then (a, Some (''pubsub gossip buffer full ('' @ string_of_nat maxPendingPubSub @ '')''))
          else (a\<lparr>gaPending := gaPending a @ [\<lparr>pbTopic = topic, pbPayload = encoded, pbPublisherNode = publisherNode\<rparr>]\<rparr>, None))"

definition pubsub_produce :: "wireCodec \<Rightarrow> Cluster \<times> GossipPubSubAdapter \<Rightarrow> GossipPubSubAdapter \<times> string option" where
  "pubsub_produce cd = (\<lambda>(c, a).
     if gaPending a = [] then (a, None)
     else (a\<lparr>gaPending := []\<rparr>, wcEncode cd (WireBatch (gaPending a))))"

definition pubsub_receive :: "wireCodec \<Rightarrow> NodeID \<Rightarrow> string \<Rightarrow> Cluster \<times> GossipPubSubAdapter \<Rightarrow> Cluster \<times> GossipPubSubAdapter" where
  "pubsub_receive cd from data = (\<lambda>(c, a).
     if \<not> rvHandler (gaReceived a) then (c, a)
     else case wcDecode cd data of
            Some (WireBatch batch) \<Rightarrow> (c, a\<lparr>gaReceived := fold (deliverPublication cd) batch (gaReceived a)\<rparr>)
          | _ \<Rightarrow> (c, a))"

definition NewGossipPubSubAdapter :: "wireCodec \<Rightarrow> int \<Rightarrow> GossipPubSubAdapter \<times> GossipPubSubAdapter GossipProtocol" where
  "NewGossipPubSubAdapter cd fanout =
     (\<lparr>gaReceived = newReceived, gaPending = []\<rparr>,
      NewGossipProtocol pubsubGossipProtocol fanout (Some (pubsub_produce cd)) (Some (pubsub_receive cd)))"

section \<open>Replicated routes\<close>

definition pubsubRoutedType :: string where
  "pubsubRoutedType = ''__pubsub_routed''"

definition routeNodePrefix :: string where
  "routeNodePrefix = ''node:''"

definition routeTopicPrefix :: string where
  "routeTopicPrefix = ''topic:''"

record 'm DeltaMap =
  dmpAdd :: "string \<Rightarrow> string \<Rightarrow> 'm \<Rightarrow> 'm" \<comment> \<open>\<open>Mutate\<close> with \<open>AddSetMember\<close>\<close>
  dmpDel :: "string \<Rightarrow> string \<Rightarrow> 'm \<Rightarrow> 'm" \<comment> \<open>\<open>Mutate\<close> with \<open>RemoveSetMember\<close>\<close>
  dmpHasKey :: "'m \<Rightarrow> string \<Rightarrow> bool"
  dmpElements :: "'m \<Rightarrow> string \<Rightarrow> string list"
  dmpRemoveKey :: "string \<Rightarrow> 'm \<Rightarrow> 'm"

text \<open>
  What the package documents of a replica between merges: the elements of a set are those added
  and not removed since, without repetition, and a key with elements is there.
\<close>

definition deltaMapOk :: "'m DeltaMap \<Rightarrow> bool" where
  "deltaMapOk rm \<longleftrightarrow>
     (\<forall>m k v k'. set (dmpElements rm (dmpAdd rm k v m) k') = (if k' = k then insert v (set (dmpElements rm m k')) else set (dmpElements rm m k'))) \<and>
     (\<forall>m k v k'. set (dmpElements rm (dmpDel rm k v m) k') = (if k' = k then set (dmpElements rm m k') - {v} else set (dmpElements rm m k'))) \<and>
     (\<forall>m k k'. set (dmpElements rm (dmpRemoveKey rm k m) k') = (if k' = k then {} else set (dmpElements rm m k'))) \<and>
     (\<forall>m k. distinct (dmpElements rm m k)) \<and>
     (\<forall>m k. dmpElements rm m k \<noteq> [] \<longrightarrow> dmpHasKey rm m k)"

record 'm CRDTPubSubAdapter =
  caLocalID :: NodeID
  caRoutes :: 'm
  caReceived :: received

definition NewCRDTPubSubAdapter :: "'m \<Rightarrow> Cluster \<Rightarrow> 'm CRDTPubSubAdapter" where
  "NewCRDTPubSubAdapter routes c = \<lparr>caLocalID = LocalNodeID c, caRoutes = routes, caReceived = newReceived\<rparr>"

definition NotifySubscribe :: "'m DeltaMap \<Rightarrow> string \<Rightarrow> 'm CRDTPubSubAdapter \<Rightarrow> 'm CRDTPubSubAdapter" where
  "NotifySubscribe rm topic a =
     a\<lparr>caRoutes := dmpAdd rm (routeTopicPrefix @ topic) (caLocalID a) (dmpAdd rm (routeNodePrefix @ caLocalID a) topic (caRoutes a))\<rparr>"


definition crdtTargets :: "'m DeltaMap \<Rightarrow> string \<Rightarrow> 'm CRDTPubSubAdapter \<Rightarrow> NodeID list" where
  "crdtTargets rm topic a =
     (if \<not> dmpHasKey rm (caRoutes a) (routeTopicPrefix @ topic) then []
      else filter (\<lambda>n. n \<noteq> caLocalID a) (dmpElements rm (caRoutes a) (routeTopicPrefix @ topic)))"

definition routed_Broadcast ::
    "'m DeltaMap \<Rightarrow> wireCodec \<Rightarrow> string \<Rightarrow> any \<Rightarrow> NodeID \<Rightarrow> 'm CRDTPubSubAdapter \<Rightarrow> Cluster \<Rightarrow> Cluster \<times> string option" where
  "routed_Broadcast rm cd topic payload publisherNode a c =
     (case wcEncode cd (WireValue payload) of
        None \<Rightarrow> (c, Some ''encode'')
      | Some payloadBytes \<Rightarrow>
          (case wcEncode cd (WireRouted \<lparr>pbTopic = topic, pbPayload = payloadBytes, pbPublisherNode = publisherNode\<rparr>) of
             None \<Rightarrow> (c, Some ''encode'')
           | Some encoded \<Rightarrow>
               (fold (\<lambda>n c. fst (SendRemote n (wireEnvelope (caLocalID a) n pubsubRoutedType encoded) c)) (crdtTargets rm topic a) c, None)))"


definition routed_handleInbound :: "wireCodec \<Rightarrow> Envelope \<Rightarrow> received \<Rightarrow> received" where
  "routed_handleInbound cd env a =
     (if \<not> rvHandler a then a
      else case wcDecode cd (enPayload env) of Some (WireRouted p) \<Rightarrow> deliverPublication cd p a | _ \<Rightarrow> a)"

definition routed_RegisterHandler :: "InboundDispatcher \<Rightarrow> InboundDispatcher" where
  "routed_RegisterHandler d = RegisterHandler pubsubRoutedType d"


section \<open>Adapters that send at once\<close>

lemma sendToNodes_fixed: "LocalNodeID c = self \<Longrightarrow>
  sendToNodes typeName encoded ns c = fold (\<lambda>n c. fst (SendRemote n (wireEnvelope self n typeName encoded) c)) ns c"
proof (induction ns arbitrary: c)
  case (Cons n ns)
  have "LocalNodeID (fst (SendRemote n (wireEnvelope self n typeName encoded) c)) = self"
    using SendRemote_same(1) [of c n "wireEnvelope self n typeName encoded"] Cons.prems by (simp add: clSameNode_def LocalNodeID_def)
  with Cons show ?case by (simp add: sendToNodes_def)
qed (simp add: sendToNodes_def)

text \<open>
  A publication is encoded, wrapped into a message of the adapter and sent to the adapter's
  targets; the other side unwraps it.
\<close>

locale publication_adapter =
  fixes bcast :: "wireCodec \<Rightarrow> string \<Rightarrow> any \<Rightarrow> NodeID \<Rightarrow> 's \<Rightarrow> Cluster \<Rightarrow> Cluster \<times> string option"
    and inbound :: "wireCodec \<Rightarrow> Envelope \<Rightarrow> received \<Rightarrow> received"
    and wrap :: "publication \<Rightarrow> wire"
    and typeName :: string
    and self :: "'s \<Rightarrow> Cluster \<Rightarrow> NodeID"
    and targets :: "string \<Rightarrow> 's \<Rightarrow> Cluster \<Rightarrow> NodeID list"
  assumes sends: "wcEncode cd (WireValue payload) = Some bytes \<Longrightarrow>
      wcEncode cd (wrap \<lparr>pbTopic = topic, pbPayload = bytes, pbPublisherNode = node\<rparr>) = Some encoded \<Longrightarrow>
      bcast cd topic payload node s c =
        (fold (\<lambda>n k. fst (SendRemote n (wireEnvelope (self s c) n typeName encoded) k)) (targets topic s c) c, None)"
    and refuses: "wcEncode cd (WireValue payload) = None \<Longrightarrow> bcast cd topic payload node s c = (c, Some ''encode'')"
    and handles: "rvHandler a \<Longrightarrow> wcDecode cd (enPayload env) = Some (wrap p) \<Longrightarrow> inbound cd env a = deliverPublication cd p a"
begin

lemma roundtrip:
  assumes "carries cd (WireValue payload)"
    and "\<And>bytes. wcEncode cd (WireValue payload) = Some bytes \<Longrightarrow> carries cd (wrap \<lparr>pbTopic = topic, pbPayload = bytes, pbPublisherNode = node\<rparr>)"
  shows "\<exists>env. (\<forall>n. enTargetNode (env n) = n \<and> enTypeName (env n) = typeName) \<and>
    bcast cd topic payload node s c = (fold (\<lambda>n c. fst (SendRemote n (env n) c)) (targets topic s c) c, None) \<and>
    (\<forall>n a. rvHandler a \<longrightarrow> inbound cd (env n) a = callHandler topic payload node a)"
proof -
  from assms(1) obtain bytes where b: "wcEncode cd (WireValue payload) = Some bytes" "wcDecode cd bytes = Some (WireValue payload)"
    by (auto simp: carries_def)
  let ?p = "\<lparr>pbTopic = topic, pbPayload = bytes, pbPublisherNode = node\<rparr>"
  from assms(2) [OF b(1)] obtain encoded where e: "wcEncode cd (wrap ?p) = Some encoded" "wcDecode cd encoded = Some (wrap ?p)"
    by (auto simp: carries_def)
  have "inbound cd (wireEnvelope (self s c) n typeName encoded) a = callHandler topic payload node a" if "rvHandler a" for n a
    using handles [OF that, of cd _ ?p] e(2) b(2) by (simp add: wireEnvelope_def deliverPublication_def)
  with sends [OF b(1) e(1)] show ?thesis
    by (intro exI [of _ "\<lambda>n. wireEnvelope (self s c) n typeName encoded"]) (simp add: wireEnvelope_def)
qed

end

interpretation direct: publication_adapter "\<lambda>cd topic payload node (_ :: unit). direct_Broadcast cd topic payload node" direct_HandleInbound
  WireBroadcast pubsubEnvelopeType "\<lambda>_. LocalNodeID" "\<lambda>topic _ c. map nmID (Members c)"
  by unfold_locales (simp_all add: direct_Broadcast_def direct_HandleInbound_def sendToNodes_fixed)

interpretation routed: publication_adapter "routed_Broadcast rm" routed_handleInbound
  WireRouted pubsubRoutedType "\<lambda>a c. caLocalID a" "\<lambda>topic a c. crdtTargets rm topic a" for rm :: "'m DeltaMap"
  by unfold_locales (simp_all add: routed_Broadcast_def routed_handleInbound_def)

text \<open>
  A publication survives the journey between nodes: for the direct and for the CRDT
  adapter, the broadcast of an encodable publication sends one envelope to each target (every
  other member, respectively the nodes routed for the topic), and a node that handles it calls its
  handler once, with the topic, the payload and the publisher of the original.
\<close>

theorem publication_roundtrip:
  assumes "carries cd (WireValue payload)"
    and "\<And>bytes. wcEncode cd (WireValue payload) = Some bytes \<Longrightarrow>
      carries cd (WireBroadcast \<lparr>pbTopic = topic, pbPayload = bytes, pbPublisherNode = node\<rparr>)"
    and "\<And>bytes. wcEncode cd (WireValue payload) = Some bytes \<Longrightarrow>
      carries cd (WireRouted \<lparr>pbTopic = topic, pbPayload = bytes, pbPublisherNode = node\<rparr>)"
  shows "(\<exists>env. (\<forall>n. enTargetNode (env n) = n \<and> enTypeName (env n) = pubsubEnvelopeType) \<and>
      direct_Broadcast cd topic payload node c = (fold (\<lambda>n c. fst (SendRemote n (env n) c)) (map nmID (Members c)) c, None) \<and>
      (\<forall>n r. rvHandler r \<longrightarrow> direct_HandleInbound cd (env n) r = callHandler topic payload node r)) \<and>
    (\<exists>env. (\<forall>n. enTargetNode (env n) = n \<and> enTypeName (env n) = pubsubRoutedType) \<and>
      routed_Broadcast rm cd topic payload node a c = (fold (\<lambda>n c. fst (SendRemote n (env n) c)) (crdtTargets rm topic a) c, None) \<and>
      (\<forall>n r. rvHandler r \<longrightarrow> routed_handleInbound cd (env n) r = callHandler topic payload node r))"
  using direct.roundtrip [OF assms(1,2)] routed.roundtrip [OF assms(1,3)] by blast

definition exPub :: publication where
  "exPub = \<lparr>pbTopic = ''t'', pbPayload = ''v'', pbPublisherNode = ''n''\<rparr>"

definition exPubCodec :: wireCodec where
  "exPubCodec = \<lparr>wcEncode = (\<lambda>w. case w of WireValue _ \<Rightarrow> Some ''v'' | WireBroadcast _ \<Rightarrow> Some ''b'' | WireRouted _ \<Rightarrow> Some ''r'' | _ \<Rightarrow> None),
     wcDecode = (\<lambda>bs. if bs = ''v'' then Some (WireValue (DownMessage 1 zeroPID ''x''))
       else if bs = ''b'' then Some (WireBroadcast exPub) else Some (WireRouted exPub))\<rparr>"

lemma exPubCodec_carries:
  "carries exPubCodec (WireValue (DownMessage 1 zeroPID ''x''))" "wcEncode exPubCodec (WireValue v) = Some bytes \<Longrightarrow> bytes = ''v''"
  "carries exPubCodec (WireBroadcast exPub)" "carries exPubCodec (WireRouted exPub)"
  by (simp_all add: carries_def exPubCodec_def)

text \<open>A map of sets without replication.\<close>

definition exRoutes :: "(string \<Rightarrow> string list) DeltaMap" where
  "exRoutes = \<lparr>dmpAdd = (\<lambda>k v m. m(k := List.insert v (m k))), dmpDel = (\<lambda>k v m. m(k := removeAll v (m k))),
     dmpHasKey = (\<lambda>m k. m k \<noteq> []), dmpElements = (\<lambda>m k. remdups (m k)), dmpRemoveKey = (\<lambda>k m. m(k := []))\<rparr>"

lemma exRoutes_ok: "deltaMapOk exRoutes"
  by (auto simp: deltaMapOk_def exRoutes_def)

theorem publication_roundtrip_witness:
  "\<exists>env. direct_Broadcast exPubCodec ''t'' (DownMessage 1 zeroPID ''x'') ''n'' (exCluster [''n'', ''m''] ''n'') =
       (fst (SendRemote ''m'' (env ''m'') (exCluster [''n'', ''m''] ''n'')), None) \<and>
     rvCalls (direct_HandleInbound exPubCodec (env ''m'') (SetHandler newReceived)) = [(''t'', DownMessage 1 zeroPID ''x'', ''n'')]"
proof -
  have "carries exPubCodec (WireBroadcast \<lparr>pbTopic = ''t'', pbPayload = bytes, pbPublisherNode = ''n''\<rparr>)"
    "carries exPubCodec (WireRouted \<lparr>pbTopic = ''t'', pbPayload = bytes, pbPublisherNode = ''n''\<rparr>)"
    if "wcEncode exPubCodec (WireValue (DownMessage 1 zeroPID ''x'')) = Some bytes" for bytes
    using exPubCodec_carries(2) [OF that] exPubCodec_carries(3,4) by (simp_all add: exPub_def)
  from publication_roundtrip [OF exPubCodec_carries(1) this, of "exCluster [''n'', ''m''] ''n''" exRoutes
      "NewCRDTPubSubAdapter (\<lambda>_. []) (exCluster [''n'', ''m''] ''n'')"]
  obtain env where "direct_Broadcast exPubCodec ''t'' (DownMessage 1 zeroPID ''x'') ''n'' (exCluster [''n'', ''m''] ''n'') =
      (fold (\<lambda>n c. fst (SendRemote n (env n) c)) (map nmID (Members (exCluster [''n'', ''m''] ''n''))) (exCluster [''n'', ''m''] ''n''), None)"
    "\<forall>n r. rvHandler r \<longrightarrow> direct_HandleInbound exPubCodec (env n) r = callHandler ''t'' (DownMessage 1 zeroPID ''x'') ''n'' r" by blast
  moreover have "map nmID (Members (exCluster [''n'', ''m''] ''n'')) = [''m'']" by (simp add: Members_def exCluster_def exMeta_def)
  ultimately show ?thesis by (intro exI [of _ env]) (simp add: callHandler_def SetHandler_def newReceived_def)
qed

section \<open>Routes\<close>

lemma deltaMapOkD:
  assumes "deltaMapOk rm"
  shows "set (dmpElements rm (dmpAdd rm k v m) k') = (if k' = k then insert v (set (dmpElements rm m k')) else set (dmpElements rm m k'))"
    "set (dmpElements rm (dmpDel rm k v m) k') = (if k' = k then set (dmpElements rm m k') - {v} else set (dmpElements rm m k'))"
    "set (dmpElements rm (dmpRemoveKey rm k m) k') = (if k' = k then {} else set (dmpElements rm m k'))"
    "distinct (dmpElements rm m k)" "\<not> dmpHasKey rm m k \<Longrightarrow> dmpElements rm m k = []"
  using assms unfolding deltaMapOk_def by blast+

definition adapterAt :: "NodeID \<Rightarrow> 'm \<Rightarrow> 'm CRDTPubSubAdapter" where
  "adapterAt n m = \<lparr>caLocalID = n, caRoutes = m, caReceived = newReceived\<rparr>"




definition topicView :: "'m DeltaMap \<Rightarrow> 'm \<Rightarrow> (NodeID \<times> string) set" where
  "topicView rm m = {(n, t). n \<in> set (dmpElements rm m (routeTopicPrefix @ t))}"


lemma route_keys [simp]: "routeNodePrefix @ x \<noteq> routeTopicPrefix @ y" "routeTopicPrefix @ y \<noteq> routeNodePrefix @ x"
  by (simp_all add: routeNodePrefix_def routeTopicPrefix_def)






lemma crdtTargets_view:
  assumes "deltaMapOk rm"
  shows "set (crdtTargets rm topic (adapterAt n m)) = {k. (k, topic) \<in> topicView rm m} - {n}" "distinct (crdtTargets rm topic (adapterAt n m))"
  using deltaMapOkD(4,5) [OF assms, of m "routeTopicPrefix @ topic"] by (auto simp: crdtTargets_def adapterAt_def topicView_def)





text \<open>
  Claim C37. Subscriptions to wildcard patterns are not routed. Take any replica and a pattern that
  matches a topic, is not the topic itself and does not end in \<open>+\<close> (the local broker, holding just
  this subscription, would deliver a publication on the topic to the subscriber). When a node tells
  its adapter of a subscription to the pattern, then on a replica that has received this the targets
  of a broadcast on the topic are the same as before, so the node is no target unless it was one
  already; and when nobody had a route for the topic, the broadcast reports success and sends
  nothing. The publication is assumed to be one that the codec can encode.
\<close>

theorem wildcard_subscription_not_routed:
  assumes rm: "deltaMapOk rm"
    and wild: "stored (splitDot pat)" "patMatch (splitDot pat) (splitDot topic)" "pat \<noteq> topic"
    and sub: "m' = caRoutes (NotifySubscribe rm pat (adapterAt b m))"
    and enc: "wcEncode cd (WireValue payload) = Some bytes"
      "wcEncode cd (WireRouted \<lparr>pbTopic = topic, pbPayload = bytes, pbPublisherNode = node\<rparr>) \<noteq> None"
  shows "Key pid \<in> Key ` set (trieMatch (trieOf [(splitDot pat, pid)]) (splitDot topic)) \<and>
    set (crdtTargets rm topic (adapterAt a m')) = set (crdtTargets rm topic (adapterAt a m)) \<and>
    (dmpElements rm m (routeTopicPrefix @ topic) = [] \<longrightarrow>
       routed_Broadcast rm cd topic payload node (adapterAt a m') c = (c, None))"
proof (intro conjI impI)
  show "Key pid \<in> Key ` set (trieMatch (trieOf [(splitDot pat, pid)]) (splitDot topic))"
    using trie_match_correct [of "[(splitDot pat, pid)]" "splitDot topic"] wild(1,2) by auto
  have "set (dmpElements rm m' (routeTopicPrefix @ topic)) = set (dmpElements rm m (routeTopicPrefix @ topic))"
    using wild(3) by (simp add: sub NotifySubscribe_def adapterAt_def deltaMapOkD(1) [OF rm])
  then show same: "set (crdtTargets rm topic (adapterAt a m')) = set (crdtTargets rm topic (adapterAt a m))"
    by (simp add: crdtTargets_view [OF rm] topicView_def)
  assume "dmpElements rm m (routeTopicPrefix @ topic) = []"
  then have "set (crdtTargets rm topic (adapterAt a m)) = {}" by (simp add: crdtTargets_view [OF rm] topicView_def)
  then have "crdtTargets rm topic (adapterAt a m') = []" using same by simp
  with enc show "routed_Broadcast rm cd topic payload node (adapterAt a m') c = (c, None)"
    by (auto simp: routed_Broadcast_def)
qed

definition exWild :: PID where
  "exWild = \<lparr>pidNamespace = ''m'', pidActorID = ''x'', pidGeneration = 1\<rparr>"

theorem wildcard_subscription_not_routed_witness:
  "Key exWild \<in> Key ` set (trieMatch (trieOf [(splitDot ''a.#'', exWild)]) (splitDot ''a.b'')) \<and>
   routed_Broadcast exRoutes exPubCodec ''a.b'' NilAny ''n'' (adapterAt ''n'' (caRoutes (NotifySubscribe exRoutes ''a.#'' (adapterAt ''m'' (\<lambda>_. [])))))
     (exCluster [''n'', ''m''] ''n'') = (exCluster [''n'', ''m''] ''n'', None)"
proof -
  have e: "dmpElements exRoutes (\<lambda>_. []) k = []" for k by (simp add: exRoutes_def)
  have "wcEncode exPubCodec (WireValue NilAny) = Some ''v''" "wcEncode exPubCodec (WireRouted p) \<noteq> None" for p by (simp_all add: exPubCodec_def)
  from wildcard_subscription_not_routed [where pat = "''a.#''" and topic = "''a.b''" and pid = exWild and a = "''n''" and b = "''m''"
      and node = "''n''" and c = "exCluster [''n'', ''m''] ''n''", OF exRoutes_ok _ _ _ refl this] show ?thesis using e by simp
qed

section \<open>Publications by gossip\<close>

definition pubsubGossip :: "wireCodec \<Rightarrow> int \<Rightarrow> GossipPubSubAdapter GossipProtocol" where
  "pubsubGossip cd fanout = snd (NewGossipPubSubAdapter cd fanout)"

datatype gpOp = GpBroadcast string any NodeID | GpRound "nat \<Rightarrow> nat" | GpReceive NodeID string

fun gpStep :: "wireCodec \<Rightarrow> int \<Rightarrow> gpOp \<Rightarrow> Cluster \<times> GossipPubSubAdapter \<Rightarrow> (Cluster \<times> GossipPubSubAdapter) option" where
  "gpStep cd fanout (GpBroadcast topic payload node) (c, a) = Some (c, fst (gossip_Broadcast cd topic payload node a))"
| "gpStep cd fanout (GpRound rnd) st = doRound cd rnd (pubsubGossip cd fanout) st"
| "gpStep cd fanout (GpReceive from data) st = Some (gp_HandleInbound from pubsubGossipProtocol data (pubsubGossip cd fanout) st)"

lemma doRound_pending:
  assumes "doRound cd rnd (pubsubGossip cd fanout) (c, a) = Some (c', a')"
  shows "gaPending a' = [] \<and> gaReceived a' = gaReceived a"
  using assms
  by (auto simp: doRound_def pubsubGossip_def NewGossipPubSubAdapter_def NewGossipProtocol_def pubsub_produce_def
      split: option.splits if_splits)

text \<open>
  The buffer of the gossip adapter is bounded: whatever broadcasts, rounds and arrivals
  happen, at most 4096 publications wait for the next round. A broadcast to a full buffer is
  refused with an error and changes nothing.
\<close>

theorem gossip_buffer_bounded:
  assumes "foldOpt (gpStep cd fanout) ops (c, fst (NewGossipPubSubAdapter cd fanout)) = Some (c', a)"
  shows "length (gaPending a) \<le> maxPendingPubSub \<and>
    (length (gaPending a) = maxPendingPubSub \<longrightarrow> (\<exists>e. gossip_Broadcast cd topic payload node a = (a, Some e)))"
proof -
  let ?P = "\<lambda>st :: Cluster \<times> GossipPubSubAdapter. length (gaPending (snd st)) \<le> maxPendingPubSub"
  have "?P (c', a)"
  proof (rule foldOpt_inv [OF assms, of ?P])
    fix op st st' assume s: "?P st" "gpStep cd fanout op st = Some st'"
    obtain k b k' b' where st: "st = (k, b)" "st' = (k', b')" by (cases st, cases st') blast
    show "?P st'"
    proof (cases op)
      case (GpBroadcast topic payload node)
      with s st show ?thesis by (auto simp: gossip_Broadcast_def split: option.splits if_splits)
    next
      case (GpRound rnd)
      with s st doRound_pending [of cd rnd fanout k b k' b'] show ?thesis by simp
    next
      case (GpReceive src data)
      with s st show ?thesis
        by (auto simp: gp_HandleInbound_def pubsubGossip_def NewGossipPubSubAdapter_def NewGossipProtocol_def pubsub_receive_def
            split: option.splits if_splits wire.splits)
    qed
  qed (simp add: NewGossipPubSubAdapter_def)
  then show ?thesis by (simp add: gossip_Broadcast_def split: option.split)
qed

theorem gossip_buffer_bounded_witness:
  "\<exists>c' a. foldOpt (gpStep exPubCodec 3) [GpBroadcast ''t'' NilAny ''n''] (exCluster [''n''] ''n'', fst (NewGossipPubSubAdapter exPubCodec 3)) = Some (c', a) \<and>
     length (gaPending a) = 1 \<and> length (gaPending a) \<le> maxPendingPubSub"
proof -
  let ?a = "fst (gossip_Broadcast exPubCodec ''t'' NilAny ''n'' (fst (NewGossipPubSubAdapter exPubCodec 3)))"
  have s: "foldOpt (gpStep exPubCodec 3) [GpBroadcast ''t'' NilAny ''n''] (exCluster [''n''] ''n'', fst (NewGossipPubSubAdapter exPubCodec 3)) =
      Some (exCluster [''n''] ''n'', ?a)" by simp
  have "length (gaPending ?a) = 1" by (simp add: gossip_Broadcast_def NewGossipPubSubAdapter_def exPubCodec_def maxPendingPubSub_def)
  with gossip_buffer_bounded [OF s] s show ?thesis by blast
qed

text \<open>
  A publication broadcast by gossip does not reach the cluster: the round that takes the
  waiting publications sends them to at most \<open>Fanout\<close> peers and forgets them, a node that receives
  them hands them to its handler but queues nothing, and when the codec cannot encode the batch
  they are all dropped although every broadcast had reported success.
\<close>

theorem gossip_publications_sent_once:
  assumes fan: "0 < fanout" and pend: "gaPending a \<noteq> []"
  shows "(wcEncode cd (WireBatch (gaPending a)) = None \<longrightarrow>
      doRound cd rnd (pubsubGossip cd fanout) (c, a) = Some (c, a\<lparr>gaPending := []\<rparr>)) \<and>
    (\<forall>c' a'. doRound cd rnd (pubsubGossip cd fanout) (c, a) = Some (c', a') \<longrightarrow> gaPending a' = [] \<and>
       (c' = c \<or> (\<exists>encoded ns. c' = sendToNodes ''__gossip'' encoded ns c \<and> int (length ns) \<le> fanout \<and> set ns \<subseteq> nmID ` set (Members c)))) \<and>
    (\<forall>src data k b k' b'. pubsub_receive cd src data (k, b) = (k', b') \<longrightarrow> gaPending b' = gaPending b)"
proof (intro conjI impI allI)
  let ?g = "pubsubGossip cd fanout"
  have g: "gpOnProduce ?g = Some (pubsub_produce cd)" "gpFanout ?g = fanout"
    using fan by (simp_all add: pubsubGossip_def NewGossipPubSubAdapter_def NewGossipProtocol_def)
  show "doRound cd rnd ?g (c, a) = Some (c, a\<lparr>gaPending := []\<rparr>)" if "wcEncode cd (WireBatch (gaPending a)) = None"
    using that pend by (simp add: doRound_def g pubsub_produce_def)
  fix c' a' assume s: "doRound cd rnd ?g (c, a) = Some (c', a')"
  then show "gaPending a' = []" using doRound_pending by blast
  obtain ps where ps: "selectRandomPeers rnd (Members c) fanout = Some ps" "int (length ps) \<le> fanout" "set ps \<subseteq> set (Members c)"
    using peers_chosen [of fanout rnd "Members c"] fan by (auto dest: set_mset_mono)
  from s pend ps(1) have "c' = c \<or> (\<exists>encoded. c' = sendToNodes ''__gossip'' encoded (map nmID ps) c)"
    by (auto simp: doRound_def g pubsub_produce_def split: option.splits if_splits)
  moreover have "int (length (map nmID ps)) \<le> fanout" "set (map nmID ps) \<subseteq> nmID ` set (Members c)" using ps(2,3) by auto
  ultimately show "c' = c \<or> (\<exists>encoded ns. c' = sendToNodes ''__gossip'' encoded ns c \<and> int (length ns) \<le> fanout \<and> set ns \<subseteq> nmID ` set (Members c))"
    by blast
next
  fix src data k b k' b' assume "pubsub_receive cd src data (k, b) = (k', b')"
  then show "gaPending b' = gaPending b" by (auto simp: pubsub_receive_def split: option.splits if_splits wire.splits)
qed

theorem gossip_publications_sent_once_witness:
  "doRound exPubCodec (\<lambda>i. i) (pubsubGossip exPubCodec 3) (exCluster [''n'', ''m''] ''n'', \<lparr>gaReceived = newReceived, gaPending = [exPub]\<rparr>) =
     Some (exCluster [''n'', ''m''] ''n'', \<lparr>gaReceived = newReceived, gaPending = []\<rparr>)"
proof -
  have "wcEncode exPubCodec (WireBatch [exPub]) = None" by (simp add: exPubCodec_def)
  with gossip_publications_sent_once [of 3 "\<lparr>gaReceived = newReceived, gaPending = [exPub]\<rparr>" exPubCodec "\<lambda>i. i" "exCluster [''n'', ''m''] ''n''"]
  show ?thesis by simp
qed

end
