(* ===== verification/Singleton.thy ===== *)
theory Singleton
  imports Election Remote DistRegistry "HOL-Library.Monad_Syntax"
begin

text \<open>
  The singleton manager (\<open>singleton.go\<close>): one actor per cluster and name, placed by leader
  election, moved by the handoff protocol. The manager's state holds the runtime, the election,
  the registry replica and the cluster core it works on. A goroutine of the manager is an entry
  of a list: the watch loops with the position of their channel among the watchers of the scope,
  the handoffs and deactivation timers as jobs with the state of their context. A context ends
  when it is cancelled or when its timeout passes; the latter is a step of its own, so every
  timeout may pass at any moment. \<open>Start\<close> waits for peers while it discovers what they run and
  is cut at these waits. Operations that may stop an actor answer \<open>None\<close> when the runtime
  overflows its stack, and those of the handoff protocol also when the manager has no cluster or
  codec, where the code dereferences nil.
\<close>

section \<open>State\<close>

datatype singletonPhase = phaseIdle | phaseActivating | phaseActive | phaseDeactivating

record SingletonSpec =
  spName :: string
  spInitialState :: any
  spHandler :: "handler option"
  spOptions :: actorConfig
  spPlacement :: "NodeMatcher option"
  spHandoffTimeout :: int \<comment> \<open>nanoseconds\<close>
  spOnHandoff :: "(any \<Rightarrow> any) option"

definition handoffTimeout :: "SingletonSpec \<Rightarrow> int" where
  "handoffTimeout s = (if spHandoffTimeout s > 0 then spHandoffTimeout s else 10 * 10 ^ 9)"

record singletonState =
  ssSpec :: SingletonSpec
  ssPhase :: singletonPhase
  ssTerm :: u64
  ssCancel :: "nat option" \<comment> \<open>the job whose context the cancel function ends\<close>
  ssRebalancing :: bool

record singletonHandoffRequest =
  hqName :: string
  hqTerm :: u64
  hqNewLeader :: NodeID

record singletonHandoffResponse =
  hrName :: string
  hrTerm :: u64
  hrState :: any
  hrOK :: bool
  hrError :: string

record singletonDiscoverResponse =
  ddRunning :: "string list"
  ddFrom :: NodeID

text \<open>What the codec carries for the manager; any other payload is \<open>SysOther\<close>.\<close>

datatype sysMsg =
  SysHandoffRequest singletonHandoffRequest
| SysHandoffResponse singletonHandoffResponse
| SysDiscoverRequest
| SysDiscoverResponse singletonDiscoverResponse
| SysOther any

record sysCodec =
  scEncode :: "sysMsg \<Rightarrow> string option"
  scDecode :: "string \<Rightarrow> sysMsg option"

definition sysCodecOk :: "sysCodec \<Rightarrow> sysMsg \<Rightarrow> bool" where
  "sysCodecOk cd m \<longleftrightarrow> (\<exists>bs. scEncode cd m = Some bs \<and> scDecode cd bs = Some m)"

datatype handoffStage = HoSend | HoPause | HoWait

datatype smJobKind =
  HandoffJob string NodeID u64 handoffStage \<comment> \<open>\<open>runHandoff(name, prevLeader, term)\<close>\<close>
| DeactJob string \<comment> \<open>\<open>runDeactivationTimeout(name)\<close>\<close>

record smJob =
  jbID :: nat
  jbTimeout :: int
  jbDone :: bool
  jbKind :: smJobKind

text \<open>Where \<open>Start\<close> is: waiting for a connected peer, or collecting so many of so many answers.\<close>

datatype startPC = StReady | StConnecting "NodeMeta list" | StCollecting nat nat

text \<open>
  The response channel of a handoff, of capacity one, belongs to the goroutine that made it:
  \<open>sgChans\<close> holds what is buffered in the channel of each handoff job, and \<open>sgWaits\<close> maps a
  correlation ID to the job whose channel was stored for it last, or to nil. \<open>sgDiscover\<close> is the
  discovery channel with its capacity.
\<close>

record 'm SingletonManager =
  sgRuntime :: Runtime
  sgElection :: RingElection
  sgOps :: "'m ORMap"
  sgRegistry :: "'m option"
  sgCluster :: "Cluster option"
  sgCodec :: "sysCodec option"
  sgDispatcher :: "InboundDispatcher option"
  sgSingletons :: "(string, singletonState) gomap"
  sgStarted :: bool
  sgCanceled :: bool
  sgFailed :: "(NodeID, int) gomap"
  sgWaits :: "string \<rightharpoonup> nat option"
  sgChans :: "nat \<Rightarrow> singletonHandoffResponse list"
  sgPrevLeaders :: "string \<rightharpoonup> NodeID"
  sgDiscover :: "(nat \<times> singletonDiscoverResponse list) option"
  sgWireTypes :: "string list" \<comment> \<open>types registered with the codec\<close>
  sgLoops :: "(string \<times> nat) list"
  sgJobs :: "smJob list"
  sgNextJob :: nat
  sgStart :: startPC

definition NewSingletonManager ::
    "Runtime \<Rightarrow> RingElection \<Rightarrow> 'm ORMap \<Rightarrow> 'm option \<Rightarrow> Cluster option \<Rightarrow> sysCodec option \<Rightarrow> InboundDispatcher option \<Rightarrow> 'm SingletonManager" where
  "NewSingletonManager rt el om reg c cd d =
     \<lparr> sgRuntime = rt, sgElection = el, sgOps = om, sgRegistry = reg, sgCluster = c, sgCodec = cd, sgDispatcher = d,
       sgSingletons = [], sgStarted = False, sgCanceled = False, sgFailed = [], sgWaits = Map.empty, sgChans = (\<lambda>_. []),
       sgPrevLeaders = Map.empty, sgDiscover = None, sgWireTypes = [], sgLoops = [], sgJobs = [], sgNextJob = 0,
       sgStart = StReady \<rparr>"

definition clustered :: "'m SingletonManager \<Rightarrow> bool" where
  "clustered sm \<longleftrightarrow> sgCluster sm \<noteq> None \<and> sgCodec sm \<noteq> None \<and> sgDispatcher sm \<noteq> None"

definition singletonScope :: "string \<Rightarrow> string" where
  "singletonScope name = ''singleton/'' @ name"

definition phaseOf :: "'m SingletonManager \<Rightarrow> string \<Rightarrow> singletonPhase option" where
  "phaseOf sm name = map_option ssPhase (map_of (sgSingletons sm) name)"

definition setSing :: "string \<Rightarrow> singletonState \<Rightarrow> 'm SingletonManager \<Rightarrow> 'm SingletonManager" where
  "setSing name s sm = sm\<lparr>sgSingletons := gomap_put name s (sgSingletons sm)\<rparr>"

section \<open>Previous leaders and failed nodes\<close>

definition isRecentlyFailed :: "'m SingletonManager \<Rightarrow> NodeID \<Rightarrow> bool" where
  "isRecentlyFailed sm i \<longleftrightarrow> map_of (sgFailed sm) i \<noteq> None"

definition setPrevLeader :: "string \<Rightarrow> NodeID \<Rightarrow> 'm SingletonManager \<Rightarrow> 'm SingletonManager" where
  "setPrevLeader scope prev sm = sm\<lparr>sgPrevLeaders := (sgPrevLeaders sm)(scope \<mapsto> prev)\<rparr>"

definition getPrevLeader :: "'m SingletonManager \<Rightarrow> string \<Rightarrow> NodeID" where
  "getPrevLeader sm scope = (case sgPrevLeaders sm scope of None \<Rightarrow> '''' | Some n \<Rightarrow> n)"

definition findPrevLeader :: "'m SingletonManager \<Rightarrow> string \<Rightarrow> NodeID" where
  "findPrevLeader sm scope =
     (let prev = getPrevLeader sm scope
      in if prev \<noteq> '''' then prev
         else let name = drop (length ''singleton/'') scope
              in case sgRegistry sm of
                   None \<Rightarrow> ''''
                 | Some m \<Rightarrow>
                     (case dr_Lookup (sgOps sm) m name of
                        None \<Rightarrow> ''''
                      | Some pid \<Rightarrow>
                          let owner = pidNamespace pid
                          in if owner \<noteq> rtNodeID (sgRuntime sm) then owner else ''''))"

section \<open>Starting and stopping the actor\<close>

text \<open>\<open>unregisterName\<close> and the end of \<open>startActor\<close> do nothing without a registry.\<close>

definition unregisterName :: "string \<Rightarrow> 'm SingletonManager \<Rightarrow> 'm SingletonManager" where
  "unregisterName name sm =
     (case sgRegistry sm of None \<Rightarrow> sm
      | Some m \<Rightarrow> sm\<lparr>sgRegistry := Some (fst (dr_Unregister (sgOps sm) name m))\<rparr>)"

definition startActor :: "string \<Rightarrow> singletonState \<Rightarrow> any \<Rightarrow> 'm SingletonManager \<Rightarrow> 'm SingletonManager" where
  "startActor name s initialState sm =
     (let r = (case RemoveActor name (sgRuntime sm) of Inl _ \<Rightarrow> sgRuntime sm | Inr r \<Rightarrow> r)
      in case CreateActor name initialState (spHandler (ssSpec s)) (spOptions (ssSpec s)) r of
           Inl _ \<Rightarrow> sm\<lparr>sgRuntime := r\<rparr>
         | Inr r \<Rightarrow>
             (case sgRegistry sm of
                None \<Rightarrow> sm\<lparr>sgRuntime := r\<rparr>
              | Some m \<Rightarrow>
                  (case IssuePID (rtNodeID r) name r of
                     (r, Inl _) \<Rightarrow> sm\<lparr>sgRuntime := r\<rparr>
                   | (r, Inr pid) \<Rightarrow>
                       sm\<lparr>sgRuntime := r, sgRegistry := Some (fst (dr_Register (sgOps sm) name pid m))\<rparr>)))"

definition cancelJob :: "nat option \<Rightarrow> 'm SingletonManager \<Rightarrow> 'm SingletonManager" where
  "cancelJob c sm =
     (case c of None \<Rightarrow> sm
      | Some i \<Rightarrow> sm\<lparr>sgJobs := map (\<lambda>j. if jbID j = i then j\<lparr>jbDone := True\<rparr> else j) (sgJobs sm)\<rparr>)"

definition spawnJob :: "int \<Rightarrow> smJobKind \<Rightarrow> 'm SingletonManager \<Rightarrow> 'm SingletonManager" where
  "spawnJob timeout k sm =
     sm\<lparr>sgJobs := sgJobs sm @ [\<lparr>jbID = sgNextJob sm, jbTimeout = timeout, jbDone = False, jbKind = k\<rparr>],
        sgNextJob := Suc (sgNextJob sm)\<rparr>"

definition endJob :: "nat \<Rightarrow> 'm SingletonManager \<Rightarrow> 'm SingletonManager" where
  "endJob i sm = sm\<lparr>sgJobs := filter (\<lambda>j. jbID j \<noteq> i) (sgJobs sm)\<rparr>"

definition stopAndCleanup :: "string \<Rightarrow> singletonState \<Rightarrow> 'm SingletonManager \<Rightarrow> 'm SingletonManager option" where
  "stopAndCleanup name s sm = do {
     (r, _) \<leftarrow> Stop name (sgRuntime sm);
     Some (unregisterName name (setSing name (s\<lparr>ssPhase := phaseIdle, ssCancel := None\<rparr>)
             (cancelJob (ssCancel s) (sm\<lparr>sgRuntime := r\<rparr>))))
   }"

section \<open>Leadership\<close>

definition isLeaderFor :: "string \<Rightarrow> singletonState \<Rightarrow> 'm SingletonManager \<Rightarrow> 'm SingletonManager \<times> bool" where
  "isLeaderFor name s sm =
     (let scope = singletonScope name
      in case (spPlacement (ssSpec s), sgCluster sm) of
           (Some matcher, Some c) \<Rightarrow>
             (sm, LeaderAmong scope (Some matcher) (Members c @ [Self c]) = Some (rtNodeID (sgRuntime sm)))
         | _ \<Rightarrow> let (e, b) = IsLeader scope (sgElection sm) in (sm\<lparr>sgElection := e\<rparr>, b))"

definition gainLeadership :: "string \<Rightarrow> singletonState \<Rightarrow> u64 \<Rightarrow> 'm SingletonManager \<Rightarrow> 'm SingletonManager" where
  "gainLeadership name s trm sm =
     (let scope = singletonScope name;
          prevLeader = findPrevLeader sm scope;
          start = (\<lambda>s. setSing name (s\<lparr>ssPhase := phaseActive, ssTerm := trm\<rparr>)
                         (startActor name s (spInitialState (ssSpec s)) sm))
      in if prevLeader = '''' \<or> prevLeader = rtNodeID (sgRuntime sm) \<or> isRecentlyFailed sm prevLeader
         then start s
         else if \<not> ssRebalancing s then setSing name s sm
         else let s = s\<lparr>ssRebalancing := False\<rparr>;
                  prevLeader = (if prevLeader = ''''
                                then leaderExcluding (sgElection sm) scope (elLocalID (sgElection sm)) else prevLeader)
              in if prevLeader = '''' \<or> \<not> clustered sm then start s
                 else spawnJob (handoffTimeout (ssSpec s)) (HandoffJob name prevLeader trm HoSend)
                        (setSing name (s\<lparr>ssPhase := phaseActivating, ssTerm := trm, ssCancel := Some (sgNextJob sm)\<rparr>) sm))"

definition loseLeadership :: "string \<Rightarrow> singletonState \<Rightarrow> u64 \<Rightarrow> 'm SingletonManager \<Rightarrow> 'm SingletonManager option" where
  "loseLeadership name s trm sm =
     (if \<not> clustered sm then stopAndCleanup name s sm
      else Some (spawnJob (handoffTimeout (ssSpec s) + 5 * 10 ^ 9) (DeactJob name)
             (setSing name (s\<lparr>ssPhase := phaseDeactivating, ssTerm := trm, ssCancel := Some (sgNextJob sm)\<rparr>) sm)))"

definition reconcileOne :: "string \<Rightarrow> 'm SingletonManager \<Rightarrow> 'm SingletonManager" where
  "reconcileOne name sm =
     (case map_of (sgSingletons sm) name of
        None \<Rightarrow> sm
      | Some s \<Rightarrow>
          let (sm, isLeader) = isLeaderFor name s sm;
              currentTerm = Term (singletonScope name) (sgElection sm)
          in case ssPhase s of
               phaseActive \<Rightarrow> sm
             | phaseDeactivating \<Rightarrow> sm
             | phaseActivating \<Rightarrow>
                 if \<not> isLeader
                 then setSing name (s\<lparr>ssPhase := phaseIdle, ssCancel := None\<rparr>) (cancelJob (ssCancel s) sm)
                 else if ssTerm s \<noteq> currentTerm
                 then gainLeadership name (s\<lparr>ssCancel := None\<rparr>) currentTerm (cancelJob (ssCancel s) sm)
                 else sm
             | phaseIdle \<Rightarrow> if isLeader then gainLeadership name s currentTerm sm else sm)"

definition reconcile :: "'m SingletonManager \<Rightarrow> 'm SingletonManager" where
  "reconcile sm = fold reconcileOne (map fst (sgSingletons sm)) sm"

definition rebalanceOne :: "string \<Rightarrow> 'm SingletonManager \<Rightarrow> 'm SingletonManager option" where
  "rebalanceOne name sm =
     (case map_of (sgSingletons sm) name of
        None \<Rightarrow> Some sm
      | Some s \<Rightarrow>
          let (sm, isLeader) = isLeaderFor name s sm;
              currentTerm = Term (singletonScope name) (sgElection sm)
          in do {
               sm \<leftarrow> (if ssPhase s = phaseActive \<and> \<not> isLeader then loseLeadership name s currentTerm sm else Some sm);
               Some (case map_of (sgSingletons sm) name of
                       None \<Rightarrow> sm
                     | Some s \<Rightarrow> if ssPhase s = phaseIdle \<and> isLeader
                                then gainLeadership name (s\<lparr>ssRebalancing := True\<rparr>) currentTerm sm else sm)
             })"

definition Rebalance :: "'m SingletonManager \<Rightarrow> 'm SingletonManager option" where
  "Rebalance sm = foldOpt rebalanceOne (map fst (sgSingletons sm)) sm"

section \<open>The manager's operations\<close>

definition watchScope :: "string \<Rightarrow> 'm SingletonManager \<Rightarrow> 'm SingletonManager" where
  "watchScope name sm =
     (let scope = singletonScope name;
          k = (case map_of (elScopes (sgElection sm)) scope of None \<Rightarrow> 0 | Some s \<Rightarrow> length (esWatchers s))
      in sm\<lparr>sgElection := Watch scope (sgElection sm), sgLoops := sgLoops sm @ [(name, k)]\<rparr>)"

definition sm_Register :: "SingletonSpec \<Rightarrow> 'm SingletonManager \<Rightarrow> 'm SingletonManager" where
  "sm_Register spec sm =
     (let sm = setSing (spName spec) \<lparr>ssSpec = spec, ssPhase = phaseIdle, ssTerm = 0, ssCancel = None, ssRebalancing = False\<rparr> sm
      in if sgStarted sm then reconcile (watchScope (spName spec) sm) else sm)"

definition sm_Stop :: "'m SingletonManager \<Rightarrow> 'm SingletonManager option" where
  "sm_Stop sm =
     foldOpt (\<lambda>name sm. case map_of (sgSingletons sm) name of
         None \<Rightarrow> Some sm
       | Some s \<Rightarrow>
           let sm = cancelJob (ssCancel s) sm; s = s\<lparr>ssCancel := None\<rparr>
           in if ssPhase s = phaseActive \<or> ssPhase s = phaseDeactivating
              then map_option (\<lambda>(r, _). setSing name (s\<lparr>ssPhase := phaseIdle\<rparr>) (sm\<lparr>sgRuntime := r\<rparr>))
                     (Stop name (sgRuntime sm))
              else Some (setSing name s sm))
       (map fst (sgSingletons sm)) (sm\<lparr>sgCanceled := sgStarted sm\<rparr>)"

definition Running :: "'m SingletonManager \<Rightarrow> string list" where
  "Running sm = map fst (filter (\<lambda>(name, s). ssPhase s = phaseActive \<or> ssPhase s = phaseDeactivating) (sgSingletons sm))"

text \<open>\<open>now\<close> is the clock in nanoseconds.\<close>

definition OnMemberEvent :: "int \<Rightarrow> MemberEvent \<Rightarrow> 'm SingletonManager \<Rightarrow> 'm SingletonManager" where
  "OnMemberEvent now event sm =
     (let sm = (if meType event = MemberFailed
                then sm\<lparr>sgFailed := gomap_put (nmID (meMember event)) now (sgFailed sm)\<rparr> else sm)
      in reconcile (sm\<lparr>sgFailed := filter (\<lambda>(i, t). \<not> now - t > 5 * 60 * 10 ^ 9) (sgFailed sm)\<rparr>))"

text \<open>One round of \<open>watchLoop\<close> with an event, and its end when the manager's context is done.\<close>

definition watchEvent :: "string \<times> nat \<Rightarrow> 'm SingletonManager \<Rightarrow> 'm SingletonManager" where
  "watchEvent l sm =
     (let (name, k) = l; scope = singletonScope name
      in case takeEvent scope k (sgElection sm) of
           (e, None) \<Rightarrow> sm
         | (e, Some ev) \<Rightarrow>
             let sm = sm\<lparr>sgElection := e\<rparr>
             in reconcile (if lePrevLeader ev \<noteq> '''' then setPrevLeader scope (lePrevLeader ev) sm else sm))"

definition watchDone :: "string \<times> nat \<Rightarrow> 'm SingletonManager \<Rightarrow> 'm SingletonManager" where
  "watchDone l sm = (if sgCanceled sm then sm\<lparr>sgLoops := removeAll l (sgLoops sm)\<rparr> else sm)"

section \<open>System envelopes\<close>

definition systemEnvelope :: "NodeID \<Rightarrow> NodeID \<Rightarrow> string \<Rightarrow> string \<Rightarrow> string \<Rightarrow> Envelope" where
  "systemEnvelope self target typeName encoded correlationID =
     \<lparr> enSenderNode = self, enSenderActorID = '''', enTargetNode = target, enTargetActorID = '''',
       enNamespace = '''', enGeneration = 0, enTypeName = typeName, enSchemaVersion = '''', enMessageID = 0,
       enPayload = encoded, enIsAsk = False, enAskRequestID = correlationID, enAskReplyTo = None \<rparr>"

text \<open>The flag says whether the envelope was encoded and sent.\<close>

definition sendSystemEnvelope ::
    "NodeID \<Rightarrow> string \<Rightarrow> sysMsg \<Rightarrow> string \<Rightarrow> 'm SingletonManager \<Rightarrow> ('m SingletonManager \<times> bool) option" where
  "sendSystemEnvelope target typeName payload correlationID sm = do {
     cd \<leftarrow> sgCodec sm;
     case scEncode cd payload of
       None \<Rightarrow> Some (sm, False)
     | Some encoded \<Rightarrow> do {
         c \<leftarrow> sgCluster sm;
         let (c, err) = SendRemote target (systemEnvelope (LocalNodeID c) target typeName encoded correlationID) c;
         Some (sm\<lparr>sgCluster := Some c\<rparr>, err = None)
       }
   }"

definition sendHandoffResponse ::
    "NodeID \<Rightarrow> string \<Rightarrow> u64 \<Rightarrow> string \<Rightarrow> bool \<Rightarrow> any \<Rightarrow> string \<Rightarrow> 'm SingletonManager \<Rightarrow> 'm SingletonManager option" where
  "sendHandoffResponse target name trm correlationID ok state errMsg sm =
     map_option fst (sendSystemEnvelope target ''__singleton_handoff_resp''
       (SysHandoffResponse \<lparr>hrName = name, hrTerm = trm, hrState = state, hrOK = ok, hrError = errMsg\<rparr>) correlationID sm)"

definition onHandoffRequest :: "NodeID \<Rightarrow> Envelope \<Rightarrow> 'm SingletonManager \<Rightarrow> 'm SingletonManager option" where
  "onHandoffRequest from env sm = do {
     cd \<leftarrow> sgCodec sm;
     case scDecode cd (enPayload env) of
       Some (SysHandoffRequest req) \<Rightarrow>
         (let reply = sendHandoffResponse from (hqName req) (hqTerm req) (enAskRequestID env)
          in case map_of (sgSingletons sm) (hqName req) of
               None \<Rightarrow> reply False NilAny ''singleton_not_registered'' sm
             | Some s \<Rightarrow>
                 if ssPhase s \<noteq> phaseActive \<and> ssPhase s \<noteq> phaseDeactivating
                 then reply False NilAny ''singleton_not_running'' sm
                 else do {
                   (r, handoffState, _) \<leftarrow> StopAndCapture (hqName req) (sgRuntime sm);
                   reply True handoffState ''''
                     (unregisterName (hqName req) (setSing (hqName req) (s\<lparr>ssPhase := phaseIdle, ssCancel := None\<rparr>)
                        (cancelJob (ssCancel s) (sm\<lparr>sgRuntime := r\<rparr>))))
                 })
     | _ \<Rightarrow> Some sm
   }"

text \<open>A non-blocking send on a channel: nil channels and full buffers drop the value.\<close>

definition onHandoffResponse :: "NodeID \<Rightarrow> Envelope \<Rightarrow> 'm SingletonManager \<Rightarrow> 'm SingletonManager option" where
  "onHandoffResponse from env sm = do {
     cd \<leftarrow> sgCodec sm;
     Some (case scDecode cd (enPayload env) of
       Some (SysHandoffResponse resp) \<Rightarrow>
         (case sgWaits sm (enAskRequestID env) of
            Some (Some ch) \<Rightarrow> if sgChans sm ch = [] then sm\<lparr>sgChans := (sgChans sm)(ch := [resp])\<rparr> else sm
          | _ \<Rightarrow> sm)
     | _ \<Rightarrow> sm)
   }"

definition onDiscoverRequest :: "NodeID \<Rightarrow> Envelope \<Rightarrow> 'm SingletonManager \<Rightarrow> 'm SingletonManager option" where
  "onDiscoverRequest from env sm =
     map_option fst (sendSystemEnvelope from ''__singleton_discover_resp''
       (SysDiscoverResponse \<lparr>ddRunning = Running sm, ddFrom = ''''\<rparr>) (enAskRequestID env) sm)"

definition onDiscoverResponse :: "NodeID \<Rightarrow> Envelope \<Rightarrow> 'm SingletonManager \<Rightarrow> 'm SingletonManager option" where
  "onDiscoverResponse from env sm = do {
     cd \<leftarrow> sgCodec sm;
     Some (case scDecode cd (enPayload env) of
       Some (SysDiscoverResponse resp) \<Rightarrow>
         (case sgDiscover sm of
            Some (cap, ch) \<Rightarrow>
              if length ch < cap then sm\<lparr>sgDiscover := Some (cap, ch @ [resp\<lparr>ddFrom := from\<rparr>])\<rparr> else sm
          | None \<Rightarrow> sm)
     | _ \<Rightarrow> sm)
   }"

text \<open>The handlers \<open>Start\<close> registers with the dispatcher, by type name.\<close>

definition onSystemEnvelope :: "NodeID \<Rightarrow> Envelope \<Rightarrow> 'm SingletonManager \<Rightarrow> 'm SingletonManager option" where
  "onSystemEnvelope from env sm =
     (if enTypeName env = ''__singleton_handoff_req'' then onHandoffRequest from env sm
      else if enTypeName env = ''__singleton_handoff_resp'' then onHandoffResponse from env sm
      else if enTypeName env = ''__singleton_discover_req'' then onDiscoverRequest from env sm
      else if enTypeName env = ''__singleton_discover_resp'' then onDiscoverResponse from env sm
      else Some sm)"

section \<open>Handoff on the new leader\<close>

definition completeActivation :: "string \<Rightarrow> u64 \<Rightarrow> any \<Rightarrow> 'm SingletonManager \<Rightarrow> 'm SingletonManager" where
  "completeActivation name expectedTerm handoffState sm =
     (case map_of (sgSingletons sm) name of
        None \<Rightarrow> sm
      | Some s \<Rightarrow>
          if ssPhase s \<noteq> phaseActivating \<or> ssTerm s \<noteq> expectedTerm then sm
          else if Term (singletonScope name) (sgElection sm) \<noteq> expectedTerm
          then setSing name (s\<lparr>ssPhase := phaseIdle\<rparr>) sm
          else let initialState = (if handoffState \<noteq> NilAny
                     then (case spOnHandoff (ssSpec s) of Some f \<Rightarrow> f handoffState | None \<Rightarrow> handoffState)
                     else spInitialState (ssSpec s))
               in setSing name (s\<lparr>ssPhase := phaseActive\<rparr>) (startActor name s initialState sm))"

definition handoffCorrelation :: "string \<Rightarrow> u64 \<Rightarrow> string" where
  "handoffCorrelation name trm = ''handoff:'' @ name @ '':'' @ string_of_u64 trm"

text \<open>
  The end of \<open>runHandoff\<close> with its deferred removal of what is stored under the correlation ID, be
  it this goroutine's channel or that of a later handoff of the same term.
\<close>

definition endHandoff :: "nat \<Rightarrow> string \<Rightarrow> u64 \<Rightarrow> 'm SingletonManager \<Rightarrow> 'm SingletonManager" where
  "endHandoff i name trm sm = endJob i (sm\<lparr>sgWaits := (sgWaits sm)(handoffCorrelation name trm := None)\<rparr>)"

definition setStage :: "nat \<Rightarrow> smJobKind \<Rightarrow> 'm SingletonManager \<Rightarrow> 'm SingletonManager" where
  "setStage i k sm = sm\<lparr>sgJobs := map (\<lambda>j. if jbID j = i then j\<lparr>jbKind := k\<rparr> else j) (sgJobs sm)\<rparr>"

definition handoffSend :: "nat \<Rightarrow> string \<Rightarrow> NodeID \<Rightarrow> u64 \<Rightarrow> 'm SingletonManager \<Rightarrow> 'm SingletonManager option" where
  "handoffSend i name prevLeader trm sm = do {
     let cid = handoffCorrelation name trm;
     (sm, ok) \<leftarrow> sendSystemEnvelope prevLeader ''__singleton_handoff_req''
       (SysHandoffRequest \<lparr>hqName = name, hqTerm = trm, hqNewLeader = rtNodeID (sgRuntime sm)\<rparr>) cid
       (sm\<lparr>sgWaits := (sgWaits sm)(cid \<mapsto> Some i), sgChans := (sgChans sm)(i := [])\<rparr>);
     Some (setStage i (HandoffJob name prevLeader trm (if ok then HoWait else HoPause)) sm)
   }"

text \<open>The \<open>select\<close> statements: \<open>ctxDone\<close> is the choice of the context's case when it is ready.\<close>

definition handoffPause :: "bool \<Rightarrow> smJob \<Rightarrow> string \<Rightarrow> u64 \<Rightarrow> 'm SingletonManager \<Rightarrow> 'm SingletonManager" where
  "handoffPause ctxDone j name trm sm =
     (if ctxDone then (if jbDone j then endHandoff (jbID j) name trm sm else sm)
      else endHandoff (jbID j) name trm (completeActivation name trm NilAny sm))"

definition handoffWait :: "bool \<Rightarrow> smJob \<Rightarrow> string \<Rightarrow> u64 \<Rightarrow> 'm SingletonManager \<Rightarrow> 'm SingletonManager" where
  "handoffWait ctxDone j name trm sm =
     (if ctxDone
      then (if jbDone j then endHandoff (jbID j) name trm (completeActivation name trm NilAny sm) else sm)
      else case sgChans sm (jbID j) of
             resp # _ \<Rightarrow>
               endHandoff (jbID j) name trm
                 (completeActivation name trm (if hrOK resp \<and> hrState resp \<noteq> NilAny then hrState resp else NilAny) sm)
           | _ \<Rightarrow> sm)"

definition runDeactivationTimeout :: "smJob \<Rightarrow> string \<Rightarrow> 'm SingletonManager \<Rightarrow> 'm SingletonManager option" where
  "runDeactivationTimeout j name sm =
     (if \<not> jbDone j then Some sm
      else let sm = endJob (jbID j) sm
           in case map_of (sgSingletons sm) name of
                None \<Rightarrow> Some sm
              | Some s \<Rightarrow> if ssPhase s \<noteq> phaseDeactivating then Some sm else stopAndCleanup name s sm)"

definition runJob :: "nat \<Rightarrow> bool \<Rightarrow> 'm SingletonManager \<Rightarrow> 'm SingletonManager option" where
  "runJob i ctxDone sm =
     (case List.find (\<lambda>j. jbID j = i) (sgJobs sm) of
        None \<Rightarrow> Some sm
      | Some j \<Rightarrow>
          (case jbKind j of
             HandoffJob name prev trm HoSend \<Rightarrow> handoffSend i name prev trm sm
           | HandoffJob name prev trm HoPause \<Rightarrow> Some (handoffPause ctxDone j name trm sm)
           | HandoffJob name prev trm HoWait \<Rightarrow> Some (handoffWait ctxDone j name trm sm)
           | DeactJob name \<Rightarrow> runDeactivationTimeout j name sm))"

definition timeoutJob :: "nat \<Rightarrow> 'm SingletonManager \<Rightarrow> 'm SingletonManager" where
  "timeoutJob i sm = cancelJob (Some i) sm"

section \<open>Start and discovery\<close>

definition startTail :: "'m SingletonManager \<Rightarrow> 'm SingletonManager" where
  "startTail sm = reconcile (fold watchScope (map fst (sgSingletons sm)) (sm\<lparr>sgStart := StReady\<rparr>))"

definition registerHandoffTypes :: "'m SingletonManager \<Rightarrow> 'm SingletonManager" where
  "registerHandoffTypes sm =
     sm\<lparr>sgWireTypes := sgWireTypes sm @ [''singletonHandoffRequest'', ''singletonHandoffResponse'']\<rparr>"

definition sm_Start :: "'m SingletonManager \<Rightarrow> 'm SingletonManager" where
  "sm_Start sm =
     (let sm = sm\<lparr>sgStarted := True, sgCanceled := False\<rparr>
      in if clustered sm
         then let sm = registerHandoffTypes sm;
                  sm = sm\<lparr>sgWireTypes := sgWireTypes sm @ [''singletonDiscoverRequest'', ''singletonDiscoverResponse''],
                          sgDispatcher := map_option (RegisterHandler ''__singleton_discover_resp'' \<circ>
                            RegisterHandler ''__singleton_discover_req'' \<circ> RegisterHandler ''__singleton_handoff_resp'' \<circ>
                            RegisterHandler ''__singleton_handoff_req'') (sgDispatcher sm)\<rparr>;
                  members = (case sgCluster sm of None \<Rightarrow> [] | Some c \<Rightarrow> Members c)
              in if members = [] then startTail sm else sm\<lparr>sgStart := StConnecting members\<rparr>
         else startTail sm)"

definition discoverSend :: "NodeMeta list \<Rightarrow> 'm SingletonManager \<Rightarrow> 'm SingletonManager option" where
  "discoverSend members sm =
     foldOpt (\<lambda>m sm. map_option fst (sendSystemEnvelope (nmID m) ''__singleton_discover_req'' SysDiscoverRequest ''discover'' sm))
       members (sm\<lparr>sgWaits := (sgWaits sm)(''discover'' \<mapsto> None), sgDiscover := Some (length members, []),
                   sgStart := StCollecting 0 (length members)\<rparr>)"

text \<open>A round of the wait for a connected peer; the flag says that the wait's context is done.\<close>

definition discoverConnect :: "bool \<Rightarrow> 'm SingletonManager \<Rightarrow> 'm SingletonManager option" where
  "discoverConnect ctxDone sm =
     (case (sgStart sm, sgCluster sm) of
        (StConnecting members, Some c) \<Rightarrow>
          if \<exists>m\<in>set members. IsConnected c (nmID m) then discoverSend members sm
          else if ctxDone \<or> Members c = [] then Some (startTail sm)
          else Some (sm\<lparr>sgStart := StConnecting (Members c)\<rparr>)
      | _ \<Rightarrow> Some sm)"

definition absorbDiscover :: "singletonDiscoverResponse \<Rightarrow> 'm SingletonManager \<Rightarrow> 'm SingletonManager" where
  "absorbDiscover resp sm =
     fold (\<lambda>name sm. if sgPrevLeaders sm (singletonScope name) = None
                    then setPrevLeader (singletonScope name) (ddFrom resp) sm else sm) (ddRunning resp) sm"

datatype collectCase = CollectResponse | CollectDeadline | CollectCtxDone

definition discoverCollect :: "collectCase \<Rightarrow> 'm SingletonManager \<Rightarrow> 'm SingletonManager" where
  "discoverCollect k sm =
     (case sgStart sm of
        StCollecting got n \<Rightarrow>
          if got \<ge> n then startTail (sm\<lparr>sgDiscover := None\<rparr>)
          else (case k of
             CollectResponse \<Rightarrow>
               (case sgDiscover sm of
                  Some (cap, resp # rest) \<Rightarrow>
                    absorbDiscover resp (sm\<lparr>sgDiscover := Some (cap, rest), sgStart := StCollecting (Suc got) n\<rparr>)
                | _ \<Rightarrow> sm)
           | CollectDeadline \<Rightarrow> sm\<lparr>sgStart := StCollecting n n\<rparr>
           | CollectCtxDone \<Rightarrow> startTail sm)
      | _ \<Rightarrow> sm)"

section \<open>Membership events of the cluster (start.go)\<close>

text \<open>The part of the callback that \<open>cluster.Start\<close> installs which concerns these components.\<close>

definition clusterMemberEvent :: "int \<Rightarrow> MemberEvent \<Rightarrow> 'm SingletonManager \<Rightarrow> 'm SingletonManager" where
  "clusterMemberEvent now ev sm =
     (let sm = OnMemberEvent now ev (sm\<lparr>sgElection := OnMembershipChange ev (sgElection sm)\<rparr>)
      in sm\<lparr>sgRegistry := map_option (dr_OnMembershipChange (sgOps sm) ev) (sgRegistry sm)\<rparr>)"

section \<open>Histories\<close>

datatype smOp =
  SmRegister SingletonSpec
| SmStart
| SmConnect bool
| SmCollect collectCase
| SmStop
| SmRebalance
| SmMember int MemberEvent
| SmWatch "string \<times> nat"
| SmWatchDone "string \<times> nat"
| SmTimeout nat
| SmJob nat bool
| SmEnvelope NodeID Envelope

fun smStep :: "smOp \<Rightarrow> 'm SingletonManager \<Rightarrow> 'm SingletonManager option" where
  "smStep (SmRegister spec) sm = Some (sm_Register spec sm)"
| "smStep SmStart sm = Some (sm_Start sm)"
| "smStep (SmConnect b) sm = discoverConnect b sm"
| "smStep (SmCollect k) sm = Some (discoverCollect k sm)"
| "smStep SmStop sm = sm_Stop sm"
| "smStep SmRebalance sm = Rebalance sm"
| "smStep (SmMember now ev) sm = Some (clusterMemberEvent now ev sm)"
| "smStep (SmWatch l) sm = Some (if l \<in> set (sgLoops sm) then watchEvent l sm else sm)"
| "smStep (SmWatchDone l) sm = Some (watchDone l sm)"
| "smStep (SmTimeout i) sm = Some (timeoutJob i sm)"
| "smStep (SmJob i b) sm = runJob i b sm"
| "smStep (SmEnvelope from env) sm = onSystemEnvelope from env sm"

end
