(* ===== verification/SingletonProps.thy ===== *)
theory SingletonProps
  imports Singleton ActorProps
begin

text \<open>
  What the singleton manager guarantees: running singletons stay where they are, a node takes
  over after a failure, a handoff moves the state of the actor, at most one node of an agreed
  membership starts a singleton; and where the protocol leaves a singleton running nowhere or
  twice.
\<close>

section \<open>What leaves a singleton alone\<close>

definition keeps :: "string \<Rightarrow> 'm SingletonManager \<Rightarrow> 'm SingletonManager \<Rightarrow> bool" where
  "keeps a sm sm' \<longleftrightarrow> map_of (sgSingletons sm') a = map_of (sgSingletons sm) a \<and> actorKept a (sgRuntime sm) (sgRuntime sm')"

lemma keeps_refl [simp]: "regInv (sgRuntime sm) \<Longrightarrow> keeps a sm sm"
  by (simp add: keeps_def)

lemma keeps_trans: "keeps a x y \<Longrightarrow> keeps a y z \<Longrightarrow> keeps a x z"
  by (auto simp: keeps_def intro: actorKept_trans)

lemma keeps_regInv: "keeps a x y \<Longrightarrow> regInv (sgRuntime y)"
  by (simp add: keeps_def actorKept_def)

lemma keeps_book: "sgSingletons x = sgSingletons y \<Longrightarrow> sgRuntime x = sgRuntime y \<Longrightarrow> keeps a y z \<Longrightarrow> keeps a x z"
  by (simp add: keeps_def)

lemma startActor_frame [simp]:
  "sgSingletons (startActor b s i sm) = sgSingletons sm" "sgElection (startActor b s i sm) = sgElection sm"
  "sgFailed (startActor b s i sm) = sgFailed sm" "sgPrevLeaders (startActor b s i sm) = sgPrevLeaders sm"
  "sgCluster (startActor b s i sm) = sgCluster sm" "sgOps (startActor b s i sm) = sgOps sm"
  "sgJobs (startActor b s i sm) = sgJobs sm" "sgCodec (startActor b s i sm) = sgCodec sm"
  by (auto simp: startActor_def Let_def split: sum.split option.split prod.split)

lemma startActor_kept:
  assumes "regInv (sgRuntime sm)" and "b \<noteq> a"
  shows "actorKept a (sgRuntime sm) (sgRuntime (startActor b s i sm))"
proof -
  define r where "r = (case RemoveActor b (sgRuntime sm) of Inl _ \<Rightarrow> sgRuntime sm | Inr r \<Rightarrow> r)"
  have r: "actorKept a (sgRuntime sm) r"
    using assms RemoveActor_kept by (auto simp: r_def split: sum.split)
  then have inv: "regInv r" by (simp add: actorKept_def)
  have c: "actorKept a (sgRuntime sm) r'" if "CreateActor b i (spHandler (ssSpec s)) (spOptions (ssSpec s)) r = Inr r'" for r'
    using CreateActor_kept [OF that inv assms(2)] r actorKept_trans by blast
  then have i: "actorKept a (sgRuntime sm) r''"
    if "CreateActor b i (spHandler (ssSpec s)) (spOptions (ssSpec s)) r = Inr r'" "IssuePID ns b r' = (r'', x)" for r' r'' ns x
    using that IssuePID_kept [OF that(2)] actorKept_trans by (metis actorKept_def)
  show ?thesis using r c i by (auto simp: startActor_def r_def [symmetric] Let_def split: sum.split option.split prod.split)
qed

lemma setSing_frame [simp]:
  "sgRuntime (setSing b s sm) = sgRuntime sm" "sgElection (setSing b s sm) = sgElection sm"
  "map_of (sgSingletons (setSing b s sm)) a = (if a = b then Some s else map_of (sgSingletons sm) a)"
  "sgJobs (setSing b s sm) = sgJobs sm" "sgWaits (setSing b s sm) = sgWaits sm"
  by (auto simp: setSing_def)

lemma job_frame [simp]:
  "sgRuntime (spawnJob t k sm) = sgRuntime sm" "sgSingletons (spawnJob t k sm) = sgSingletons sm"
  "sgRuntime (cancelJob c sm) = sgRuntime sm" "sgSingletons (cancelJob c sm) = sgSingletons sm"
  "sgElection (cancelJob c sm) = sgElection sm" "sgElection (spawnJob t k sm) = sgElection sm"
  "sgRuntime (endJob i sm) = sgRuntime sm" "sgSingletons (endJob i sm) = sgSingletons sm"
  "sgRuntime (setStage i kd sm) = sgRuntime sm" "sgSingletons (setStage i kd sm) = sgSingletons sm"
  "sgRuntime (unregisterName b sm) = sgRuntime sm" "sgSingletons (unregisterName b sm) = sgSingletons sm"
  by (auto simp: spawnJob_def cancelJob_def endJob_def setStage_def unregisterName_def split: option.split)

lemma isLeaderFor_frame:
  assumes "isLeaderFor b s sm = (sm', l)"
  shows "\<exists>e. sm' = sm\<lparr>sgElection := e\<rparr>"
proof (cases "spPlacement (ssSpec s)")
  case None
  with assms show ?thesis by (auto simp: isLeaderFor_def Let_def split: prod.splits)
next
  case (Some m)
  with assms show ?thesis
    by (cases "sgCluster sm") (auto simp: isLeaderFor_def Let_def split: prod.splits intro: exI [of _ "sgElection sm"])
qed

lemma gainLeadership_keeps:
  assumes "regInv (sgRuntime sm)" and "b \<noteq> a"
  shows "keeps a sm (gainLeadership b s t sm)"
  using assms startActor_kept [OF assms] by (auto simp: gainLeadership_def keeps_def Let_def)

lemma reconcileOne_keeps:
  assumes "regInv (sgRuntime sm)" and "phaseOf sm a = Some phaseActive \<or> phaseOf sm a = Some phaseDeactivating"
  shows "keeps a sm (reconcileOne b sm)"
proof (cases "map_of (sgSingletons sm) b")
  case None
  with assms show ?thesis by (simp add: reconcileOne_def)
next
  case (Some s)
  obtain sm1 l where l: "isLeaderFor b s sm = (sm1, l)" by (cases "isLeaderFor b s sm")
  from isLeaderFor_frame [OF l] have f: "sgSingletons sm = sgSingletons sm1" "sgRuntime sm = sgRuntime sm1" by auto
  show ?thesis
  proof (cases "b = a")
    case True
    with assms Some have "ssPhase s = phaseActive \<or> ssPhase s = phaseDeactivating" by (auto simp: phaseOf_def)
    with Some l f assms(1) show ?thesis by (auto simp: reconcileOne_def keeps_def)
  next
    case False
    have "keeps a sm1 (gainLeadership b s' t sm2)" if "sgRuntime sm2 = sgRuntime sm1" "sgSingletons sm2 = sgSingletons sm1" for s' t sm2
      using gainLeadership_keeps [of sm2 b a s' t] that assms(1) False f by (simp add: keeps_def)
    then show ?thesis using Some l f assms(1) False
      by (intro keeps_book [OF f]) (auto simp: reconcileOne_def keeps_def Let_def split: singletonPhase.split)
  qed
qed

lemma keeps_phase: "keeps a sm sm' \<Longrightarrow> phaseOf sm' a = phaseOf sm a"
  by (simp add: keeps_def phaseOf_def)

lemma keeps_fold:
  assumes "\<And>b sm. regInv (sgRuntime sm) \<Longrightarrow> phaseOf sm a = Some phaseActive \<or> phaseOf sm a = Some phaseDeactivating \<Longrightarrow> keeps a sm (f b sm)"
    and "regInv (sgRuntime sm)" and "phaseOf sm a = Some phaseActive \<or> phaseOf sm a = Some phaseDeactivating"
  shows "keeps a sm (fold f bs sm)"
  using assms(2,3)
proof (induction bs arbitrary: sm)
  case (Cons b bs)
  from assms(1) [OF Cons.prems] have k: "keeps a sm (f b sm)" .
  from Cons.IH [OF keeps_regInv [OF k]] keeps_phase [OF k] Cons.prems(2) keeps_trans [OF k] show ?case by simp
qed simp

lemma reconcile_keeps:
  assumes "regInv (sgRuntime sm)" and "phaseOf sm a = Some phaseActive \<or> phaseOf sm a = Some phaseDeactivating"
  shows "keeps a sm (reconcile sm)"
  unfolding reconcile_def using reconcileOne_keeps assms by (rule keeps_fold)

lemma startTail_keeps:
  assumes "regInv (sgRuntime sm)" and "phaseOf sm a = Some phaseActive \<or> phaseOf sm a = Some phaseDeactivating"
  shows "keeps a sm (startTail sm)"
proof -
  let ?w = "fold watchScope (map fst (sgSingletons sm)) (sm\<lparr>sgStart := StReady\<rparr>)"
  have "keeps a (sm\<lparr>sgStart := StReady\<rparr>) ?w"
    by (rule keeps_fold) (use assms in \<open>simp_all add: watchScope_def Let_def keeps_def phaseOf_def\<close>)
  then have w: "keeps a sm ?w" by (rule keeps_book [rotated 2]) simp_all
  from reconcile_keeps [OF keeps_regInv [OF w], of a] keeps_phase [OF w] assms(2) keeps_trans [OF w]
  show ?thesis by (simp add: startTail_def)
qed

lemma sendSystemEnvelope_frame:
  "sendSystemEnvelope t ty m c sm = Some (sm', ok) \<Longrightarrow> \<exists>cl. sm' = sm\<lparr>sgCluster := cl\<rparr>"
  by (auto simp: sendSystemEnvelope_def bind_eq_Some_conv case_prod_beta split: option.splits intro: exI [of _ "sgCluster sm"])

lemma sendSystemEnvelope_keeps:
  "map_option fst (sendSystemEnvelope t ty m c sm) = Some sm' \<Longrightarrow> sgSingletons sm' = sgSingletons sm \<and> sgRuntime sm' = sgRuntime sm \<and>
     sgWaits sm' = sgWaits sm \<and> sgJobs sm' = sgJobs sm"
  using sendSystemEnvelope_frame by fastforce

lemma discoverSend_keeps:
  assumes "discoverSend ms sm = Some sm'"
  shows "sgSingletons sm' = sgSingletons sm \<and> sgRuntime sm' = sgRuntime sm"
proof -
  have "foldOpt (\<lambda>m sm. map_option fst (sendSystemEnvelope (nmID m) ty SysDiscoverRequest c sm)) ms x = Some y \<Longrightarrow>
      sgSingletons y = sgSingletons x \<and> sgRuntime y = sgRuntime x" for x y ty c
  proof (induction ms arbitrary: x)
    case (Cons m ms)
    then obtain z where "map_option fst (sendSystemEnvelope (nmID m) ty SysDiscoverRequest c x) = Some z"
      and "foldOpt (\<lambda>m sm. map_option fst (sendSystemEnvelope (nmID m) ty SysDiscoverRequest c sm)) ms z = Some y"
      by (auto split: option.splits)
    with Cons.IH sendSystemEnvelope_keeps show ?case by metis
  qed simp
  from this [OF assms [unfolded discoverSend_def]] show ?thesis by simp
qed

lemma absorbDiscover_frame [simp]:
  "sgSingletons (absorbDiscover resp sm) = sgSingletons sm" "sgRuntime (absorbDiscover resp sm) = sgRuntime sm"
proof -
  have "sgSingletons (fold (\<lambda>n sm. if sgPrevLeaders sm (singletonScope n) = None then setPrevLeader (singletonScope n) f sm else sm) ns sm) = sgSingletons sm \<and>
    sgRuntime (fold (\<lambda>n sm. if sgPrevLeaders sm (singletonScope n) = None then setPrevLeader (singletonScope n) f sm else sm) ns sm) = sgRuntime sm" for ns f
    by (induction ns arbitrary: sm) (simp_all add: setPrevLeader_def)
  then show "sgSingletons (absorbDiscover resp sm) = sgSingletons sm" "sgRuntime (absorbDiscover resp sm) = sgRuntime sm"
    by (simp_all add: absorbDiscover_def)
qed

lemma onResponse_frame:
  "onHandoffResponse from env sm = Some sm' \<Longrightarrow> sgSingletons sm' = sgSingletons sm \<and> sgRuntime sm' = sgRuntime sm"
  "onDiscoverResponse from env sm = Some sm' \<Longrightarrow> sgSingletons sm' = sgSingletons sm \<and> sgRuntime sm' = sgRuntime sm"
  unfolding onHandoffResponse_def onDiscoverResponse_def bind_eq_Some_conv option.inject
  by (elim exE conjE, hypsubst, simp split: option.split sysMsg.split list.split)+

lemma onDiscoverRequest_frame:
  "onDiscoverRequest from env sm = Some sm' \<Longrightarrow> sgSingletons sm' = sgSingletons sm \<and> sgRuntime sm' = sgRuntime sm"
  unfolding onDiscoverRequest_def by (drule sendSystemEnvelope_keeps) simp

lemma stopAndCleanup_keeps:
  "stopAndCleanup b s sm = Some sm' \<Longrightarrow> regInv (sgRuntime sm) \<Longrightarrow> b \<noteq> a \<Longrightarrow> keeps a sm sm'"
  using Stop_kept by (auto simp: stopAndCleanup_def bind_eq_Some_conv keeps_def)

lemma completeActivation_keeps:
  assumes "regInv (sgRuntime sm)" and "phaseOf sm a = Some phaseActive"
  shows "keeps a sm (completeActivation b t h sm)"
proof (cases "b = a")
  case True
  with assms show ?thesis by (auto simp: completeActivation_def phaseOf_def keeps_def split: option.split)
next
  case False
  with assms startActor_kept show ?thesis by (auto simp: completeActivation_def keeps_def Let_def split: option.split)
qed

lemma runJob_keeps:
  assumes "runJob i c sm = Some sm'" and inv: "regInv (sgRuntime sm)" and act: "phaseOf sm a = Some phaseActive"
  shows "keeps a sm sm'"
proof (cases "List.find (\<lambda>j. jbID j = i) (sgJobs sm)")
  case None
  with assms show ?thesis by (simp add: runJob_def)
next
  case (Some j)
  have comp: "keeps a sm (endHandoff k b t (completeActivation b t h sm))" "keeps a sm (endHandoff k b t sm)" for k b t h
    using completeActivation_keeps [OF inv act, of b t h] inv by (simp_all add: endHandoff_def keeps_def)
  show ?thesis
  proof (cases "jbKind j")
    case (HandoffJob b prev t stage)
    show ?thesis
    proof (cases stage)
      case HoSend
      with HandoffJob Some assms(1) have "handoffSend i b prev t sm = Some sm'" by (simp add: runJob_def)
      then obtain sm1 ok where s: "sendSystemEnvelope prev ''__singleton_handoff_req''
          (SysHandoffRequest \<lparr>hqName = b, hqTerm = t, hqNewLeader = rtNodeID (sgRuntime sm)\<rparr>) (handoffCorrelation b t)
          (sm\<lparr>sgWaits := (sgWaits sm)(handoffCorrelation b t \<mapsto> Some i), sgChans := (sgChans sm)(i := [])\<rparr>) = Some (sm1, ok)"
        and "sm' = setStage i (HandoffJob b prev t (if ok then HoWait else HoPause)) sm1"
        by (auto simp: handoffSend_def bind_eq_Some_conv Let_def)
      with sendSystemEnvelope_frame [OF s] inv show ?thesis by (auto simp: keeps_def)
    next
      case HoPause
      with HandoffJob Some assms(1) have "sm' = handoffPause c j b t sm" by (simp add: runJob_def)
      with comp inv show ?thesis by (simp add: handoffPause_def)
    next
      case HoWait
      with HandoffJob Some assms(1) have "sm' = handoffWait c j b t sm" by (simp add: runJob_def)
      with comp inv show ?thesis by (auto simp: handoffWait_def split: option.split list.split)
    qed
  next
    case (DeactJob b)
    with Some assms(1) have r: "runDeactivationTimeout j b sm = Some sm'" by (simp add: runJob_def)
    show ?thesis
    proof (cases "sm' = sm \<or> sm' = endJob (jbID j) sm")
      case True
      with inv show ?thesis by (auto simp: keeps_def)
    next
      case False
      with r obtain s where s: "map_of (sgSingletons sm) b = Some s" "ssPhase s = phaseDeactivating"
        and c: "stopAndCleanup b s (endJob (jbID j) sm) = Some sm'"
        by (auto simp: runDeactivationTimeout_def Let_def split: option.splits if_splits)
      from s act have "b \<noteq> a" by (auto simp: phaseOf_def)
      with stopAndCleanup_keeps [OF c, of a] inv show ?thesis by (simp add: keeps_def)
    qed
  qed
qed

fun moves :: "string \<Rightarrow> smOp \<Rightarrow> bool" where
  "moves a (SmRegister spec) = (spName spec = a)"
| "moves a SmStop = True"
| "moves a SmRebalance = True"
| "moves a (SmEnvelope from env) = (enTypeName env = ''__singleton_handoff_req'')"
| "moves a _ = False"

lemma step_keeps:
  assumes "smStep op sm = Some sm'" and inv: "regInv (sgRuntime sm)" and act: "phaseOf sm a = Some phaseActive" and "\<not> moves a op"
  shows "keeps a sm sm'"
proof -
  have rec: "keeps a sm (reconcile x)" if "sgSingletons x = sgSingletons sm" "sgRuntime x = sgRuntime sm" for x
    using reconcile_keeps [of x a] that inv act by (simp add: keeps_def phaseOf_def)
  have tail: "keeps a sm (startTail x)" if "sgSingletons x = sgSingletons sm" "sgRuntime x = sgRuntime sm" for x
    using startTail_keeps [of x a] that inv act by (simp add: keeps_def phaseOf_def)
  show ?thesis
  proof (cases op)
    case (SmRegister spec)
    let ?s = "\<lparr>ssSpec = spec, ssPhase = phaseIdle, ssTerm = 0, ssCancel = None, ssRebalancing = False\<rparr>"
    have k: "keeps a sm (setSing (spName spec) ?s sm)" using assms(4) inv SmRegister by (simp add: keeps_def)
    have "keeps a sm (reconcile (watchScope (spName spec) (setSing (spName spec) ?s sm)))"
      using reconcile_keeps [of "watchScope (spName spec) (setSing (spName spec) ?s sm)" a] k assms(4) inv act SmRegister
      by (simp add: keeps_def phaseOf_def watchScope_def Let_def)
    with k SmRegister assms(1) show ?thesis by (auto simp: sm_Register_def Let_def)
  next
    case SmStart
    with assms(1) tail inv show ?thesis by (auto simp: sm_Start_def registerHandoffTypes_def Let_def keeps_def)
  next
    case (SmConnect b)
    then have "sm' = startTail sm \<or> sgSingletons sm' = sgSingletons sm \<and> sgRuntime sm' = sgRuntime sm"
      using assms(1) discoverSend_keeps by (auto simp: discoverConnect_def split: startPC.splits option.splits if_splits)
    with tail inv show ?thesis by (auto simp: keeps_def)
  next
    case (SmCollect k)
    with assms(1) tail inv show ?thesis
      by (auto simp: discoverCollect_def keeps_def split: startPC.split collectCase.split option.split list.split)
  next
    case (SmMember now ev)
    have "keeps a sm (OnMemberEvent now ev (sm\<lparr>sgElection := OnMembershipChange ev (sgElection sm)\<rparr>))"
      unfolding OnMemberEvent_def Let_def by (rule rec) simp_all
    with SmMember assms(1) show ?thesis by (auto simp: clusterMemberEvent_def Let_def keeps_def)
  next
    case (SmWatch l)
    with assms(1) rec inv show ?thesis
      by (auto simp: watchEvent_def setPrevLeader_def Let_def keeps_def split: prod.split option.split)
  next
    case (SmWatchDone l)
    with assms(1) inv show ?thesis by (auto simp: watchDone_def keeps_def)
  next
    case (SmTimeout i)
    with assms(1) inv show ?thesis by (auto simp: timeoutJob_def keeps_def)
  next
    case (SmJob i b)
    with assms(1) runJob_keeps [OF _ inv act] show ?thesis by simp
  next
    case (SmEnvelope "from" env)
    with assms(1,4) have "sgSingletons sm' = sgSingletons sm \<and> sgRuntime sm' = sgRuntime sm"
      by (auto simp: onSystemEnvelope_def split: if_splits dest: onResponse_frame onDiscoverRequest_frame)
    with inv show ?thesis by (simp add: keeps_def)
  qed (use assms(4) in auto)
qed

text \<open>
  Claim C14. Singletons are sticky: whatever happens to a manager short of a stop, a rebalance, a
  handoff request or a new registration of the name (membership events, leader changes,
  discovery, handoffs and timeouts of other singletons, in any order), a singleton that is
  active stays active and its actor keeps its place, status and state.
\<close>

theorem singleton_sticky:
  assumes "regInv (sgRuntime sm)" and "phaseOf sm a = Some phaseActive"
    and "foldOpt smStep ops sm = Some sm'" and "\<forall>op\<in>set ops. \<not> moves a op"
  shows "phaseOf sm' a = Some phaseActive \<and> rtRegistry (sgRuntime sm') a = rtRegistry (sgRuntime sm) a \<and>
    (\<forall>p. rtRegistry (sgRuntime sm) a = Some p \<longrightarrow>
       aiStatus (instAt (sgRuntime sm') p) = aiStatus (instAt (sgRuntime sm) p) \<and>
       aiState (instAt (sgRuntime sm') p) = aiState (instAt (sgRuntime sm) p))"
proof -
  have "keeps a sm sm'" using assms
  proof (induction ops arbitrary: sm)
    case (Cons op ops)
    then obtain sm1 where sm1: "smStep op sm = Some sm1" "foldOpt smStep ops sm1 = Some sm'" by (auto split: option.splits)
    from step_keeps [OF sm1(1) Cons.prems(1,2)] Cons.prems(4) have k: "keeps a sm sm1" by simp
    from Cons.IH [OF keeps_regInv [OF k] _ sm1(2)] keeps_phase [OF k] Cons.prems(2,4) keeps_trans [OF k] show ?case by simp
  qed simp
  with assms(2) instGrow_fields(2,4) show ?thesis by (auto simp: keeps_def actorKept_def phaseOf_def)
qed

section \<open>Who starts a singleton\<close>

definition smInv :: "'m SingletonManager \<Rightarrow> bool" where
  "smInv sm \<longleftrightarrow> regInv (sgRuntime sm) \<and> elInv (sgElection sm) \<and> ormapOk (sgOps sm) \<and> gomap_ok (sgSingletons sm)"

text \<open>Whether the manager's node leads the scope of a singleton with this specification.\<close>

definition leads :: "string \<Rightarrow> singletonState \<Rightarrow> 'm SingletonManager \<Rightarrow> bool" where
  "leads a s sm \<longleftrightarrow>
     (case (spPlacement (ssSpec s), sgCluster sm) of
        (Some matcher, Some c) \<Rightarrow>
          LeaderAmong (singletonScope a) (Some matcher) (Members c @ [Self c]) = Some (rtNodeID (sgRuntime sm))
      | _ \<Rightarrow> let l = computeLeader (singletonScope a) (elMembers (sgElection sm))
             in l \<noteq> '''' \<and> l = elLocalID (sgElection sm))"

definition ownerGone :: "string \<Rightarrow> 'm SingletonManager \<Rightarrow> bool" where
  "ownerGone a sm \<longleftrightarrow>
     (let prev = findPrevLeader sm (singletonScope a)
      in prev = '''' \<or> prev = rtNodeID (sgRuntime sm) \<or> isRecentlyFailed sm prev)"

definition lookupName :: "'m SingletonManager \<Rightarrow> string \<Rightarrow> PID option option" where
  "lookupName sm a = map_option (\<lambda>m. dr_Lookup (sgOps sm) m a) (sgRegistry sm)"

text \<open>Two states that are the same as far as singleton \<open>a\<close> is concerned.\<close>

definition sameView :: "string \<Rightarrow> 'm SingletonManager \<Rightarrow> 'm SingletonManager \<Rightarrow> bool" where
  "sameView a sm sm' \<longleftrightarrow> keeps a sm sm' \<and> smInv sm' \<and> elMembers (sgElection sm') = elMembers (sgElection sm) \<and>
     elLocalID (sgElection sm') = elLocalID (sgElection sm) \<and> sgCluster sm' = sgCluster sm \<and>
     sgPrevLeaders sm' = sgPrevLeaders sm \<and> sgFailed sm' = sgFailed sm \<and> lookupName sm' a = lookupName sm a \<and>
     (\<forall>es. map_of (elScopes (sgElection sm)) (singletonScope a) = Some es \<longrightarrow>
        map_of (elScopes (sgElection sm')) (singletonScope a) = Some es)"

lemma sameView_refl: "smInv sm \<Longrightarrow> sameView a sm sm"
  by (simp add: sameView_def smInv_def)

lemma sameView_trans: "sameView a x y \<Longrightarrow> sameView a y z \<Longrightarrow> sameView a x z"
  by (auto simp: sameView_def intro: keeps_trans)

lemma singletonScope_drop [simp]: "drop (length ''singleton/'') (singletonScope a) = a"
  by (simp add: singletonScope_def)

lemma findPrevLeader_eq:
  "findPrevLeader sm (singletonScope a) =
     (if getPrevLeader sm (singletonScope a) \<noteq> '''' then getPrevLeader sm (singletonScope a)
      else case lookupName sm a of
             Some (Some pid) \<Rightarrow> if pidNamespace pid \<noteq> rtNodeID (sgRuntime sm) then pidNamespace pid else ''''
           | _ \<Rightarrow> '''')"
  by (auto simp: findPrevLeader_def lookupName_def Let_def simp del: length_Cons list.size split: option.split)

lemma sameView_leads: "sameView a sm sm' \<Longrightarrow> leads a s sm' = leads a s sm"
  by (auto simp: sameView_def leads_def keeps_def actorKept_def Let_def split: option.split)

lemma sameView_owner: "sameView a sm sm' \<Longrightarrow> ownerGone a sm' = ownerGone a sm"
  by (auto simp: sameView_def ownerGone_def findPrevLeader_eq getPrevLeader_def isRecentlyFailed_def keeps_def actorKept_def Let_def
      split: option.split)

lemma IsLeader_answer:
  assumes "elInv e"
  shows "elInv (fst (IsLeader scope e))" "elMembers (fst (IsLeader scope e)) = elMembers e"
    "elLocalID (fst (IsLeader scope e)) = elLocalID e"
    "snd (IsLeader scope e) = (computeLeader scope (elMembers e) \<noteq> '''' \<and> computeLeader scope (elMembers e) = elLocalID e)"
proof -
  have f: "fst (IsLeader scope e) = fst (ensureScopeLocked scope e)"
    by (simp add: IsLeader_def Leader_def split_beta Let_def)
  show "elInv (fst (IsLeader scope e))" unfolding f using assms by (rule elInv_ensure)
  show m: "elMembers (fst (IsLeader scope e)) = elMembers e" "elLocalID (fst (IsLeader scope e)) = elLocalID e"
    unfolding f by (simp_all add: ensureScopeLocked_def Let_def split: option.split)
  from Leader_answer [OF assms, of scope] m(2) show
    "snd (IsLeader scope e) = (computeLeader scope (elMembers e) \<noteq> '''' \<and> computeLeader scope (elMembers e) = elLocalID e)"
    by (auto simp: IsLeader_def Leader_def split_beta Let_def)
qed

lemma IsLeader_scopes: "map_of (elScopes e) k = Some es \<Longrightarrow> map_of (elScopes (fst (IsLeader scope e))) k = Some es"
  by (auto simp: IsLeader_def Leader_def ensureScopeLocked_def split_beta Let_def split: option.split)

lemma isLeaderFor_view:
  assumes "smInv sm"
  shows "sameView a sm (fst (isLeaderFor b s sm))" and "snd (isLeaderFor b s sm) = leads b s sm"
proof -
  note l = IsLeader_answer [of "sgElection sm" "singletonScope b"]
  obtain e x where e: "IsLeader (singletonScope b) (sgElection sm) = (e, x)" by (cases "IsLeader (singletonScope b) (sgElection sm)")
  have "map_of (elScopes (sgElection sm)) scope = Some es \<Longrightarrow> map_of (elScopes e) scope = Some es" for scope es
    using IsLeader_scopes [of "sgElection sm" scope es "singletonScope b"] e by simp
  then have "sameView a sm (sm\<lparr>sgElection := e\<rparr>)"
    using assms l e by (auto simp: sameView_def smInv_def keeps_def lookupName_def)
  moreover have "sameView a sm sm" using assms by (rule sameView_refl)
  ultimately show "sameView a sm (fst (isLeaderFor b s sm))"
    using e by (cases "spPlacement (ssSpec s)"; cases "sgCluster sm") (auto simp: isLeaderFor_def Let_def)
  show "snd (isLeaderFor b s sm) = leads b s sm"
    using assms l e by (cases "spPlacement (ssSpec s)"; cases "sgCluster sm") (auto simp: isLeaderFor_def leads_def smInv_def Let_def)
qed

lemma startActor_lookup:
  assumes "ormapOk (sgOps sm)" and "b \<noteq> a"
  shows "lookupName (startActor b s i sm) a = lookupName sm a"
  using assms by (auto simp: startActor_def lookupName_def Let_def dr_Register_effect split: sum.split option.split prod.split)

lemma startActor_view:
  assumes "smInv sm" and "b \<noteq> a"
  shows "sameView a sm (setSing b s' (startActor b s i sm))"
  using assms startActor_kept [of sm b a s i] startActor_lookup [of sm b a s i]
  by (auto simp: sameView_def smInv_def keeps_def actorKept_def setSing_def lookupName_def)

lemma setSing_view: "smInv sm \<Longrightarrow> b \<noteq> a \<Longrightarrow> sameView a sm (setSing b s sm)"
  by (auto simp: sameView_def smInv_def keeps_def setSing_def lookupName_def)

lemma sameView_jobs:
  "sameView a sm x \<Longrightarrow> sameView a sm (spawnJob t k x)" "sameView a sm x \<Longrightarrow> sameView a sm (cancelJob c x)"
  by (auto simp: sameView_def smInv_def keeps_def lookupName_def spawnJob_def cancelJob_def split: option.split)

lemma gainLeadership_view:
  assumes "smInv sm" and "b \<noteq> a"
  shows "sameView a sm (gainLeadership b s t sm)"
  using startActor_view [OF assms] setSing_view [OF assms] by (auto simp: gainLeadership_def Let_def intro: sameView_jobs)

lemma reconcileOne_view:
  assumes inv: "smInv sm" and ba: "b \<noteq> a"
  shows "sameView a sm (reconcileOne b sm)"
proof (cases "map_of (sgSingletons sm) b")
  case None
  with sameView_refl [OF inv] show ?thesis by (simp add: reconcileOne_def)
next
  case (Some s)
  obtain sm1 l where l: "isLeaderFor b s sm = (sm1, l)" by (cases "isLeaderFor b s sm")
  have v: "sameView a sm sm1" using isLeaderFor_view(1) [OF inv, of a b s] l by simp
  then have i1: "smInv sm1" by (simp add: sameView_def)
  have c: "sameView a sm (cancelJob k sm1)" for k using sameView_jobs(2) [OF v] .
  then have ic: "smInv (cancelJob k sm1)" for k by (simp add: sameView_def)
  have "sameView a sm (gainLeadership b s' t sm1)" "sameView a sm (gainLeadership b s' t (cancelJob k sm1))"
    "sameView a sm (setSing b s' (cancelJob k sm1))" for s' t k
    using sameView_trans [OF v gainLeadership_view [OF i1 ba]] sameView_trans [OF c gainLeadership_view [OF ic ba]]
      sameView_trans [OF c setSing_view [OF ic ba]] by blast+
  with v Some l show ?thesis by (auto simp: reconcileOne_def Let_def split: singletonPhase.split)
qed

lemma fold_view:
  assumes "smInv sm" and "a \<notin> set bs"
  shows "sameView a sm (fold reconcileOne bs sm)"
  using assms
proof (induction bs arbitrary: sm)
  case Nil
  then show ?case by (simp add: sameView_refl)
next
  case (Cons b bs)
  have v: "sameView a sm (reconcileOne b sm)" by (rule reconcileOne_view) (use Cons.prems in auto)
  then have "smInv (reconcileOne b sm)" by (simp add: sameView_def)
  then have "sameView a (reconcileOne b sm) (fold reconcileOne bs (reconcileOne b sm))" using Cons by simp
  with v show ?case using sameView_trans by fastforce
qed

lemma reconcileOne_inv: "smInv sm \<Longrightarrow> smInv (reconcileOne b sm)"
  using reconcileOne_view [of sm b "CHR ''x'' # b"] by (simp add: sameView_def)

lemma reconcile_inv: "smInv sm \<Longrightarrow> smInv (reconcile sm)"
proof -
  have "smInv sm \<Longrightarrow> smInv (fold reconcileOne bs sm)" for bs
    by (induction bs arbitrary: sm) (simp_all add: reconcileOne_inv)
  then show "smInv sm \<Longrightarrow> smInv (reconcile sm)" by (simp add: reconcile_def)
qed

text \<open>What a reconciliation does to one singleton is what its own turn does.\<close>

lemma reconcile_turn:
  assumes inv: "smInv sm" and a: "map_of (sgSingletons sm) a = Some s"
  obtains sm1 where "sameView a sm sm1" "sameView a (reconcileOne a sm1) (reconcile sm)"
proof -
  have "a \<in> set (map fst (sgSingletons sm))" using a by (force dest: map_of_SomeD)
  then obtain bs cs where k: "map fst (sgSingletons sm) = bs @ a # cs" by (meson split_list)
  moreover have "distinct (map fst (sgSingletons sm))" using inv by (simp add: smInv_def gomap_ok_def)
  ultimately have "a \<notin> set bs" "a \<notin> set cs" by auto
  let ?sm1 = "fold reconcileOne bs sm"
  have v: "sameView a sm ?sm1" using fold_view [OF inv \<open>a \<notin> set bs\<close>] .
  then have "smInv (reconcileOne a ?sm1)" by (simp add: sameView_def reconcileOne_inv)
  from fold_view [OF this \<open>a \<notin> set cs\<close>] have "sameView a (reconcileOne a ?sm1) (reconcile sm)"
    by (simp add: reconcile_def k)
  with v show ?thesis by (rule that)
qed

definition startedWith :: "string \<Rightarrow> SingletonSpec \<Rightarrow> any \<Rightarrow> Runtime \<Rightarrow> bool" where
  "startedWith a spec i r \<longleftrightarrow> (\<exists>p. rtRegistry r a = Some p \<and> aiStatus (instAt r p) = ActorStarting \<and>
     aiState (instAt r p) = newActorState i \<and> Some (aiHandler (instAt r p)) = spHandler spec)"

definition canHost :: "string \<Rightarrow> SingletonSpec \<Rightarrow> Runtime \<Rightarrow> bool" where
  "canHost a spec r \<longleftrightarrow> a \<noteq> '''' \<and> spHandler spec \<noteq> None \<and>
     (\<forall>p. rtRegistry r a = Some p \<longrightarrow> aiStatus (instAt r p) = ActorStopped)"

lemma startedWith_kept: "actorKept a r r' \<Longrightarrow> startedWith a spec i r \<Longrightarrow> startedWith a spec i r'"
  by (auto simp: startedWith_def actorKept_def instGrow_fields)

lemma canHost_kept: "actorKept a r r' \<Longrightarrow> canHost a spec r \<Longrightarrow> canHost a spec r'"
  by (auto simp: canHost_def actorKept_def instGrow_fields)

lemma startActor_starts:
  assumes "canHost a (ssSpec s) (sgRuntime sm)"
  shows "startedWith a (ssSpec s) i (sgRuntime (startActor a s i sm))"
proof -
  define r where "r = (case RemoveActor a (sgRuntime sm) of Inl _ \<Rightarrow> sgRuntime sm | Inr r \<Rightarrow> r)"
  have "rtRegistry r a = None"
    using assms by (auto simp: r_def canHost_def RemoveActor_def rt_registry_get_def rt_registry_remove_def Let_def split: option.split)
  moreover obtain h where h: "spHandler (ssSpec s) = Some h" using assms by (auto simp: canHost_def)
  ultimately obtain r' where c: "CreateActor a i (spHandler (ssSpec s)) (spOptions (ssSpec s)) r = Inr r'"
    and "startedWith a (ssSpec s) i r'"
    using assms by (auto simp: CreateActor_def rt_registry_put_def canHost_def startedWith_def)
  moreover have "startedWith a (ssSpec s) i r''" if "IssuePID ns a r' = (r'', x)" for ns r'' x
    using that \<open>startedWith a (ssSpec s) i r'\<close> by (auto simp: IssuePID_def startedWith_def Let_def split: option.splits)
  ultimately show ?thesis
    by (auto simp: startActor_def r_def [symmetric] Let_def split: option.split prod.split sum.split)
qed

text \<open>
  A reconciliation starts a singleton that is idle on this node exactly when the node leads the
  singleton's scope and no previous owner is known, the previous owner is the node itself, or it
  has recently failed, whatever happens to the other singletons.
\<close>

lemma reconcile_idle:
  assumes inv: "smInv sm" and a: "map_of (sgSingletons sm) a = Some s" "ssPhase s = phaseIdle" "\<not> ssRebalancing s"
  shows "if leads a s sm \<and> ownerGone a sm
     then phaseOf (reconcile sm) a = Some phaseActive \<and> (canHost a (ssSpec s) (sgRuntime sm) \<longrightarrow>
       startedWith a (ssSpec s) (spInitialState (ssSpec s)) (sgRuntime (reconcile sm)))
     else keeps a sm (reconcile sm)"
proof -
  from reconcile_turn [OF inv a(1)] obtain sm1 where
    v: "sameView a sm sm1" and w: "sameView a (reconcileOne a sm1) (reconcile sm)" .
  have s1: "map_of (sgSingletons sm1) a = Some s" "smInv sm1" using v a(1) by (simp_all add: sameView_def keeps_def)
  obtain sm2 l where l: "isLeaderFor a s sm1 = (sm2, l)" by (cases "isLeaderFor a s sm1")
  have v2: "sameView a sm1 sm2" and l2: "l = leads a s sm"
    using isLeaderFor_view(1) [OF s1(2), of a a s] isLeaderFor_view(2) [OF s1(2), of a s] l sameView_leads [OF v] by auto
  note v3 = sameView_trans [OF v v2]
  have o: "ownerGone a sm2 = ownerGone a sm" using sameView_owner [OF v3] .
  define t where "t = Term (singletonScope a) (sgElection sm2)"
  have one: "reconcileOne a sm1 = (if l then gainLeadership a s t sm2 else sm2)"
    using s1(1) l a(2) by (simp add: reconcileOne_def t_def Let_def)
  have s2: "map_of (sgSingletons sm2) a = Some s" using v3 a(1) by (simp add: sameView_def keeps_def)
  show ?thesis
  proof (cases "leads a s sm \<and> ownerGone a sm")
    case True
    have h: "canHost a (ssSpec s) (sgRuntime sm2)" if "canHost a (ssSpec s) (sgRuntime sm)"
      using canHost_kept that v3 by (auto simp: sameView_def keeps_def)
    from True have "reconcileOne a sm1 =
        setSing a (s\<lparr>ssPhase := phaseActive, ssTerm := t\<rparr>) (startActor a s (spInitialState (ssSpec s)) sm2)"
      using one l2 o by (auto simp: gainLeadership_def ownerGone_def Let_def)
    with w startActor_starts [OF h] True show ?thesis
      by (auto simp: sameView_def keeps_def phaseOf_def intro: startedWith_kept)
  next
    case False
    then have "keeps a sm2 (reconcileOne a sm1)"
      using one l2 o a(3) s2 v3 by (auto simp: gainLeadership_def ownerGone_def Let_def keeps_def sameView_def smInv_def)
    with w v3 False show ?thesis by (auto simp: sameView_def intro: keeps_trans)
  qed
qed

lemma event_inv:
  assumes "smInv sm"
  shows "smInv (sm\<lparr>sgElection := OnMembershipChange ev (sgElection sm), sgFailed := f\<rparr>)" and "smInv (clusterMemberEvent now ev sm)"
proof -
  have e: "elInv (OnMembershipChange ev (sgElection sm))" using assms elInv_step [of _ "ElEvent ev"] by (simp add: smInv_def)
  then show i: "smInv (sm\<lparr>sgElection := OnMembershipChange ev (sgElection sm), sgFailed := f\<rparr>)" for f using assms by (simp add: smInv_def)
  from reconcile_inv [OF i] show "smInv (clusterMemberEvent now ev sm)"
    by (auto simp: clusterMemberEvent_def OnMemberEvent_def Let_def smInv_def)
qed

definition failedAfter :: "int \<Rightarrow> MemberEvent \<Rightarrow> (NodeID, int) gomap \<Rightarrow> (NodeID, int) gomap" where
  "failedAfter now ev f = filter (\<lambda>(i, t). \<not> now - t > 5 * 60 * 10 ^ 9)
     (if meType ev = MemberFailed then gomap_put (nmID (meMember ev)) now f else f)"

text \<open>The state in which a membership event makes the manager reconcile.\<close>

abbreviation eventState :: "int \<Rightarrow> MemberEvent \<Rightarrow> 'm SingletonManager \<Rightarrow> 'm SingletonManager" where
  "eventState now ev sm \<equiv> sm\<lparr>sgElection := OnMembershipChange ev (sgElection sm), sgFailed := failedAfter now ev (sgFailed sm)\<rparr>"

lemma event_prev: "findPrevLeader (eventState now ev sm) scope = findPrevLeader sm scope"
  by (simp add: findPrevLeader_def getPrevLeader_def Let_def cong: option.case_cong)

lemma event_reconciles:
  "sgSingletons (clusterMemberEvent now ev sm) = sgSingletons (reconcile (eventState now ev sm))"
  "sgRuntime (clusterMemberEvent now ev sm) = sgRuntime (reconcile (eventState now ev sm))"
  "sgPrevLeaders (clusterMemberEvent now ev sm) = sgPrevLeaders (reconcile (eventState now ev sm))"
  "sgFailed (clusterMemberEvent now ev sm) = sgFailed (reconcile (eventState now ev sm))"
  by (auto simp: clusterMemberEvent_def OnMemberEvent_def failedAfter_def Let_def)

text \<open>
  Claim C13. A failed node's singletons move. Let a manager that satisfies the managers' invariant,
  on a node with a name, hold an idle singleton that has a name and a handler, no placement predicate
  and is not being rebalanced, and let there be no actor of its name on the node that is not
  stopped. When the node fails that the manager knows as the previous owner, and
  the manager's node leads the scope among the remaining members, then the membership event makes
  the singleton active here and creates its actor with the initial state.
\<close>

theorem singleton_failover:
  assumes "smInv sm" and "map_of (sgSingletons sm) a = Some s" and "ssPhase s = phaseIdle" and "\<not> ssRebalancing s"
    and "canHost a (ssSpec s) (sgRuntime sm)" and "spPlacement (ssSpec s) = None"
    and "meType ev = MemberFailed" and "findPrevLeader sm (singletonScope a) = nmID (meMember ev)"
    and "computeLeader (singletonScope a) (removeAll (nmID (meMember ev)) (elMembers (sgElection sm))) = elLocalID (sgElection sm)"
    and "elLocalID (sgElection sm) \<noteq> ''''"
  shows "phaseOf (clusterMemberEvent now ev sm) a = Some phaseActive \<and>
    startedWith a (ssSpec s) (spInitialState (ssSpec s)) (sgRuntime (clusterMemberEvent now ev sm))"
proof -
  let ?x = "eventState now ev sm"
  have "elLocalID (OnMembershipChange ev (sgElection sm)) = elLocalID (sgElection sm)"
    "elMembers (OnMembershipChange ev (sgElection sm)) = removeAll (nmID (meMember ev)) (elMembers (sgElection sm))"
    using assms(7) by (simp_all add: OnMembershipChange_def Let_def)
  with assms(6,9,10) have "leads a s ?x" by (simp add: leads_def Let_def)
  note lead = this
  have "(nmID (meMember ev), now) \<in> set (failedAfter now ev (sgFailed sm))"
    using assms(7) map_of_SomeD [of "gomap_put (nmID (meMember ev)) now (sgFailed sm)" "nmID (meMember ev)" now]
    by (simp add: failedAfter_def)
  then have "map_of (failedAfter now ev (sgFailed sm)) (nmID (meMember ev)) \<noteq> None" by (metis fst_conv image_eqI map_of_eq_None_iff)
  moreover have "findPrevLeader ?x (singletonScope a) = findPrevLeader sm (singletonScope a)" by (rule event_prev)
  ultimately have "ownerGone a ?x" using assms(8) by (simp add: ownerGone_def isRecentlyFailed_def Let_def)
  with lead show ?thesis
    using reconcile_idle [OF event_inv(1) [OF assms(1)], where a = a and s = s and ev1 = ev and f1 = "failedAfter now ev (sgFailed sm)"] assms(2-5) by (simp add: phaseOf_def event_reconciles)
qed

text \<open>
  Claim C11. No two nodes start the same singleton from an agreed membership: if the managers of two
  different nodes satisfy the managers' invariant and see the same members, no two members have the same hash for the scope of the singleton, and
  at both managers the singleton is idle (neither running nor being started or stopped), is not
  being rebalanced and has no placement predicate, then their reconciliations do not both make it
  active.
\<close>

theorem singleton_single_starter:
  assumes "smInv x" and "map_of (sgSingletons x) a = Some s" and "ssPhase s = phaseIdle" and "\<not> ssRebalancing s"
    and "smInv y" and "map_of (sgSingletons y) a = Some t" and "ssPhase t = phaseIdle" and "\<not> ssRebalancing t"
    and "spPlacement (ssSpec s) = None" and "spPlacement (ssSpec t) = None"
    and "set (elMembers (sgElection x)) = set (elMembers (sgElection y))"
    and "noTies (singletonScope a) (set (elMembers (sgElection x)))"
    and "elLocalID (sgElection x) \<noteq> elLocalID (sgElection y)"
  shows "\<not> (phaseOf (reconcile x) a = Some phaseActive \<and> phaseOf (reconcile y) a = Some phaseActive)"
proof
  assume act: "phaseOf (reconcile x) a = Some phaseActive \<and> phaseOf (reconcile y) a = Some phaseActive"
  have "leads a s x" using reconcile_idle [OF assms(1-4)] keeps_phase act assms(2,3) by (fastforce simp: phaseOf_def split: if_splits)
  moreover have "leads a t y" using reconcile_idle [OF assms(5-8)] keeps_phase act assms(6,7) by (fastforce simp: phaseOf_def split: if_splits)
  ultimately show False
    using computeLeader_set_eq [OF assms(11,12)] assms(9,10,13) by (simp add: leads_def Let_def)
qed

section \<open>A singleton without a node\<close>

lemma reconcile_frame:
  assumes "smInv sm"
  shows "sgPrevLeaders (reconcile sm) = sgPrevLeaders sm" "sgFailed (reconcile sm) = sgFailed sm"
proof -
  have "smInv sm \<Longrightarrow> sgPrevLeaders (fold reconcileOne bs sm) = sgPrevLeaders sm \<and> sgFailed (fold reconcileOne bs sm) = sgFailed sm" for bs
  proof (induction bs arbitrary: sm)
    case (Cons b bs)
    from Cons.IH [OF reconcileOne_inv [OF Cons.prems, of b]] reconcileOne_view [OF Cons.prems, of b "CHR ''x'' # b"]
    show ?case by (simp add: sameView_def)
  qed simp
  with assms show "sgPrevLeaders (reconcile sm) = sgPrevLeaders sm" "sgFailed (reconcile sm) = sgFailed sm"
    by (simp_all add: reconcile_def)
qed

definition orphaned :: "string \<Rightarrow> singletonState \<Rightarrow> NodeID \<Rightarrow> 'm SingletonManager \<Rightarrow> bool" where
  "orphaned a s owner sm \<longleftrightarrow> smInv sm \<and> map_of (sgSingletons sm) a = Some s \<and> ssPhase s = phaseIdle \<and> \<not> ssRebalancing s \<and>
     getPrevLeader sm (singletonScope a) = owner \<and> owner \<noteq> '''' \<and> owner \<noteq> rtNodeID (sgRuntime sm) \<and> \<not> isRecentlyFailed sm owner"

lemma orphaned_event:
  assumes o: "orphaned a s owner sm" and ev: "\<not> (meType ev = MemberFailed \<and> nmID (meMember ev) = owner)"
  shows "orphaned a s owner (clusterMemberEvent now ev sm) \<and> keeps a sm (clusterMemberEvent now ev sm)"
proof -
  let ?x = "eventState now ev sm"
  have "map_of (filter P m) owner = None" if "map_of m owner = None" for P and m :: "(NodeID, int) gomap"
    using that by (auto simp: map_of_eq_None_iff)
  then have "map_of (failedAfter now ev (sgFailed sm)) owner = None"
    using o ev by (auto simp: failedAfter_def orphaned_def isRecentlyFailed_def)
  then have f: "\<not> isRecentlyFailed ?x owner" by (simp add: isRecentlyFailed_def)
  have g: "getPrevLeader ?x (singletonScope a) = owner" using o by (simp add: orphaned_def getPrevLeader_def)
  then have "findPrevLeader ?x (singletonScope a) = owner" using o by (simp add: findPrevLeader_eq orphaned_def)
  with f o have "\<not> ownerGone a ?x" by (simp add: ownerGone_def orphaned_def Let_def)
  moreover have inv: "smInv ?x" by (rule event_inv(1)) (use o in \<open>simp add: orphaned_def\<close>)
  ultimately have k: "keeps a ?x (reconcile ?x)"
    using reconcile_idle [OF inv, of a s] o by (simp add: orphaned_def)
  have "keeps a sm (clusterMemberEvent now ev sm)" using k by (simp add: keeps_def event_reconciles)
  moreover have "orphaned a s owner (clusterMemberEvent now ev sm)"
    using o event_inv(2) [of sm now ev] k f g reconcile_frame [OF inv]
    by (auto simp: orphaned_def keeps_def actorKept_def event_reconciles getPrevLeader_def isRecentlyFailed_def)
  ultimately show ?thesis by blast
qed

text \<open>
  Claim C34. A graceful departure can leave a singleton without a node: once the manager holds a
  node as the previous owner, no sequence of membership events makes it start the singleton
  unless the owner is reported as failed. The owner's leaving, or joining again, changes nothing,
  even if the manager's node leads the scope from then on.
\<close>

theorem singleton_orphaned_by_leave:
  assumes "orphaned a s owner sm"
    and "\<forall>(now, ev)\<in>set evs. \<not> (meType ev = MemberFailed \<and> nmID (meMember ev) = owner)"
  shows "phaseOf (fold (\<lambda>(now, ev). clusterMemberEvent now ev) evs sm) a = Some phaseIdle \<and>
    rtRegistry (sgRuntime (fold (\<lambda>(now, ev). clusterMemberEvent now ev) evs sm)) a = rtRegistry (sgRuntime sm) a"
proof -
  have "orphaned a s owner (fold (\<lambda>(now, ev). clusterMemberEvent now ev) evs sm) \<and>
      keeps a sm (fold (\<lambda>(now, ev). clusterMemberEvent now ev) evs sm)"
    using assms
  proof (induction evs arbitrary: sm)
    case Nil
    then show ?case by (simp add: orphaned_def smInv_def)
  next
    case (Cons e evs)
    obtain now ev where e: "e = (now, ev)" by (cases e)
    from orphaned_event [OF Cons.prems(1), of ev now] Cons.prems(2) e
    have o: "orphaned a s owner (clusterMemberEvent now ev sm)" and k: "keeps a sm (clusterMemberEvent now ev sm)" by auto
    from Cons.IH [OF o] Cons.prems(2) keeps_trans [OF k] e show ?case by auto
  qed
  then show ?thesis by (auto simp: orphaned_def phaseOf_def keeps_def actorKept_def)
qed

section \<open>Examples\<close>

definition exSpec :: SingletonSpec where
  "exSpec = \<lparr>spName = ''a'', spInitialState = NilAny, spHandler = Some exHandler, spOptions = defaultActorConfig,
     spPlacement = None, spHandoffTimeout = 0, spOnHandoff = None\<rparr>"

definition exState :: "singletonPhase \<Rightarrow> singletonState" where
  "exState ph = \<lparr>ssSpec = exSpec, ssPhase = ph, ssTerm = 1, ssCancel = None, ssRebalancing = False\<rparr>"

text \<open>A manager on node \<open>n\<close> of the members \<open>n\<close> and \<open>other\<close>, with singleton \<open>a\<close> in a phase.\<close>

definition exManager :: "NodeID \<Rightarrow> NodeID \<Rightarrow> singletonPhase \<Rightarrow> Runtime \<Rightarrow> (string, PID) gomap SingletonManager" where
  "exManager n other ph r =
     (NewSingletonManager (r\<lparr>rtNodeID := n\<rparr>) (OnMembershipChange (joinOf other) (NewRingElection n)) alistORMap (Some []) None None None)
       \<lparr>sgSingletons := [(''a'', exState ph)], sgStarted := True, sgPrevLeaders := [singletonScope ''a'' \<mapsto> other]\<rparr>"

lemma exManager_fields:
  "sgRuntime (exManager n m ph r) = r\<lparr>rtNodeID := n\<rparr>" "sgSingletons (exManager n m ph r) = [(''a'', exState ph)]"
  "elMembers (sgElection (exManager n m ph r)) = List.insert m [n]" "elLocalID (sgElection (exManager n m ph r)) = n"
  "getPrevLeader (exManager n m ph r) (singletonScope ''a'') = m" "sgFailed (exManager n m ph r) = []" "sgChans (exManager n m ph r) i = []"
  by (simp_all add: exManager_def NewSingletonManager_def getPrevLeader_def OnMembershipChange_def joinOf_def NewRingElection_def Let_def)

lemma exManager_inv: "regInv r \<Longrightarrow> smInv (exManager n m ph r)"
  using elInv_step [OF elInv_New, of n "ElEvent (joinOf m)"] alistORMap_ok
  by (simp add: smInv_def exManager_def NewSingletonManager_def regInv_def gomap_ok_def)

lemma exRuntime_regInv: "regInv exRuntime"
  by (simp add: regInv_def exRuntime_fields exInst_def)

abbreviation emptyRuntime :: Runtime where
  "emptyRuntime \<equiv> NewRuntime None '''' noHooks True (\<lambda>_. 0) 4 (\<lambda>_. None)"

lemma emptyRuntime_regInv: "regInv emptyRuntime"
  by (simp add: regInv_def NewRuntime_def)

theorem singleton_sticky_witness:
  "\<exists>sm'. foldOpt smStep [SmMember 0 (failOf ''b''), SmMember 1 (joinOf ''b'')] (exManager ''m'' ''b'' phaseActive exRuntime) = Some sm' \<and>
     phaseOf sm' ''a'' = Some phaseActive \<and> rtRegistry (sgRuntime sm') ''a'' = Some 0"
proof -
  let ?sm = "exManager ''m'' ''b'' phaseActive exRuntime"
  let ?ops = "[SmMember 0 (failOf ''b''), SmMember 1 (joinOf ''b'')]"
  obtain sm' where s: "foldOpt smStep ?ops ?sm = Some sm'" by simp
  have "regInv (sgRuntime ?sm)" "phaseOf ?sm ''a'' = Some phaseActive" "rtRegistry (sgRuntime ?sm) ''a'' = Some 0"
    using exRuntime_regInv by (simp_all add: exManager_fields phaseOf_def exState_def regInv_def exRuntime_fields)
  with singleton_sticky [OF _ _ s, of "''a''"] s show ?thesis by simp
qed

theorem singleton_failover_witness:
  "phaseOf (clusterMemberEvent 0 (failOf ''b'') (exManager ''m'' ''b'' phaseIdle emptyRuntime)) ''a'' = Some phaseActive"
proof -
  let ?sm = "exManager ''m'' ''b'' phaseIdle emptyRuntime"
  have l: "computeLeader (singletonScope ''a'') [''m''] = ''m''" by (simp add: computeLeader_def rankBy_def)
  have "canHost ''a'' (ssSpec (exState phaseIdle)) (sgRuntime ?sm)"
    by (simp add: canHost_def exManager_fields exState_def exSpec_def NewRuntime_def)
  moreover have "findPrevLeader ?sm (singletonScope ''a'') = ''b''" by (simp add: findPrevLeader_eq exManager_fields)
  ultimately show ?thesis
    using singleton_failover [of ?sm "''a''" "exState phaseIdle" "failOf ''b''" 0] exManager_inv [OF emptyRuntime_regInv] l
    by (simp add: exManager_fields failOf_def exState_def exSpec_def)
qed

lemma exHashes_singleton: "nodeHash (singletonScope ''a'') ''m'' \<noteq> nodeHash (singletonScope ''a'') ''b''"
  by (simp add: nodeHash_eq singletonScope_def) (simp add: hash_eval)

theorem singleton_single_starter_witness:
  "\<not> (phaseOf (reconcile (exManager ''m'' ''b'' phaseIdle emptyRuntime)) ''a'' = Some phaseActive \<and>
      phaseOf (reconcile (exManager ''b'' ''m'' phaseIdle emptyRuntime)) ''a'' = Some phaseActive)"
proof -
  note i = exManager_inv [OF emptyRuntime_regInv]
  have "noTies (singletonScope ''a'') {''b'', ''m''}" using exHashes_singleton by (auto simp: noTies_def)
  then show ?thesis
    using singleton_single_starter [OF i _ _ _ i, of "''m''" "''b''" phaseIdle "''a''" "exState phaseIdle" "''b''" "''m''" phaseIdle "exState phaseIdle"]
    by (simp add: exManager_fields exState_def exSpec_def insert_commute)
qed

theorem singleton_orphaned_by_leave_witness:
  "phaseOf (fold (\<lambda>(now, ev). clusterMemberEvent now ev) [(0, \<lparr>meType = MemberLeave, meMember = exMeta ''b''\<rparr>)]
     (exManager ''m'' ''b'' phaseIdle emptyRuntime)) ''a'' = Some phaseIdle"
proof -
  let ?sm = "exManager ''m'' ''b'' phaseIdle emptyRuntime"
  have "orphaned ''a'' (exState phaseIdle) ''b'' ?sm"
    using exManager_inv [OF emptyRuntime_regInv, of "''m''" "''b''" phaseIdle]
    by (simp add: orphaned_def exManager_fields isRecentlyFailed_def exState_def)
  from singleton_orphaned_by_leave [OF this, of "[(0, \<lparr>meType = MemberLeave, meMember = exMeta ''b''\<rparr>)]"]
  show ?thesis by simp
qed

end
