(* ===== verification/SingletonHandoff.thy ===== *)
theory SingletonHandoff
  imports SingletonProps
begin

text \<open>
  The handoff protocol of \<open>singleton.go\<close> between an old and a new owner: the state of the actor
  travels and the old actor is stopped first; and what the protocol does when the old owner
  does not answer or cannot be reached.
\<close>

section \<open>The old owner\<close>

lemma SendRemote_unsent: "SendRemote t env c = (c', Some e) \<Longrightarrow> clSent c' = clSent c"
proof -
  assume s: "SendRemote t env c = (c', Some e)"
  have 1: "connSend n conn env x = (c', Some e) \<Longrightarrow> clSent c' = clSent x" for n conn x
    using removeConnection_same(3) [of n "x\<lparr>clCalls := Suc (clCalls x)\<rparr>"] by (auto simp: connSend_def Let_def split: if_splits)
  have 2: "ensureConnection n c = (x, y) \<Longrightarrow> clSent x = clSent c" for n x y
    using ensureConnection_same(3) [of n c] by simp
  from s show ?thesis
    by (fastforce simp: SendRemote_def split: option.splits prod.splits if_splits dest: 1 2)
qed

lemma sendSystemEnvelope_sent:
  assumes "sendSystemEnvelope t ty m cid sm = Some (sm', ok)" and "sgCodec sm = Some cd" and "sgCluster sm = Some c"
    and "sgCluster sm' = Some c'" and "clSent c' = clSent c @ [(conn, env)]"
  obtains bs where "scEncode cd m = Some bs" "env = systemEnvelope (LocalNodeID c) t ty bs cid"
proof -
  from assms(1-4,5) obtain bs where bs: "scEncode cd m = Some bs"
    by (cases "scEncode cd m") (auto simp: sendSystemEnvelope_def)
  let ?e = "systemEnvelope (LocalNodeID c) t ty bs cid"
  obtain c1 err where s: "SendRemote t ?e c = (c1, err)" by (cases "SendRemote t ?e c")
  with bs assms(1-4) have "c' = c1" by (auto simp: sendSystemEnvelope_def)
  with s assms(5) have "err = None" using SendRemote_unsent by (cases err) fastforce+
  with s \<open>c' = c1\<close> assms(5) have "env = ?e" using SendRemote_sent [of t ?e c c1] by auto
  with bs show ?thesis by (rule that)
qed

lemma StopAndCapture_stopped:
  assumes "StopAndCapture a r = Some (r', st, x)" and "regInv r" and "rtRegistry r a = Some p" and "aiStatus (instAt r p) \<noteq> ActorStopped"
  shows "Status r' a = ActorStopped" and "st = actorState_value (aiState (instAt r p))" and "regInv r'"
proof -
  from assms(2,3) have l: "p < length (rtInsts r)" by (auto simp: regInv_def)
  have s: "stopTail p a (setStatus p ActorStopping r) = Some r'"
    and st: "st = actorState_value (aiState (instAt (setStatus p ActorStopping r) p))"
    using assms(1,3,4) by (auto simp: StopAndCapture_def rt_registry_get_def Status_def Let_def)
  show "st = actorState_value (aiState (instAt r p))" using st l by (simp add: setStatus_def updInst_def)
  let ?m = "(stopMarked p a r)\<lparr>rtNames := fst (nr_unregisterByActor (rtNames r) a), rtMonitors := fst (mm_drain (rtMonitors r) a)\<rparr>"
  note t = stopTail_rel [OF s assms(2,3)]
  have g: "instGrow (instAt ?m p) (instAt r' p)" using sendRelD(17) [OF t(2), of p] l by (simp add: stopMarked_fields [OF l])
  then have "aiStatus (instAt r' p) = ActorStopped" using instGrow_fields(2) [OF g] l by (simp add: stopMarked_fields [OF l])
  moreover have "rtRegistry r' a = Some p" using sendRelD(1) [OF t(2)] assms(3) by (simp add: stopMarked_fields [OF l])
  ultimately show "Status r' a = ActorStopped" by (simp add: Status_def rt_registry_get_def)
  have "regInv ?m" using t(3) by (simp add: regInv_def)
  with t(2) show "regInv r'" by (rule regInv_sendRel)
qed

text \<open>What an answered request leaves behind on the old owner.\<close>

lemma onHandoffRequest_effect:
  assumes inv: "regInv (sgRuntime old)" and ph: "phaseOf old a = Some phaseActive \<or> phaseOf old a = Some phaseDeactivating"
    and p: "rtRegistry (sgRuntime old) a = Some p" "aiStatus (instAt (sgRuntime old) p) \<noteq> ActorStopped"
    and cd: "sgCodec old = Some cd" "scDecode cd (enPayload env) = Some (SysHandoffRequest q)" "hqName q = a"
    and r: "onHandoffRequest n env old = Some old'"
    and sent: "sgCluster old = Some c" "sgCluster old' = Some c'" "clSent c' = clSent c @ [(conn, resp)]"
  obtains bs where "Status (sgRuntime old') a = ActorStopped" "phaseOf old' a = Some phaseIdle"
    "scEncode cd (SysHandoffResponse \<lparr>hrName = a, hrTerm = hqTerm q,
       hrState = actorState_value (aiState (instAt (sgRuntime old) p)), hrOK = True, hrError = ''''\<rparr>) = Some bs"
    "resp = systemEnvelope (LocalNodeID c) n ''__singleton_handoff_resp'' bs (enAskRequestID env)"
proof -
  from ph obtain s where s: "map_of (sgSingletons old) a = Some s" "ssPhase s = phaseActive \<or> ssPhase s = phaseDeactivating"
    by (auto simp: phaseOf_def)
  define sm1 where "sm1 rt = unregisterName a (setSing a (s\<lparr>ssPhase := phaseIdle, ssCancel := None\<rparr>)
      (cancelJob (ssCancel s) (old\<lparr>sgRuntime := rt\<rparr>)))" for rt
  from r cd s obtain rt st x where sc: "StopAndCapture a (sgRuntime old) = Some (rt, st, x)"
    and h: "sendHandoffResponse n a (hqTerm q) (enAskRequestID env) True st '''' (sm1 rt) = Some old'"
    by (auto simp: onHandoffRequest_def sm1_def bind_eq_Some_conv)
  have f: "sgCodec (sm1 rt) = Some cd" "sgCluster (sm1 rt) = Some c" "sgRuntime (sm1 rt) = rt" "phaseOf (sm1 rt) a = Some phaseIdle"
    using cd(1) sent(1) by (auto simp: sm1_def unregisterName_def setSing_def cancelJob_def phaseOf_def split: option.split)
  from h obtain ok where ok: "sendSystemEnvelope n ''__singleton_handoff_resp''
      (SysHandoffResponse \<lparr>hrName = a, hrTerm = hqTerm q, hrState = st, hrOK = True, hrError = ''''\<rparr>) (enAskRequestID env) (sm1 rt) = Some (old', ok)"
    by (auto simp: sendHandoffResponse_def)
  from sendSystemEnvelope_frame [OF ok] f have e: "sgRuntime old' = rt" "phaseOf old' a = Some phaseIdle" by (auto simp: phaseOf_def)
  from StopAndCapture_stopped [OF sc inv p] have st: "Status rt a = ActorStopped" "st = actorState_value (aiState (instAt (sgRuntime old) p))" by auto
  from sendSystemEnvelope_sent [OF ok f(1,2) sent(2,3)] obtain bs where "scEncode cd (SysHandoffResponse \<lparr>hrName = a, hrTerm = hqTerm q,
       hrState = st, hrOK = True, hrError = ''''\<rparr>) = Some bs"
      "resp = systemEnvelope (LocalNodeID c) n ''__singleton_handoff_resp'' bs (enAskRequestID env)" .
  then show ?thesis using that e st by simp
qed

section \<open>The new owner\<close>

definition handedState :: "SingletonSpec \<Rightarrow> any \<Rightarrow> any" where
  "handedState spec h = (if h = NilAny then spInitialState spec else case spOnHandoff spec of Some f \<Rightarrow> f h | None \<Rightarrow> h)"

definition activating :: "string \<Rightarrow> singletonState \<Rightarrow> u64 \<Rightarrow> 'm SingletonManager \<Rightarrow> bool" where
  "activating a s t sm \<longleftrightarrow> map_of (sgSingletons sm) a = Some s \<and> ssPhase s = phaseActivating \<and> ssTerm s = t"

lemma completeActivation_starts:
  assumes "activating a s t sm" and "Term (singletonScope a) (sgElection sm) = t" and "canHost a (ssSpec s) (sgRuntime sm)"
  shows "phaseOf (completeActivation a t h sm) a = Some phaseActive \<and>
    startedWith a (ssSpec s) (handedState (ssSpec s) h) (sgRuntime (completeActivation a t h sm))"
  using assms startActor_starts [OF assms(3)] by (auto simp: completeActivation_def activating_def phaseOf_def handedState_def Let_def)

lemma endHandoff_frame [simp]:
  "sgSingletons (endHandoff i a t sm) = sgSingletons sm" "sgRuntime (endHandoff i a t sm) = sgRuntime sm"
  "sgElection (endHandoff i a t sm) = sgElection sm" "phaseOf (endHandoff i a t sm) = phaseOf sm"
  by (simp_all add: endHandoff_def endJob_def phaseOf_def fun_eq_iff)

text \<open>
  Claim C12. A handoff moves the singleton with its state and stops the old actor first: when an
  old owner whose singleton is active or being deactivated, with an actor that is not stopped, has
  handled the request of the new one and its answer has gone out, its actor is stopped. Let the new owner wait for this answer on a channel that is stored under the
  correlation ID and still empty, activating in an unchanged term, with a handler and no actor of this name
  that is not stopped, and let the codec that both use give back the answer with the old actor's
  state as it was encoded. Then the new owner starts its actor with the state the old actor had,
  passed through \<open>OnHandoff\<close> if there is one (or with the initial state if the old state was nil).
  For a state that the codec changes, such as a pointer that arrives as a value, nothing is claimed.
\<close>

theorem handoff_moves_state:
  assumes "regInv (sgRuntime old)" and "phaseOf old a = Some phaseActive \<or> phaseOf old a = Some phaseDeactivating"
    and "rtRegistry (sgRuntime old) a = Some p" and "aiStatus (instAt (sgRuntime old) p) \<noteq> ActorStopped"
    and "sgCodec old = Some cd" and "scDecode cd (enPayload env) = Some (SysHandoffRequest \<lparr>hqName = a, hqTerm = t, hqNewLeader = n\<rparr>)"
    and "enTypeName env = ''__singleton_handoff_req''" and "enAskRequestID env = handoffCorrelation a t"
    and "onSystemEnvelope n env old = Some old'"
    and "sgCluster old = Some c" and "sgCluster old' = Some c'" and "clSent c' = clSent c @ [(conn, resp)]"
    and "sgCodec new = Some cd" 
    and "sysCodecOk cd (SysHandoffResponse \<lparr>hrName = a, hrTerm = t, hrState = actorState_value (aiState (instAt (sgRuntime old) p)),
           hrOK = True, hrError = ''''\<rparr>)"
    and "List.find (\<lambda>j. jbID j = i) (sgJobs new) = Some j" and "jbKind j = HandoffJob a prev t HoWait" and "jbID j = i"
    and "sgWaits new (handoffCorrelation a t) = Some (Some i)" and "sgChans new i = []" and "activating a s t new"
    and "Term (singletonScope a) (sgElection new) = t" and "canHost a (ssSpec s) (sgRuntime new)"
  shows "Status (sgRuntime old') a = ActorStopped \<and> phaseOf old' a = Some phaseIdle \<and>
    (\<exists>new1 new'. onSystemEnvelope from resp new = Some new1 \<and> runJob i False new1 = Some new' \<and>
       phaseOf new' a = Some phaseActive \<and>
       startedWith a (ssSpec s) (handedState (ssSpec s) (actorState_value (aiState (instAt (sgRuntime old) p)))) (sgRuntime new'))"
proof -
  let ?st = "actorState_value (aiState (instAt (sgRuntime old) p))"
  let ?resp = "\<lparr>hrName = a, hrTerm = t, hrState = ?st, hrOK = True, hrError = ''''\<rparr>"
  from assms(7,9) have "onHandoffRequest n env old = Some old'" by (simp add: onSystemEnvelope_def)
  from onHandoffRequest_effect [OF assms(1-6) _ this assms(10-12)] obtain bs where
    o: "Status (sgRuntime old') a = ActorStopped" "phaseOf old' a = Some phaseIdle"
    and bs: "scEncode cd (SysHandoffResponse ?resp) = Some bs"
    and resp: "resp = systemEnvelope (LocalNodeID c) n ''__singleton_handoff_resp'' bs (handoffCorrelation a t)"
    using assms(8) by auto
  have d: "scDecode cd (enPayload resp) = Some (SysHandoffResponse ?resp)"
    using assms(14) bs by (simp add: sysCodecOk_def resp systemEnvelope_def)
  define new1 where "new1 = new\<lparr>sgChans := (sgChans new)(i := [?resp])\<rparr>"
  have 1: "onSystemEnvelope from resp new = Some new1"
    using d assms(13,18,19) by (simp add: onSystemEnvelope_def onHandoffResponse_def resp systemEnvelope_def new1_def)
  have n1: "activating a s t new1" "Term (singletonScope a) (sgElection new1) = t" "canHost a (ssSpec s) (sgRuntime new1)"
    using assms(20-22) by (simp_all add: new1_def activating_def)
  have "runJob i False new1 = Some (endHandoff i a t (completeActivation a t ?st new1))"
    using assms(15-17) by (simp add: runJob_def new1_def handoffWait_def)
  with 1 completeActivation_starts [OF n1, of ?st] o show ?thesis by auto
qed

text \<open>
  Claim C35. A handoff ends even without an answer of the old owner. Let the new owner still be
  activating the singleton for the term of the handoff, let this term still be the current one, and
  let it have a name and a handler and no actor of this name that is not stopped. When the context of the
  waiting handoff has ended, or the pause after a failed send is over, the new owner starts its
  actor with the initial state; no answer, and so no confirmation that the old actor has stopped,
  is among the conditions.
\<close>

theorem handoff_unconfirmed_start:
  assumes "List.find (\<lambda>j. jbID j = i) (sgJobs sm) = Some j" and "jbKind j = HandoffJob a prev t stage" and "jbID j = i"
    and "stage = HoWait \<and> jbDone j \<and> ctxDone \<or> stage = HoPause \<and> \<not> ctxDone"
    and "activating a s t sm" and "Term (singletonScope a) (sgElection sm) = t" and "canHost a (ssSpec s) (sgRuntime sm)"
  shows "\<exists>sm'. runJob i ctxDone sm = Some sm' \<and> phaseOf sm' a = Some phaseActive \<and>
    startedWith a (ssSpec s) (spInitialState (ssSpec s)) (sgRuntime sm')"
proof -
  have "runJob i ctxDone sm = Some (endHandoff i a t (completeActivation a t NilAny sm))"
    using assms(1-4) by (auto simp: runJob_def handoffWait_def handoffPause_def)
  with completeActivation_starts [OF assms(5-7), of NilAny] show ?thesis by (simp add: handedState_def)
qed

section \<open>A handoff that never ends\<close>

lemma reconcile_activating:
  assumes inv: "smInv sm" and a: "activating a s t sm" and l: "leads a s sm"
    and es: "map_of (elScopes (sgElection sm)) (singletonScope a) = Some es" "esTerm es = t"
  shows "sameView a sm (reconcile sm)"
proof -
  from a have s: "map_of (sgSingletons sm) a = Some s" "ssPhase s = phaseActivating" "ssTerm s = t" by (simp_all add: activating_def)
  from reconcile_turn [OF inv s(1)] obtain sm1 where
    v: "sameView a sm sm1" and w: "sameView a (reconcileOne a sm1) (reconcile sm)" .
  have s1: "map_of (sgSingletons sm1) a = Some s" "smInv sm1" using v s(1) by (simp_all add: sameView_def keeps_def)
  obtain sm2 ld where ld: "isLeaderFor a s sm1 = (sm2, ld)" by (cases "isLeaderFor a s sm1")
  have v2: "sameView a sm1 sm2" and "ld"
    using isLeaderFor_view(1) [OF s1(2), of a a s] isLeaderFor_view(2) [OF s1(2), of a s] ld sameView_leads [OF v] l by auto
  note v3 = sameView_trans [OF v v2]
  have "map_of (elScopes (sgElection sm2)) (singletonScope a) = Some es" using v3 es(1) unfolding sameView_def by blast
  then have "reconcileOne a sm1 = sm2" using s1(1) ld \<open>ld\<close> s(2,3) es(2) by (simp add: reconcileOne_def Term_def Let_def)
  with v3 w show ?thesis using sameView_trans by metis
qed

text \<open>
  When the request cannot be sent and the handoff's context ends during the pause that
  follows (as it does whenever the failed send has used up the timeout), the handoff gives up
  without starting the singleton and without leaving the activating phase; from then on no
  reconciliation starts it as long as leadership and term stay as they are.
\<close>

theorem handoff_gives_up_silently:
  assumes "smInv sm" and "List.find (\<lambda>j. jbID j = i) (sgJobs sm) = Some j" and "jbKind j = HandoffJob a prev t HoPause"
    and "jbID j = i" and "jbDone j" and "activating a s t sm" and "leads a s sm"
    and "map_of (elScopes (sgElection sm)) (singletonScope a) = Some es" and "esTerm es = t"
  shows "\<exists>sm'. runJob i True sm = Some sm' \<and> (\<forall>j\<in>set (sgJobs sm'). jbID j \<noteq> i) \<and>
    (\<forall>n. activating a s t ((reconcile ^^ n) sm') \<and>
       rtRegistry (sgRuntime ((reconcile ^^ n) sm')) a = rtRegistry (sgRuntime sm) a)"
proof -
  let ?e = "endHandoff i a t sm"
  have r: "runJob i True sm = Some ?e" using assms(2-5) by (simp add: runJob_def handoffPause_def)
  have j: "\<forall>j\<in>set (sgJobs ?e). jbID j \<noteq> i" by (simp add: endHandoff_def endJob_def)
  have "sameView a sm ((reconcile ^^ n) ?e)" for n
  proof (induction n)
    case 0
    have "keeps a sm ?e" "smInv ?e" "lookupName ?e a = lookupName sm a" using assms(1)
      by (simp_all add: keeps_def smInv_def endHandoff_def endJob_def lookupName_def)
    then show ?case by (simp add: sameView_def) (simp add: endHandoff_def endJob_def)
  next
    case (Suc n)
    let ?x = "(reconcile ^^ n) ?e"
    have "activating a s t ?x" using Suc assms(6) by (simp add: activating_def sameView_def keeps_def)
    moreover have "leads a s ?x" using sameView_leads [OF Suc] assms(7) by simp
    moreover have "map_of (elScopes (sgElection ?x)) (singletonScope a) = Some es" "smInv ?x" using Suc assms(8) by (auto simp: sameView_def)
    ultimately have "sameView a ?x (reconcile ?x)" using reconcile_activating assms(9) by blast
    with Suc show ?case using sameView_trans by simp blast
  qed
  with assms(6) have "activating a s t ((reconcile ^^ n) ?e) \<and> rtRegistry (sgRuntime ((reconcile ^^ n) ?e)) a = rtRegistry (sgRuntime sm) a" for n
    by (simp add: activating_def sameView_def keeps_def actorKept_def)
  with r j show ?thesis by blast
qed

section \<open>Examples\<close>

definition exHanded :: any where
  "exHanded = DownMessage 7 zeroPID ''''"

definition exSysCodec :: sysCodec where
  "exSysCodec = \<lparr> scEncode = (\<lambda>m. case m of SysHandoffResponse _ \<Rightarrow> Some ''r'' | _ \<Rightarrow> Some ''q''),
     scDecode = (\<lambda>bs. if bs = ''r''
       then Some (SysHandoffResponse \<lparr>hrName = ''a'', hrTerm = 1, hrState = exHanded, hrOK = True, hrError = ''''\<rparr>)
       else Some (SysHandoffRequest \<lparr>hqName = ''a'', hqTerm = 1, hqNewLeader = ''b''\<rparr>)) \<rparr>"

definition exOldRuntime :: Runtime where
  "exOldRuntime = exRuntime\<lparr>rtInsts := [exInst\<lparr>aiState := newActorState exHanded\<rparr>]\<rparr>"

text \<open>The old owner \<open>m\<close>, connected to \<open>b\<close>, and the new owner \<open>b\<close> with a handoff at some stage.\<close>

definition exOldCluster :: Cluster where
  "exOldCluster = (exCluster [''m'', ''b''] ''m'')\<lparr>clConns := [(''b'', \<lparr>connID = 0, connRemoteNodeID = ''b''\<rparr>)]\<rparr>"

definition exOld :: "(string, PID) gomap SingletonManager" where
  "exOld = (exManager ''m'' ''b'' phaseActive exOldRuntime)\<lparr>sgCodec := Some exSysCodec, sgCluster := Some exOldCluster\<rparr>"

definition exNew :: "handoffStage \<Rightarrow> bool \<Rightarrow> (string, PID) gomap SingletonManager" where
  "exNew stage done =
     (let sm = exManager ''b'' ''m'' phaseActivating emptyRuntime
      in sm\<lparr>sgCodec := Some exSysCodec, sgElection := Watch (singletonScope ''a'') (sgElection sm),
            sgWaits := [handoffCorrelation ''a'' 1 \<mapsto> Some 0],
            sgJobs := [\<lparr>jbID = 0, jbTimeout = 10 ^ 10, jbDone = done, jbKind = HandoffJob ''a'' ''m'' 1 stage\<rparr>]\<rparr>)"

lemma StopAndCapture_no_monitors:
  assumes "rtRegistry r a = Some p" and "aiStatus (instAt r p) \<noteq> ActorStopped" and "rtMonitors r = newMonitorManager"
    and "p < length (rtInsts r)"
  shows "\<exists>r' st. StopAndCapture a r = Some (r', st, StopStopped)"
proof -
  obtain r' where "Stop a r = Some (r', StopStopped)" using Stop_no_monitors assms by blast
  with assms show ?thesis by (auto simp: Stop_def StopAndCapture_def rt_registry_get_def Status_def Let_def)
qed

lemma exNew_fields:
  "activating ''a'' (exState phaseActivating) 1 (exNew stage done)" "Term (singletonScope ''a'') (sgElection (exNew stage done)) = 1"
  "canHost ''a'' exSpec (sgRuntime (exNew stage done))" "sgCodec (exNew stage done) = Some exSysCodec"
  "sgWaits (exNew stage done) (handoffCorrelation ''a'' 1) = Some (Some 0)" "sgChans (exNew stage done) 0 = []"
  "sgJobs (exNew stage done) = [\<lparr>jbID = 0, jbTimeout = 10 ^ 10, jbDone = done, jbKind = HandoffJob ''a'' ''m'' 1 stage\<rparr>]"
proof -
  let ?e = "sgElection (exManager ''b'' ''m'' phaseActivating emptyRuntime)"
  have "map_of (elScopes ?e) (singletonScope ''a'') = None"
    by (simp add: exManager_def NewSingletonManager_def OnMembershipChange_def joinOf_def NewRingElection_def recomputeAll_def Let_def)
  then show "Term (singletonScope ''a'') (sgElection (exNew stage done)) = 1"
    by (simp add: exNew_def Watch_def Term_def ensureScopeLocked_def Let_def)
qed (simp_all add: exNew_def exManager_fields activating_def exState_def canHost_def exSpec_def NewRuntime_def Let_def)

definition exRequest :: Envelope where
  "exRequest = systemEnvelope ''b'' ''m'' ''__singleton_handoff_req'' ''q'' (handoffCorrelation ''a'' 1)"

lemma exOld_runtime:
  "rtRegistry (sgRuntime exOld) ''a'' = Some 0" "aiStatus (instAt (sgRuntime exOld) 0) \<noteq> ActorStopped"
  "rtMonitors (sgRuntime exOld) = newMonitorManager" "0 < length (rtInsts (sgRuntime exOld))" "regInv (sgRuntime exOld)"
  "actorState_value (aiState (instAt (sgRuntime exOld) 0)) = exHanded"
  by (simp_all add: exOld_def exManager_fields exOldRuntime_def exRuntime_fields exInst_def regInv_def actorState_value_def newActorState_def)

lemma exOld_fields:
  "map_of (sgSingletons exOld) ''a'' = Some (exState phaseActive)" "sgCodec exOld = Some exSysCodec" "sgCluster exOld = Some exOldCluster"
  "scDecode exSysCodec ''q'' = Some (SysHandoffRequest \<lparr>hqName = ''a'', hqTerm = 1, hqNewLeader = ''b''\<rparr>)"
  by (simp_all add: exOld_def exManager_fields exSysCodec_def)

lemma exOld_answers:
  "\<exists>old' c' resp. onSystemEnvelope ''b'' exRequest exOld = Some old' \<and> sgCluster old' = Some c' \<and>
      clSent c' = clSent exOldCluster @ [(\<lparr>connID = 0, connRemoteNodeID = ''b''\<rparr>, resp)]"
proof -
  from StopAndCapture_no_monitors [OF exOld_runtime(1-4)] obtain r' st
    where sc: "StopAndCapture ''a'' (sgRuntime exOld) = Some (r', st, StopStopped)" by blast
  have send: "\<exists>c'. SendRemote ''b'' e exOldCluster = (c', None) \<and> clSent c' = clSent exOldCluster @ [(\<lparr>connID = 0, connRemoteNodeID = ''b''\<rparr>, e)]" for e
    by (simp add: exOldCluster_def SendRemote_def connSend_def exCluster_def exTransport_def Let_def)
  define sm1 where "sm1 = unregisterName ''a'' (setSing ''a'' ((exState phaseActive)\<lparr>ssPhase := phaseIdle, ssCancel := None\<rparr>)
    (cancelJob (ssCancel (exState phaseActive)) (exOld\<lparr>sgRuntime := r'\<rparr>)))"
  have f: "sgCodec sm1 = Some exSysCodec" "sgCluster sm1 = Some exOldCluster"
    using exOld_fields by (simp_all add: sm1_def unregisterName_def setSing_def cancelJob_def split: option.split)
  let ?e = "systemEnvelope (LocalNodeID exOldCluster) ''b'' ''__singleton_handoff_resp'' ''r'' (handoffCorrelation ''a'' 1)"
  obtain c' where c': "SendRemote ''b'' ?e exOldCluster = (c', None)"
    "clSent c' = clSent exOldCluster @ [(\<lparr>connID = 0, connRemoteNodeID = ''b''\<rparr>, ?e)]" using send [of ?e] by blast
  have "scEncode exSysCodec (SysHandoffResponse y) = Some ''r''" for y by (simp add: exSysCodec_def)
  with f c' have "sendHandoffResponse ''b'' ''a'' 1 (handoffCorrelation ''a'' 1) True st '''' sm1 = Some (sm1\<lparr>sgCluster := Some c'\<rparr>)"
    by (simp add: sendHandoffResponse_def sendSystemEnvelope_def)
  then have "onSystemEnvelope ''b'' exRequest exOld = Some (sm1\<lparr>sgCluster := Some c'\<rparr>)"
    using exOld_fields sc by (simp add: onSystemEnvelope_def onHandoffRequest_def exRequest_def systemEnvelope_def sm1_def exState_def)
  with c' show ?thesis by auto
qed

theorem handoff_moves_state_witness:
  "\<exists>env old' new1 new' resp. onSystemEnvelope ''b'' env exOld = Some old' \<and> Status (sgRuntime old') ''a'' = ActorStopped \<and>
     onSystemEnvelope ''m'' resp (exNew HoWait False) = Some new1 \<and> runJob 0 False new1 = Some new' \<and>
     startedWith ''a'' exSpec exHanded (sgRuntime new')"
proof -
  obtain old' c' resp where old: "onSystemEnvelope ''b'' exRequest exOld = Some old'" "sgCluster old' = Some c'"
    "clSent c' = clSent exOldCluster @ [(\<lparr>connID = 0, connRemoteNodeID = ''b''\<rparr>, resp)]" using exOld_answers by blast
  have "sysCodecOk exSysCodec (SysHandoffResponse \<lparr>hrName = ''a'', hrTerm = 1, hrState = exHanded, hrOK = True, hrError = ''''\<rparr>)"
    by (simp add: sysCodecOk_def exSysCodec_def)
  with handoff_moves_state [of exOld "''a''" 0 exSysCodec exRequest 1 "''b''" old' exOldCluster c' _ resp "exNew HoWait False" 0 _ "''m''"
      "exState phaseActivating" "''m''", OF _ _ _ _ _ _ _ _ old(1) exOld_fields(3) old(2,3)] exOld_runtime exOld_fields exNew_fields [of HoWait False]
  show ?thesis using old(1)
    by (simp add: phaseOf_def exState_def exRequest_def systemEnvelope_def handedState_def exHanded_def exSpec_def) blast
qed

theorem handoff_unconfirmed_start_witness:
  "\<exists>sm'. runJob 0 True (exNew HoWait True) = Some sm' \<and> startedWith ''a'' exSpec NilAny (sgRuntime sm')"
  using handoff_unconfirmed_start [where i = 0 and sm = "exNew HoWait True" and a = "''a''" and s = "exState phaseActivating" and t = 1 and ctxDone = True
      and stage = HoWait and prev = "''m''"] exNew_fields [of HoWait True]
  by (auto simp: exState_def exSpec_def)

lemma exLeader: "computeLeader (singletonScope ''a'') [''m'', ''b''] = ''b''"
proof (rule computeLeader_unique)
  have h: "nodeHash (singletonScope ''a'') ''m'' = 468702458676961073" "nodeHash (singletonScope ''a'') ''b'' = 468694762095563596"
    by (simp_all add: nodeHash_eq singletonScope_def, simp_all add: hash_eval)
  show "noTies (singletonScope ''a'') (set [''m'', ''b''])" using exHashes_singleton by (auto simp: noTies_def)
  show "\<forall>m\<in>set [''m'', ''b'']. nodeHash (singletonScope ''a'') ''b'' \<le> nodeHash (singletonScope ''a'') m" by (simp add: h)
qed simp

theorem handoff_gives_up_silently_witness:
  "\<exists>sm'. runJob 0 True (exNew HoPause True) = Some sm' \<and> activating ''a'' (exState phaseActivating) 1 ((reconcile ^^ 5) sm')"
proof -
  let ?sm = "exNew HoPause True" and ?e = "sgElection (exManager ''b'' ''m'' phaseActivating emptyRuntime)"
  have m: "elMembers ?e = [''m'', ''b'']" "elLocalID ?e = ''b''" by (simp_all add: exManager_fields)
  have i0: "smInv (exManager ''b'' ''m'' phaseActivating emptyRuntime)" by (rule exManager_inv [OF emptyRuntime_regInv])
  have "elInv (Watch (singletonScope ''a'') ?e)" using i0 elInv_step [of ?e "ElWatch (singletonScope ''a'')"] by (simp add: smInv_def)
  with i0 have i: "smInv ?sm" by (simp add: exNew_def smInv_def Let_def)
  have "elMembers (Watch (singletonScope ''a'') ?e) = [''m'', ''b'']" "elLocalID (Watch (singletonScope ''a'') ?e) = ''b''"
    using m by (simp_all add: Watch_def ensureScopeLocked_def Let_def split: option.split)
  moreover have "computeLeader (singletonScope ''a'') [''m'', ''b''] = ''b''" by (rule exLeader)
  ultimately have l: "leads ''a'' (exState phaseActivating) ?sm" by (simp add: leads_def exNew_def exState_def exSpec_def Let_def)
  obtain es where "map_of (elScopes (sgElection ?sm)) (singletonScope ''a'') = Some es" "esTerm es = 1"
    using exNew_fields(2) [of HoPause True] by (auto simp: Term_def split: option.splits)
  from handoff_gives_up_silently [OF i _ _ _ _ exNew_fields(1) l this, of 0 "hd (sgJobs ?sm)" "''m''"] exNew_fields(7) [of HoPause True]
  show ?thesis by auto
qed

end
