(* ===== verification/Spec2Isabelle.thy ===== *)
theory Spec2Isabelle
  imports ActorProps CronProps ClusterRouter DaemonSet Election Providers PubSubAdapters Remote
    SingletonHandoff
begin

text \<open>
  A model of westcoast, an actor runtime in Go with supervision, publish/subscribe, asks and
  clustering (the repository's \<open>src/actor\<close>, \<open>src/actor/cluster\<close> and the membership providers of
  \<open>pkg\<close>).

  \<^bold>\<open>The program and its parts.\<close> A runtime (\<open>runtime.go\<close>) owns actors. Each actor has a mailbox
  (\<open>mailbox.go\<close>), a handler, a state cell and a goroutine that takes messages in batches, calls
  the handler and, when it fails, asks a supervision policy (\<open>supervisor.go\<close>) whether to restart,
  stop or escalate. Messages are sent by actor ID, by name (\<open>registry.go\<close>) or by PID
  (\<open>pid.go\<close>, \<open>pid_resolver.go\<close>); a PID carries a generation that a restart bumps. Routers
  (\<open>runtime.go\<close>) spread messages over workers, type routing (\<open>routing.go\<close>) picks handlers by
  payload type, monitors (\<open>monitors.go\<close>) report the end of actors, a broker actor
  (\<open>pubsub_*.go\<close>) delivers publications through a trie of topic patterns, asks pair a request with
  one reply, a cron actor (\<open>cron_*.go\<close>) sends ticks on schedules, and a journal (\<open>outcome.go\<close>,
  \<open>dead_letters.go\<close>) records what happened. On top, a
  node of a cluster (\<open>cluster.go\<close>) keeps connections to the peers a topology
  (\<open>topology_full.go\<close>, \<open>topology_ring.go\<close>) asks for, sends envelopes directly or over next hops
  (\<open>remote_send.go\<close>), dispatches or forwards what arrives (\<open>inbound_handler.go\<close>) and elects leaders
  by hashing (\<open>election_ring.go\<close>). Providers (\<open>provider_fixed.go\<close>, \<open>pkg/providerutil\<close>,
  \<open>pkg/multicastprovider\<close>) tell it who the members are. Over the cluster there are a replicated name
  registry (\<open>registry_crdt.go\<close>), service groups (\<open>cluster_router.go\<close>), singletons that run on one node
  and move by a handoff (\<open>singleton.go\<close>), daemons that run on every matching node
  (\<open>daemonset*.go\<close>), gossip (\<open>gossip.go\<close>, \<open>metadata_gossip.go\<close>) and the adapters that carry
  publications to other nodes (\<open>pubsub_adapter*.go\<close>).

  \<^bold>\<open>Conventions.\<close> A Go struct is a record whose fields carry a prefix of their own, a string
  enumeration a datatype with its \<open>str\<close> function, \<open>uint64\<close> the type \<open>u64\<close> of 64-bit words, \<open>int\<close> an
  integer, \<open>any\<close> a closed datatype of the payloads the program itself uses together with user
  values. A Go map that is iterated is an association list (\<open>gomap\<close>), any other map a HOL map. An
  error is a value of a sum or option type. Timestamps, metrics and logging are dropped. What a
  method does under its lock is one function. Goroutines and waits are cut into steps that may be
  interleaved with any others: those of the mailbox, the singleton manager, the providers and the
  cluster's dials where they give up a lock or wait. The steps of the runtime (\<open>rt_step\<close>) are
  coarser: an exported call is one step up to its return or its wait, although it takes several
  locks in turn, and so is an iteration of an actor's inner loop with its handler and supervision.

  \<^bold>\<open>Theories.\<close>
  \<^item> \<open>Prelude\<close>: generic facts on lists, maps and association lists, the development's types.
  \<^item> \<open>Types\<close>: the data of \<open>types.go\<close>, \<open>events.go\<close>, \<open>state.go\<close>, the command types of the brokers.
  \<^item> \<open>Mailbox\<close>: \<open>mailbox.go\<close>. The locale \<open>bounded_fifo\<close> is the contract the runtime relies
    on; enqueue, dequeue, batch dequeue and close refine a bounded queue, and a waiting consumer
    is never left asleep with messages queued.
  \<^item> \<open>Pid\<close>: \<open>pid.go\<close>, \<open>pid_resolver.go\<close> and \<open>cluster/remote_resolver.go\<close> behind one locale of
    resolvers, interpreted for both.
  \<^item> \<open>NameRegistry\<close>, \<open>TypeRouting\<close>, \<open>Outcomes\<close>, \<open>Supervisor\<close>, \<open>Monitors\<close>: the tables of the
    runtime, each with its refinement to a plain map, list or history.
  \<^item> \<open>PubSub\<close>, \<open>Broker\<close>: patterns, the trie with its equivalence to direct pattern matching, and
    the broker actor.
  \<^item> \<open>CronTable\<close>, \<open>Cron\<close>, \<open>CronProps\<close>: the tables of the cron actor and the goroutines of its
    subscriptions; the handler and the runtime's cron calls; the refinement to a plain list of
    subscriptions for a service that took over no other one's state, what a handoff keeps of them
    whatever the order of the map, ticks after a stop.
  \<^item> \<open>RuntimeState\<close>, \<open>RuntimeSend\<close>, \<open>RuntimeActor\<close>: the runtime record and its operations: sends,
    asks, routers, delivery by PID, names; the actor goroutine, supervision, stopping, timers.
  \<^item> \<open>SendRel\<close>, \<open>RuntimeInv\<close>, \<open>RuntimeSteps\<close>: what a send may change, the invariant of the
    runtime and the relation \<open>rt_step\<close> of all steps, with reachability.
  \<^item> \<open>SendProps\<close>, \<open>AskProps\<close>, \<open>ActorProps\<close>: the properties of sending, asking and of the life of
    actors.
  \<^item> \<open>Hashing\<close>, \<open>ClusterNode\<close>, \<open>Election\<close>: FNV-1a and ranking by hash; node metadata, membership
    events, matchers and the restart policy (\<open>node.go\<close>, \<open>provider.go\<close>, \<open>matcher.go\<close>,
    \<open>placement.go\<close>); the election with scopes, terms and watcher channels of capacity four.
  \<^item> \<open>Topology\<close>, \<open>RingTopology\<close>: the locale of topologies and its two interpretations, full mesh
    and hash ring: routing in logarithmically many hops over kept connections, key ownership.
  \<^item> \<open>ClusterCore\<close>, \<open>Remote\<close>: the node's connections and their reconciliation with the
    membership; envelopes, dispatching and forwarding; the journey of an envelope through a
    network of nodes, proved once in the locale of topologies, and remote asks.
  \<^item> \<open>Providers\<close>: the three providers behind the locale \<open>membership_provider\<close>; a cluster that has
    consumed its events knows exactly the provider's members, a silent member is reported at the
    threshold, and when a provider panics.
  \<^item> \<open>DistRegistry\<close>, \<open>ClusterRouter\<close>: the distributed registry refines a map of names; service
    groups refine a set of workers, the strategies pick members, equal keys pick equal workers.
  \<^item> \<open>Singleton\<close>, \<open>SingletonProps\<close>, \<open>SingletonHandoff\<close>: the singleton manager; placement that is
    sticky, has one starter and survives failures, all for singletons without a placement predicate
    where the property says so; the handoff between two nodes and its gaps.
  \<^item> \<open>DaemonSet\<close>: after reconciliation the daemons whose placement the node matches are the ones
    that run; whom a broadcast reaches; a stopped daemon that cannot start again.
  \<^item> \<open>Gossip\<close>, \<open>PubSubAdapters\<close>: the random choice of peers, the way of metadata and publications
    from one node to another, the routes on the replica of a CRDT adapter with arbitrary arrivals
    from other replicas, the bounded buffer of the gossip adapter.

  \<^bold>\<open>Parameters.\<close> What is not in the repository is an argument of the definitions: handlers,
  lifecycle hooks and supervision policies; the random source of routers; the answers of the
  transport (\<open>Dial\<close>, \<open>Send\<close>), which may differ from call to call; the answers of probes and of
  discovery; codecs, of which a property may ask that they decode what they encoded; the random
  source of gossip; the cron parser, as the function from a time to the next one; the replicated
  maps \<open>ORMap\<close> and \<open>DeltaMap\<close>, records of the operations the code calls, of which a property asks
  that an update shows in later reads of the same replica. \<open>sort.Slice\<close> leaves the order of equal keys open:
  properties that depend on the order ask for distinct hashes.

  \<^bold>\<open>Bounds and fuel.\<close> Routers may name routers, so a send may recurse; \<open>rtStack\<close> bounds the
  nesting and \<open>None\<close> stands for the overflow of the Go stack. A property shows that a send ends
  when the router graph has no cycle and the bound exceeds its depth, and another that a router
  that lists itself never returns. Hop-by-hop forwarding has no bound in the code; \<open>hopPath\<close> and
  \<open>relay\<close> carry one, and the properties show that \<open>log2 n + 2\<close> hops are enough. All other loops are
  structural recursion or have a termination proof.

  \<^bold>\<open>Not modelled.\<close> Network, TLS and file I/O: \<open>grpctransport\<close> with its generated code, the join
  handshake of \<open>join.go\<close>, \<open>auth.go\<close>, \<open>auth_cert.go\<close>, \<open>provider_secure.go\<close>, the cloud providers' calls
  of their SDKs and the certificate manager under \<open>pkg\<close>; metrics, which nothing reads; the test
  node. The following files contain logic that is not in the model: \<open>supervision_cluster.go\<close>,
  \<open>drain.go\<close>, the registration of the cron singleton in \<open>cron_singleton.go\<close>, and what \<open>start.go\<close>
  wires together besides the membership callback.
\<close>

end
